(* ===== verification/Prelude.thy ===== *)
theory Prelude
  imports Main "HOL-Library.Word" "HOL-Library.Monad_Syntax" "HOL-Library.State_Monad"
begin

text \<open>
  What every component shares: bytes and \<^verbatim>\<open>std::string\<close> values, the state monad in which the
  effectful code is written (a C++ statement sequence is a \<open>do\<close> block, an early \<^verbatim>\<open>return\<close> is the
  branch of an \<open>if\<close> or \<open>case\<close> that stops), the effectful conjunction and disjunction that stand
  for \<^verbatim>\<open>&&\<close> and \<^verbatim>\<open>||\<close> over calls with effects, the weakest-precondition predicate with its
  structural rules, and a few lemmas on lists.
\<close>

section \<open>Collections\<close>

named_theorems wp_intro \<open>weakest-precondition rules, one for each operation\<close>
named_theorems reads_intro \<open>operations that only read the file system\<close>
named_theorems fs_simps \<open>what a file-system update leaves visible\<close>

section \<open>Bytes and strings\<close>

type_synonym byte = "8 word"

definition bytes_of :: "string \<Rightarrow> byte list" where
  "bytes_of s = map (\<lambda>c. of_nat (of_char c)) s"

definition string_of :: "byte list \<Rightarrow> string" where
  "string_of bs = map (\<lambda>b. char_of (unat b)) bs"

lemma length_bytes_of [simp]: "length (bytes_of s) = length s"
  by (simp add: bytes_of_def)

lemma length_string_of [simp]: "length (string_of bs) = length bs"
  by (simp add: string_of_def)

lemma of_char_less_256: "(of_char c :: nat) < 256"
  using range_nat_of_char by auto

lemma unat_of_char [simp]: "unat (of_nat (of_char c) :: byte) = of_char c"
  by (simp add: unat_of_nat of_char_less_256)

lemma string_of_bytes_of [simp]: "string_of (bytes_of s) = s"
  by (induction s) (auto simp: string_of_def bytes_of_def)

lemma of_char_char_of_byte [simp]: "(of_char (char_of (unat (b :: byte))) :: nat) = unat b"
proof -
  have "unat b < 256" using unsigned_less [of b, where ?'a = nat] by simp
  then show ?thesis by (simp add: of_char_of)
qed

lemma bytes_of_string_of [simp]: "bytes_of (string_of bs) = bs"
proof -
  have "of_nat (of_char (char_of (unat b) :: char)) = b" for b :: byte
    by (subst of_char_char_of_byte) simp
  then show ?thesis by (induction bs) (simp_all only: bytes_of_def string_of_def list.map)
qed

text \<open>A C string read through a \<^verbatim>\<open>const char*\<close> ends at the first NUL.\<close>

definition c_str :: "string \<Rightarrow> string" where
  "c_str s = takeWhile (\<lambda>c. c \<noteq> CHR 0x00) s"

lemma c_str_no_nul: "CHR 0x00 \<notin> set (c_str s)"
  by (auto simp: c_str_def dest: set_takeWhileD)

lemma c_str_id: "CHR 0x00 \<notin> set s \<Longrightarrow> c_str s = s"
  by (auto simp: c_str_def takeWhile_eq_all_conv)

text \<open>\<^verbatim>\<open>std::to_string\<close> of an unsigned integer.\<close>

fun decimal :: "nat \<Rightarrow> string" where
  "decimal n = (if n < 10 then [char_of (48 + n)]
                else decimal (n div 10) @ [char_of (48 + n mod 10)])"

declare decimal.simps [simp del]

definition digit_value :: "char \<Rightarrow> nat" where
  "digit_value c = of_char c - 48"

definition undecimal :: "string \<Rightarrow> nat" where
  "undecimal s = foldl (\<lambda>a c. a * 10 + digit_value c) 0 s"

lemma of_char_digit: "n < 10 \<Longrightarrow> (of_char (char_of (48 + n) :: char) :: nat) = 48 + n"
  by (simp add: of_char_of)

lemma undecimal_decimal [simp]: "undecimal (decimal n) = n"
proof (induction n rule: decimal.induct)
  case (1 n)
  show ?case
  proof (cases "n < 10")
    case True
    then show ?thesis
      by (simp add: decimal.simps [of n] undecimal_def digit_value_def of_char_digit)
  next
    case False
    then have "undecimal (decimal n) = undecimal (decimal (n div 10)) * 10 + n mod 10"
      by (simp add: decimal.simps [of n] undecimal_def digit_value_def of_char_digit)
    with False 1 show ?thesis by simp
  qed
qed

lemma decimal_inject [simp]: "decimal m = decimal n \<longleftrightarrow> m = n"
  by (metis undecimal_decimal)

lemma decimal_digits: "c \<in> set (decimal n) \<Longrightarrow> 48 \<le> (of_char c :: nat) \<and> (of_char c :: nat) < 58"
proof (induction n rule: decimal.induct)
  case (1 n)
  then show ?case
    by (cases "n < 10") (auto simp: decimal.simps [of n] of_char_of)
qed

lemma decimal_no_colon: "CHR '':'' \<notin> set (decimal n)"
  using decimal_digits [of "CHR '':''" n] by auto

lemma append_sep_inject:
  "x \<notin> set as \<Longrightarrow> x \<notin> set bs \<Longrightarrow> as @ x # cs = bs @ x # ds \<longleftrightarrow> as = bs \<and> cs = ds"
proof (induction as arbitrary: bs)
  case Nil
  then show ?case by (cases bs) auto
next
  case (Cons a as)
  then show ?case by (cases bs) auto
qed

section \<open>Programs with effects\<close>

text \<open>\<open>m && n\<close>: the second call is made only when the first returns true. \<open>m || n\<close> likewise.\<close>

abbreviation ret :: "'a \<Rightarrow> ('w, 'a) state" where
  "ret \<equiv> State_Monad.return"

definition andM :: "('w, bool) state \<Rightarrow> ('w, bool) state \<Rightarrow> ('w, bool) state" where
  "andM m n = do { b \<leftarrow> m; if b then n else ret False }"

definition orM :: "('w, bool) state \<Rightarrow> ('w, bool) state \<Rightarrow> ('w, bool) state" where
  "orM m n = do { b \<leftarrow> m; if b then ret True else n }"

definition notM :: "('w, bool) state \<Rightarrow> ('w, bool) state" where
  "notM m = do { b \<leftarrow> m; ret (\<not> b) }"

definition wp :: "('w, 'a) state \<Rightarrow> ('a \<Rightarrow> 'w \<Rightarrow> bool) \<Rightarrow> 'w \<Rightarrow> bool" where
  "wp m Q w \<longleftrightarrow> (case run_state m w of (a, w') \<Rightarrow> Q a w')"

lemma wp_return [simp]: "wp (ret a) Q = Q a"
  by (simp add: wp_def fun_eq_iff)

lemma wp_bind [simp]: "wp (m \<bind> f) Q = wp m (\<lambda>a. wp (f a) Q)"
  by (simp add: wp_def fun_eq_iff split: prod.splits)

lemma wp_if [simp]: "wp (if b then m else n) Q = (if b then wp m Q else wp n Q)"
  by simp

lemma wp_andM [simp]: "wp (andM m n) Q = wp m (\<lambda>b. if b then wp n Q else Q False)"
  by (simp add: andM_def cong: if_cong)

lemma wp_orM [simp]: "wp (orM m n) Q = wp m (\<lambda>b. if b then Q True else wp n Q)"
  by (simp add: orM_def cong: if_cong)

lemma wp_notM [simp]: "wp (notM m) Q = wp m (\<lambda>b. Q (\<not> b))"
  by (simp add: notM_def)

lemma wp_mono: "wp m P w \<Longrightarrow> (\<And>a w'. P a w' \<Longrightarrow> Q a w') \<Longrightarrow> wp m Q w"
  by (auto simp: wp_def split: prod.splits)

lemma wp_conj: "wp m P w \<Longrightarrow> wp m Q w \<Longrightarrow> wp m (\<lambda>a w'. P a w' \<and> Q a w') w"
  by (auto simp: wp_def split: prod.splits)

lemma wpD: "wp m Q w \<Longrightarrow> run_state m w = (a, w') \<Longrightarrow> Q a w'"
  by (simp add: wp_def)

lemma wpI: "(\<And>a w'. run_state m w = (a, w') \<Longrightarrow> Q a w') \<Longrightarrow> wp m Q w"
  by (simp add: wp_def split: prod.splits)

text \<open>After a call of which nothing is known, and for each way a result can be.\<close>

lemma wp_any: "(\<And>r w'. wp (k r) Q w') \<Longrightarrow> wp (m \<bind> k) Q w"
  by (simp add: wp_def split: prod.split)

lemma wp_sum: "(\<And>e. r = Inl e \<Longrightarrow> wp (k e) Q w) \<Longrightarrow> (\<And>x. r = Inr x \<Longrightarrow> wp (l x) Q w) \<Longrightarrow> wp (case r of Inl e \<Rightarrow> k e | Inr x \<Rightarrow> l x) Q w"
  by (cases r) simp_all

lemma wp_option: "(r = None \<Longrightarrow> wp k Q w) \<Longrightarrow> (\<And>x. r = Some x \<Longrightarrow> wp (l x) Q w) \<Longrightarrow> wp (case r of None \<Rightarrow> k | Some x \<Rightarrow> l x) Q w"
  by (cases r) simp_all

lemma wp_branch: "(c \<Longrightarrow> wp m Q w) \<Longrightarrow> (\<not> c \<Longrightarrow> wp n Q w) \<Longrightarrow> wp (if c then m else n) Q w"
  by simp

section \<open>Lists\<close>

text \<open>\<^verbatim>\<open>std::string::find(c)\<close> on a string that may hold no \<open>c\<close>: what is before and after it.\<close>

fun split_at :: "'a \<Rightarrow> 'a list \<Rightarrow> 'a list \<times> 'a list option" where
  "split_at x [] = ([], None)"
| "split_at x (y # ys) =
     (if x = y then ([], Some ys)
      else case split_at x ys of (p, r) \<Rightarrow> (y # p, r))"

lemma split_at_parts:
  "split_at x ys = (p, r) \<Longrightarrow>
     x \<notin> set p \<and> ys = p @ (case r of None \<Rightarrow> [] | Some q \<Rightarrow> x # q)"
  by (induction ys arbitrary: p r) (auto split: if_splits prod.splits)

lemma split_at_shorter: "split_at x ys = (p, Some q) \<Longrightarrow> length q < length ys"
  by (drule split_at_parts) simp

lemma split_at_absent: "x \<notin> set ys \<Longrightarrow> split_at x ys = (ys, None)"
  by (induction ys) auto

lemma split_at_append: "x \<notin> set p \<Longrightarrow> split_at x (p @ x # q) = (p, Some q)"
  by (induction p) auto

end
