(* ===== verification/State_Codec.thy ===== *)
theory State_Codec
  imports Prelude
begin

text \<open>
  The byte format of an operation's state record, \<^verbatim>\<open>linux/runner/session_workspace_state.cc\<close>: the
  little-endian integers and length-prefixed strings, the record encoder of
  \<^verbatim>\<open>SaveOperationState\<close> and the decoder of \<^verbatim>\<open>LoadOperationState\<close>. Readers take the position
  \<open>at\<close> they read from and return the value with the position after it. The locale \<open>codec\<close> states
  what a writer and its reader owe each other; sequences of fields are proved once inside it.
\<close>

unbundle bit_operations_syntax

section \<open>Data\<close>

datatype OperationPhase =
  ph_prepared | ph_targetQuarantining | ph_targetQuarantined | ph_stageInstalling
  | ph_committed | ph_rolledBack

record OperationState =
  os_token :: string
  os_root_identity :: string
  os_session_identity :: string
  os_session_key :: string
  os_operation :: string
  os_path :: string
  os_destination :: string
  os_expected_identity :: string
  os_expected_hash :: string
  os_stage_identity :: string
  os_stage_hash :: string
  os_backup_identity :: string
  os_backup_hash :: string
  os_has_destination :: bool
  os_expect_missing :: bool
  os_target_directory :: bool
  os_result_size :: "64 word"
  os_phase :: OperationPhase

definition kMagic :: "32 word" where "kMagic = 0x3253574d"
definition kVersion :: "32 word" where "kVersion = 1"
definition kMaxStateBytes :: nat where "kMaxStateBytes = 64 * 1024"
definition kMaxStringBytes :: nat where "kMaxStringBytes = 4096"

fun phase_code :: "OperationPhase \<Rightarrow> 32 word" where
  "phase_code ph_prepared = 1"
| "phase_code ph_targetQuarantining = 2"
| "phase_code ph_targetQuarantined = 3"
| "phase_code ph_stageInstalling = 4"
| "phase_code ph_committed = 5"
| "phase_code ph_rolledBack = 6"

section \<open>Integers and strings\<close>

definition Append32 :: "byte list \<Rightarrow> 32 word \<Rightarrow> byte list" where
  "Append32 out v = out @ map (\<lambda>i. ucast (drop_bit (i * 8) v AND 0xff)) [0..<4]"

definition Append64 :: "byte list \<Rightarrow> 64 word \<Rightarrow> byte list" where
  "Append64 out v = out @ map (\<lambda>i. ucast (drop_bit (i * 8) v AND 0xff)) [0..<8]"

definition AppendString :: "byte list \<Rightarrow> string \<Rightarrow> byte list" where
  "AppendString out s = Append32 out (of_nat (length s)) @ bytes_of s"

definition Read32 :: "byte list \<Rightarrow> nat \<Rightarrow> (32 word \<times> nat) option" where
  "Read32 bs at =
     (if at + 4 > length bs then None
      else Some (foldl (\<lambda>v i. v OR push_bit (i * 8) (ucast (bs ! (at + i)))) 0 [0..<4], at + 4))"

definition Read64 :: "byte list \<Rightarrow> nat \<Rightarrow> (64 word \<times> nat) option" where
  "Read64 bs at =
     (if at + 8 > length bs then None
      else Some (foldl (\<lambda>v i. v OR push_bit (i * 8) (ucast (bs ! (at + i)))) 0 [0..<8], at + 8))"

definition ReadString :: "byte list \<Rightarrow> nat \<Rightarrow> (string \<times> nat) option" where
  "ReadString bs at =
     (case Read32 bs at of
        None \<Rightarrow> None
      | Some (n, at') \<Rightarrow>
          if unat n > kMaxStringBytes \<or> at' + unat n > length bs then None
          else Some (string_of (take (unat n) (drop at' bs)), at' + unat n))"

section \<open>What a writer and its reader owe each other\<close>

locale codec =
  fixes put :: "'a \<Rightarrow> byte list"
    and get :: "byte list \<Rightarrow> nat \<Rightarrow> ('a \<times> nat) option"
    and ok :: "'a \<Rightarrow> bool"
  assumes get_put: "ok x \<Longrightarrow> get (pre @ put x @ post) (length pre) = Some (x, length pre + length (put x))"
    and put_get: "get bs at = Some (x, at') \<Longrightarrow>
          ok x \<and> at' = at + length (put x) \<and> at' \<le> length bs \<and> take (length (put x)) (drop at bs) = put x"
begin

fun put_all :: "'a list \<Rightarrow> byte list" where
  "put_all [] = []"
| "put_all (x # xs) = put x @ put_all xs"

fun get_all :: "nat \<Rightarrow> byte list \<Rightarrow> nat \<Rightarrow> ('a list \<times> nat) option" where
  "get_all 0 bs at = Some ([], at)"
| "get_all (Suc k) bs at =
     (case get bs at of None \<Rightarrow> None
      | Some (x, at') \<Rightarrow> (case get_all k bs at' of None \<Rightarrow> None
                         | Some (xs, at'') \<Rightarrow> Some (x # xs, at'')))"

lemma get_put_here: "ok x \<Longrightarrow> at = length pre \<Longrightarrow> bs = pre @ put x @ post \<Longrightarrow>
    get bs at = Some (x, at + length (put x))"
  using get_put by simp

lemma get_all_put_all:
  "\<forall>x \<in> set xs. ok x \<Longrightarrow>
     get_all (length xs) (pre @ put_all xs @ post) (length pre)
       = Some (xs, length pre + length (put_all xs))"
proof (induction xs arbitrary: pre)
  case (Cons x xs)
  have "get (pre @ put x @ (put_all xs @ post)) (length pre) = Some (x, length (pre @ put x))"
    using Cons.prems get_put [of x pre "put_all xs @ post"] by simp
  moreover have "get_all (length xs) ((pre @ put x) @ put_all xs @ post) (length (pre @ put x))
      = Some (xs, length (pre @ put x) + length (put_all xs))"
    by (rule Cons.IH) (use Cons.prems in auto)
  ultimately show ?case by simp
qed simp

lemma put_all_get_all:
  "get_all k bs at = Some (xs, at') \<Longrightarrow>
     (\<forall>x \<in> set xs. ok x) \<and> length xs = k \<and> at' = at + length (put_all xs) \<and>
     (at \<le> length bs \<longrightarrow> at' \<le> length bs) \<and> take (length (put_all xs)) (drop at bs) = put_all xs"
proof (induction k arbitrary: at xs)
  case (Suc k)
  then obtain x at1 ys where x: "get bs at = Some (x, at1)" and ys: "get_all k bs at1 = Some (ys, at')"
      and xs: "xs = x # ys"
    by (auto split: option.splits)
  have "take (length (put x) + length (put_all ys)) (drop at bs) = put x @ put_all ys"
    using put_get [OF x] Suc.IH [OF ys] by (simp add: take_add add.commute)
  then show ?case using put_get [OF x] Suc.IH [OF ys] xs by auto
qed auto

lemma put_prefix_free:
  assumes "ok x" "ok y" "put x @ r = put y @ s"
  shows "x = y \<and> r = s"
proof -
  have "get (put x @ r) 0 = Some (x, length (put x))" using get_put [of x "[]" r] assms by simp
  moreover have "get (put y @ s) 0 = Some (y, length (put y))" using get_put [of y "[]" s] assms by simp
  ultimately show ?thesis using assms(3) by simp
qed

end

section \<open>The readers invert the writers\<close>

lemma Append32_app: "Append32 out v = out @ Append32 [] v"
  by (simp add: Append32_def)

lemma Append64_app: "Append64 out v = out @ Append64 [] v"
  by (simp add: Append64_def)

lemma AppendString_app: "AppendString out s = out @ AppendString [] s"
  by (simp add: AppendString_def Append32_def)

lemma length_Append32 [simp]: "length (Append32 [] v) = 4"
  by (simp add: Append32_def)

lemma length_Append64 [simp]: "length (Append64 [] v) = 8"
  by (simp add: Append64_def)

lemma length_AppendString [simp]: "length (AppendString [] s) = 4 + length s"
  by (simp add: AppendString_def)

text \<open>Bit \<open>n\<close> of a little-endian integer is bit \<open>n mod 8\<close> of its byte \<open>n div 8\<close>.\<close>

abbreviation split_le :: "nat \<Rightarrow> 'a::len word \<Rightarrow> byte list" where
  "split_le k v \<equiv> map (\<lambda>i. ucast (drop_bit (i * 8) v AND 0xff)) [0..<k]"

abbreviation join_le :: "nat \<Rightarrow> byte list \<Rightarrow> nat \<Rightarrow> 'a::len word" where
  "join_le k bs at \<equiv> foldl (\<lambda>v i. v OR push_bit (i * 8) (ucast (bs ! (at + i)))) 0 [0..<k]"

lemma bit_ff: "bit (0xff :: 'a::len word) n \<longleftrightarrow> n < 8 \<and> n < LENGTH('a)"
proof -
  have "(0xff :: 'a word) = mask 8" by (simp add: mask_eq_exp_minus_1)
  then show ?thesis by (simp only: bit_mask_iff) (auto simp: min_def)
qed

lemma bit_split_le:
  assumes "i < k"
  shows "bit (split_le k v ! i) n \<longleftrightarrow> n < 8 \<and> bit (v :: 'a::len word) (i * 8 + n)"
proof -
  have "split_le k v ! i = ucast (drop_bit (i * 8) v AND 0xff)" using assms by simp
  moreover have "bit (ucast (drop_bit (i * 8) v AND 0xff) :: byte) n \<longleftrightarrow>
      n < 8 \<and> bit (drop_bit (i * 8) v) n \<and> bit (0xff :: 'a word) n"
    by (simp only: bit_unsigned_iff bit_and_iff len_num0 possible_bit_word) auto
  moreover have "bit (drop_bit (i * 8) v) n \<longleftrightarrow> bit v (i * 8 + n)"
    by (simp only: bit_drop_bit_eq comp_def)
  ultimately show ?thesis
    using bit_imp_le_length [of v "i * 8 + n"] by (simp only: bit_ff) linarith
qed

lemma bit_join_le:
  "bit (join_le k bs at :: 'a::len word) n \<longleftrightarrow>
     n < LENGTH('a) \<and> n div 8 < k \<and> bit (bs ! (at + n div 8)) (n mod 8)"
proof (induction k)
  case (Suc k)
  have "bit (push_bit (k * 8) (ucast (bs ! (at + k))) :: 'a word) n \<longleftrightarrow>
      n < LENGTH('a) \<and> n div 8 = k \<and> bit (bs ! (at + n div 8)) (n mod 8)"
  proof (cases "k * 8 \<le> n \<and> n < k * 8 + 8")
    case True
    then have "n div 8 = k" by (auto intro: div_nat_eqI)
    moreover from this have "n - k * 8 = n mod 8" by (simp add: modulo_nat_def)
    moreover note True
    ultimately have "n div 8 = k" "n - k * 8 = n mod 8" "k * 8 \<le> n" by simp_all
    then show ?thesis using True by (auto simp: bit_simps)
  next
    case False
    have "\<not> bit (bs ! (at + k)) (n - k * 8)" if "k * 8 \<le> n"
      using False that bit_imp_le_length [of "bs ! (at + k)" "n - k * 8"] by auto
    moreover have "n div 8 \<noteq> k" using False by auto
    ultimately show ?thesis using False by (auto simp: bit_simps)
  qed
  then show ?case
    using Suc.IH by (auto simp: bit_or_iff less_Suc_eq)
qed simp

lemma join_split_le:
  assumes "LENGTH('a) = 8 * k" "\<And>i. i < k \<Longrightarrow> bs ! (at + i) = split_le k (v :: 'a::len word) ! i"
  shows "join_le k bs at = v"
proof (rule bit_word_eqI)
  fix n assume n: "n < LENGTH('a)"
  then have "n div 8 < k" using assms(1) by auto
  then show "bit (join_le k bs at :: 'a word) n = bit v n"
    using n by (simp only: bit_join_le assms(2) bit_split_le) (simp add: assms(2))
qed

lemma split_join_le:
  assumes "LENGTH('a) = 8 * k" "at + k \<le> length bs"
  shows "split_le k (join_le k bs at :: 'a::len word) = take k (drop at bs)"
proof (rule nth_equalityI)
  fix i assume "i < length (split_le k (join_le k bs at :: 'a word))"
  then have i: "i < k" by simp
  have "split_le k (join_le k bs at :: 'a word) ! i = bs ! (at + i)"
  proof (rule bit_word_eqI)
    fix n :: nat assume "n < LENGTH(8)"
    then have n: "n < 8" by simp
    then have "(i * 8 + n) div 8 = i" "(i * 8 + n) mod 8 = n" "i * 8 + n < LENGTH('a)"
      using i assms(1) by auto
    then show "bit (split_le k (join_le k bs at :: 'a word) ! i) n = bit (bs ! (at + i)) n"
      unfolding bit_split_le [OF i] bit_join_le using n i by simp
  qed
  then show "split_le k (join_le k bs at :: 'a word) ! i = take k (drop at bs) ! i"
    using i assms(2) by simp
qed (use assms in simp)

lemma split_le_app: "pre @ split_le k v @ post = bs \<Longrightarrow> i < k \<Longrightarrow> bs ! (length pre + i) = split_le k v ! i"
  by (auto simp: nth_append)

interpretation u32: codec "Append32 []" Read32 "\<lambda>_. True"
proof
  fix x :: "32 word" and pre post
  have "join_le 4 (pre @ split_le 4 x @ post) (length pre) = x"
    by (rule join_split_le) (simp, erule split_le_app [OF refl])
  then show "Read32 (pre @ Append32 [] x @ post) (length pre) = Some (x, length pre + length (Append32 [] x))"
    by (simp add: Read32_def Append32_def)
next
  fix x :: "32 word" and bs at at'
  assume "Read32 bs at = Some (x, at')"
  then have "at + 4 \<le> length bs" "at' = at + 4" "x = join_le 4 bs at"
    by (auto simp: Read32_def split: if_splits)
  moreover from this have "split_le 4 x = take 4 (drop at bs)"
    using split_join_le [where 'a = 32, of 4 at bs] by simp
  ultimately show "True \<and> at' = at + length (Append32 [] x) \<and> at' \<le> length bs \<and>
      take (length (Append32 [] x)) (drop at bs) = Append32 [] x"
    by (simp add: Append32_def)
qed

interpretation u64: codec "Append64 []" Read64 "\<lambda>_. True"
proof
  fix x :: "64 word" and pre post
  have "join_le 8 (pre @ split_le 8 x @ post) (length pre) = x"
    by (rule join_split_le) (simp, erule split_le_app [OF refl])
  then show "Read64 (pre @ Append64 [] x @ post) (length pre) = Some (x, length pre + length (Append64 [] x))"
    by (simp add: Read64_def Append64_def)
next
  fix x :: "64 word" and bs at at'
  assume "Read64 bs at = Some (x, at')"
  then have "at + 8 \<le> length bs" "at' = at + 8" "x = join_le 8 bs at"
    by (auto simp: Read64_def split: if_splits)
  moreover from this have "split_le 8 x = take 8 (drop at bs)"
    using split_join_le [where 'a = 64, of 8 at bs] by simp
  ultimately show "True \<and> at' = at + length (Append64 [] x) \<and> at' \<le> length bs \<and>
      take (length (Append64 [] x)) (drop at bs) = Append64 [] x"
    by (simp add: Append64_def)
qed

interpretation str: codec "AppendString []" ReadString "\<lambda>s. length s \<le> kMaxStringBytes"
proof
  fix x :: string and pre post
  assume ok: "length x \<le> kMaxStringBytes"
  then have n: "unat (of_nat (length x) :: 32 word) = length x"
    by (simp add: unat_of_nat kMaxStringBytes_def)
  have "Read32 (pre @ AppendString [] x @ post) (length pre) = Some (of_nat (length x), length pre + 4)"
    using u32.get_put [where x = "of_nat (length x)" and pre = pre and post = "bytes_of x @ post"] by (simp add: AppendString_def)
  then show "ReadString (pre @ AppendString [] x @ post) (length pre)
      = Some (x, length pre + length (AppendString [] x))"
    using ok by (simp add: ReadString_def n) (simp add: AppendString_def)
next
  fix x :: string and bs at at'
  assume a: "ReadString bs at = Some (x, at')"
  then obtain n at1 where n: "Read32 bs at = Some (n, at1)"
    by (cases "Read32 bs at") (auto simp: ReadString_def)
  have fits: "\<not> (unat n > kMaxStringBytes \<or> at1 + unat n > length bs)"
    using a unfolding ReadString_def n option.case prod.case by (meson option.distinct(1))
  have r: "Read32 bs at = Some (n, at1)" "unat n \<le> kMaxStringBytes"
      "at1 + unat n \<le> length bs" "x = string_of (take (unat n) (drop at1 bs))" "at' = at1 + unat n"
    using a n fits unfolding ReadString_def n option.case prod.case if_not_P [OF fits] by simp_all
  note h = u32.put_get [OF r(1)]
  have len: "length x = unat n"
    unfolding r(4) length_string_of length_take length_drop using r(3) by linarith
  then have "take (4 + length x) (drop at bs) = Append32 [] n @ take (unat n) (drop at1 bs)"
    using h take_add [of 4 "length x" "drop at bs"] by (simp add: add.commute)
  moreover have "AppendString [] x = Append32 [] n @ take (unat n) (drop at1 bs)"
    unfolding AppendString_def len using r(4) by simp
  ultimately have "take (length (AppendString [] x)) (drop at bs) = AppendString [] x"
    by (metis length_AppendString)
  moreover have "at' = at + length (AppendString [] x)" using r(5) h len by (simp only: length_AppendString length_Append32)
  moreover have "length x \<le> kMaxStringBytes" "at' \<le> length bs" using r len by (simp_all only:)
  ultimately show "length x \<le> kMaxStringBytes \<and> at' = at + length (AppendString [] x) \<and> at' \<le> length bs \<and>
      take (length (AppendString [] x)) (drop at bs) = AppendString [] x"
    by (simp only: simp_thms)
qed

section \<open>The record\<close>

definition state_strings :: "OperationState \<Rightarrow> string list" where
  "state_strings s =
     [os_token s, os_root_identity s, os_session_identity s, os_session_key s, os_operation s,
      os_path s, os_destination s, os_expected_identity s, os_expected_hash s, os_stage_identity s,
      os_stage_hash s, os_backup_identity s, os_backup_hash s]"

definition state_flags :: "OperationState \<Rightarrow> 32 word" where
  "state_flags s = (if os_has_destination s then 1 else 0) OR (if os_expect_missing s then 2 else 0)
                   OR (if os_target_directory s then 4 else 0)"

definition encode_state :: "OperationState \<Rightarrow> byte list option" where
  "encode_state s =
     (let head = Append64 (Append32 (Append32 (Append32 (Append32 [] kMagic) kVersion)
                   (phase_code (os_phase s))) (state_flags s)) (os_result_size s) in
      if \<exists>v \<in> set (state_strings s). length v > kMaxStringBytes then None
      else let bytes = foldl AppendString head (state_strings s) in
        if length bytes > kMaxStateBytes then None else Some bytes)"

definition phase_of :: "32 word \<Rightarrow> OperationPhase option" where
  "phase_of p =
     (if p < 1 \<or> p > 6 then None
      else Some (if p = 1 then ph_prepared else if p = 2 then ph_targetQuarantining
                 else if p = 3 then ph_targetQuarantined else if p = 4 then ph_stageInstalling
                 else if p = 5 then ph_committed else ph_rolledBack))"

fun ReadStrings :: "nat \<Rightarrow> byte list \<Rightarrow> nat \<Rightarrow> (string list \<times> nat) option" where
  "ReadStrings 0 bs at = Some ([], at)"
| "ReadStrings (Suc k) bs at =
     (case ReadString bs at of None \<Rightarrow> None
      | Some (v, at') \<Rightarrow> (case ReadStrings k bs at' of None \<Rightarrow> None
                         | Some (vs, at'') \<Rightarrow> Some (v # vs, at'')))"

definition read_head :: "byte list \<Rightarrow> (OperationPhase \<times> 32 word \<times> 64 word \<times> nat) option" where
  "read_head bs =
     (case Read32 bs 0 of None \<Rightarrow> None | Some (magic, a1) \<Rightarrow>
      if magic \<noteq> kMagic then None else
      case Read32 bs a1 of None \<Rightarrow> None | Some (version, a2) \<Rightarrow>
      if version \<noteq> kVersion then None else
      case Read32 bs a2 of None \<Rightarrow> None | Some (code, a3) \<Rightarrow>
      case phase_of code of None \<Rightarrow> None | Some ph \<Rightarrow>
      case Read32 bs a3 of None \<Rightarrow> None | Some (flags, a4) \<Rightarrow>
      if flags AND NOT 7 \<noteq> 0 then None else
      case Read64 bs a4 of None \<Rightarrow> None | Some (sz, a5) \<Rightarrow> Some (ph, flags, sz, a5))"

text \<open>The decoder, with its last check that no byte is left over.\<close>

definition decode_state :: "byte list \<Rightarrow> OperationState option" where
  "decode_state bs =
     (case read_head bs of None \<Rightarrow> None | Some (ph, flags, sz, a) \<Rightarrow>
      case ReadStrings 13 bs a of
        Some ([t, ri, si, sk, oper, p, d, ei, eh, sti, sth, bi, bh], at) \<Rightarrow>
          if at \<noteq> length bs then None
          else Some \<lparr>os_token = t, os_root_identity = ri, os_session_identity = si,
                     os_session_key = sk, os_operation = oper, os_path = p, os_destination = d,
                     os_expected_identity = ei, os_expected_hash = eh, os_stage_identity = sti,
                     os_stage_hash = sth, os_backup_identity = bi, os_backup_hash = bh,
                     os_has_destination = flags AND 1 \<noteq> 0,
                     os_expect_missing = flags AND 2 \<noteq> 0,
                     os_target_directory = flags AND 4 \<noteq> 0,
                     os_result_size = sz, os_phase = ph\<rparr>
      | _ \<Rightarrow> None)"

section \<open>Decoding inverts encoding, and only encoded states decode\<close>

lemma phase_of_code [simp]: "phase_of (phase_code p) = Some p"
  by (cases p) (simp_all add: phase_of_def)

lemma phase_of_SomeD: "phase_of c = Some p \<Longrightarrow> phase_code p = c"
proof -
  assume a: "phase_of c = Some p"
  then have "1 \<le> unat c \<and> unat c \<le> 6"
    by (auto simp: phase_of_def word_less_nat_alt word_le_nat_alt not_less split: if_splits)
  then have "unat c = 1 \<or> unat c = 2 \<or> unat c = 3 \<or> unat c = 4 \<or> unat c = 5 \<or> unat c = 6" by auto
  then have "c = 1 \<or> c = 2 \<or> c = 3 \<or> c = 4 \<or> c = 5 \<or> c = 6" by (simp add: word_unat_eq_iff)
  with a show ?thesis by (auto simp: phase_of_def)
qed

lemma flags_bits: "f AND NOT 7 = 0 \<Longrightarrow>
   ((if f AND 1 \<noteq> 0 then 1 else 0) OR (if f AND 2 \<noteq> 0 then 2 else 0)
      OR (if f AND 4 \<noteq> 0 then 4 else 0)) = (f :: 32 word)"
proof -
  assume a: "f AND NOT 7 = 0"
  have "f = f AND (7 OR NOT 7)" by (simp only: bit.disj_cancel_right and.right_neutral)
  also have "\<dots> = f AND 7" by (simp only: bit.conj_disj_distrib a or.right_neutral)
  finally have "f = f AND 7" .
  moreover have "f AND 7 \<le> 7" by (rule word_and_le1)
  ultimately have "f \<le> 7" by (rule ssubst)
  then have "unat f < 8" by (simp add: word_le_nat_alt)
  then have "unat f = 0 \<or> unat f = 1 \<or> unat f = 2 \<or> unat f = 3 \<or> unat f = 4 \<or> unat f = 5
      \<or> unat f = 6 \<or> unat f = 7" by auto
  then have "f = 0 \<or> f = 1 \<or> f = 2 \<or> f = 3 \<or> f = 4 \<or> f = 5 \<or> f = 6 \<or> f = 7"
    by (simp add: word_unat_eq_iff)
  then show ?thesis by (elim disjE) simp_all
qed

lemma state_flags_ok:
  "state_flags s AND NOT 7 = 0"
  "(state_flags s AND 1 \<noteq> 0) = os_has_destination s"
  "(state_flags s AND 2 \<noteq> 0) = os_expect_missing s"
  "(state_flags s AND 4 \<noteq> 0) = os_target_directory s"
  by (simp_all add: state_flags_def)

lemma foldl_AppendString: "foldl AppendString out vs = out @ str.put_all vs"
  by (induction vs arbitrary: out) (simp, subst foldl_Cons, subst AppendString_app, simp)

lemma ReadStrings_get_all: "ReadStrings k bs at = str.get_all k bs at"
  by (induction k arbitrary: at) (auto split: option.splits prod.splits)

lemma length_put_all_bound:
  "\<forall>v \<in> set vs. length v \<le> m \<Longrightarrow> length (str.put_all vs) \<le> length vs * (4 + m)"
  by (induction vs) auto

definition state_head :: "OperationState \<Rightarrow> byte list" where
  "state_head s = Append32 [] kMagic @ Append32 [] kVersion @ Append32 [] (phase_code (os_phase s))
     @ Append32 [] (state_flags s) @ Append64 [] (os_result_size s)"

lemma length_state_head [simp]: "length (state_head s) = 24"
  by (simp add: state_head_def)

definition strings_ok :: "OperationState \<Rightarrow> bool" where
  "strings_ok s \<longleftrightarrow> (\<forall>v \<in> set (state_strings s). length v \<le> kMaxStringBytes)"

lemma length_state_strings [simp]: "length (state_strings s) = 13"
  by (simp add: state_strings_def)

text \<open>The test against \<^verbatim>\<open>kMaxStateBytes\<close> never fires: thirteen strings of the largest size fit.\<close>

lemma state_bytes_fit:
  assumes "strings_ok s"
  shows "length (state_head s @ str.put_all (state_strings s)) \<le> kMaxStateBytes"
  using length_put_all_bound [OF assms [unfolded strings_ok_def]]
  by (simp add: kMaxStateBytes_def kMaxStringBytes_def)

lemma encode_state_eq:
  "encode_state s = (if strings_ok s then Some (state_head s @ str.put_all (state_strings s)) else None)"
proof -
  have head: "Append64 (Append32 (Append32 (Append32 (Append32 [] kMagic) kVersion)
      (phase_code (os_phase s))) (state_flags s)) (os_result_size s) = state_head s"
    unfolding state_head_def
    by (subst Append64_app, subst (4) Append32_app, subst (3) Append32_app, subst (2) Append32_app) simp
  show ?thesis
    unfolding encode_state_def Let_def head foldl_AppendString
    using state_bytes_fit [of s] by (cases "strings_ok s") (auto simp: strings_ok_def not_less not_le)
qed

lemma read_head_state_head:
  "read_head (state_head s @ rest) = Some (os_phase s, state_flags s, os_result_size s, 24)"
proof -
  let ?m = "Append32 [] kMagic" and ?v = "Append32 [] kVersion" and ?p = "Append32 [] (phase_code (os_phase s))"
    and ?f = "Append32 [] (state_flags s)" and ?z = "Append64 [] (os_result_size s)"
  have e: "state_head s @ rest = ?m @ ?v @ ?p @ ?f @ ?z @ rest" by (simp add: state_head_def)
  have "Read32 (state_head s @ rest) 0 = Some (kMagic, 4)"
    using u32.get_put_here [where pre = "[]" and x = kMagic and post = "?v @ ?p @ ?f @ ?z @ rest"]
    by (simp add: e)
  moreover have "Read32 (state_head s @ rest) 4 = Some (kVersion, 8)"
    using u32.get_put_here [where pre = ?m and x = kVersion and post = "?p @ ?f @ ?z @ rest"]
    by (simp add: e)
  moreover have "Read32 (state_head s @ rest) 8 = Some (phase_code (os_phase s), 12)"
    using u32.get_put_here [where pre = "?m @ ?v" and x = "phase_code (os_phase s)" and post = "?f @ ?z @ rest"]
    by (simp add: e)
  moreover have "Read32 (state_head s @ rest) 12 = Some (state_flags s, 16)"
    using u32.get_put_here [where pre = "?m @ ?v @ ?p" and x = "state_flags s" and post = "?z @ rest"]
    by (simp add: e)
  moreover have "Read64 (state_head s @ rest) 16 = Some (os_result_size s, 24)"
    using u64.get_put_here [where pre = "?m @ ?v @ ?p @ ?f" and x = "os_result_size s" and post = rest]
    by (simp add: e)
  ultimately show ?thesis by (simp add: read_head_def state_flags_ok state_flags_ok(1) [simplified])
qed

lemma read_head_SomeD:
  assumes "read_head bs = Some (ph, fl, sz, a)"
  shows "a = 24 \<and> 24 \<le> length bs \<and> fl AND NOT 7 = 0 \<and> take 24 bs =
    Append32 [] kMagic @ Append32 [] kVersion @ Append32 [] (phase_code ph) @ Append32 [] fl
      @ Append64 [] sz"
proof -
  from assms obtain a1 a2 c a3 a4 where
      r: "Read32 bs 0 = Some (kMagic, a1)" "Read32 bs a1 = Some (kVersion, a2)"
        "Read32 bs a2 = Some (c, a3)" "phase_of c = Some ph" "Read32 bs a3 = Some (fl, a4)"
        "Read64 bs a4 = Some (sz, a)" and fl: "fl AND NOT 7 = 0"
    by (auto simp: read_head_def split: option.splits if_splits)
  note h = u32.put_get [OF r(1)] u32.put_get [OF r(2)] u32.put_get [OF r(3)] u32.put_get [OF r(5)]
    u64.put_get [OF r(6)]
  have at: "a1 = 4" "a2 = 8" "a3 = 12" "a4 = 16" "a = 24" "24 \<le> length bs" using h by auto
  have "take 24 bs = take 4 bs @ take 4 (drop 4 bs) @ take 4 (drop 8 bs) @ take 4 (drop 12 bs)
      @ take 8 (drop 16 bs)"
    using take_add [of 4 20 bs] take_add [of 4 16 "drop 4 bs"] take_add [of 4 12 "drop 8 bs"]
      take_add [of 4 8 "drop 12 bs"] by simp
  then show ?thesis using h fl at phase_of_SomeD [OF r(4)] by simp
qed

lemma thirteen: "length vs = 13 \<Longrightarrow> \<exists>t ri si sk oper p d ei eh sti sth bi bh.
    vs = [t, ri, si, sk, oper, p, d, ei, eh, sti, sth, bi, bh]"
  by (simp add: numeral_eq_Suc length_Suc_conv) blast

lemma decode_encode: "encode_state s = Some bs \<Longrightarrow> decode_state bs = Some s"
proof -
  assume e: "encode_state s = Some bs"
  then have ok: "strings_ok s" and bs: "bs = state_head s @ str.put_all (state_strings s)"
    by (auto simp: encode_state_eq split: if_splits)
  have "ReadStrings 13 bs 24 = Some (state_strings s, length bs)"
    using str.get_all_put_all [of "state_strings s" "state_head s" "[]"] ok
    by (simp add: ReadStrings_get_all bs strings_ok_def)
  then show ?thesis
    by (simp add: decode_state_def bs read_head_state_head)
       (simp add: state_strings_def state_flags_ok)
qed

lemma encode_decode: "decode_state bs = Some s \<Longrightarrow> encode_state s = Some bs"
proof -
  assume d: "decode_state bs = Some s"
  then obtain ph fl sz a where h: "read_head bs = Some (ph, fl, sz, a)"
    by (auto simp: decode_state_def split: option.splits)
  note hd = read_head_SomeD [OF h]
  then have a24: "a = 24" by blast
  from d h hd obtain vs where v: "ReadStrings 13 bs 24 = Some (vs, length bs)"
    by (auto simp: decode_state_def split: option.splits list.splits if_splits)
  note vs = str.put_all_get_all [OF v [unfolded ReadStrings_get_all]]
  obtain t ri si sk oper p d' ei eh sti sth bi bh where
      l: "vs = [t, ri, si, sk, oper, p, d', ei, eh, sti, sth, bi, bh]"
    using thirteen [of vs] vs by (elim conjE exE) metis
  have "s = \<lparr>os_token = t, os_root_identity = ri, os_session_identity = si,
                     os_session_key = sk, os_operation = oper, os_path = p, os_destination = d',
                     os_expected_identity = ei, os_expected_hash = eh, os_stage_identity = sti,
                     os_stage_hash = sth, os_backup_identity = bi, os_backup_hash = bh,
                     os_has_destination = fl AND 1 \<noteq> 0,
                     os_expect_missing = fl AND 2 \<noteq> 0,
                     os_target_directory = fl AND 4 \<noteq> 0,
                     os_result_size = sz, os_phase = ph\<rparr>"
    using d unfolding decode_state_def h option.case prod.case a24 v unfolding l list.case
    by (simp only: if_False not_True_eq_False option.inject simp_thms)
  then have s: "state_strings s = vs" "os_phase s = ph" "os_result_size s = sz"
      "os_has_destination s = (fl AND 1 \<noteq> 0)" "os_expect_missing s = (fl AND 2 \<noteq> 0)"
      "os_target_directory s = (fl AND 4 \<noteq> 0)"
    by (simp_all only: l state_strings_def OperationState.select_convs)
  from hd have "fl AND NOT 7 = 0" by blast
  then have "state_flags s = fl" unfolding state_flags_def s by (rule flags_bits)
  moreover from hd have "take 24 bs = Append32 [] kMagic @ Append32 [] kVersion
      @ Append32 [] (phase_code ph) @ Append32 [] fl @ Append64 [] sz" by (elim conjE)
  ultimately have "state_head s = take 24 bs" unfolding state_head_def s by simp
  moreover have "str.put_all vs = drop 24 bs" using vs by (elim conjE) simp
  moreover have "strings_ok s" using vs unfolding strings_ok_def s(1) by (elim conjE)
  ultimately show ?thesis unfolding encode_state_eq s(1) by (simp only: if_True append_take_drop_id)
qed

end
