(* ===== verification/Fl_Args.thy ===== *)
theory Fl_Args
  imports Prelude
begin

text \<open>
  The platform-channel values the Linux handlers receive and send (\<^verbatim>\<open>FlValue\<close>), the replies a
  handler makes (\<^verbatim>\<open>RespondError\<close>, \<^verbatim>\<open>RespondSuccess\<close>), and the argument accessors of
  \<^verbatim>\<open>linux/runner/session_workspace_common.cc\<close>. An accessor that writes an output parameter and
  returns a \<^verbatim>\<open>bool\<close> is an \<open>option\<close> here: \<open>None\<close> is \<^verbatim>\<open>false\<close>.
\<close>

datatype FlValue =
  FlNull
  | FlBool bool
  | FlInt "64 word"
  | FlFloat
  | FlString string
  | FlUint8List "byte list"
  | FlList "FlValue list"
  | FlMap "(FlValue \<times> FlValue) list"

datatype reply = Error string | Success FlValue | NotImplemented

fun RespondError :: "string \<Rightarrow> reply" where
  "RespondError code = Error code"

fun RespondSuccess :: "FlValue option \<Rightarrow> reply" where
  "RespondSuccess None = Success FlNull"
| "RespondSuccess (Some v) = Success v"

fun is_success :: "reply \<Rightarrow> bool" where
  "is_success (Success _) = True"
| "is_success _ = False"

fun Lookup :: "FlValue \<Rightarrow> string \<Rightarrow> FlValue option" where
  "Lookup (FlMap es) k = map_of es (FlString k)"
| "Lookup _ _ = None"

definition StringArg :: "FlValue \<Rightarrow> string \<Rightarrow> string option" where
  "StringArg a k = (case Lookup a k of Some (FlString s) \<Rightarrow> Some (c_str s) | _ \<Rightarrow> None)"

text \<open>The inner option is \<^verbatim>\<open>*p\<close>: whether the argument is present.\<close>

definition NullableStringArg :: "FlValue \<Rightarrow> string \<Rightarrow> string option option" where
  "NullableStringArg a k =
     (case Lookup a k of
        None \<Rightarrow> Some None
      | Some FlNull \<Rightarrow> Some None
      | Some (FlString s) \<Rightarrow> Some (Some (c_str s))
      | Some _ \<Rightarrow> None)"

definition BoolArg :: "FlValue \<Rightarrow> string \<Rightarrow> bool option" where
  "BoolArg a k = (case Lookup a k of Some (FlBool b) \<Rightarrow> Some b | _ \<Rightarrow> None)"

definition IntArg :: "FlValue \<Rightarrow> string \<Rightarrow> 64 word option" where
  "IntArg a k = (case Lookup a k of Some (FlInt i) \<Rightarrow> Some i | _ \<Rightarrow> None)"

text \<open>
  A map built by \<^verbatim>\<open>fl_value_set_string_take\<close>: a null value (a \<^verbatim>\<open>Lookup\<close> that found nothing) leaves
  the map as it is.
\<close>

definition fl_set :: "FlValue \<Rightarrow> string \<Rightarrow> FlValue option \<Rightarrow> FlValue" where
  "fl_set m k v = (case (m, v) of
     (FlMap es, Some x) \<Rightarrow> FlMap ((FlString k, x) # filter (\<lambda>e. fst e \<noteq> FlString k) es)
   | _ \<Rightarrow> m)"

definition Receipt :: "string \<Rightarrow> string \<Rightarrow> FlValue" where
  "Receipt opid token =
     fl_set (fl_set (FlMap []) ''operationId'' (Some (FlString opid)))
            ''token'' (Some (FlString token))"

lemma StringArg_no_nul: "StringArg a k = Some s \<Longrightarrow> CHR 0x00 \<notin> set s"
  by (auto simp: StringArg_def c_str_no_nul split: option.splits FlValue.splits)

lemma map_of_filter_key: "map_of (filter (\<lambda>e. fst e \<noteq> k) es) j = (if j = k then None else map_of es j)"
  by (induction es) auto

lemma Lookup_fl_set:
  "Lookup (fl_set (FlMap es) k v) j =
     (case v of Some x \<Rightarrow> if j = k then Some x else Lookup (FlMap es) j | None \<Rightarrow> Lookup (FlMap es) j)"
  by (auto simp: fl_set_def map_of_filter_key split: option.splits)

end
