(* ===== verification/Workspace_Paths.thy ===== *)
theory Workspace_Paths
  imports Fl_Args "HOL-Library.Sublist"
begin

text \<open>
  Path validation of the Linux workspace: \<^verbatim>\<open>Part\<close>, \<^verbatim>\<open>ParseRelative\<close> and \<^verbatim>\<open>SafeOperationId\<close> of
  \<^verbatim>\<open>linux/runner/session_workspace_common.cc\<close>. GLib's SHA-256 and UTF-8 validation are code
  outside the repository: the parameters of \<open>lib\<close>.
\<close>

record lib =
  sha256 :: "byte list \<Rightarrow> string"
  utf8_valid :: "byte list \<Rightarrow> bool"

section \<open>Definitions\<close>

definition ascii_toupper :: "char \<Rightarrow> char" where
  "ascii_toupper c = (if 97 \<le> (of_char c :: nat) \<and> (of_char c :: nat) \<le> 122
                      then char_of ((of_char c :: nat) - 32) else c)"

definition ascii_isalnum :: "char \<Rightarrow> bool" where
  "ascii_isalnum c \<longleftrightarrow>
     (let n = (of_char c :: nat) in 48 \<le> n \<and> n \<le> 57 \<or> 65 \<le> n \<and> n \<le> 90 \<or> 97 \<le> n \<and> n \<le> 122)"

definition forbidden_char :: "char \<Rightarrow> bool" where
  "forbidden_char c \<longleftrightarrow>
     (of_char c :: nat) < 32 \<or> (of_char c :: nat) = 127 \<or> c = CHR ''/'' \<or> c = CHR 0x5C
     \<or> c = CHR '':''"

definition reserved_stem :: "string \<Rightarrow> bool" where
  "reserved_stem stem \<longleftrightarrow>
     stem \<in> {''CON'', ''PRN'', ''AUX'', ''NUL''} \<or>
     (length stem = 4 \<and> (take 3 stem = ''COM'' \<or> take 3 stem = ''LPT'')
      \<and> 49 \<le> (of_char (stem ! 3) :: nat) \<and> (of_char (stem ! 3) :: nat) \<le> 57)"

definition Part :: "lib \<Rightarrow> string \<Rightarrow> bool" where
  "Part L s =
     (if s = [] \<or> length s > 128 \<or> hd s = CHR ''.'' \<or> s = ''..''
         \<or> \<not> utf8_valid L (bytes_of s) \<or> last s = CHR ''.'' \<or> last s = CHR '' ''
      then False
      else if list_ex forbidden_char s then False
      else \<not> reserved_stem (map ascii_toupper (fst (split_at CHR ''.'' s))))"

function parse_parts :: "lib \<Rightarrow> string \<Rightarrow> string list \<Rightarrow> string list option" where
  "parse_parts L s out =
     (if s = [] then Some out
      else case split_at CHR ''/'' s of (x, r) \<Rightarrow>
        if \<not> Part L x then None
        else if length (out @ [x]) > 16 then None
        else (case r of None \<Rightarrow> Some (out @ [x])
              | Some q \<Rightarrow> parse_parts L q (out @ [x])))"
  by pat_completeness auto
termination
  by (relation "measure (\<lambda>(L, s, out). length s)") (auto, metis split_at_shorter)

declare parse_parts.simps [simp del]

definition ParseRelative :: "lib \<Rightarrow> string \<Rightarrow> bool \<Rightarrow> string list option" where
  "ParseRelative L s root =
     (if s = [] then (if root then Some [] else None)
      else if length s > 1024 \<or> hd s = CHR ''/'' \<or> last s = CHR ''/''
              \<or> CHR 0x5C \<in> set s \<or> CHR '':'' \<in> set s
      then None
      else parse_parts L s [])"

definition SafeOperationId :: "string \<Rightarrow> bool" where
  "SafeOperationId s \<longleftrightarrow>
     length s = 32 \<and> list_all (\<lambda>c. ascii_isalnum c \<or> c = CHR ''_'' \<or> c = CHR ''-'') s"

section \<open>What a component may be\<close>

text \<open>A name a system call takes as one entry of the directory it is given.\<close>

definition plain_component :: "string \<Rightarrow> bool" where
  "plain_component s \<longleftrightarrow>
     s \<noteq> [] \<and> s \<noteq> ''.'' \<and> s \<noteq> ''..'' \<and> CHR ''/'' \<notin> set s \<and> CHR 0x00 \<notin> set s"

fun join_parts :: "string list \<Rightarrow> string" where
  "join_parts [] = []"
| "join_parts [x] = x"
| "join_parts (x # y # ys) = x @ CHR ''/'' # join_parts (y # ys)"

lemma Part_not_forbidden: "Part L s \<Longrightarrow> c \<in> set s \<Longrightarrow> \<not> forbidden_char c"
  by (auto simp: Part_def list_ex_iff split: if_splits)

lemma Part_nonempty: "Part L s \<Longrightarrow> s \<noteq> []"
  by (simp add: Part_def split: if_splits)

lemma Part_no_slash: "Part L s \<Longrightarrow> CHR ''/'' \<notin> set s"
  using Part_not_forbidden by (auto simp: forbidden_char_def)

lemma Part_plain: "Part L s \<Longrightarrow> plain_component s"
  using Part_not_forbidden [of L s "CHR ''/''"] Part_not_forbidden [of L s "CHR 0x00"]
  by (auto simp: plain_component_def Part_def forbidden_char_def split: if_splits)

lemma Part_no_dot: "Part L s \<Longrightarrow> hd s \<noteq> CHR ''.''"
  by (auto simp: Part_def split: if_splits)

lemma join_parts_eq_Nil: "\<forall>p \<in> set ps. p \<noteq> [] \<Longrightarrow> join_parts ps = [] \<longleftrightarrow> ps = []"
  by (cases ps rule: join_parts.cases) auto

lemma join_parts_Cons: "ps \<noteq> [] \<Longrightarrow> join_parts (x # ps) = x @ CHR ''/'' # join_parts ps"
  by (cases ps) auto

lemma hd_join_parts: "\<forall>p \<in> set ps. p \<noteq> [] \<Longrightarrow> ps \<noteq> [] \<Longrightarrow> hd (join_parts ps) = hd (hd ps)"
  by (cases ps rule: join_parts.cases) auto

lemma last_join_parts:
  "\<forall>p \<in> set ps. p \<noteq> [] \<Longrightarrow> ps \<noteq> [] \<Longrightarrow> last (join_parts ps) = last (last ps)"
  by (induction ps rule: join_parts.induct) (auto simp: join_parts_eq_Nil)

lemma set_join_parts: "set (join_parts ps) \<subseteq> insert (CHR ''/'') (\<Union> (set ` set ps))"
  by (induction ps rule: join_parts.induct) auto

section \<open>The parser splits and nothing else\<close>

lemma parse_parts_sound:
  "parse_parts L s out = Some ps \<Longrightarrow> length out \<le> 16 \<Longrightarrow>
     \<exists>qs. ps = out @ qs \<and> length ps \<le> 16 \<and> (\<forall>q \<in> set qs. Part L q) \<and>
          (s = join_parts qs \<or> (last s = CHR ''/'' \<and> s \<noteq> []))"
proof (induction L s out rule: parse_parts.induct)
  case (1 L s out)
  show ?case
  proof (cases "s = []")
    case True
    with 1 show ?thesis by (auto simp: parse_parts.simps)
  next
    case False
    obtain x r where sp: "split_at CHR ''/'' s = (x, r)" by fastforce
    have part: "Part L x" and len: "length (out @ [x]) \<le> 16"
      using 1(2) False sp by (auto simp: parse_parts.simps [of L s] split: if_splits)
    show ?thesis
    proof (cases r)
      case None
      then have "ps = out @ [x]"
        using 1(2) False sp part len by (simp add: parse_parts.simps [of L s])
      moreover have "s = x" using split_at_parts [OF sp] None by simp
      ultimately show ?thesis using part len by auto
    next
      case (Some q)
      have s: "s = x @ CHR ''/'' # q" using split_at_parts [OF sp] Some by simp
      have "parse_parts L q (out @ [x]) = Some ps"
        using 1(2) False sp part len Some by (simp add: parse_parts.simps [of L s])
      then obtain qs where qs: "ps = (out @ [x]) @ qs" "length ps \<le> 16" "\<forall>q \<in> set qs. Part L q"
          "q = join_parts qs \<or> (last q = CHR ''/'' \<and> q \<noteq> [])"
        using 1(1) [OF False sp [symmetric] _ _ Some] part len by auto
      have "s = join_parts (x # qs) \<or> last s = CHR ''/''"
        using qs(3,4) s Part_nonempty by (cases qs) (auto simp: join_parts_Cons)
      then show ?thesis using qs part False by (intro exI [of _ "x # qs"]) auto
    qed
  qed
qed

lemma parse_parts_complete:
  "ps \<noteq> [] \<Longrightarrow> \<forall>p \<in> set ps. Part L p \<Longrightarrow> length out + length ps \<le> 16 \<Longrightarrow>
     parse_parts L (join_parts ps) out = Some (out @ ps)"
proof (induction ps arbitrary: out rule: join_parts.induct)
  case 1
  then show ?case by simp
next
  case (2 x)
  then have "split_at CHR ''/'' x = (x, None)"
    by (simp add: split_at_absent Part_no_slash)
  with 2 show ?case by (simp add: parse_parts.simps [of L x] Part_nonempty)
next
  case (3 x y ys)
  then have "CHR ''/'' \<notin> set x" by (auto dest: Part_no_slash)
  then have sp: "split_at CHR ''/'' (join_parts (x # y # ys)) = (x, Some (join_parts (y # ys)))"
    by (simp add: split_at_append)
  from 3 have "parse_parts L (join_parts (y # ys)) (out @ [x]) = Some ((out @ [x]) @ y # ys)"
    by (intro 3(1)) auto
  with 3 sp show ?case
    by (simp add: parse_parts.simps [of L "x @ CHR ''/'' # join_parts (y # ys)"] Part_nonempty)
qed

lemma ParseRelative_char:
  "ParseRelative L s False = Some ps \<longleftrightarrow>
     ps \<noteq> [] \<and> length ps \<le> 16 \<and> (\<forall>p \<in> set ps. Part L p) \<and> s = join_parts ps \<and> length s \<le> 1024"
proof
  assume p: "ParseRelative L s False = Some ps"
  then have s: "s \<noteq> []" "length s \<le> 1024" "last s \<noteq> CHR ''/''" "parse_parts L s [] = Some ps"
    by (auto simp: ParseRelative_def split: if_splits)
  then show "ps \<noteq> [] \<and> length ps \<le> 16 \<and> (\<forall>p \<in> set ps. Part L p) \<and> s = join_parts ps \<and> length s \<le> 1024"
    using parse_parts_sound [OF s(4)] by auto
next
  assume *: "ps \<noteq> [] \<and> length ps \<le> 16 \<and> (\<forall>p \<in> set ps. Part L p) \<and> s = join_parts ps \<and> length s \<le> 1024"
  then have ne: "\<forall>p \<in> set ps. p \<noteq> []" using Part_nonempty by blast
  have "hd s = hd (hd ps)" "last s = last (last ps)"
    using * ne by (auto simp: hd_join_parts last_join_parts)
  moreover have "hd ps \<in> set ps" "last ps \<in> set ps" using * by auto
  then have "hd (hd ps) \<noteq> CHR ''/''" "last (last ps) \<noteq> CHR ''/''"
    using * ne Part_no_slash by (metis hd_in_set, metis last_in_set)
  moreover have "CHR 0x5C \<notin> set s" "CHR '':'' \<notin> set s"
    using * set_join_parts [of ps] Part_not_forbidden by (fastforce simp: forbidden_char_def)+
  moreover have "s \<noteq> []" using * ne by (simp add: join_parts_eq_Nil)
  moreover have "parse_parts L s [] = Some ps"
    using * parse_parts_complete [of ps L "[]"] by simp
  moreover have "\<not> length s > 1024" using * by linarith
  ultimately show "ParseRelative L s False = Some ps" by (simp add: ParseRelative_def)
qed

lemma ParseRelative_parts:
  "ParseRelative L s root = Some ps \<Longrightarrow> p \<in> set ps \<Longrightarrow> Part L p"
  using parse_parts_sound [of L s "[]" ps] by (auto simp: ParseRelative_def split: if_splits)

lemma ParseRelative_root: "ParseRelative L s True = Some ps \<longleftrightarrow>
    (s = [] \<and> ps = []) \<or> ParseRelative L s False = Some ps"
  by (auto simp: ParseRelative_def)

end
