(* ===== verification/Posix.thy ===== *)
theory Posix
  imports Prelude "HOL-Library.AList"
begin

text \<open>
  The operating system the Linux runner calls: the file system as explicit state, and the system
  calls it makes as steps on that state. It is no code of the repository but the documented
  behaviour of the Linux calls named in \<^verbatim>\<open>linux/runner/\<close>, on the arguments the program gives them
  (names are single path components, never followed through symbolic links).

  A world holds the file system, a clock that counts system calls, and what the program does not
  control: \<open>sched\<close> says of every call whether it fails though it could be made (\<open>EIO\<close> stands for every
  error that the file system does not explain, a missing \<^verbatim>\<open>openat2\<close> or a full disk among them; the
  code tells apart only \<open>ENOENT\<close> and \<open>EEXIST\<close>), or whether a read or write is short; \<open>env\<close> is what other processes do to the file system just before a call; \<open>rng\<close>
  is the kernel's random source, \<open>newino\<close> the inode number offered to the next file created, and
  \<open>interrupts\<close> the number of signals that still interrupt a wait for random bytes.

  A failed call changes nothing. So the death of the process before its \<open>n\<close>-th call leaves the
  file system that the schedule leaves in which every call from the \<open>n\<close>-th on fails, and a theorem
  for every schedule covers a crash between any two calls. The loss of data the kernel has not yet
  written at a power failure is not modelled: \<^verbatim>\<open>fsync\<close> is a call that may fail.
\<close>

section \<open>The file system\<close>

record Identity =
  device :: "64 word"
  inode :: "64 word"

datatype errno =
  ENOENT | EEXIST | ENOTDIR | EISDIR | ELOOP | EXDEV | ENOTEMPTY | EINVAL | EBADF
  | ENOSPC | EIO | ENOSYS

datatype content =
  Regular "byte list"
  | Directory "(string \<times> Identity) list"
  | Symlink string
  | Special

record vnode =
  body :: content
  nlink :: nat

record fs =
  inodes :: "Identity \<Rightarrow> vnode option"
  paths :: "string \<Rightarrow> Identity option"

datatype fault = Pass | Fault | Short nat

record world =
  disk :: fs
  clock :: nat
  sched :: "nat \<Rightarrow> fault"
  env :: "nat \<Rightarrow> fs \<Rightarrow> fs"
  rng :: "nat \<Rightarrow> nat \<Rightarrow> byte"
  newino :: "nat \<Rightarrow> 64 word"
  interrupts :: nat

type_synonym 'a io = "(world, 'a) state"

datatype filetype = S_IFREG | S_IFDIR | S_IFLNK | S_IFOTHER

record stat =
  st_type :: filetype
  st_nlink :: nat
  st_size :: int
  st_id :: Identity

fun type_of :: "content \<Rightarrow> filetype" where
  "type_of (Regular _) = S_IFREG"
| "type_of (Directory _) = S_IFDIR"
| "type_of (Symlink _) = S_IFLNK"
| "type_of Special = S_IFOTHER"

fun size_of :: "content \<Rightarrow> int" where
  "size_of (Regular c) = int (length c)"
| "size_of (Directory _) = 0"
| "size_of (Symlink t) = int (length t)"
| "size_of Special = 0"

section \<open>What the calls do to the file system\<close>

definition dir_entries :: "fs \<Rightarrow> Identity \<Rightarrow> (string \<times> Identity) list option" where
  "dir_entries f d =
     (case inodes f d of
        Some v \<Rightarrow> (case body v of Directory es \<Rightarrow> Some es | _ \<Rightarrow> None)
      | None \<Rightarrow> None)"

definition lookup :: "fs \<Rightarrow> Identity \<Rightarrow> string \<Rightarrow> Identity option" where
  "lookup f d n = (case dir_entries f d of Some es \<Rightarrow> map_of es n | None \<Rightarrow> None)"

definition set_body :: "fs \<Rightarrow> Identity \<Rightarrow> content \<Rightarrow> fs" where
  "set_body f i b =
     (case inodes f i of
        Some v \<Rightarrow> f\<lparr>inodes := (inodes f)(i \<mapsto> v\<lparr>body := b\<rparr>)\<rparr>
      | None \<Rightarrow> f)"

definition set_nlink :: "fs \<Rightarrow> Identity \<Rightarrow> nat \<Rightarrow> fs" where
  "set_nlink f i k =
     (case inodes f i of
        Some v \<Rightarrow> f\<lparr>inodes := (inodes f)(i \<mapsto> v\<lparr>nlink := k\<rparr>)\<rparr>
      | None \<Rightarrow> f)"

definition add_node :: "fs \<Rightarrow> Identity \<Rightarrow> content \<Rightarrow> nat \<Rightarrow> fs" where
  "add_node f i b k = f\<lparr>inodes := (inodes f)(i \<mapsto> \<lparr>body = b, nlink = k\<rparr>)\<rparr>"

definition link :: "fs \<Rightarrow> Identity \<Rightarrow> string \<Rightarrow> Identity \<Rightarrow> fs" where
  "link f d n i =
     (case dir_entries f d of
        Some es \<Rightarrow> set_body f d (Directory (AList.update n i es))
      | None \<Rightarrow> f)"

definition unlink :: "fs \<Rightarrow> Identity \<Rightarrow> string \<Rightarrow> fs" where
  "unlink f d n =
     (case dir_entries f d of
        Some es \<Rightarrow> set_body f d (Directory (AList.delete n es))
      | None \<Rightarrow> f)"

definition fs_stat :: "fs \<Rightarrow> Identity \<Rightarrow> errno + stat" where
  "fs_stat f i =
     (case inodes f i of
        None \<Rightarrow> Inl EBADF
      | Some v \<Rightarrow> Inr \<lparr>st_type = type_of (body v), st_nlink = nlink v,
                      st_size = size_of (body v), st_id = i\<rparr>)"

text \<open>
  \<^verbatim>\<open>openat2\<close> with \<^verbatim>\<open>RESOLVE_BENEATH | RESOLVE_NO_MAGICLINKS | RESOLVE_NO_SYMLINKS |
  RESOLVE_NO_XDEV\<close> on one component: a symbolic link and a mount point are refused.
\<close>

definition fs_open :: "fs \<Rightarrow> Identity \<Rightarrow> string \<Rightarrow> bool \<Rightarrow> errno + Identity" where
  "fs_open f d n dironly =
     (case dir_entries f d of
        None \<Rightarrow> Inl ENOTDIR
      | Some es \<Rightarrow>
          (case map_of es n of
             None \<Rightarrow> Inl ENOENT
           | Some i \<Rightarrow>
               if device i \<noteq> device d then Inl EXDEV
               else (case inodes f i of
                       None \<Rightarrow> Inl ENOENT
                     | Some v \<Rightarrow>
                         (case body v of
                            Symlink _ \<Rightarrow> Inl ELOOP
                          | Directory _ \<Rightarrow> Inr i
                          | _ \<Rightarrow> if dironly then Inl ENOTDIR else Inr i))))"

definition fs_open_path :: "fs \<Rightarrow> string \<Rightarrow> errno + Identity" where
  "fs_open_path f p =
     (case paths f p of
        None \<Rightarrow> Inl ENOENT
      | Some i \<Rightarrow> (case dir_entries f i of None \<Rightarrow> Inl ENOTDIR | Some _ \<Rightarrow> Inr i))"

definition fs_statat :: "fs \<Rightarrow> Identity \<Rightarrow> string \<Rightarrow> errno + stat" where
  "fs_statat f d n =
     (case dir_entries f d of
        None \<Rightarrow> Inl ENOTDIR
      | Some es \<Rightarrow> (case map_of es n of None \<Rightarrow> Inl ENOENT | Some i \<Rightarrow> fs_stat f i))"

definition fs_new :: "fs \<Rightarrow> Identity \<Rightarrow> string \<Rightarrow> Identity \<Rightarrow> content \<Rightarrow> nat
    \<Rightarrow> errno + Identity \<times> fs" where
  "fs_new f d n i b k =
     (case dir_entries f d of
        None \<Rightarrow> Inl ENOTDIR
      | Some es \<Rightarrow>
          (case map_of es n of
             Some _ \<Rightarrow> Inl EEXIST
           | None \<Rightarrow>
               (case inodes f i of
                  Some _ \<Rightarrow> Inl ENOSPC
                | None \<Rightarrow> Inr (i, link (add_node f i b k) d n i))))"

definition fs_pread :: "fs \<Rightarrow> Identity \<Rightarrow> nat \<Rightarrow> nat \<Rightarrow> errno + byte list" where
  "fs_pread f i k off =
     (case inodes f i of
        None \<Rightarrow> Inl EBADF
      | Some v \<Rightarrow> (case body v of Regular c \<Rightarrow> Inr (take k (drop off c)) | _ \<Rightarrow> Inl EISDIR))"

definition fs_write :: "fs \<Rightarrow> Identity \<Rightarrow> nat \<Rightarrow> byte list \<Rightarrow> errno + nat \<times> fs" where
  "fs_write f i off bs =
     (case inodes f i of
        None \<Rightarrow> Inl EBADF
      | Some v \<Rightarrow>
          (case body v of
             Regular c \<Rightarrow>
               Inr (length bs,
                    set_body f i (Regular (take off (c @ replicate (off - length c) 0) @ bs
                                           @ drop (off + length bs) c)))
           | _ \<Rightarrow> Inl EISDIR))"

datatype rename_mode = Replace | Noreplace | Exchange

text \<open>
  The rename of \<open>n\<close> in \<open>d\<close> to \<open>n'\<close> in \<open>d'\<close>. The directories the program renames are empty, so
  the only directory that could be moved into itself is \<open>d'\<close>.
\<close>

definition fs_rename_replace :: "fs \<Rightarrow> Identity \<Rightarrow> string \<Rightarrow> Identity \<Rightarrow> string \<Rightarrow> Identity
    \<Rightarrow> errno + unit \<times> fs" where
  "fs_rename_replace f d n d' n' i =
     (case lookup f d' n' of
        None \<Rightarrow> Inr ((), link (unlink f d n) d' n' i)
      | Some j \<Rightarrow>
          (case (inodes f i, inodes f j) of
             (Some v, Some u) \<Rightarrow>
               if i = j then Inr ((), f)
               else (case (body v, body u) of
                       (Directory _, Directory es) \<Rightarrow>
                         if es \<noteq> [] then Inl ENOTEMPTY
                         else Inr ((), set_nlink (link (unlink f d n) d' n' i) j 0)
                     | (Directory _, _) \<Rightarrow> Inl ENOTDIR
                     | (_, Directory _) \<Rightarrow> Inl EISDIR
                     | _ \<Rightarrow> Inr ((), set_nlink (link (unlink f d n) d' n' i) j (nlink u - 1)))
           | _ \<Rightarrow> Inl ENOENT))"

definition fs_rename :: "fs \<Rightarrow> Identity \<Rightarrow> string \<Rightarrow> Identity \<Rightarrow> string \<Rightarrow> rename_mode
    \<Rightarrow> errno + unit \<times> fs" where
  "fs_rename f d n d' n' mode =
     (if dir_entries f d = None \<or> dir_entries f d' = None then Inl ENOTDIR
      else if device d \<noteq> device d' then Inl EXDEV
      else case lookup f d n of
        None \<Rightarrow> Inl ENOENT
      | Some i \<Rightarrow>
          if i = d' then Inl EINVAL
          else (case mode of
                  Replace \<Rightarrow> fs_rename_replace f d n d' n' i
                | Noreplace \<Rightarrow>
                    (case lookup f d' n' of
                       Some _ \<Rightarrow> Inl EEXIST
                     | None \<Rightarrow> Inr ((), link (unlink f d n) d' n' i))
                | Exchange \<Rightarrow>
                    (case lookup f d' n' of
                       None \<Rightarrow> Inl ENOENT
                     | Some j \<Rightarrow> Inr ((), link (link f d n j) d' n' i))))"

definition fs_unlink :: "fs \<Rightarrow> Identity \<Rightarrow> string \<Rightarrow> bool \<Rightarrow> errno + unit \<times> fs" where
  "fs_unlink f d n removedir =
     (if dir_entries f d = None then Inl ENOTDIR
      else case lookup f d n of
        None \<Rightarrow> Inl ENOENT
      | Some i \<Rightarrow>
          (case inodes f i of
             None \<Rightarrow> Inl ENOENT
           | Some v \<Rightarrow>
               (case body v of
                  Directory es \<Rightarrow>
                    if \<not> removedir then Inl EISDIR
                    else if es \<noteq> [] then Inl ENOTEMPTY
                    else Inr ((), set_nlink (unlink f d n) i 0)
                | _ \<Rightarrow>
                    if removedir then Inl ENOTDIR
                    else Inr ((), set_nlink (unlink f d n) i (nlink v - 1)))))"

end
