(* ===== verification/Syscalls.thy ===== *)
theory Syscalls
  imports Posix
begin

text \<open>
  The system calls as programs over the world, the views of the file system the component proofs
  use (the entry of a name, the content of a regular file, being a directory), what each update
  changes of these views, and the calculus of operations that only read: \<open>reads m g bad\<close> says that
  in a world without interference \<open>m\<close> leaves everything but the clock alone and returns \<open>g\<close> of
  the file system, or, when some call fails, possibly a value of \<open>bad\<close> instead.
\<close>

section \<open>System calls\<close>

definition sys :: "(world \<Rightarrow> fs \<Rightarrow> errno + 'a \<times> fs) \<Rightarrow> (errno + 'a) io" where
  "sys g = State (\<lambda>w.
     let f = env w (clock w) (disk w);
         w' = w\<lparr>disk := f, clock := Suc (clock w)\<rparr>
     in (case sched w (clock w) of
           Fault \<Rightarrow> (Inl EIO, w')
         | _ \<Rightarrow> (case g w f of
                  Inl e \<Rightarrow> (Inl e, w')
                | Inr (a, f') \<Rightarrow> (Inr a, w'\<lparr>disk := f'\<rparr>))))"

definition query :: "(fs \<Rightarrow> errno + 'a) \<Rightarrow> (errno + 'a) io" where
  "query g = sys (\<lambda>w f. case g f of Inl e \<Rightarrow> Inl e | Inr a \<Rightarrow> Inr (a, f))"

text \<open>How much of \<open>k\<close> bytes a read or write transfers: a short transfer moves at least one.\<close>

definition transfer :: "world \<Rightarrow> nat \<Rightarrow> nat" where
  "transfer w k = (case sched w (clock w) of Short m \<Rightarrow> min k (Suc m) | _ \<Rightarrow> k)"

definition new_id :: "world \<Rightarrow> Identity \<Rightarrow> Identity" where
  "new_id w d = \<lparr>device = device d, inode = newino w (clock w)\<rparr>"

definition sys_open_path :: "string \<Rightarrow> (errno + Identity) io" where
  "sys_open_path p = query (\<lambda>f. fs_open_path f p)"

definition sys_openat2 :: "Identity \<Rightarrow> string \<Rightarrow> bool \<Rightarrow> (errno + Identity) io" where
  "sys_openat2 d n dironly = query (\<lambda>f. fs_open f d n dironly)"

definition sys_create :: "Identity \<Rightarrow> string \<Rightarrow> (errno + Identity) io" where
  "sys_create d n = sys (\<lambda>w f. fs_new f d n (new_id w d) (Regular []) 1)"

definition sys_mkdirat :: "Identity \<Rightarrow> string \<Rightarrow> (errno + Identity) io" where
  "sys_mkdirat d n = sys (\<lambda>w f. fs_new f d n (new_id w d) (Directory []) 2)"

definition sys_fstat :: "Identity \<Rightarrow> (errno + stat) io" where
  "sys_fstat i = query (\<lambda>f. fs_stat f i)"

definition sys_fstatat :: "Identity \<Rightarrow> string \<Rightarrow> (errno + stat) io" where
  "sys_fstatat d n = query (\<lambda>f. fs_statat f d n)"

definition sys_dup :: "Identity \<Rightarrow> (errno + Identity) io" where
  "sys_dup i = query (\<lambda>f. if inodes f i = None then Inl EBADF else Inr i)"

definition sys_pread :: "Identity \<Rightarrow> nat \<Rightarrow> nat \<Rightarrow> (errno + byte list) io" where
  "sys_pread i k off = sys (\<lambda>w f. case fs_pread f i (transfer w k) off of
     Inl e \<Rightarrow> Inl e | Inr bs \<Rightarrow> Inr (bs, f))"

definition sys_write :: "Identity \<Rightarrow> nat \<Rightarrow> byte list \<Rightarrow> (errno + nat) io" where
  "sys_write i off bs = sys (\<lambda>w f. fs_write f i off (take (transfer w (length bs)) bs))"

definition sys_fsync :: "Identity \<Rightarrow> (errno + unit) io" where
  "sys_fsync i = query (\<lambda>f. if inodes f i = None then Inl EBADF else Inr ())"

definition sys_rename :: "Identity \<Rightarrow> string \<Rightarrow> Identity \<Rightarrow> string \<Rightarrow> rename_mode
    \<Rightarrow> (errno + unit) io" where
  "sys_rename d n d' n' mode = sys (\<lambda>w f. fs_rename f d n d' n' mode)"

definition sys_unlinkat :: "Identity \<Rightarrow> string \<Rightarrow> bool \<Rightarrow> (errno + unit) io" where
  "sys_unlinkat d n removedir = sys (\<lambda>w f. fs_unlink f d n removedir)"

text \<open>A directory stream holds the entries there were when it was opened; reading the next may fail.\<close>

definition sys_opendir :: "Identity \<Rightarrow> (errno + string list) io" where
  "sys_opendir d = query (\<lambda>f. case dir_entries f d of
     None \<Rightarrow> Inl ENOTDIR | Some es \<Rightarrow> Inr (''.'' # ''..'' # map fst es))"

definition sys_readdir :: "(errno + unit) io" where
  "sys_readdir = query (\<lambda>_. Inr ())"

datatype rnd = Rnd_interrupted | Rnd_failed | Rnd_bytes "byte list"

definition sys_getrandom :: "nat \<Rightarrow> rnd io" where
  "sys_getrandom k = State (\<lambda>w.
     if 0 < interrupts w
     then (Rnd_interrupted, w\<lparr>clock := Suc (clock w), interrupts := interrupts w - 1\<rparr>)
     else (case sched w (clock w) of
             Fault \<Rightarrow> (Rnd_failed, w\<lparr>clock := Suc (clock w)\<rparr>)
           | _ \<Rightarrow> (Rnd_bytes (map (rng w (clock w)) [0..<transfer w k]),
                   w\<lparr>clock := Suc (clock w)\<rparr>)))"

section \<open>Views of the file system\<close>

definition is_dir :: "fs \<Rightarrow> Identity \<Rightarrow> bool" where
  "is_dir f d \<longleftrightarrow> dir_entries f d \<noteq> None"

definition file_of :: "fs \<Rightarrow> Identity \<Rightarrow> (byte list \<times> nat) option" where
  "file_of f i =
     (case inodes f i of
        Some v \<Rightarrow> (case body v of Regular c \<Rightarrow> Some (c, nlink v) | _ \<Rightarrow> None)
      | None \<Rightarrow> None)"

definition in_use :: "fs \<Rightarrow> Identity \<Rightarrow> bool" where
  "in_use f i \<longleftrightarrow> inodes f i \<noteq> None"

lemma is_dir_in_use: "is_dir f d \<Longrightarrow> in_use f d"
  by (auto simp: is_dir_def dir_entries_def in_use_def split: option.splits)

lemma file_of_in_use: "file_of f i = Some x \<Longrightarrow> in_use f i"
  by (auto simp: file_of_def in_use_def split: option.splits)

lemma file_not_dir: "file_of f i = Some x \<Longrightarrow> \<not> is_dir f i"
  by (auto simp: file_of_def is_dir_def dir_entries_def split: option.splits content.splits)

lemma lookup_is_dir: "lookup f d n = Some i \<Longrightarrow> is_dir f d"
  by (auto simp: lookup_def is_dir_def split: option.splits)

lemma lookup_not_dir: "\<not> is_dir f d \<Longrightarrow> lookup f d n = None"
  by (auto simp: lookup_def is_dir_def)

lemma is_dir_iff: "is_dir f d \<longleftrightarrow> (\<exists>v es. inodes f d = Some v \<and> body v = Directory es)"
  by (auto simp: is_dir_def dir_entries_def split: option.splits content.splits)

lemma file_of_iff:
  "file_of f i = Some (c, k) \<longleftrightarrow> (\<exists>v. inodes f i = Some v \<and> body v = Regular c \<and> nlink v = k)"
  by (auto simp: file_of_def split: option.splits content.splits)

subsection \<open>Linking and unlinking names\<close>

lemma dir_entries_in_use: "dir_entries f d = Some es \<Longrightarrow> in_use f d"
  by (auto simp: dir_entries_def in_use_def split: option.splits)

lemma dir_entries_not_file: "dir_entries f d = Some es \<Longrightarrow> file_of f d = None"
  by (auto simp: dir_entries_def file_of_def split: option.splits content.splits)

lemma inodes_set_body:
  "inodes (set_body f i b) j =
     (if j = i then map_option (\<lambda>v. v\<lparr>body := b\<rparr>) (inodes f i) else inodes f j)"
  by (auto simp: set_body_def split: option.splits)

lemma dir_entries_set_dir:
  "in_use f i \<Longrightarrow> dir_entries (set_body f i (Directory es)) d =
     (if d = i then Some es else dir_entries f d)"
  by (auto simp: dir_entries_def inodes_set_body in_use_def)

lemma file_of_set_dir:
  "file_of f i = None \<Longrightarrow> file_of (set_body f i (Directory es)) j = file_of f j"
  by (auto simp: file_of_def inodes_set_body split: option.splits)

lemma in_use_set_body: "in_use (set_body f i b) j = in_use f j"
  by (auto simp: in_use_def inodes_set_body)

lemma paths_set_body: "paths (set_body f i b) = paths f"
  by (auto simp: set_body_def split: option.splits)

lemmas set_dir_views =
  dir_entries_set_dir file_of_set_dir in_use_set_body paths_set_body

lemma dir_entries_link:
  "dir_entries (link f d n i) e =
     (if e = d then map_option (AList.update n i) (dir_entries f d) else dir_entries f e)"
  by (cases "dir_entries f d") (auto simp: link_def set_dir_views dest: dir_entries_in_use)

lemma dir_entries_unlink:
  "dir_entries (unlink f d n) e =
     (if e = d then map_option (AList.delete n) (dir_entries f d) else dir_entries f e)"
  by (cases "dir_entries f d") (auto simp: unlink_def set_dir_views dest: dir_entries_in_use)

lemma lookup_link [fs_simps]:
  "lookup (link f d n i) e m = (if e = d \<and> m = n \<and> is_dir f d then Some i else lookup f e m)"
  by (cases "dir_entries f d") (auto simp: lookup_def dir_entries_link is_dir_def update_conv)

lemma lookup_unlink [fs_simps]:
  "lookup (unlink f d n) e m = (if e = d \<and> m = n then None else lookup f e m)"
  by (cases "dir_entries f d")
     (auto simp: lookup_def dir_entries_unlink AList.delete_conv fun_upd_def)

lemma is_dir_link [fs_simps]: "is_dir (link f d n i) e = is_dir f e"
  by (simp add: is_dir_def dir_entries_link)

lemma is_dir_unlink [fs_simps]: "is_dir (unlink f d n) e = is_dir f e"
  by (simp add: is_dir_def dir_entries_unlink)

lemma file_of_link [fs_simps]: "file_of (link f d n i) e = file_of f e"
  by (cases "dir_entries f d") (auto simp: link_def set_dir_views dest: dir_entries_not_file)

lemma file_of_unlink [fs_simps]: "file_of (unlink f d n) e = file_of f e"
  by (cases "dir_entries f d") (auto simp: unlink_def set_dir_views dest: dir_entries_not_file)

lemma in_use_link [fs_simps]: "in_use (link f d n i) e = in_use f e"
  by (simp add: link_def set_dir_views split: option.splits)

lemma in_use_unlink [fs_simps]: "in_use (unlink f d n) e = in_use f e"
  by (simp add: unlink_def set_dir_views split: option.splits)

lemma paths_link [fs_simps]: "paths (link f d n i) = paths f"
  by (simp add: link_def set_dir_views split: option.splits)

lemma paths_unlink [fs_simps]: "paths (unlink f d n) = paths f"
  by (simp add: unlink_def set_dir_views split: option.splits)

subsection \<open>Link counts, contents and new nodes\<close>

lemma dir_entries_set_nlink [fs_simps]: "dir_entries (set_nlink f i k) d = dir_entries f d"
  by (auto simp: dir_entries_def set_nlink_def split: option.splits content.splits)

lemma lookup_set_nlink [fs_simps]: "lookup (set_nlink f i k) d n = lookup f d n"
  by (simp add: lookup_def dir_entries_set_nlink)

lemma is_dir_set_nlink [fs_simps]: "is_dir (set_nlink f i k) d = is_dir f d"
  by (simp add: is_dir_def dir_entries_set_nlink)

lemma file_of_set_nlink [fs_simps]:
  "file_of (set_nlink f i k) j =
     (if j = i then map_option (\<lambda>x. (fst x, k)) (file_of f j) else file_of f j)"
  by (auto simp: file_of_def set_nlink_def split: option.splits content.splits)

lemma in_use_set_nlink [fs_simps]: "in_use (set_nlink f i k) j = in_use f j"
  by (auto simp: in_use_def set_nlink_def split: option.splits)

lemma paths_set_nlink [fs_simps]: "paths (set_nlink f i k) = paths f"
  by (auto simp: set_nlink_def split: option.splits)

lemma set_body_file:
  assumes "file_of f i = Some (c, k)"
  shows "file_of (set_body f i (Regular c')) j = (if j = i then Some (c', k) else file_of f j)"
    and "is_dir (set_body f i (Regular c')) d = is_dir f d"
    and "lookup (set_body f i (Regular c')) d n = lookup f d n"
    and "in_use (set_body f i (Regular c')) j = in_use f j"
    and "paths (set_body f i (Regular c')) = paths f"
proof -
  from assms obtain v where v: "inodes f i = Some v" "body v = Regular c" "nlink v = k"
    by (auto simp: file_of_iff)
  then show "file_of (set_body f i (Regular c')) j = (if j = i then Some (c', k) else file_of f j)"
    by (auto simp: file_of_def set_body_def)
  have d: "dir_entries (set_body f i (Regular c')) d = dir_entries f d" for d
    using v by (auto simp: dir_entries_def set_body_def)
  then show "is_dir (set_body f i (Regular c')) d = is_dir f d"
    and "lookup (set_body f i (Regular c')) d n = lookup f d n"
    by (simp_all add: is_dir_def lookup_def)
  show "in_use (set_body f i (Regular c')) j = in_use f j"
    and "paths (set_body f i (Regular c')) = paths f"
    using v by (auto simp: in_use_def set_body_def)
qed

lemma add_node_views:
  assumes "\<not> in_use f i" and "b = Regular c \<or> b = Directory []"
  shows "file_of (add_node f i b k) j =
           (if j = i then (case b of Regular c \<Rightarrow> Some (c, k) | _ \<Rightarrow> None) else file_of f j)"
    and "is_dir (add_node f i b k) d = (if d = i then b = Directory [] else is_dir f d)"
    and "lookup (add_node f i b k) d n = lookup f d n"
    and "in_use (add_node f i b k) j = (j = i \<or> in_use f j)"
    and "paths (add_node f i b k) = paths f"
proof -
  show "file_of (add_node f i b k) j =
           (if j = i then (case b of Regular c \<Rightarrow> Some (c, k) | _ \<Rightarrow> None) else file_of f j)"
    by (auto simp: file_of_def add_node_def split: content.splits)
  show "is_dir (add_node f i b k) d = (if d = i then b = Directory [] else is_dir f d)"
    using assms by (auto simp: is_dir_def dir_entries_def add_node_def)
  show "lookup (add_node f i b k) d n = lookup f d n"
    using assms by (auto simp: lookup_def dir_entries_def add_node_def in_use_def)
  show "in_use (add_node f i b k) j = (j = i \<or> in_use f j)"
    by (auto simp: in_use_def add_node_def)
  show "paths (add_node f i b k) = paths f"
    by (simp add: add_node_def)
qed

lemma add_node_other:
  assumes "j \<noteq> i"
  shows "file_of (add_node f i b k) j = file_of f j"
    and "is_dir (add_node f i b k) j = is_dir f j"
    and "dir_entries (add_node f i b k) j = dir_entries f j"
  using assms by (simp_all add: file_of_def is_dir_def dir_entries_def add_node_def)

lemma fs_stat_set_dir: "dir_entries f i \<noteq> None \<Longrightarrow> fs_stat (set_body f i (Directory es)) j = fs_stat f j"
  by (auto simp: fs_stat_def inodes_set_body dir_entries_def split: option.splits content.splits)

lemma fs_stat_link [fs_simps]: "fs_stat (link f d n i) j = fs_stat f j"
  by (auto simp: link_def fs_stat_set_dir split: option.splits)

lemma fs_stat_unlink [fs_simps]: "fs_stat (unlink f d n) j = fs_stat f j"
  by (auto simp: unlink_def fs_stat_set_dir split: option.splits)

lemma fs_stat_set_nlink: "j \<noteq> i \<Longrightarrow> fs_stat (set_nlink f i k) j = fs_stat f j"
  by (auto simp: fs_stat_def set_nlink_def split: option.splits)

lemma fs_stat_set_body: "j \<noteq> i \<Longrightarrow> fs_stat (set_body f i b) j = fs_stat f j"
  by (auto simp: fs_stat_def inodes_set_body)

lemma fs_stat_add_node: "j \<noteq> i \<Longrightarrow> fs_stat (add_node f i b k) j = fs_stat f j"
  by (auto simp: fs_stat_def add_node_def)

lemmas fs_stat_other = fs_stat_set_nlink fs_stat_set_body fs_stat_add_node

text \<open>A file system with a new file \<open>i\<close>, of content \<open>c\<close>, under the name \<open>n\<close>.\<close>

definition with_file :: "fs \<Rightarrow> Identity \<Rightarrow> string \<Rightarrow> Identity \<Rightarrow> byte list \<Rightarrow> fs" where
  "with_file f d n i c = set_body (link (add_node f i (Regular []) 1) d n i) i (Regular c)"

lemma with_file_views:
  assumes "\<not> in_use f i" "is_dir f d"
  shows "file_of (with_file f d n i c) j = (if j = i then Some (c, 1) else file_of f j)"
    and "lookup (with_file f d n i c) e m = (if e = d \<and> m = n then Some i else lookup f e m)"
    and "is_dir (with_file f d n i c) e = is_dir f e"
    and "in_use (with_file f d n i c) j = (j = i \<or> in_use f j)"
    and "paths (with_file f d n i c) = paths f"
    and "j \<noteq> i \<Longrightarrow> fs_stat (with_file f d n i c) j = fs_stat f j"
proof -
  have di: "d \<noteq> i" "\<not> is_dir f i" using assms is_dir_in_use by auto
  have a: "\<not> in_use f i" "Regular [] = Regular [] \<or> Regular [] = Directory []" using assms by simp_all
  note add = add_node_views [OF a, simplified]
  have "file_of (link (add_node f i (Regular []) 1) d n i) i = Some ([], 1)"
    by (simp add: fs_simps add del: One_nat_def)
  note body = set_body_file [OF this]
  show "file_of (with_file f d n i c) j = (if j = i then Some (c, 1) else file_of f j)"
    and "lookup (with_file f d n i c) e m = (if e = d \<and> m = n then Some i else lookup f e m)"
    and "is_dir (with_file f d n i c) e = is_dir f e"
    and "in_use (with_file f d n i c) j = (j = i \<or> in_use f j)"
    and "paths (with_file f d n i c) = paths f"
    using assms di by (auto simp: with_file_def body fs_simps add simp del: One_nat_def)
  show "j \<noteq> i \<Longrightarrow> fs_stat (with_file f d n i c) j = fs_stat f j"
    by (simp add: with_file_def fs_stat_other fs_simps)
qed

section \<open>Worlds without interference\<close>

definition quiet :: "world \<Rightarrow> bool" where
  "quiet w \<longleftrightarrow> (\<forall>n f. env w n f = f)"

definition faulty :: "world \<Rightarrow> bool" where
  "faulty w \<longleftrightarrow> (\<exists>n. sched w n = Fault)"

definition follows :: "world \<Rightarrow> world \<Rightarrow> bool" where
  "follows w w' \<longleftrightarrow> env w' = env w \<and> sched w' = sched w \<and> rng w' = rng w \<and> newino w' = newino w"

lemma follows_refl [simp]: "follows w w"
  by (simp add: follows_def)

lemma follows_trans [trans]: "follows u v \<Longrightarrow> follows v w \<Longrightarrow> follows u w"
  by (simp add: follows_def)

lemma follows_quiet: "follows w w' \<Longrightarrow> quiet w' = quiet w"
  by (simp add: follows_def quiet_def)

lemma follows_faulty: "follows w w' \<Longrightarrow> faulty w' = faulty w"
  by (simp add: follows_def faulty_def)

lemma wp_sys:
  assumes "quiet w"
    and "\<And>a w'. follows w w' \<Longrightarrow>
           (case a of Inl e \<Rightarrow> disk w' = disk w \<and> (faulty w \<and> e = EIO \<or> g w (disk w) = Inl e)
            | Inr x \<Rightarrow> g w (disk w) = Inr (x, disk w')) \<Longrightarrow> Q a w'"
  shows "wp (sys g) Q w"
proof -
  have [simp]: "env w (clock w) (disk w) = disk w" using assms(1) by (simp add: quiet_def)
  show ?thesis
  proof (cases "sched w (clock w) = Fault")
    case e: True
    then have "faulty w" by (auto simp: faulty_def)
    with e show ?thesis
      by (auto simp: wp_def sys_def Let_def follows_def intro!: assms(2))
  next
    case False
    then have *: "run_state (sys g) w =
        (let w' = w\<lparr>clock := Suc (clock w)\<rparr> in
         case g w (disk w) of Inl e \<Rightarrow> (Inl e, w') | Inr (a, f') \<Rightarrow> (Inr a, w'\<lparr>disk := f'\<rparr>))"
      by (cases "sched w (clock w)") (auto simp: sys_def Let_def split: sum.splits prod.splits)
    show ?thesis
      by (auto simp: wp_def * Let_def follows_def split: sum.splits prod.splits intro!: assms(2))
  qed
qed

section \<open>Operations that only read\<close>

definition reads :: "'a io \<Rightarrow> (fs \<Rightarrow> 'a) \<Rightarrow> 'a set \<Rightarrow> bool" where
  "reads m g bad \<longleftrightarrow>
     (\<forall>w. quiet w \<longrightarrow>
        wp m (\<lambda>a w'. follows w w' \<and> disk w' = disk w \<and>
                     (a = g (disk w) \<or> faulty w \<and> a \<in> bad)) w)"

lemma readsI:
  assumes "\<And>w. quiet w \<Longrightarrow>
     wp m (\<lambda>a w'. follows w w' \<and> disk w' = disk w \<and> (a = g (disk w) \<or> faulty w \<and> a \<in> bad)) w"
  shows "reads m g bad"
  using assms by (simp add: reads_def)

lemma reads_wp:
  assumes "reads m g bad" "quiet w"
    and "\<And>a w'. follows w w' \<Longrightarrow> disk w' = disk w \<Longrightarrow> a = g (disk w) \<or> faulty w \<and> a \<in> bad
           \<Longrightarrow> Q a w'"
  shows "wp m Q w"
  using assms by (auto simp: reads_def elim!: wp_mono)

lemma reads_return [reads_intro]: "reads (ret a) (\<lambda>_. a) bad"
  by (simp add: reads_def)

text \<open>The same at one file system \<open>f\<close>, for programs whose later steps depend on what is there.\<close>

definition reads_at :: "fs \<Rightarrow> 'a io \<Rightarrow> 'a \<Rightarrow> 'a set \<Rightarrow> bool" where
  "reads_at f m v bad \<longleftrightarrow>
     (\<forall>w. quiet w \<longrightarrow> disk w = f \<longrightarrow>
        wp m (\<lambda>a w'. follows w w' \<and> disk w' = f \<and> (a = v \<or> faulty w \<and> a \<in> bad)) w)"

lemma reads_at_iff: "reads m g bad \<longleftrightarrow> (\<forall>f. reads_at f m (g f) bad)"
  by (auto simp: reads_def reads_at_def)

lemma reads_at_of: "reads m g bad \<Longrightarrow> reads_at f m (g f) bad"
  by (simp add: reads_at_iff)

lemma readsI_at: "(\<And>f. reads_at f m (g f) bad) \<Longrightarrow> reads m g bad"
  by (simp add: reads_at_iff)

lemma reads_at_wp:
  assumes "reads_at f m v bad" "quiet w" "disk w = f"
    and "\<And>a w'. follows w w' \<Longrightarrow> disk w' = f \<Longrightarrow> a = v \<or> faulty w \<and> a \<in> bad \<Longrightarrow> Q a w'"
  shows "wp m Q w"
  using assms by (auto simp: reads_at_def elim!: wp_mono)

lemma reads_at_ret: "a = v \<Longrightarrow> reads_at f (ret a) v bad"
  by (simp add: reads_at_def)

definition fails :: "fs \<Rightarrow> 'a io \<Rightarrow> 'a set \<Rightarrow> bool" where
  "fails f m bad \<longleftrightarrow> (\<exists>b \<in> bad. reads_at f m b bad)"

lemma fails_ret: "a \<in> bad \<Longrightarrow> fails f (ret a) bad"
  unfolding fails_def by (rule bexI [of _ a]) (simp_all add: reads_at_ret)

lemma reads_at_fails: "reads_at f m v bad \<Longrightarrow> v \<in> bad \<Longrightarrow> fails f m bad"
  by (auto simp: fails_def)

lemma reads_at_bind:
  assumes m: "reads_at f m v bad" and k: "reads_at f (k v) u bad'"
    and bad: "\<And>b. b \<in> bad \<Longrightarrow> fails f (k b) bad'"
  shows "reads_at f (m \<bind> k) u bad'"
  unfolding reads_at_def wp_bind
proof (intro allI impI)
  fix w assume q: "quiet w" and d: "disk w = f"
  let ?post = "\<lambda>a w'. follows w w' \<and> disk w' = f \<and> (a = u \<or> faulty w \<and> a \<in> bad')"
  show "wp m (\<lambda>a. wp (k a) ?post) w"
  proof (rule reads_at_wp [OF m q d])
    fix a w' assume w': "follows w w'" "disk w' = f" "a = v \<or> faulty w \<and> a \<in> bad"
    then have q': "quiet w'" using q by (simp add: follows_quiet)
    show "wp (k a) ?post w'"
    proof (cases "a = v")
      case True
      show ?thesis unfolding True
        by (rule reads_at_wp [OF k q' w'(2)]) (use w' in \<open>auto simp: follows_faulty intro: follows_trans\<close>)
    next
      case False
      then obtain b' where b': "b' \<in> bad'" "reads_at f (k a) b' bad'" and "faulty w"
        using w' bad unfolding fails_def by blast
      show ?thesis
        by (rule reads_at_wp [OF b'(2) q' w'(2)])
           (use w' b'(1) \<open>faulty w\<close> in \<open>auto intro: follows_trans\<close>)
    qed
  qed
qed

lemma reads_weaken: "reads m g bad \<Longrightarrow> bad \<subseteq> bad' \<Longrightarrow> g = g' \<Longrightarrow> reads m g' bad'"
  unfolding reads_def by (blast intro: wp_mono)

lemma reads_bind:
  assumes m: "reads m g bad" and f: "\<And>a. reads (f a) (h a) bad'"
    and bad: "\<And>a fs. a \<in> bad \<Longrightarrow> h a fs \<in> bad'"
  shows "reads (m \<bind> f) (\<lambda>fs. h (g fs) fs) bad'"
proof (rule readsI)
  fix w assume q: "quiet w"
  show "wp (m \<bind> f) (\<lambda>a w'. follows w w' \<and> disk w' = disk w \<and>
          (a = h (g (disk w)) (disk w) \<or> faulty w \<and> a \<in> bad')) w"
  proof (simp, rule reads_wp [OF m q])
    fix a w' assume w': "follows w w'" "disk w' = disk w" "a = g (disk w) \<or> faulty w \<and> a \<in> bad"
    then have "quiet w'" using q by (simp add: follows_quiet)
    then show "wp (f a) (\<lambda>a w'. follows w w' \<and> disk w' = disk w \<and>
          (a = h (g (disk w)) (disk w) \<or> faulty w \<and> a \<in> bad')) w'"
      by (rule reads_wp [OF f]) (use w' bad in \<open>auto simp: follows_faulty intro: follows_trans\<close>)
  qed
qed

lemma reads_bind':
  assumes "reads m g bad" "\<And>a. reads (f a) (h a) bad'"
    and "\<And>a fs. a \<in> bad \<Longrightarrow> h a fs \<in> bad'" and "\<And>fs. k fs = h (g fs) fs"
  shows "reads (m \<bind> f) k bad'"
proof -
  have "k = (\<lambda>fs. h (g fs) fs)" using assms(4) by (rule ext)
  then show ?thesis using reads_bind [OF assms(1-3)] by (simp only:)
qed

lemma reads_if:
  "(b \<Longrightarrow> reads m g bad) \<Longrightarrow> (\<not> b \<Longrightarrow> reads n h bad) \<Longrightarrow>
     reads (if b then m else n) (if b then g else h) bad"
  by simp

lemma reads_query [reads_intro]: "reads (query g) g {Inl EIO}"
  by (rule readsI, unfold query_def, rule wp_sys) (auto split: sum.splits)

lemma reads_andM [reads_intro]:
  "reads m g {False} \<Longrightarrow> reads n h {False} \<Longrightarrow> reads (andM m n) (\<lambda>f. g f \<and> h f) {False}"
  unfolding andM_def
  by (rule reads_bind' [where h = "\<lambda>b. if b then h else (\<lambda>_. False)"])
     (auto simp: reads_return)

lemma reads_openat2 [reads_intro]:
  "reads (sys_openat2 d n b) (\<lambda>f. fs_open f d n b) {Inl EIO}"
  by (simp add: sys_openat2_def reads_query)

lemma reads_open_path [reads_intro]:
  "reads (sys_open_path p) (\<lambda>f. fs_open_path f p) {Inl EIO}"
  by (simp add: sys_open_path_def reads_query)

lemma reads_fstat [reads_intro]: "reads (sys_fstat i) (\<lambda>f. fs_stat f i) {Inl EIO}"
  by (simp add: sys_fstat_def reads_query)

lemma reads_fstatat [reads_intro]: "reads (sys_fstatat d n) (\<lambda>f. fs_statat f d n) {Inl EIO}"
  by (simp add: sys_fstatat_def reads_query)

lemma reads_dup [reads_intro]:
  "reads (sys_dup i) (\<lambda>f. if in_use f i then Inr i else Inl EBADF) {Inl EIO}"
  by (rule reads_weaken [OF reads_query [of "\<lambda>f. if inodes f i = None then Inl EBADF else Inr i",
        folded sys_dup_def]]) (auto simp: in_use_def fun_eq_iff)

lemma reads_fsync [reads_intro]:
  "reads (sys_fsync i) (\<lambda>f. if in_use f i then Inr () else Inl EBADF) {Inl EIO}"
  by (rule reads_weaken [OF reads_query [of "\<lambda>f. if inodes f i = None then Inl EBADF else Inr ()",
        folded sys_fsync_def]]) (auto simp: in_use_def fun_eq_iff)

text \<open>A read may be short, so its result is a prefix, empty only at the end of the file.\<close>

lemma wp_pread_file:
  assumes "quiet w" and content: "file_of (disk w) i = Some (c, n)"
    and "\<And>w'. follows w w' \<Longrightarrow> disk w' = disk w \<Longrightarrow> faulty w \<Longrightarrow> Q (Inl EIO) w'"
    and "\<And>j w'. follows w w' \<Longrightarrow> disk w' = disk w \<Longrightarrow> j \<le> k \<Longrightarrow> (0 < k \<longrightarrow> 0 < j) \<Longrightarrow>
           Q (Inr (take j (drop off c))) w'"
  shows "wp (sys_pread i k off) Q w"
proof -
  have pread: "fs_pread (disk w) i j off = Inr (take j (drop off c))" for j
    using content by (auto simp: fs_pread_def file_of_iff)
  have t: "transfer w k \<le> k" "0 < k \<longrightarrow> 0 < transfer w k"
    by (auto simp: transfer_def split: fault.splits)
  show ?thesis
    unfolding sys_pread_def
    by (rule wp_sys [OF assms(1)]) (auto simp: pread t split: sum.splits intro!: assms(3,4))
qed

lemma wp_pread_no_file:
  assumes "quiet w" and content: "file_of (disk w) i = None"
    and "\<And>e w'. follows w w' \<Longrightarrow> disk w' = disk w \<Longrightarrow> Q (Inl e) w'"
  shows "wp (sys_pread i k off) Q w"
proof -
  have pread: "\<exists>e. fs_pread (disk w) i j off = Inl e" for j
    using content by (auto simp: fs_pread_def file_of_def split: option.splits content.splits)
  then obtain e where e: "fs_pread (disk w) i (transfer w k) off = Inl e" by blast
  show ?thesis
    unfolding sys_pread_def
    by (rule wp_sys [OF assms(1)]) (auto simp: e split: sum.splits intro!: assms(3))
qed

lemma fails_bind:
  assumes "fails f m bad" "\<And>b. b \<in> bad \<Longrightarrow> fails f (k b) bad'"
  shows "fails f (m \<bind> k) bad'"
proof -
  from assms(1) obtain b where b: "b \<in> bad" "reads_at f m b bad" by (auto simp: fails_def)
  from assms(2) [OF b(1)] obtain c where c: "c \<in> bad'" "reads_at f (k b) c bad'"
    by (auto simp: fails_def)
  have "reads_at f (m \<bind> k) c bad'"
    by (rule reads_at_bind [where k = k, OF b(2) c(2)]) (rule assms(2))
  with c(1) show ?thesis by (auto simp: fails_def)
qed

lemma reads_at_pread_end:
  "file_of f i = Some (c, n) \<Longrightarrow> length c \<le> off \<Longrightarrow> reads_at f (sys_pread i k off) (Inr []) {Inl EIO}"
  unfolding reads_at_def by (intro allI impI, rule wp_pread_file) auto

lemma reads_at_pread_no_file:
  "file_of f i = None \<Longrightarrow> \<exists>e. reads_at f (sys_pread i k off) (Inl e) {Inl EIO}"
proof -
  assume "file_of f i = None"
  then have "fs_pread f i j off = Inl (if in_use f i then EISDIR else EBADF)" for j
    by (auto simp: fs_pread_def file_of_def in_use_def split: option.splits content.splits)
  then have "reads_at f (sys_pread i k off) (Inl (if in_use f i then EISDIR else EBADF)) {Inl EIO}"
    unfolding reads_at_def sys_pread_def
    by (intro allI impI, intro wp_sys) (auto split: sum.splits)
  then show ?thesis by blast
qed

section \<open>Rules for the calls that write\<close>

lemma set_body_same: "file_of f i = Some (c, k) \<Longrightarrow> set_body f i (Regular c) = f"
  by (auto simp: file_of_iff set_body_def fun_upd_idem)

lemma wp_create:
  assumes "quiet w"
    and "\<And>e w'. follows w w' \<Longrightarrow> disk w' = disk w \<Longrightarrow> Q (Inl e) w'"
    and "\<And>i w'. follows w w' \<Longrightarrow> is_dir (disk w) d \<Longrightarrow> lookup (disk w) d n = None \<Longrightarrow>
           \<not> in_use (disk w) i \<Longrightarrow> device i = device d \<Longrightarrow>
           disk w' = with_file (disk w) d n i [] \<Longrightarrow> Q (Inr i) w'"
  shows "wp (sys_create d n) Q w"
  unfolding sys_create_def
proof (rule wp_sys [OF assms(1)])
  fix a w' assume w': "follows w w'"
    and a: "case a of Inl e \<Rightarrow> disk w' = disk w \<and> (faulty w \<and> e = EIO \<or>
              fs_new (disk w) d n (new_id w d) (Regular []) 1 = Inl e)
            | Inr x \<Rightarrow> fs_new (disk w) d n (new_id w d) (Regular []) 1 = Inr (x, disk w')"
  show "Q a w'"
  proof (cases a)
    case (Inl e)
    with a assms(2) [OF w'] show ?thesis by simp
  next
    case (Inr i)
    then have "fs_new (disk w) d n (new_id w d) (Regular []) 1 = Inr (i, disk w')" using a by simp
    then have "is_dir (disk w) d" "lookup (disk w) d n = None" "\<not> in_use (disk w) i"
        "device i = device d" "disk w' = link (add_node (disk w) i (Regular []) 1) d n i"
      by (auto simp: fs_new_def is_dir_def lookup_def in_use_def new_id_def split: option.splits)
    moreover from this have "disk w' = with_file (disk w) d n i []"
      unfolding with_file_def
      by (simp add: set_body_same [where k = 1] fs_simps add_node_views [where c = "[]"])
    ultimately have "Q (Inr i) w'" by (intro assms(3) [OF w'])
    then show ?thesis using Inr by simp
  qed
qed

lemma set_body_twice: "set_body (set_body f i b) i b' = set_body f i b'"
  by (auto simp: set_body_def split: option.splits)

lemma set_body_with_file: "set_body (with_file f d n i c) i (Regular c') = with_file f d n i c'"
  by (simp add: with_file_def set_body_twice)

lemma wp_unlinkat:
  assumes "quiet w"
    and "\<And>e w'. follows w w' \<Longrightarrow> disk w' = disk w \<Longrightarrow>
           faulty w \<and> e = EIO \<or> fs_unlink (disk w) d n b = Inl e \<Longrightarrow> Q (Inl e) w'"
    and "\<And>w'. follows w w' \<Longrightarrow> fs_unlink (disk w) d n b = Inr ((), disk w') \<Longrightarrow> Q (Inr ()) w'"
  shows "wp (sys_unlinkat d n b) Q w"
  unfolding sys_unlinkat_def by (rule wp_sys [OF assms(1)]) (auto split: sum.splits intro: assms(2,3))

lemma wp_rename:
  assumes "quiet w"
    and "\<And>e w'. follows w w' \<Longrightarrow> disk w' = disk w \<Longrightarrow>
           faulty w \<and> e = EIO \<or> fs_rename (disk w) d n d' n' mode = Inl e \<Longrightarrow> Q (Inl e) w'"
    and "\<And>w'. follows w w' \<Longrightarrow> fs_rename (disk w) d n d' n' mode = Inr ((), disk w') \<Longrightarrow> Q (Inr ()) w'"
  shows "wp (sys_rename d n d' n' mode) Q w"
  unfolding sys_rename_def by (rule wp_sys [OF assms(1)]) (auto split: sum.splits intro: assms(2,3))

lemma wp_getrandom:
  assumes "\<And>r w'. follows w w' \<Longrightarrow> disk w' = disk w \<Longrightarrow> Q r w'"
  shows "wp (sys_getrandom k) Q w"
  by (auto simp: wp_def sys_getrandom_def follows_def split: fault.splits intro!: assms)

lemma fs_unlink_file:
  assumes "lookup f d n = Some i" "file_of f i = Some (c, k)"
  shows "fs_unlink f d n False = Inr ((), set_nlink (unlink f d n) i (k - 1))"
  using assms by (auto simp: fs_unlink_def file_of_iff lookup_def split: option.splits)

lemma fs_unlink_none: "lookup f d n = None \<Longrightarrow> is_dir f d \<Longrightarrow> fs_unlink f d n b = Inl ENOENT"
  by (auto simp: fs_unlink_def is_dir_def)

lemma fs_rename_onto_nothing:
  assumes "lookup f d n = Some i" "lookup f d' n' = None" "is_dir f d'" "device d = device d'" "i \<noteq> d'"
    and "mode = Replace \<or> mode = Noreplace"
  shows "fs_rename f d n d' n' mode = Inr ((), link (unlink f d n) d' n' i)"
  using assms
  by (auto simp: fs_rename_def fs_rename_replace_def is_dir_def dest: lookup_is_dir [unfolded is_dir_def])

lemma fs_rename_onto_file:
  assumes "lookup f d n = Some i" "file_of f i = Some (c, k)" "lookup f d' n' = Some j"
    "file_of f j = Some (c', k')" "device d = device d'" "i \<noteq> j"
  shows "fs_rename f d n d' n' Replace = Inr ((), set_nlink (link (unlink f d n) d' n' i) j (k' - 1))"
proof -
  have "is_dir f d" "is_dir f d'" using assms lookup_is_dir by blast+
  moreover have "i \<noteq> d'" using assms(2) \<open>is_dir f d'\<close> file_not_dir by blast
  ultimately show ?thesis
    using assms by (auto simp: fs_rename_def fs_rename_replace_def is_dir_def file_of_iff)
qed

lemma fs_rename_noreplace_existing:
  "lookup f d' n' = Some j \<Longrightarrow> \<exists>e. fs_rename f d n d' n' Noreplace = Inl e"
  by (auto simp: fs_rename_def split: option.splits)

lemma fs_rename_exchange:
  assumes "lookup f d n = Some i" "lookup f d' n' = Some j" "device d = device d'" "i \<noteq> d'"
  shows "fs_rename f d n d' n' Exchange = Inr ((), link (link f d n j) d' n' i)"
  using assms lookup_is_dir [of f d n i] lookup_is_dir [of f d' n' j]
  by (auto simp: fs_rename_def is_dir_def)

end
