(* ===== verification/Workspace_Nodes.thy ===== *)
theory Workspace_Nodes
  imports Workspace_Paths Syscalls
begin

text \<open>
  The handles of the Linux workspace, \<^verbatim>\<open>linux/runner/session_workspace_common.cc\<close>: opening and
  checking nodes, hashing and verifying files, the context of a call (root, sessions, session),
  the walk to the parent directory of a path, the hidden directory, exclusive writes and renames.
  A file descriptor is the identity of the inode it is open on. Definitions follow the order of
  the source; then, for every operation that only reads, the function of the file system it
  computes (\<open>fs_\<dots>\<close>) and the lemma that it does.
\<close>

section \<open>Data\<close>

definition kMaxFileBytes :: nat where "kMaxFileBytes = 1024 * 1024"
definition kMaxListEntries :: nat where "kMaxListEntries = 500"

record Node =
  nd_fd :: Identity
  nd_info :: stat
  nd_id :: Identity

record Context =
  root :: Node
  sessions :: Node
  session :: Node
  parts :: "string list"

section \<open>Operations\<close>

definition Same :: "Identity \<Rightarrow> Identity \<Rightarrow> bool" where
  "Same a b \<longleftrightarrow> device a = device b \<and> inode a = inode b"

definition Token :: "Identity \<Rightarrow> string" where
  "Token i = decimal (unat (device i)) @ '':'' @ decimal (unat (inode i))"

definition Inspect :: "errno + Identity \<Rightarrow> filetype \<Rightarrow> Node option io" where
  "Inspect fd ty = (case fd of
     Inl _ \<Rightarrow> ret None
   | Inr i \<Rightarrow> do {
       r \<leftarrow> sys_fstat i;
       (case r of
          Inl _ \<Rightarrow> ret None
        | Inr s \<Rightarrow> ret (if st_type s \<noteq> ty \<or> (ty = S_IFREG \<and> st_nlink s \<noteq> 1) then None
                        else Some \<lparr>nd_fd = i, nd_info = s, nd_id = st_id s\<rparr>)) })"

definition OpenDirAt :: "Identity \<Rightarrow> string \<Rightarrow> Node option io" where
  "OpenDirAt p n = do { fd \<leftarrow> sys_openat2 p n True; Inspect fd S_IFDIR }"

definition OpenFileAt :: "Identity \<Rightarrow> string \<Rightarrow> Node option io" where
  "OpenFileAt p n = do { fd \<leftarrow> sys_openat2 p n False; Inspect fd S_IFREG }"

definition Stable :: "Node \<Rightarrow> filetype \<Rightarrow> bool io" where
  "Stable n ty = do {
     r \<leftarrow> sys_fstat (nd_fd n);
     ret (case r of
            Inl _ \<Rightarrow> False
          | Inr s \<Rightarrow> st_type s = ty \<and> (ty = S_IFDIR \<or> st_nlink s = 1) \<and> Same (st_id s) (nd_id n)) }"

definition Duplicate :: "Node \<Rightarrow> Node option io" where
  "Duplicate n = do {
     fd \<leftarrow> sys_dup (nd_fd n);
     r \<leftarrow> Inspect fd S_IFDIR;
     ret (case r of None \<Rightarrow> None | Some m \<Rightarrow> if Same (nd_id m) (nd_id n) then Some m else None) }"

definition OpenRoot :: "FlValue \<Rightarrow> (string + Node) io" where
  "OpenRoot a = (case StringArg a ''root'' of
     None \<Rightarrow> ret (Inl ''unsafe_root'')
   | Some path \<Rightarrow>
       if path = [] \<or> hd path \<noteq> CHR ''/'' then ret (Inl ''unsafe_root'')
       else do {
         fd \<leftarrow> sys_open_path path;
         r \<leftarrow> Inspect fd S_IFDIR;
         ret (case r of None \<Rightarrow> Inl ''unsafe_root'' | Some n \<Rightarrow> Inr n) })"

text \<open>\<^verbatim>\<open>mkdirat(...) && errno != EEXIST\<close> is the failure of this call.\<close>

definition make_or_keep :: "Identity \<Rightarrow> string \<Rightarrow> bool io" where
  "make_or_keep d n = do {
     r \<leftarrow> sys_mkdirat d n;
     ret (case r of Inl e \<Rightarrow> e = EEXIST | Inr _ \<Rightarrow> True) }"

definition OpenSessionDirs :: "bool \<Rightarrow> Node \<Rightarrow> string \<Rightarrow> string list \<Rightarrow> (string + Context) io" where
  "OpenSessionDirs create r key ps = do {
     made \<leftarrow> (if create then make_or_keep (nd_fd r) ''sessions'' else ret True);
     if \<not> made then ret (Inl ''mutation_indeterminate'')
     else do {
       ss \<leftarrow> OpenDirAt (nd_fd r) ''sessions'';
       (case ss of
          None \<Rightarrow> ret (Inl ''not_found'')
        | Some dirs \<Rightarrow>
            if device (nd_id dirs) \<noteq> device (nd_id r) then ret (Inl ''not_found'')
            else do {
              made2 \<leftarrow> (if create then make_or_keep (nd_fd dirs) key else ret True);
              if \<not> made2 then ret (Inl ''mutation_indeterminate'')
              else do {
                se \<leftarrow> OpenDirAt (nd_fd dirs) key;
                (case se of
                   None \<Rightarrow> ret (Inl ''not_found'')
                 | Some own \<Rightarrow>
                     if device (nd_id own) \<noteq> device (nd_id r) then ret (Inl ''not_found'')
                     else do {
                       ok \<leftarrow> andM (Stable r S_IFDIR) (Stable dirs S_IFDIR);
                       ret (if ok then Inr \<lparr>root = r, sessions = dirs, session = own, parts = ps\<rparr>
                            else Inl ''metadata_changed'') }) } }) } }"

definition context_args :: "lib \<Rightarrow> FlValue \<Rightarrow> (string \<times> string list \<times> string) option" where
  "context_args L a =
     (case (StringArg a ''sessionKey'', StringArg a ''path'', StringArg a ''rootIdentity'') of
        (Some key, Some path, Some bound) \<Rightarrow>
          (case (ParseRelative L key False, ParseRelative L path True) of
             (Some [k], Some ps) \<Rightarrow> Some (k, ps, bound)
           | _ \<Rightarrow> None)
      | _ \<Rightarrow> None)"

text \<open>The error of a failed \<^verbatim>\<open>OpenRoot\<close> is overwritten by \<^verbatim>\<open>invalid_argument\<close>, as in the source.\<close>

definition OpenContext :: "lib \<Rightarrow> FlValue \<Rightarrow> bool \<Rightarrow> (string + Context) io" where
  "OpenContext L a create =
     (case context_args L a of
        None \<Rightarrow> ret (Inl ''invalid_argument'')
      | Some (key, ps, bound) \<Rightarrow> do {
          r \<leftarrow> OpenRoot a;
          (case r of
             Inl _ \<Rightarrow> ret (Inl ''invalid_argument'')
           | Inr rt \<Rightarrow>
               if Token (nd_id rt) \<noteq> bound then ret (Inl ''workspace_binding_changed'')
               else OpenSessionDirs create rt key ps) })"

fun open_parents :: "64 word \<Rightarrow> Node \<Rightarrow> string list \<Rightarrow> Node option io" where
  "open_parents dev cur [] = ret (Some cur)"
| "open_parents dev cur (n # ns) = do {
     r \<leftarrow> OpenDirAt (nd_fd cur) n;
     (case r of
        None \<Rightarrow> ret None
      | Some nxt \<Rightarrow>
          if device (nd_id nxt) \<noteq> dev then ret None
          else do {
            ok \<leftarrow> Stable cur S_IFDIR;
            if ok then open_parents dev nxt ns else ret None }) }"

definition OpenParent :: "Context \<Rightarrow> (string + Node \<times> string) io" where
  "OpenParent c =
     (if parts c = [] then ret (Inl ''invalid_argument'')
      else do {
        d \<leftarrow> Duplicate (session c);
        (case d of
           None \<Rightarrow> ret (Inl ''metadata_changed'')
         | Some cur \<Rightarrow> do {
             p \<leftarrow> open_parents (device (nd_id (root c))) cur (butlast (parts c));
             ret (case p of
                    None \<Rightarrow> Inl ''parent_missing''
                  | Some n \<Rightarrow> Inr (n, last (parts c))) }) })"

definition MissingAt :: "Identity \<Rightarrow> string \<Rightarrow> bool io" where
  "MissingAt p n = do { r \<leftarrow> sys_fstatat p n; ret (r = Inl ENOENT) }"

function hash_loop :: "Identity \<Rightarrow> nat \<Rightarrow> nat \<Rightarrow> byte list \<Rightarrow> byte list option io" where
  "hash_loop i sz pos acc =
     (if pos < sz then do {
        r \<leftarrow> sys_pread i (min 65536 (sz - pos)) pos;
        (case r of
           Inl _ \<Rightarrow> ret None
         | Inr b \<Rightarrow> if b = [] then ret None
                    else hash_loop i sz (pos + length b) (acc @ b)) }
      else ret (Some acc))"
  by pat_completeness auto
termination
  by (relation "measure (\<lambda>(i, sz, pos, acc). sz - pos)") (auto intro!: diff_less_mono2)

declare hash_loop.simps [simp del]

definition HashExact :: "lib \<Rightarrow> Node \<Rightarrow> (string \<times> nat) option io" where
  "HashExact L n = do {
     before \<leftarrow> sys_fstat (nd_fd n);
     (case before of
        Inl _ \<Rightarrow> ret None
      | Inr b \<Rightarrow>
          if st_size b < 0 \<or> st_size b > int kMaxFileBytes then ret None
          else do {
            c \<leftarrow> hash_loop (nd_fd n) (nat (st_size b)) 0 [];
            (case c of
               None \<Rightarrow> ret None
             | Some bytes \<Rightarrow> do {
                 extra \<leftarrow> sys_pread (nd_fd n) 1 (nat (st_size b));
                 if extra \<noteq> Inr [] then ret None
                 else do {
                   after \<leftarrow> sys_fstat (nd_fd n);
                   ret (case after of
                          Inl _ \<Rightarrow> None
                        | Inr a \<Rightarrow>
                            if st_size a \<noteq> st_size b \<or> \<not> Same (st_id a) (st_id b) then None
                            else Some (sha256 L bytes, nat (st_size b))) } }) }) }"

definition Verify :: "lib \<Rightarrow> Node \<Rightarrow> string \<Rightarrow> string \<Rightarrow> bool io" where
  "Verify L n ident hash =
     (if Token (nd_id n) \<noteq> ident \<or> length hash \<noteq> 64 then ret False
      else do {
        r \<leftarrow> HashExact L n;
        (case r of
           None \<Rightarrow> ret False
         | Some (actual, _) \<Rightarrow> if actual = hash then Stable n S_IFREG else ret False) })"

definition FileIdentity :: "Node \<Rightarrow> string \<Rightarrow> string \<Rightarrow> Node option io" where
  "FileIdentity p name ident = do {
     r \<leftarrow> OpenFileAt (nd_fd p) name;
     (case r of
        None \<Rightarrow> ret None
      | Some n \<Rightarrow>
          if Token (nd_id n) \<noteq> ident then ret None
          else do { ok \<leftarrow> Stable n S_IFREG; ret (if ok then Some n else None) }) }"

definition EnsureHidden :: "Context \<Rightarrow> (string + Node) io" where
  "EnsureHidden c = do {
     made \<leftarrow> make_or_keep (nd_fd (session c)) ''.mobilka-workspace'';
     if \<not> made then ret (Inl ''mutation_indeterminate'')
     else do {
       h \<leftarrow> OpenDirAt (nd_fd (session c)) ''.mobilka-workspace'';
       (case h of
          None \<Rightarrow> ret (Inl ''unsafe_path'')
        | Some n \<Rightarrow> do {
            ok \<leftarrow> Stable (session c) S_IFDIR;
            ret (if ok then Inr n else Inl ''unsafe_path'') }) } }"

function write_loop :: "Identity \<Rightarrow> nat \<Rightarrow> byte list \<Rightarrow> bool io" where
  "write_loop i pos bs =
     (if bs = [] then ret True
      else do {
        r \<leftarrow> sys_write i pos bs;
        (case r of
           Inl _ \<Rightarrow> ret False
         | Inr x \<Rightarrow> if x = 0 then ret False else write_loop i (pos + x) (drop x bs)) })"
  by pat_completeness auto
termination
  by (relation "measure (\<lambda>(i, pos, bs). length bs)") auto

declare write_loop.simps [simp del]

definition WriteExact :: "lib \<Rightarrow> Node \<Rightarrow> string \<Rightarrow> byte list \<Rightarrow> (Node \<times> string) option io" where
  "WriteExact L p n bs =
     (if length bs > kMaxFileBytes then ret None
      else do {
        fd \<leftarrow> sys_create (nd_fd p) n;
        out \<leftarrow> Inspect fd S_IFREG;
        (case out of
           None \<Rightarrow> ret None
         | Some nd \<Rightarrow> do {
             ok \<leftarrow> write_loop (nd_fd nd) 0 bs;
             if \<not> ok then ret None
             else do {
               s \<leftarrow> sys_fsync (nd_fd nd);
               (case s of
                  Inl _ \<Rightarrow> ret None
                | Inr _ \<Rightarrow> do {
                    h \<leftarrow> HashExact L nd;
                    ret (map_option (\<lambda>x. (nd, fst x)) h) }) } }) })"

definition RenameAt2 :: "Identity \<Rightarrow> string \<Rightarrow> Identity \<Rightarrow> string \<Rightarrow> rename_mode \<Rightarrow> bool io" where
  "RenameAt2 op oldn np newn mode = do {
     r \<leftarrow> sys_rename op oldn np newn mode;
     ret (r = Inr ()) }"

definition synced :: "Identity \<Rightarrow> bool io" where
  "synced i = do { r \<leftarrow> sys_fsync i; ret (r = Inr ()) }"

end
