(* ===== verification/Node_Specs.thy ===== *)
theory Node_Specs
  imports Workspace_Nodes
begin

text \<open>
  What the reading operations of \<open>Workspace_Nodes\<close> compute. \<open>fs_OpenFileAt f d n\<close> and its kin are
  functions of the file system alone; \<open>reads\<close> lemmas say that in a world without interference the
  operation returns that value and changes nothing, and that when system calls fail it can only
  return less: no node, no hash, "not verified", never a node or a hash that is not there.
\<close>

section \<open>Identities\<close>

lemma Same_iff [simp]: "Same a b \<longleftrightarrow> a = b"
  by (auto simp: Same_def)

lemma Token_inject [simp]: "Token a = Token b \<longleftrightarrow> a = b"
proof
  assume "Token a = Token b"
  then have "decimal (unat (device a)) = decimal (unat (device b)) \<and>
             decimal (unat (inode a)) = decimal (unat (inode b))"
    unfolding Token_def by (simp add: append_sep_inject decimal_no_colon)
  then show "a = b" by (cases a; cases b) (simp add: word_unat_eq_iff)
qed simp

section \<open>Nodes\<close>

definition fs_inspect :: "fs \<Rightarrow> filetype \<Rightarrow> errno + Identity \<Rightarrow> Node option" where
  "fs_inspect f ty fd = (case fd of
     Inl _ \<Rightarrow> None
   | Inr i \<Rightarrow> (case fs_stat f i of
        Inl _ \<Rightarrow> None
      | Inr s \<Rightarrow> if st_type s \<noteq> ty \<or> (ty = S_IFREG \<and> st_nlink s \<noteq> 1) then None
                 else Some \<lparr>nd_fd = i, nd_info = s, nd_id = st_id s\<rparr>))"

definition fs_OpenDirAt :: "fs \<Rightarrow> Identity \<Rightarrow> string \<Rightarrow> Node option" where
  "fs_OpenDirAt f p n = fs_inspect f S_IFDIR (fs_open f p n True)"

definition fs_OpenFileAt :: "fs \<Rightarrow> Identity \<Rightarrow> string \<Rightarrow> Node option" where
  "fs_OpenFileAt f p n = fs_inspect f S_IFREG (fs_open f p n False)"

definition fs_Stable :: "fs \<Rightarrow> Node \<Rightarrow> filetype \<Rightarrow> bool" where
  "fs_Stable f n ty = (case fs_stat f (nd_fd n) of
     Inl _ \<Rightarrow> False
   | Inr s \<Rightarrow> st_type s = ty \<and> (ty = S_IFDIR \<or> st_nlink s = 1) \<and> Same (st_id s) (nd_id n))"

definition fs_Duplicate :: "fs \<Rightarrow> Node \<Rightarrow> Node option" where
  "fs_Duplicate f n =
     (case fs_inspect f S_IFDIR (if in_use f (nd_fd n) then Inr (nd_fd n) else Inl EBADF) of
        None \<Rightarrow> None | Some m \<Rightarrow> if Same (nd_id m) (nd_id n) then Some m else None)"

definition fs_MissingAt :: "fs \<Rightarrow> Identity \<Rightarrow> string \<Rightarrow> bool" where
  "fs_MissingAt f p n \<longleftrightarrow> fs_statat f p n = Inl ENOENT"

lemma reads_pure:
  assumes "reads m g bad" "\<And>a. f a = ret (h a)" "\<And>a. a \<in> bad \<Longrightarrow> h a \<in> bad'"
  shows "reads (m \<bind> f) (\<lambda>fs. h (g fs)) bad'"
  by (rule reads_bind [where h = "\<lambda>a _. h a", OF assms(1)]) (auto simp: assms reads_return)

lemma Inspect_Inl [simp]: "Inspect (Inl e) ty = ret None"
  by (simp add: Inspect_def)

lemma fs_inspect_Inl [simp]: "fs_inspect f ty (Inl e) = None"
  by (simp add: fs_inspect_def)

lemma reads_Inspect [reads_intro]: "reads (Inspect fd ty) (\<lambda>f. fs_inspect f ty fd) {None}"
proof (cases fd)
  case (Inl e)
  then show ?thesis by (simp add: Inspect_def fs_inspect_def reads_return)
next
  case (Inr i)
  show ?thesis
    unfolding Inspect_def fs_inspect_def Inr sum.case
    by (rule reads_pure [OF reads_fstat]) (auto split: sum.splits)
qed

lemma reads_OpenDirAt [reads_intro]: "reads (OpenDirAt p n) (\<lambda>f. fs_OpenDirAt f p n) {None}"
  unfolding OpenDirAt_def fs_OpenDirAt_def
  by (rule reads_bind' [where h = "\<lambda>fd f. fs_inspect f S_IFDIR fd", OF reads_openat2 reads_Inspect])
     (auto simp: fs_inspect_def)

lemma reads_OpenFileAt [reads_intro]: "reads (OpenFileAt p n) (\<lambda>f. fs_OpenFileAt f p n) {None}"
  unfolding OpenFileAt_def fs_OpenFileAt_def
  by (rule reads_bind' [where h = "\<lambda>fd f. fs_inspect f S_IFREG fd", OF reads_openat2 reads_Inspect])
     (auto simp: fs_inspect_def)

lemma reads_Stable [reads_intro]: "reads (Stable n ty) (\<lambda>f. fs_Stable f n ty) {False}"
  unfolding Stable_def fs_Stable_def
  by (rule reads_pure [OF reads_fstat refl]) auto

lemma reads_Duplicate [reads_intro]: "reads (Duplicate n) (\<lambda>f. fs_Duplicate f n) {None}"
  unfolding Duplicate_def fs_Duplicate_def
proof (rule reads_bind' [where h = "\<lambda>fd f. case fs_inspect f S_IFDIR fd of
      None \<Rightarrow> None | Some m \<Rightarrow> if Same (nd_id m) (nd_id n) then Some m else None", OF reads_dup])
  show "reads (Inspect fd S_IFDIR \<bind> (\<lambda>r. ret (case r of None \<Rightarrow> None
          | Some m \<Rightarrow> if Same (nd_id m) (nd_id n) then Some m else None)))
        (\<lambda>f. case fs_inspect f S_IFDIR fd of None \<Rightarrow> None
          | Some m \<Rightarrow> if Same (nd_id m) (nd_id n) then Some m else None) {None}" for fd
    by (rule reads_pure [OF reads_Inspect refl]) auto
qed (auto simp: fs_inspect_def)

lemma reads_MissingAt [reads_intro]: "reads (MissingAt p n) (\<lambda>f. fs_MissingAt f p n) {False}"
  unfolding MissingAt_def fs_MissingAt_def
  by (rule reads_pure [OF reads_fstatat refl]) auto

section \<open>Hashing and verifying\<close>

definition fs_HashExact :: "lib \<Rightarrow> fs \<Rightarrow> Identity \<Rightarrow> (string \<times> nat) option" where
  "fs_HashExact L f i = (case file_of f i of
     Some (c, _) \<Rightarrow> if length c \<le> kMaxFileBytes then Some (sha256 L c, length c) else None
   | None \<Rightarrow> None)"

definition fs_Verify :: "lib \<Rightarrow> fs \<Rightarrow> Node \<Rightarrow> string \<Rightarrow> string \<Rightarrow> bool" where
  "fs_Verify L f n ident hash \<longleftrightarrow>
     Token (nd_id n) = ident \<and> length hash = 64 \<and>
     (case fs_HashExact L f (nd_fd n) of None \<Rightarrow> False | Some (h, _) \<Rightarrow> h = hash) \<and>
     fs_Stable f n S_IFREG"

definition fs_FileIdentity :: "fs \<Rightarrow> Node \<Rightarrow> string \<Rightarrow> string \<Rightarrow> Node option" where
  "fs_FileIdentity f p name ident = (case fs_OpenFileAt f (nd_fd p) name of
     None \<Rightarrow> None
   | Some n \<Rightarrow> if Token (nd_id n) = ident \<and> fs_Stable f n S_IFREG then Some n else None)"

text \<open>
  The loops that read a file into a buffer (\<^verbatim>\<open>HashExact\<close>, \<^verbatim>\<open>LoadOperationState\<close>, the backup copy)
  ask for different amounts at a time, \<open>chunk\<close>; what they collect is the file's bytes however the
  reads are cut up.
\<close>

locale reading_loop =
  fixes loop :: "Identity \<Rightarrow> nat \<Rightarrow> nat \<Rightarrow> byte list \<Rightarrow> byte list option io"
    and chunk :: "nat \<Rightarrow> nat"
  assumes loop: "loop i sz pos acc =
     (if pos < sz then do {
        r \<leftarrow> sys_pread i (chunk (sz - pos)) pos;
        (case r of
           Inl _ \<Rightarrow> ret None
         | Inr b \<Rightarrow> if b = [] then ret None else loop i sz (pos + length b) (acc @ b)) }
      else ret (Some acc))"
    and chunk: "0 < k \<Longrightarrow> 0 < chunk k \<and> chunk k \<le> k"
begin

lemma wp_loop:
  assumes "quiet w" "file_of (disk w) i = Some (c, k)" "pos \<le> length c" "acc = take pos c"
    and "\<And>r w'. follows w w' \<Longrightarrow> disk w' = disk w \<Longrightarrow> r = Some c \<or> faulty w \<and> r = None \<Longrightarrow> Q r w'"
  shows "wp (loop i (length c) pos acc) Q w"
  using assms
proof (induction "length c - pos" arbitrary: w pos acc rule: less_induct)
  case less
  note prems = less.prems
  show ?case
  proof (cases "pos < length c")
    case False
    with prems show ?thesis by (subst loop) simp
  next
    case True
    let ?next = "\<lambda>r. case r of Inl e \<Rightarrow> ret None | Inr b \<Rightarrow> if b = [] then ret None
                     else loop i (length c) (pos + length b) (acc @ b)"
    have "wp (sys_pread i (chunk (length c - pos)) pos) (\<lambda>r. wp (?next r) Q) w"
    proof (rule wp_pread_file [OF prems(1,2)])
      fix w' assume "follows w w'" "disk w' = disk w" "faulty w"
      then show "wp (?next (Inl EIO)) Q w'" by (simp add: prems(5))
    next
      fix j w'
      assume w': "follows w w'" "disk w' = disk w"
        and j: "j \<le> chunk (length c - pos)" "0 < chunk (length c - pos) \<longrightarrow> 0 < j"
      have j': "0 < j" "j \<le> length c - pos" using j chunk [of "length c - pos"] True by auto
      then have b: "take j (drop pos c) \<noteq> []" and len: "length (take j (drop pos c)) = j"
        using True by auto
      have "wp (loop i (length c) (pos + j) (acc @ take j (drop pos c))) Q w'"
      proof (rule less.hyps)
        show "length c - (pos + j) < length c - pos" using True j' by simp
        show "quiet w'" "file_of (disk w') i = Some (c, k)"
          using w' prems by (simp_all add: follows_quiet)
        show "pos + j \<le> length c" using j' True by auto
        show "acc @ take j (drop pos c) = take (pos + j) c"
          using prems(4) by (simp add: take_add)
        show "Q r w''" if "follows w' w''" "disk w'' = disk w'" "r = Some c \<or> faulty w' \<and> r = None"
          for r w'' using that w' by (intro prems(5)) (auto intro: follows_trans simp: follows_faulty)
      qed
      with b len show "wp (?next (Inr (take j (drop pos c)))) Q w'" by simp
    qed
    then show ?thesis using True by (subst loop) simp
  qed
qed

lemma reads_at_loop:
  "file_of f i = Some (c, k) \<Longrightarrow> reads_at f (loop i (length c) 0 []) (Some c) {None}"
  unfolding reads_at_def by (intro allI impI, rule wp_loop) auto

lemma reads_at_loop_no_file:
  assumes "file_of f i = None"
  shows "reads_at f (loop i sz 0 []) (if sz = 0 then Some [] else None) {None}"
proof (cases "sz = 0")
  case True
  then show ?thesis by (subst loop) (simp add: reads_at_ret)
next
  case False
  obtain e where "reads_at f (sys_pread i (chunk (sz - 0)) 0) (Inl e) {Inl EIO}"
    using reads_at_pread_no_file [OF assms] by blast
  then have "reads_at f (do {
        r \<leftarrow> sys_pread i (chunk (sz - 0)) 0;
        (case r of Inl _ \<Rightarrow> ret None
         | Inr b \<Rightarrow> if b = [] then ret None else loop i sz (0 + length b) ([] @ b)) }) None {None}"
    by (rule reads_at_bind) (auto intro: reads_at_ret fails_ret)
  then show ?thesis using False by (subst loop) simp
qed

end

interpretation hashing: reading_loop hash_loop "min 65536"
  by unfold_locales (simp_all add: hash_loop.simps)

lemma fs_stat_file: "fs_stat f i = Inr s \<Longrightarrow> file_of f i = Some (c, k) \<Longrightarrow>
    s = \<lparr>st_type = S_IFREG, st_nlink = k, st_size = int (length c), st_id = i\<rparr>"
  by (auto simp: fs_stat_def file_of_iff)

lemma file_stat: "file_of f i = Some (c, k) \<Longrightarrow>
    fs_stat f i = Inr \<lparr>st_type = S_IFREG, st_nlink = k, st_size = int (length c), st_id = i\<rparr>"
  by (auto simp: fs_stat_def file_of_iff)

lemma dir_stat: "is_dir f i \<Longrightarrow>
    \<exists>k. fs_stat f i = Inr \<lparr>st_type = S_IFDIR, st_nlink = k, st_size = 0, st_id = i\<rparr>"
  by (auto simp: fs_stat_def is_dir_iff)

lemma reads_HashExact [reads_intro]:
  "reads (HashExact L n) (\<lambda>f. fs_HashExact L f (nd_fd n)) {None}"
proof (rule readsI_at)
  fix f
  let ?i = "nd_fd n"
  show "reads_at f (HashExact L n) (fs_HashExact L f ?i) {None}"
  proof (cases "file_of f ?i")
    case (Some ck)
    obtain c k where ck: "file_of f ?i = Some (c, k)" using Some by (cases ck) auto
    note st = file_stat [OF ck]
    show ?thesis
      unfolding HashExact_def
    proof (rule reads_at_bind [OF reads_at_of [OF reads_fstat]], unfold st sum.case stat.simps nat_int)
      show "reads_at f (if int (length c) < 0 \<or> int (length c) > int kMaxFileBytes then ret None
          else do {
            cs \<leftarrow> hash_loop ?i (length c) 0 [];
            (case cs of
               None \<Rightarrow> ret None
             | Some bytes \<Rightarrow> do {
                 extra \<leftarrow> sys_pread ?i 1 (length c);
                 if extra \<noteq> Inr [] then ret None
                 else do {
                   after \<leftarrow> sys_fstat ?i;
                   ret (case after of
                          Inl _ \<Rightarrow> None
                        | Inr a \<Rightarrow>
                            if st_size a \<noteq> int (length c) \<or> \<not> Same (st_id a) ?i then None
                            else Some (sha256 L bytes, length c)) } }) })
         (fs_HashExact L f ?i) {None}"
      proof (cases "length c \<le> kMaxFileBytes")
        case False
        then show ?thesis using ck by (simp add: fs_HashExact_def reads_at_ret)
      next
        case small: True
        have *: "\<not> (int (length c) < 0 \<or> int (length c) > int kMaxFileBytes)" using small by simp
        show ?thesis
          unfolding if_not_P [OF *]
        proof (rule reads_at_bind [OF hashing.reads_at_loop [OF ck]], unfold option.case)
          show "reads_at f (do {
                 extra \<leftarrow> sys_pread ?i 1 (length c);
                 if extra \<noteq> Inr [] then ret None
                 else do {
                   after \<leftarrow> sys_fstat ?i;
                   ret (case after of
                          Inl _ \<Rightarrow> None
                        | Inr a \<Rightarrow>
                            if st_size a \<noteq> int (length c) \<or> \<not> Same (st_id a) ?i then None
                            else Some (sha256 L c, length c)) } }) (fs_HashExact L f ?i) {None}"
            by (rule reads_at_bind [OF reads_at_pread_end [OF ck]], simp, simp,
                rule reads_at_bind [OF reads_at_of [OF reads_fstat]])
               (auto simp: st fs_HashExact_def ck small intro!: reads_at_ret fails_ret)
        qed (auto intro: fails_ret)
      qed
    qed (auto intro: fails_ret)
  next
    case None
    then have spec: "fs_HashExact L f ?i = None" by (simp add: fs_HashExact_def)
    show ?thesis
      unfolding HashExact_def spec
    proof (rule reads_at_bind [OF reads_at_of [OF reads_fstat]])
      show "reads_at f (case fs_stat f ?i of
           Inl _ \<Rightarrow> ret None
         | Inr b \<Rightarrow>
             if st_size b < 0 \<or> st_size b > int kMaxFileBytes then ret None
             else do {
               c \<leftarrow> hash_loop ?i (nat (st_size b)) 0 [];
               (case c of
                  None \<Rightarrow> ret None
                | Some bytes \<Rightarrow> do {
                    extra \<leftarrow> sys_pread ?i 1 (nat (st_size b));
                    if extra \<noteq> Inr [] then ret None
                    else do {
                      after \<leftarrow> sys_fstat ?i;
                      ret (case after of
                             Inl _ \<Rightarrow> None
                           | Inr a \<Rightarrow>
                               if st_size a \<noteq> st_size b \<or> \<not> Same (st_id a) (st_id b) then None
                               else Some (sha256 L bytes, nat (st_size b))) } }) }) None {None}"
      proof (cases "fs_stat f ?i")
        case (Inr b)
        obtain e where e: "reads_at f (sys_pread ?i 1 (nat (st_size b))) (Inl e) {Inl EIO}"
          using reads_at_pread_no_file [OF None] by blast
        have k: "reads_at f (case c of
                  None \<Rightarrow> ret None
                | Some bytes \<Rightarrow> do {
                    extra \<leftarrow> sys_pread ?i 1 (nat (st_size b));
                    if extra \<noteq> Inr [] then ret None
                    else do {
                      after \<leftarrow> sys_fstat ?i;
                      ret (case after of
                             Inl _ \<Rightarrow> None
                           | Inr a \<Rightarrow>
                               if st_size a \<noteq> st_size b \<or> \<not> Same (st_id a) (st_id b) then None
                               else Some (sha256 L bytes, nat (st_size b))) } }) None {None}" for c
          by (cases c) (auto intro!: reads_at_ret fails_ret reads_at_bind [OF e] simp del: One_nat_def)
        note fails_k = reads_at_fails [OF k singletonI]
        show ?thesis
          unfolding Inr sum.case
          by (cases "st_size b < 0 \<or> st_size b > int kMaxFileBytes")
             (auto simp del: One_nat_def
               intro!: reads_at_ret fails_ret reads_at_bind [OF hashing.reads_at_loop_no_file [OF None] k] fails_k)
      qed (simp add: reads_at_ret)
    qed (auto intro: fails_ret)
  qed
qed

lemma reads_Verify [reads_intro]:
  "reads (Verify L n ident hash) (\<lambda>f. fs_Verify L f n ident hash) {False}"
proof (rule readsI_at)
  fix f
  show "reads_at f (Verify L n ident hash) (fs_Verify L f n ident hash) {False}"
  proof (cases "Token (nd_id n) \<noteq> ident \<or> length hash \<noteq> 64")
    case True
    then show ?thesis by (auto simp: Verify_def fs_Verify_def reads_at_ret)
  next
    case False
    show ?thesis
      unfolding Verify_def if_not_P [OF False]
    proof (rule reads_at_bind [OF reads_at_of [OF reads_HashExact]])
      show "reads_at f (case fs_HashExact L f (nd_fd n) of None \<Rightarrow> ret False
          | Some (actual, _) \<Rightarrow> if actual = hash then Stable n S_IFREG else ret False)
          (fs_Verify L f n ident hash) {False}"
        using False reads_at_of [OF reads_Stable, of f n S_IFREG]
        by (auto simp: fs_Verify_def split: option.splits intro!: reads_at_ret fails_ret)
    qed (auto intro: fails_ret)
  qed
qed

lemma reads_FileIdentity [reads_intro]:
  "reads (FileIdentity p name ident) (\<lambda>f. fs_FileIdentity f p name ident) {None}"
proof (rule readsI_at)
  fix f
  show "reads_at f (FileIdentity p name ident) (fs_FileIdentity f p name ident) {None}"
    unfolding FileIdentity_def
    by (rule reads_at_bind [OF reads_at_of [OF reads_OpenFileAt]])
       (auto simp: fs_FileIdentity_def split: option.splits
         intro!: reads_at_ret fails_ret reads_at_bind [OF reads_at_of [OF reads_Stable]])
qed

text \<open>A write loop at the end of a file appends all of the bytes, or reports that it did not.\<close>

lemma wp_write_loop:
  assumes "quiet w" "file_of (disk w) i = Some (c, k)"
    and "\<And>b c' w'. follows w w' \<Longrightarrow> disk w' = set_body (disk w) i (Regular c') \<Longrightarrow>
           (b \<Longrightarrow> c' = c @ bs) \<Longrightarrow> (\<not> b \<Longrightarrow> faulty w) \<Longrightarrow> Q b w'"
  shows "wp (write_loop i (length c) bs) Q w"
  using assms
proof (induction "length bs" arbitrary: w c bs rule: less_induct)
  case less
  note prems = less.prems
  show ?case
  proof (cases "bs = []")
    case True
    have "Q True w" by (rule prems(3) [where c' = c]) (use True prems(2) in \<open>auto simp: set_body_same\<close>)
    then show ?thesis using True by (simp add: write_loop.simps [of i])
  next
    case False
    let ?next = "\<lambda>r. case r of Inl _ \<Rightarrow> ret False
         | Inr x \<Rightarrow> if x = 0 then ret False else write_loop i (length c + x) (drop x bs)"
    have "wp (sys_write i (length c) bs) (\<lambda>r. wp (?next r) Q) w"
      unfolding sys_write_def
    proof (rule wp_sys [OF prems(1)])
      let ?x = "transfer w (length bs)"
      have t: "0 < ?x" "?x \<le> length bs" using False by (auto simp: transfer_def split: fault.splits)
      let ?f = "set_body (disk w) i (Regular (c @ take ?x bs))"
      have g: "fs_write (disk w) i (length c) (take ?x bs) = Inr (?x, ?f)"
        using prems(2) t by (auto simp: fs_write_def file_of_iff)
      fix a w' assume w': "follows w w'"
        and a: "case a of Inl e \<Rightarrow> disk w' = disk w \<and> (faulty w \<and> e = EIO \<or>
                  fs_write (disk w) i (length c) (take ?x bs) = Inl e)
                | Inr x \<Rightarrow> fs_write (disk w) i (length c) (take ?x bs) = Inr (x, disk w')"
      show "wp (?next a) Q w'"
      proof (cases a)
        case (Inl e)
        then have "disk w' = set_body (disk w) i (Regular c)" "faulty w"
          using a g prems(2) by (auto simp: set_body_same)
        then show ?thesis using Inl by (auto intro!: prems(3) [OF w'])
      next
        case (Inr x)
        then have x: "x = ?x" "disk w' = ?f" using a g by auto
        have "wp (write_loop i (length (c @ take x bs)) (drop x bs)) Q w'"
        proof (rule less.hyps)
          show "length (drop x bs) < length bs" using t x by simp
          show "quiet w'" using prems(1) w' by (simp add: follows_quiet)
          show "file_of (disk w') i = Some (c @ take x bs, k)"
            using x prems(2) by (simp add: set_body_file)
          show "Q b w''" if "follows w' w''" "disk w'' = set_body (disk w') i (Regular c')"
            "b \<Longrightarrow> c' = (c @ take x bs) @ drop x bs" "\<not> b \<Longrightarrow> faulty w'" for b c' w''
            using that w' x
            by (intro prems(3) [where c' = c']) (auto simp: set_body_twice follows_faulty intro: follows_trans)
        qed
        then show ?thesis using Inr t x by (simp add: min.absorb2)
      qed
    qed
    then show ?thesis using False by (simp add: write_loop.simps [of i])
  qed
qed

section \<open>What there is to open\<close>

text \<open>The directory \<open>d\<close> holds under the name \<open>n\<close> the regular file \<open>i\<close>, of one link, with content \<open>c\<close>.\<close>

definition file_at :: "fs \<Rightarrow> Identity \<Rightarrow> string \<Rightarrow> Identity \<Rightarrow> byte list \<Rightarrow> bool" where
  "file_at f d n i c \<longleftrightarrow> lookup f d n = Some i \<and> device i = device d \<and> file_of f i = Some (c, 1)"

definition dir_at :: "fs \<Rightarrow> Identity \<Rightarrow> string \<Rightarrow> Identity \<Rightarrow> bool" where
  "dir_at f d n i \<longleftrightarrow> lookup f d n = Some i \<and> device i = device d \<and> is_dir f i"

definition file_node :: "Identity \<Rightarrow> byte list \<Rightarrow> Node" where
  "file_node i c = \<lparr>nd_fd = i,
     nd_info = \<lparr>st_type = S_IFREG, st_nlink = 1, st_size = int (length c), st_id = i\<rparr>, nd_id = i\<rparr>"

lemma file_node_sel [simp]:
  "nd_fd (file_node i c) = i" "nd_id (file_node i c) = i"
  "st_size (nd_info (file_node i c)) = int (length c)"
  by (simp_all add: file_node_def)

lemma map_of_lookup: "dir_entries f d = Some es \<Longrightarrow> map_of es n = lookup f d n"
  by (simp add: lookup_def)

lemma fs_open_file:
  "file_of f i = Some x \<Longrightarrow>
     (fs_open f d n False = Inr i \<longleftrightarrow> lookup f d n = Some i \<and> device i = device d)"
  by (cases x)
     (auto simp: fs_open_def file_of_iff is_dir_def lookup_def
       split: option.splits content.splits if_splits)

lemma fs_open_dir:
  "is_dir f i \<Longrightarrow> (fs_open f d n b = Inr i \<longleftrightarrow> lookup f d n = Some i \<and> device i = device d)"
  by (auto simp: fs_open_def is_dir_iff lookup_def
       split: option.splits content.splits if_splits)

lemma fs_inspect_file:
  "fs_inspect f S_IFREG r = Some nd \<longleftrightarrow>
     (\<exists>i c. r = Inr i \<and> file_of f i = Some (c, 1) \<and> nd = file_node i c)"
proof
  assume "fs_inspect f S_IFREG r = Some nd"
  then obtain i s where r: "r = Inr i" and s: "fs_stat f i = Inr s" "st_type s = S_IFREG" "st_nlink s = 1"
      and nd: "nd = \<lparr>nd_fd = i, nd_info = s, nd_id = st_id s\<rparr>"
    by (auto simp: fs_inspect_def split: sum.splits if_splits)
  then obtain v where v: "inodes f i = Some v" "type_of (body v) = S_IFREG" "nlink v = 1"
    by (auto simp: fs_stat_def split: option.splits)
  then obtain c where c: "file_of f i = Some (c, 1)"
    by (cases "body v") (auto simp: file_of_iff)
  with fs_stat_file [OF s(1) c] r nd
  show "\<exists>i c. r = Inr i \<and> file_of f i = Some (c, 1) \<and> nd = file_node i c"
    by (auto simp: file_node_def)
next
  assume "\<exists>i c. r = Inr i \<and> file_of f i = Some (c, 1) \<and> nd = file_node i c"
  then show "fs_inspect f S_IFREG r = Some nd"
    by (auto simp: fs_inspect_def file_stat file_node_def)
qed

lemma fs_inspect_dir:
  "fs_inspect f S_IFDIR r = Some nd \<Longrightarrow>
     \<exists>i. r = Inr i \<and> is_dir f i \<and> nd_fd nd = i \<and> nd_id nd = i"
proof -
  assume "fs_inspect f S_IFDIR r = Some nd"
  then obtain i v where "r = Inr i" "inodes f i = Some v" "type_of (body v) = S_IFDIR"
      "nd_fd nd = i" "nd_id nd = i"
    by (auto simp: fs_inspect_def fs_stat_def split: sum.splits option.splits if_splits)
  then show ?thesis by (cases "body v") (auto simp: is_dir_iff)
qed

lemma fs_inspect_is_dir:
  "is_dir f i \<Longrightarrow> \<exists>nd. fs_inspect f S_IFDIR (Inr i) = Some nd \<and> nd_fd nd = i \<and> nd_id nd = i"
  using dir_stat [of f i] by (auto simp: fs_inspect_def)

lemma fs_OpenFileAt_iff:
  "fs_OpenFileAt f d n = Some nd \<longleftrightarrow> (\<exists>i c. file_at f d n i c \<and> nd = file_node i c)"
  unfolding fs_OpenFileAt_def fs_inspect_file file_at_def using fs_open_file by blast

lemma fs_OpenDirAt_SomeD:
  "fs_OpenDirAt f d n = Some nd \<Longrightarrow> dir_at f d n (nd_fd nd) \<and> nd_id nd = nd_fd nd"
  unfolding fs_OpenDirAt_def dir_at_def using fs_inspect_dir fs_open_dir by blast

lemma fs_OpenDirAt_dir_at:
  "dir_at f d n i \<Longrightarrow> \<exists>nd. fs_OpenDirAt f d n = Some nd \<and> nd_fd nd = i \<and> nd_id nd = i"
  unfolding fs_OpenDirAt_def dir_at_def
  using fs_inspect_is_dir [of f i] fs_open_dir [of f i d n True] by auto

lemma fs_MissingAt_iff: "fs_MissingAt f p n \<longleftrightarrow> is_dir f p \<and> lookup f p n = None"
  by (auto simp: fs_MissingAt_def fs_statat_def is_dir_def lookup_def fs_stat_def
      split: option.splits)

lemma fs_Stable_file: "fs_Stable f (file_node i c) S_IFREG \<longleftrightarrow> (\<exists>c'. file_of f i = Some (c', 1))"
proof (cases "file_of f i")
  case (Some x)
  then show ?thesis by (cases x) (auto simp: fs_Stable_def file_stat)
next
  case None
  then show ?thesis
    by (auto simp: fs_Stable_def fs_stat_def file_of_def split: option.splits sum.splits content.splits)
qed

lemma fs_Stable_dir: "nd_id n = nd_fd n \<Longrightarrow> fs_Stable f n S_IFDIR \<longleftrightarrow> is_dir f (nd_fd n)"
proof
  assume "nd_id n = nd_fd n" "fs_Stable f n S_IFDIR"
  then obtain v where "inodes f (nd_fd n) = Some v" "type_of (body v) = S_IFDIR"
    by (auto simp: fs_Stable_def fs_stat_def split: option.splits)
  then show "is_dir f (nd_fd n)" by (cases "body v") (auto simp: is_dir_iff)
next
  assume "nd_id n = nd_fd n" "is_dir f (nd_fd n)"
  then show "fs_Stable f n S_IFDIR" using dir_stat by (fastforce simp: fs_Stable_def)
qed

lemma fs_Verify_file:
  "file_of f i = Some (c, 1) \<Longrightarrow>
     fs_Verify L f (file_node i c') ident hash \<longleftrightarrow>
       Token i = ident \<and> length hash = 64 \<and> length c \<le> kMaxFileBytes \<and> sha256 L c = hash"
  by (auto simp: fs_Verify_def fs_HashExact_def fs_Stable_file)

end
