(* ===== verification/Context_Specs.thy ===== *)
theory Context_Specs
  imports Node_Specs
begin

text \<open>
  What opening a context, its hidden directory and the parent of a path compute, as functions of
  the file system (\<open>create\<close> false: the calls that only read), and what a successful one means: the
  nodes are directories of one device, each entered from the one before by its own name.
\<close>

definition hidden_name :: string where
  "hidden_name = ''.mobilka-workspace''"

definition fs_OpenRoot :: "fs \<Rightarrow> FlValue \<Rightarrow> string + Node" where
  "fs_OpenRoot f a = (case StringArg a ''root'' of
     None \<Rightarrow> Inl ''unsafe_root''
   | Some path \<Rightarrow>
       if path = [] \<or> hd path \<noteq> CHR ''/'' then Inl ''unsafe_root''
       else (case fs_inspect f S_IFDIR (fs_open_path f path) of
               None \<Rightarrow> Inl ''unsafe_root'' | Some n \<Rightarrow> Inr n))"

definition fs_OpenSessionDirs :: "fs \<Rightarrow> Node \<Rightarrow> string \<Rightarrow> string list \<Rightarrow> string + Context" where
  "fs_OpenSessionDirs f r key ps =
     (case fs_OpenDirAt f (nd_fd r) ''sessions'' of
        None \<Rightarrow> Inl ''not_found''
      | Some dirs \<Rightarrow>
          if device (nd_id dirs) \<noteq> device (nd_id r) then Inl ''not_found''
          else (case fs_OpenDirAt f (nd_fd dirs) key of
                  None \<Rightarrow> Inl ''not_found''
                | Some own \<Rightarrow>
                    if device (nd_id own) \<noteq> device (nd_id r) then Inl ''not_found''
                    else if fs_Stable f r S_IFDIR \<and> fs_Stable f dirs S_IFDIR
                    then Inr \<lparr>root = r, sessions = dirs, session = own, parts = ps\<rparr>
                    else Inl ''metadata_changed''))"

definition fs_OpenContext :: "lib \<Rightarrow> fs \<Rightarrow> FlValue \<Rightarrow> string + Context" where
  "fs_OpenContext L f a =
     (case context_args L a of
        None \<Rightarrow> Inl ''invalid_argument''
      | Some (key, ps, bound) \<Rightarrow>
          (case fs_OpenRoot f a of
             Inl _ \<Rightarrow> Inl ''invalid_argument''
           | Inr rt \<Rightarrow>
               if Token (nd_id rt) \<noteq> bound then Inl ''workspace_binding_changed''
               else fs_OpenSessionDirs f rt key ps))"

fun fs_open_parents :: "fs \<Rightarrow> 64 word \<Rightarrow> Node \<Rightarrow> string list \<Rightarrow> Node option" where
  "fs_open_parents f dev cur [] = Some cur"
| "fs_open_parents f dev cur (n # ns) =
     (case fs_OpenDirAt f (nd_fd cur) n of
        None \<Rightarrow> None
      | Some nxt \<Rightarrow>
          if device (nd_id nxt) \<noteq> dev then None
          else if fs_Stable f cur S_IFDIR then fs_open_parents f dev nxt ns else None)"

definition fs_OpenParent :: "fs \<Rightarrow> Context \<Rightarrow> string + Node \<times> string" where
  "fs_OpenParent f c =
     (if parts c = [] then Inl ''invalid_argument''
      else (case fs_Duplicate f (session c) of
              None \<Rightarrow> Inl ''metadata_changed''
            | Some cur \<Rightarrow>
                (case fs_open_parents f (device (nd_id (root c))) cur (butlast (parts c)) of
                   None \<Rightarrow> Inl ''parent_missing''
                 | Some n \<Rightarrow> Inr (n, last (parts c)))))"

definition fs_EnsureHidden :: "fs \<Rightarrow> Context \<Rightarrow> string + Node" where
  "fs_EnsureHidden f c =
     (case fs_OpenDirAt f (nd_fd (session c)) hidden_name of
        None \<Rightarrow> Inl ''unsafe_path''
      | Some n \<Rightarrow> if fs_Stable f (session c) S_IFDIR then Inr n else Inl ''unsafe_path'')"

section \<open>The operations compute them\<close>

lemma reads_OpenRoot [reads_intro]: "reads (OpenRoot a) (\<lambda>f. fs_OpenRoot f a) (range Inl)"
proof (rule readsI_at)
  fix f
  show "reads_at f (OpenRoot a) (fs_OpenRoot f a) (range Inl)"
  proof (cases "StringArg a ''root''")
    case None
    then show ?thesis by (simp add: OpenRoot_def fs_OpenRoot_def reads_at_ret)
  next
    case (Some path)
    show ?thesis
      unfolding OpenRoot_def fs_OpenRoot_def Some option.case
      by (auto intro!: reads_at_ret fails_ret reads_at_bind [OF reads_at_of [OF reads_open_path]]
            reads_at_bind [OF reads_at_of [OF reads_Inspect]])
  qed
qed

lemma reads_OpenSessionDirs [reads_intro]:
  "reads (OpenSessionDirs False r key ps) (\<lambda>f. fs_OpenSessionDirs f r key ps) (range Inl)"
proof (rule readsI_at)
  fix f
  show "reads_at f (OpenSessionDirs False r key ps) (fs_OpenSessionDirs f r key ps) (range Inl)"
    unfolding OpenSessionDirs_def fs_OpenSessionDirs_def
    by (auto intro!: reads_at_ret fails_ret reads_at_bind [OF reads_at_of [OF reads_OpenDirAt]]
          reads_at_bind [OF reads_at_of [OF reads_andM [OF reads_Stable reads_Stable]]]
          reads_at_bind [OF reads_at_ret [OF refl, where a = True and bad = "{}"]]
        split: option.splits)
qed

lemma reads_OpenContext [reads_intro]:
  "reads (OpenContext L a False) (\<lambda>f. fs_OpenContext L f a) (range Inl)"
proof (rule readsI_at)
  fix f
  show "reads_at f (OpenContext L a False) (fs_OpenContext L f a) (range Inl)"
  proof (cases "context_args L a")
    case None
    then show ?thesis by (simp add: OpenContext_def fs_OpenContext_def reads_at_ret)
  next
    case (Some x)
    show ?thesis
      unfolding OpenContext_def fs_OpenContext_def Some option.case
      using reads_at_of [OF reads_OpenSessionDirs, of f]
      by (auto intro!: reads_at_ret fails_ret reads_at_bind [OF reads_at_of [OF reads_OpenRoot]]
          split: prod.splits sum.splits)
  qed
qed

lemma reads_open_parents [reads_intro]:
  "reads (open_parents dev cur ns) (\<lambda>f. fs_open_parents f dev cur ns) {None}"
proof (rule readsI_at)
  fix f
  show "reads_at f (open_parents dev cur ns) (fs_open_parents f dev cur ns) {None}"
  proof (induction ns arbitrary: cur dev)
    case Nil
    then show ?case by (simp add: reads_at_ret)
  next
    case (Cons n ns)
    show ?case
      unfolding open_parents.simps fs_open_parents.simps
      by (auto intro!: reads_at_ret fails_ret reads_at_bind [OF reads_at_of [OF reads_OpenDirAt]]
            reads_at_bind [OF reads_at_of [OF reads_Stable]] Cons.IH split: option.splits)
  qed
qed

lemma reads_OpenParent [reads_intro]:
  "reads (OpenParent c) (\<lambda>f. fs_OpenParent f c) (range Inl)"
proof (rule readsI_at)
  fix f
  show "reads_at f (OpenParent c) (fs_OpenParent f c) (range Inl)"
    unfolding OpenParent_def fs_OpenParent_def
    by (auto intro!: reads_at_ret fails_ret reads_at_bind [OF reads_at_of [OF reads_Duplicate]]
          reads_at_bind [OF reads_at_of [OF reads_open_parents]] split: option.splits)
qed

lemma reads_at_make_or_keep:
  assumes "lookup f d n = Some i"
  shows "reads_at f (make_or_keep d n) True {False}"
proof -
  have "fs_new f d n j (Directory []) k = Inl EEXIST" for j k
    using assms by (auto simp: fs_new_def lookup_def split: option.splits)
  then have "reads_at f (sys_mkdirat d n) (Inl EEXIST) {Inl EIO}"
    unfolding reads_at_def sys_mkdirat_def by (intro allI impI, intro wp_sys) (auto split: sum.splits)
  then show ?thesis
    unfolding make_or_keep_def by (rule reads_at_bind) (auto intro: reads_at_ret fails_ret)
qed

lemma reads_at_EnsureHidden:
  assumes "lookup f (nd_fd (session c)) hidden_name = Some i"
  shows "reads_at f (EnsureHidden c) (fs_EnsureHidden f c) (range Inl)"
  unfolding EnsureHidden_def fs_EnsureHidden_def
  by (rule reads_at_bind [OF reads_at_make_or_keep [OF assms [unfolded hidden_name_def]]])
     (auto simp: hidden_name_def split: option.splits
       intro!: reads_at_ret fails_ret reads_at_bind [OF reads_at_of [OF reads_OpenDirAt]]
         reads_at_bind [OF reads_at_of [OF reads_Stable]])

section \<open>What they mean\<close>

fun walk :: "fs \<Rightarrow> Identity \<Rightarrow> string list \<Rightarrow> Identity \<Rightarrow> bool" where
  "walk f d [] e \<longleftrightarrow> d = e \<and> is_dir f d"
| "walk f d (n # ns) e \<longleftrightarrow> (\<exists>i. dir_at f d n i \<and> walk f i ns e)"

lemma walk_device: "walk f d ns e \<Longrightarrow> device e = device d"
  by (induction ns arbitrary: d) (auto simp: dir_at_def)

lemma walk_is_dir: "walk f d ns e \<Longrightarrow> is_dir f e"
  by (induction ns arbitrary: d) auto

lemma fs_open_parents_walk:
  "fs_open_parents f dev cur ns = Some p \<Longrightarrow> is_dir f (nd_fd cur) \<Longrightarrow> nd_id cur = nd_fd cur \<Longrightarrow>
     walk f (nd_fd cur) ns (nd_fd p) \<and> nd_id p = nd_fd p"
proof (induction ns arbitrary: cur)
  case (Cons n ns)
  then obtain nxt where nxt: "fs_OpenDirAt f (nd_fd cur) n = Some nxt"
      "fs_open_parents f dev nxt ns = Some p"
    by (auto split: option.splits if_splits)
  from fs_OpenDirAt_SomeD [OF nxt(1)] have "dir_at f (nd_fd cur) n (nd_fd nxt)" "nd_id nxt = nd_fd nxt"
    by auto
  moreover from this have "walk f (nd_fd nxt) ns (nd_fd p) \<and> nd_id p = nd_fd p"
    using Cons.IH [OF nxt(2)] by (simp add: dir_at_def)
  ultimately show ?case by auto
qed simp

lemma fs_open_parents_complete:
  "walk f (nd_fd cur) ns e \<Longrightarrow> nd_id cur = nd_fd cur \<Longrightarrow> device (nd_fd cur) = dev \<Longrightarrow>
     \<exists>p. fs_open_parents f dev cur ns = Some p \<and> nd_fd p = e \<and> nd_id p = e"
proof (induction ns arbitrary: cur)
  case (Cons n ns)
  then obtain i where i: "dir_at f (nd_fd cur) n i" "walk f i ns e" by auto
  obtain nxt where nxt: "fs_OpenDirAt f (nd_fd cur) n = Some nxt" "nd_fd nxt = i" "nd_id nxt = i"
    using fs_OpenDirAt_dir_at [OF i(1)] by blast
  have "is_dir f (nd_fd cur)" using i(1) by (auto simp: dir_at_def dest: lookup_is_dir)
  then have "fs_Stable f cur S_IFDIR" using Cons.prems by (simp add: fs_Stable_dir)
  moreover have "device i = dev" using i(1) Cons.prems by (simp add: dir_at_def)
  ultimately show ?case using nxt i(2) Cons.IH [of nxt] by simp
qed simp

lemma fs_Duplicate_dir:
  "nd_id n = nd_fd n \<Longrightarrow> is_dir f (nd_fd n) \<Longrightarrow>
     \<exists>m. fs_Duplicate f n = Some m \<and> nd_fd m = nd_fd n \<and> nd_id m = nd_fd n"
  using fs_inspect_is_dir [of f "nd_fd n"] by (auto simp: fs_Duplicate_def is_dir_in_use)

lemma fs_Duplicate_SomeD:
  "fs_Duplicate f n = Some m \<Longrightarrow> is_dir f (nd_fd m) \<and> nd_fd m = nd_fd n \<and> nd_id m = nd_fd m"
  by (auto simp: fs_Duplicate_def split: option.splits if_splits dest!: fs_inspect_dir)

lemma fs_OpenParent_SomeD:
  assumes "fs_OpenParent f c = Inr (p, n)"
  shows "parts c \<noteq> [] \<and> n = last (parts c) \<and>
         walk f (nd_fd (session c)) (butlast (parts c)) (nd_fd p) \<and> nd_id p = nd_fd p"
proof -
  from assms obtain cur where cur: "parts c \<noteq> []" "n = last (parts c)" "fs_Duplicate f (session c) = Some cur"
      "fs_open_parents f (device (nd_id (root c))) cur (butlast (parts c)) = Some p"
    by (auto simp: fs_OpenParent_def split: if_splits option.splits)
  from fs_Duplicate_SomeD [OF cur(3)] fs_open_parents_walk [OF cur(4)] cur
  show ?thesis by auto
qed

lemma fs_OpenContext_SomeD:
  assumes "fs_OpenContext L f a = Inr c"
  obtains key ps where "context_args L a = Some (key, ps, Token (nd_fd (root c)))" "parts c = ps"
    "dir_at f (nd_fd (root c)) ''sessions'' (nd_fd (sessions c))"
    "dir_at f (nd_fd (sessions c)) key (nd_fd (session c))"
    "nd_id (root c) = nd_fd (root c)" "nd_id (session c) = nd_fd (session c)"
proof -
  from assms obtain key ps bound rt where a: "context_args L a = Some (key, ps, bound)"
      "fs_OpenRoot f a = Inr rt" "Token (nd_id rt) = bound" "fs_OpenSessionDirs f rt key ps = Inr c"
    by (auto simp: fs_OpenContext_def split: option.splits prod.splits sum.splits if_splits)
  from a(2) have rt: "nd_id rt = nd_fd rt"
    by (auto simp: fs_OpenRoot_def split: option.splits if_splits dest!: fs_inspect_dir)
  from a(4) obtain dirs own where d: "fs_OpenDirAt f (nd_fd rt) ''sessions'' = Some dirs"
      "fs_OpenDirAt f (nd_fd dirs) key = Some own"
      "c = \<lparr>root = rt, sessions = dirs, session = own, parts = ps\<rparr>"
    by (auto simp: fs_OpenSessionDirs_def split: option.splits if_splits)
  from that [of key ps] a d rt fs_OpenDirAt_SomeD [OF d(1)] fs_OpenDirAt_SomeD [OF d(2)]
  show thesis by simp
qed

end
