(* ===== verification/State_Store.thy ===== *)
theory State_Store
  imports State_Codec Context_Specs "HOL-Library.Sublist"
begin

text \<open>
  The durable state record of an operation, the rest of
  \<^verbatim>\<open>linux/runner/session_workspace_state.cc\<close>: random tokens, and saving, loading and deleting
  \<open>id.state\<close> in the hidden directory. \<^verbatim>\<open>SaveOperationState\<close> writes a fresh temporary file and
  renames it over the record, so the record is at all times the old one or the new one; \<open>wp_Save\<close>
  proves it for every schedule of failures, with what else a save may touch (\<open>kept\<close>).
\<close>

section \<open>Random tokens\<close>

definition alphabet :: string where
  "alphabet = ''ABCDEFGHIJKLMNOPQRSTUVWXYZabcdefghijklmnopqrstuvwxyz0123456789-_''"

text \<open>
  The loop around \<^verbatim>\<open>getrandom\<close>. Every turn uses up an interrupt or gains a byte, so \<open>interrupts + 33\<close>
  turns are enough; \<open>fill_random_enough\<close> proves it.
\<close>

fun fill_random :: "nat \<Rightarrow> byte list \<Rightarrow> byte list option io" where
  "fill_random 0 acc = ret None"
| "fill_random (Suc k) acc =
     (if length acc < 32 then do {
        r \<leftarrow> sys_getrandom (32 - length acc);
        (case r of
           Rnd_interrupted \<Rightarrow> fill_random k acc
         | Rnd_failed \<Rightarrow> ret None
         | Rnd_bytes bs \<Rightarrow> if bs = [] then ret None else fill_random k (acc @ bs)) }
      else ret (Some acc))"

text \<open>The inner loop: six bits at a time from the \<open>available\<close> low bits of \<open>bits\<close>.\<close>

fun emit :: "32 word \<Rightarrow> nat \<Rightarrow> string \<times> nat" where
  "emit bits available =
     (if 6 \<le> available then
        let a = available - 6; (cs, rest) = emit bits a in
        (alphabet ! unat (drop_bit a bits AND 63) # cs, rest)
      else ([], available))"

declare emit.simps [simp del]

fun encode_token :: "32 word \<Rightarrow> nat \<Rightarrow> byte list \<Rightarrow> string" where
  "encode_token bits available [] =
     (if available \<noteq> 0 then [alphabet ! unat (push_bit (6 - available) bits AND 63)] else [])"
| "encode_token bits available (b # bs) =
     (let bits' = push_bit 8 bits OR ucast b; (cs, rest) = emit bits' (available + 8) in
      cs @ encode_token bits' rest bs)"

definition RandomToken :: "string option io" where
  "RandomToken = do {
     w \<leftarrow> State_Monad.get;
     r \<leftarrow> fill_random (interrupts w + 33) [];
     ret (case r of
            None \<Rightarrow> None
          | Some bs \<Rightarrow> let t = encode_token 0 0 bs in if length t = 43 then Some t else None) }"

section \<open>The record\<close>

definition StateName :: "string \<Rightarrow> string" where
  "StateName opid = opid @ ''.state''"

definition WriteAll :: "Identity \<Rightarrow> byte list \<Rightarrow> bool io" where
  "WriteAll fd bs = write_loop fd 0 bs"

text \<open>The loop that reads a buffer full, or gives up.\<close>

function read_loop :: "Identity \<Rightarrow> nat \<Rightarrow> nat \<Rightarrow> byte list \<Rightarrow> byte list option io" where
  "read_loop i sz pos acc =
     (if pos < sz then do {
        r \<leftarrow> sys_pread i (sz - pos) pos;
        (case r of
           Inl _ \<Rightarrow> ret None
         | Inr b \<Rightarrow> if b = [] then ret None
                    else read_loop i sz (pos + length b) (acc @ b)) }
      else ret (Some acc))"
  by pat_completeness auto
termination
  by (relation "measure (\<lambda>(i, sz, pos, acc). sz - pos)") (auto intro!: diff_less_mono2)

declare read_loop.simps [simp del]

definition LoadOperationState :: "Node \<Rightarrow> string \<Rightarrow> string \<Rightarrow> OperationState option io" where
  "LoadOperationState hidden opid token = do {
     n \<leftarrow> OpenFileAt (nd_fd hidden) (StateName opid);
     (case n of
        None \<Rightarrow> ret None
      | Some nd \<Rightarrow>
          if st_size (nd_info nd) < 0 \<or> st_size (nd_info nd) > int kMaxStateBytes then ret None
          else do {
            c \<leftarrow> read_loop (nd_fd nd) (nat (st_size (nd_info nd))) 0 [];
            (case c of
               None \<Rightarrow> ret None
             | Some bs \<Rightarrow> do {
                 after \<leftarrow> sys_fstat (nd_fd nd);
                 (case after of
                    Inl _ \<Rightarrow> ret None
                  | Inr a \<Rightarrow>
                      if st_size a \<noteq> st_size (nd_info nd) \<or> \<not> Same (nd_id nd) (st_id a) then ret None
                      else (case decode_state bs of
                              None \<Rightarrow> ret None
                            | Some s \<Rightarrow>
                                if os_token s \<noteq> token then ret None
                                else do {
                                  ok \<leftarrow> Stable nd S_IFREG;
                                  ret (if ok then Some s else None) })) }) }) }"

text \<open>The phases a stored phase may be followed by.\<close>

definition forward :: "OperationPhase \<Rightarrow> OperationPhase \<Rightarrow> bool" where
  "forward cur new \<longleftrightarrow>
     new = ph_committed \<or> new = ph_rolledBack \<or>
     (cur = ph_prepared \<and> (new = ph_targetQuarantining \<or> new = ph_stageInstalling)) \<or>
     (cur = ph_targetQuarantining \<and> new = ph_targetQuarantined) \<or>
     (cur = ph_targetQuarantined \<and> new = ph_stageInstalling)"

definition hex_digit :: "nat \<Rightarrow> char" where
  "hex_digit n = ''0123456789abcdef'' ! n"

definition hex_of :: "byte list \<Rightarrow> string" where
  "hex_of bs = concat (map (\<lambda>b. [hex_digit (unat (drop_bit 4 b)), hex_digit (unat (b AND 15))]) bs)"

definition SaveOperationState :: "Node \<Rightarrow> string \<Rightarrow> OperationState \<Rightarrow> bool io" where
  "SaveOperationState hidden opid s =
     (case encode_state s of
        None \<Rightarrow> ret False
      | Some bytes \<Rightarrow> do {
          missing \<leftarrow> MissingAt (nd_fd hidden) (StateName opid);
          loaded \<leftarrow> LoadOperationState hidden opid (os_token s);
          if \<not> missing \<and> loaded = None then ret False
          else if (case loaded of
                     None \<Rightarrow> False
                   | Some cur \<Rightarrow> os_phase cur \<noteq> os_phase s \<and> \<not> forward (os_phase cur) (os_phase s))
          then ret False
          else do {
            r \<leftarrow> sys_getrandom 8;
            (case r of
               Rnd_bytes rs \<Rightarrow>
                 if length rs \<noteq> 8 then ret False
                 else do {
                   let temporary = opid @ ''.state.tmp.'' @ hex_of rs;
                   fd \<leftarrow> sys_create (nd_fd hidden) temporary;
                   (case fd of
                      Inl _ \<Rightarrow> ret False
                    | Inr i \<Rightarrow> do {
                        written \<leftarrow> andM (WriteAll i bytes) (synced i);
                        ok \<leftarrow> (if written
                               then andM (RenameAt2 (nd_fd hidden) temporary (nd_fd hidden)
                                            (StateName opid) Replace)
                                         (synced (nd_fd hidden))
                               else ret False);
                        if ok then ret True
                        else do { _ \<leftarrow> sys_unlinkat (nd_fd hidden) temporary False; ret False } }) }
             | _ \<Rightarrow> ret False) } })"

definition DeleteOperationState :: "Node \<Rightarrow> string \<Rightarrow> bool io" where
  "DeleteOperationState hidden opid = do {
     r \<leftarrow> sys_unlinkat (nd_fd hidden) (StateName opid) False;
     if r \<noteq> Inr () \<and> r \<noteq> Inl ENOENT then ret False else synced (nd_fd hidden) }"

section \<open>Loading\<close>

definition fs_Load :: "fs \<Rightarrow> Node \<Rightarrow> string \<Rightarrow> string \<Rightarrow> OperationState option" where
  "fs_Load f hidden opid token =
     (case fs_OpenFileAt f (nd_fd hidden) (StateName opid) of
        None \<Rightarrow> None
      | Some nd \<Rightarrow>
          (case file_of f (nd_fd nd) of
             None \<Rightarrow> None
           | Some (c, _) \<Rightarrow>
               if length c > kMaxStateBytes then None
               else (case decode_state c of
                       None \<Rightarrow> None
                     | Some s \<Rightarrow> if os_token s \<noteq> token then None else Some s)))"

interpretation loading: reading_loop read_loop "\<lambda>k. k"
  by unfold_locales (simp_all add: read_loop.simps)

lemma reads_LoadOperationState [reads_intro]:
  "reads (LoadOperationState h opid token) (\<lambda>f. fs_Load f h opid token) {None}"
proof (rule readsI_at)
  fix f
  show "reads_at f (LoadOperationState h opid token) (fs_Load f h opid token) {None}"
    unfolding LoadOperationState_def
  proof (rule reads_at_bind [OF reads_at_of [OF reads_OpenFileAt]])
    show "reads_at f (case fs_OpenFileAt f (nd_fd h) (StateName opid) of
        None \<Rightarrow> ret None
      | Some nd \<Rightarrow>
          if st_size (nd_info nd) < 0 \<or> st_size (nd_info nd) > int kMaxStateBytes then ret None
          else do {
            c \<leftarrow> read_loop (nd_fd nd) (nat (st_size (nd_info nd))) 0 [];
            (case c of
               None \<Rightarrow> ret None
             | Some bs \<Rightarrow> do {
                 after \<leftarrow> sys_fstat (nd_fd nd);
                 (case after of
                    Inl _ \<Rightarrow> ret None
                  | Inr a \<Rightarrow>
                      if st_size a \<noteq> st_size (nd_info nd) \<or> \<not> Same (nd_id nd) (st_id a) then ret None
                      else (case decode_state bs of
                              None \<Rightarrow> ret None
                            | Some s \<Rightarrow>
                                if os_token s \<noteq> token then ret None
                                else do {
                                  ok \<leftarrow> Stable nd S_IFREG;
                                  ret (if ok then Some s else None) })) }) })
        (fs_Load f h opid token) {None}"
    proof (cases "fs_OpenFileAt f (nd_fd h) (StateName opid)")
      case None
      then show ?thesis by (simp add: fs_Load_def reads_at_ret)
    next
      case (Some nd)
      then obtain i c where c: "file_of f i = Some (c, 1)" "nd = file_node i c"
        by (auto simp: fs_OpenFileAt_iff file_at_def)
      show ?thesis
        unfolding Some option.case fs_Load_def
        by (auto simp: c file_stat [OF c(1)] fs_Stable_file split: option.splits
            intro!: reads_at_ret fails_ret reads_at_bind [OF loading.reads_at_loop [OF c(1)]]
              reads_at_bind [OF reads_at_of [OF reads_fstat]]
              reads_at_bind [OF reads_at_of [OF reads_Stable]])
    qed
  qed (auto intro: fails_ret)
qed

text \<open>The record of \<open>opid\<close> in the directory \<open>h\<close> is the state \<open>s\<close>, in the file \<open>i\<close>.\<close>

definition stored_in :: "fs \<Rightarrow> Identity \<Rightarrow> string \<Rightarrow> OperationState \<Rightarrow> Identity \<Rightarrow> bool" where
  "stored_in f h opid s i \<longleftrightarrow>
     (\<exists>bs. file_at f h (StateName opid) i bs \<and> encode_state s = Some bs)"

definition stored :: "fs \<Rightarrow> Identity \<Rightarrow> string \<Rightarrow> OperationState \<Rightarrow> bool" where
  "stored f h opid s \<longleftrightarrow> (\<exists>i. stored_in f h opid s i)"

lemma encoded_fits: "encode_state s = Some bs \<Longrightarrow> length bs \<le> kMaxStateBytes"
  using state_bytes_fit [of s] by (auto simp: encode_state_eq split: if_splits)

lemma fs_Load_iff:
  "fs_Load f h opid token = Some s \<longleftrightarrow> stored f (nd_fd h) opid s \<and> os_token s = token"
proof
  assume "fs_Load f h opid token = Some s"
  then obtain nd c k where l: "fs_OpenFileAt f (nd_fd h) (StateName opid) = Some nd"
      "file_of f (nd_fd nd) = Some (c, k)" "decode_state c = Some s" "os_token s = token"
    by (auto simp: fs_Load_def split: option.splits if_splits)
  then obtain i c' where "file_at f (nd_fd h) (StateName opid) i c'" "nd = file_node i c'"
    by (auto simp: fs_OpenFileAt_iff)
  with l have "file_at f (nd_fd h) (StateName opid) i c" by (auto simp: file_at_def)
  with encode_decode [OF l(3)] l(4) show "stored f (nd_fd h) opid s \<and> os_token s = token"
    by (auto simp: stored_def stored_in_def)
next
  assume *: "stored f (nd_fd h) opid s \<and> os_token s = token"
  then obtain i bs where i: "file_at f (nd_fd h) (StateName opid) i bs" "encode_state s = Some bs"
    by (auto simp: stored_def stored_in_def)
  then have "fs_OpenFileAt f (nd_fd h) (StateName opid) = Some (file_node i bs)"
    by (auto simp: fs_OpenFileAt_iff)
  with i * decode_encode [OF i(2)] encoded_fits [OF i(2)] show "fs_Load f h opid token = Some s"
    by (simp add: fs_Load_def file_at_def)
qed

lemma stored_file:
  "stored f h opid s \<Longrightarrow> \<exists>j c. lookup f h (StateName opid) = Some j \<and> file_of f j = Some (c, 1)"
  by (auto simp: stored_def stored_in_def file_at_def)

lemma stored_unique: "stored f h opid s \<Longrightarrow> stored f h opid t \<Longrightarrow> s = t"
  by (auto simp: stored_def stored_in_def file_at_def dest!: decode_encode)

section \<open>What a save touches\<close>

text \<open>
  From \<open>f\<close> to \<open>f'\<close> only the entry \<open>n\<close> of \<open>h\<close>, the file it named and temporary files beside it have
  changed; what the entry names now is what it named before or a new file.
\<close>

definition kept :: "Identity \<Rightarrow> string \<Rightarrow> fs \<Rightarrow> fs \<Rightarrow> bool" where
  "kept h n f f' \<longleftrightarrow>
     (\<forall>d m. \<not> (d = h \<and> (m = n \<or> prefix (n @ ''.tmp.'') m)) \<longrightarrow> lookup f' d m = lookup f d m) \<and>
     (\<forall>d. is_dir f' d = is_dir f d) \<and> (\<forall>d. is_dir f d \<longrightarrow> fs_stat f' d = fs_stat f d) \<and>
     (\<forall>d m e. is_dir f e \<longrightarrow> (lookup f' d m = Some e) = (lookup f d m = Some e)) \<and>
     (\<forall>d m e. \<not> (d = h \<and> m = n) \<longrightarrow> lookup f d m = Some e \<longrightarrow> lookup f' d m = Some e) \<and>
     paths f' = paths f \<and>
     (\<forall>i. in_use f i \<longrightarrow> in_use f' i) \<and>
     (\<forall>i. in_use f i \<longrightarrow> lookup f h n \<noteq> Some i \<longrightarrow> file_of f' i = file_of f i) \<and>
     (lookup f' h n = lookup f h n \<and> (\<forall>i. lookup f h n = Some i \<longrightarrow> in_use f i \<longrightarrow> file_of f' i = file_of f i)
      \<or> (\<exists>i. lookup f' h n = Some i \<and> \<not> in_use f i))"

lemma kept_refl [simp]: "kept h n f f"
  by (simp add: kept_def)

lemma keptD:
  assumes "kept h n f f'"
  shows kept_lookup: "\<not> (d = h \<and> (m = n \<or> prefix (n @ ''.tmp.'') m)) \<Longrightarrow> lookup f' d m = lookup f d m"
    and kept_is_dir: "is_dir f' d = is_dir f d"
    and kept_stat: "is_dir f d \<Longrightarrow> fs_stat f' d = fs_stat f d"
    and kept_dir_entry: "is_dir f e \<Longrightarrow> (lookup f' d m = Some e) = (lookup f d m = Some e)"
    and kept_present: "\<not> (d = h \<and> m = n) \<Longrightarrow> lookup f d m = Some e \<Longrightarrow> lookup f' d m = Some e"
    and kept_paths: "paths f' = paths f"
    and kept_in_use: "in_use f i \<Longrightarrow> in_use f' i"
    and kept_file: "in_use f i \<Longrightarrow> lookup f h n \<noteq> Some i \<Longrightarrow> file_of f' i = file_of f i"
    and kept_entry: "lookup f' h n = lookup f h n \<or> (\<exists>i. lookup f' h n = Some i \<and> \<not> in_use f i)"
  using assms unfolding kept_def by blast+

lemma kept_same_file:
  assumes "kept h n f f'" "lookup f' h n = lookup f h n" "in_use f i"
  shows "file_of f' i = file_of f i"
proof (cases "lookup f h n = Some i")
  case True
  with assms(2,3) have "\<not> (\<exists>i. lookup f' h n = Some i \<and> \<not> in_use f i)" by simp
  with assms(1,3) True show ?thesis unfolding kept_def by blast
next
  case False
  with kept_file [OF assms(1,3)] show ?thesis .
qed

lemma kept_trans:
  assumes "kept h n f g" "kept h n g f'"
  shows "kept h n f f'"
  unfolding kept_def
proof (intro conjI allI impI)
  show "lookup f' d m = lookup f d m" if "\<not> (d = h \<and> (m = n \<or> prefix (n @ ''.tmp.'') m))" for d m
    using assms [THEN kept_lookup] that by simp
  show "is_dir f' d = is_dir f d" for d using assms [THEN kept_is_dir] by simp
  show "fs_stat f' d = fs_stat f d" if "is_dir f d" for d
    using assms [THEN kept_stat] assms [THEN kept_is_dir] that by simp
  show "(lookup f' d m = Some e) = (lookup f d m = Some e)" if "is_dir f e" for d m e
    using assms [THEN kept_dir_entry] assms [THEN kept_is_dir] that by simp
  show "lookup f' d m = Some e" if "\<not> (d = h \<and> m = n)" "lookup f d m = Some e" for d m e
    using assms [THEN kept_present] that by simp
  show "paths f' = paths f" using assms [THEN kept_paths] by simp
  show "in_use f' i" if "in_use f i" for i using assms [THEN kept_in_use] that by simp
  show "file_of f' i = file_of f i" if "in_use f i" "lookup f h n \<noteq> Some i" for i
  proof -
    have "file_of g i = file_of f i" "in_use g i"
      using kept_file [OF assms(1)] kept_in_use [OF assms(1)] that by blast+
    moreover have "lookup g h n \<noteq> Some i" using kept_entry [OF assms(1)] that by auto
    ultimately show ?thesis using kept_file [OF assms(2)] by simp
  qed
  show "lookup f' h n = lookup f h n \<and> (\<forall>i. lookup f h n = Some i \<longrightarrow> in_use f i \<longrightarrow> file_of f' i = file_of f i)
      \<or> (\<exists>i. lookup f' h n = Some i \<and> \<not> in_use f i)"
  proof (cases "lookup f' h n = lookup g h n")
    case True
    show ?thesis
    proof (cases "lookup g h n = lookup f h n")
      case same: True
      have "file_of f' i = file_of f i" if "in_use f i" for i
        using kept_same_file [OF assms(1) same that]
          kept_same_file [OF assms(2) True kept_in_use [OF assms(1) that]] by simp
      with True same show ?thesis by simp
    next
      case False
      with assms(1) True show ?thesis unfolding kept_def by auto
    qed
  next
    case False
    then obtain i where "lookup f' h n = Some i" "\<not> in_use g i"
      using assms(2) unfolding kept_def by auto
    moreover from this have "\<not> in_use f i" using assms(1) unfolding kept_def by blast
    ultimately show ?thesis by blast
  qed
qed

lemma keptI:
  assumes "\<And>d m. \<not> (d = h \<and> (m = n \<or> prefix (n @ ''.tmp.'') m)) \<Longrightarrow> lookup f' d m = lookup f d m"
    "\<And>d. is_dir f' d = is_dir f d" "\<And>d. is_dir f d \<Longrightarrow> fs_stat f' d = fs_stat f d"
    "\<And>d m e. is_dir f e \<Longrightarrow> (lookup f' d m = Some e) = (lookup f d m = Some e)"
    "\<And>d m e. \<not> (d = h \<and> m = n) \<Longrightarrow> lookup f d m = Some e \<Longrightarrow> lookup f' d m = Some e" "paths f' = paths f"
    "\<And>i. in_use f i \<Longrightarrow> in_use f' i"
    "\<And>i. in_use f i \<Longrightarrow> lookup f h n \<noteq> Some i \<Longrightarrow> file_of f' i = file_of f i"
    "lookup f' h n = lookup f h n \<and> (\<forall>i. lookup f h n = Some i \<longrightarrow> in_use f i \<longrightarrow> file_of f' i = file_of f i)
      \<or> (\<exists>i. lookup f' h n = Some i \<and> \<not> in_use f i)"
  shows "kept h n f f'"
  using assms unfolding kept_def by blast

lemma kept_with_file:
  assumes "\<not> in_use f i" "is_dir f h" "prefix (n @ ''.tmp.'') t" "t \<noteq> n" "lookup f h t = None"
  shows "kept h n f (with_file f h t i c)"
    and "lookup (with_file f h t i c) h n = lookup f h n"
    and "kept h n f (set_nlink (unlink (with_file f h t i c) h t) i 0)"
    and "lookup (set_nlink (unlink (with_file f h t i c) h t) i 0) h n = lookup f h n"
proof -
  note views = with_file_views [OF assms(1,2)]
  have ne: "j \<noteq> i" if "in_use f j" for j using that assms(1) by auto
  have nd: "d \<noteq> i" if "is_dir f d" for d using ne is_dir_in_use [OF that] by auto
  show l: "lookup (with_file f h t i c) h n = lookup f h n"
    and "lookup (set_nlink (unlink (with_file f h t i c) h t) i 0) h n = lookup f h n"
    using assms(4) by (simp_all add: views fs_simps)
  show "kept h n f (with_file f h t i c)"
    by (rule keptI) (use assms(3-5) ne nd in \<open>auto simp: views\<close>)
  show "kept h n f (set_nlink (unlink (with_file f h t i c) h t) i 0)"
    by (rule keptI) (use assms(3-5) ne nd in \<open>auto simp: views fs_simps fs_stat_other\<close>)
qed

lemma stored_kept:
  assumes "kept h (StateName opid) f f'" "lookup f' h (StateName opid) = lookup f h (StateName opid)"
    and "stored_in f h opid s i"
  shows "stored_in f' h opid s i"
proof -
  have "in_use f i" using assms(3) by (auto simp: stored_in_def file_at_def dest: file_of_in_use)
  with kept_same_file [OF assms(1,2)] assms(2,3) show ?thesis by (simp add: stored_in_def file_at_def)
qed

lemma kept_replace:
  assumes "\<not> in_use f i" "is_dir f h" "prefix (n @ ''.tmp.'') t" "t \<noteq> n" "device i = device h" "lookup f h t = None"
    and "lookup f h n = None \<or> (\<exists>j c. lookup f h n = Some j \<and> file_of f j = Some (c, 1))"
    and "fs_rename (with_file f h t i bs) h t h n Replace = Inr ((), f')"
  shows "kept h n f f' \<and> file_at f' h n i bs \<and> lookup f' h t = None"
proof -
  note views = with_file_views [OF assms(1,2)]
  let ?f = "with_file f h t i bs"
  have ih: "i \<noteq> h" and nd: "\<And>d. is_dir f d \<Longrightarrow> d \<noteq> i" using assms(1,2) is_dir_in_use by auto
  have t: "lookup ?f h t = Some i" "file_of ?f i = Some (bs, 1)" by (simp_all add: views)
  consider "lookup f h n = None" | j c where "lookup f h n = Some j" "file_of f j = Some (c, 1)"
    using assms(7) by (elim disjE exE conjE) blast+
  then show ?thesis
  proof cases
    case 1
    then have f': "f' = link (unlink ?f h t) h n i"
      using assms(8) fs_rename_onto_nothing [OF t(1), of h n Replace] assms(2,4) ih by (simp add: views)
    have "kept h n f f'"
      unfolding f' by (rule keptI) (use assms(1-3,6) nd 1 in \<open>auto simp: views fs_simps fs_stat_other\<close>)
    moreover have "file_at f' h n i bs \<and> lookup f' h t = None"
      unfolding f' using assms(2,4,5) by (simp add: file_at_def views fs_simps)
    ultimately show ?thesis by blast
  next
    case 2
    then have j: "i \<noteq> j" "h \<noteq> j" "\<And>d. is_dir f d \<Longrightarrow> d \<noteq> j"
      using assms(1,2) file_of_in_use file_not_dir by auto
    have f': "f' = set_nlink (link (unlink ?f h t) h n i) j 0"
      using assms(8) fs_rename_onto_file [OF t, of h n j c 1] 2 assms(4) j by (simp add: views)
    have "kept h n f f'"
      unfolding f' by (rule keptI) (use assms(1-3,6) nd j 2 in \<open>auto simp: views fs_simps fs_stat_other\<close>)
    moreover have "file_at f' h n i bs \<and> lookup f' h t = None"
      unfolding f' using assms(2,4,5) j by (simp add: file_at_def views fs_simps)
    ultimately show ?thesis by blast
  qed
qed

section \<open>Saving is atomic\<close>

lemma temporary_name:
  "prefix (StateName opid @ ''.tmp.'') (opid @ ''.state.tmp.'' @ x)" "opid @ ''.state.tmp.'' @ x \<noteq> StateName opid"
  by (simp_all add: StateName_def prefix_def)

text \<open>What \<open>r\<close> and the file system \<open>f'\<close> are after a save of \<open>s\<close> over \<open>f\<close>.\<close>

definition saved :: "Identity \<Rightarrow> string \<Rightarrow> OperationState \<Rightarrow> fs \<Rightarrow> bool \<Rightarrow> fs \<Rightarrow> bool" where
  "saved h opid s f r f' \<longleftrightarrow>
     kept h (StateName opid) f f' \<and>
     (lookup f' h (StateName opid) = lookup f h (StateName opid) \<and> \<not> r \<or>
      stored f' h opid s \<and>
      (lookup f h (StateName opid) = None \<or>
       (\<exists>cur. stored f h opid cur \<and> os_token cur = os_token s \<and>
              (os_phase cur = os_phase s \<or> forward (os_phase cur) (os_phase s)))))"

lemma reads_synced [reads_intro]: "reads (synced i) (\<lambda>f. in_use f i) {False}"
  unfolding synced_def
  by (rule reads_weaken [OF reads_pure [where h = "\<lambda>r. r = Inr ()", OF reads_fsync refl]])
     (auto simp: fun_eq_iff)

lemma wp_drop_temporary:
  assumes "quiet w" "is_dir (disk w) d"
    and "lookup (disk w) d t = Some i \<and> file_of (disk w) i = Some (c, 1) \<or> lookup (disk w) d t = None"
    and "\<And>w'. follows w w' \<Longrightarrow> disk w' = disk w \<or>
          lookup (disk w) d t = Some i \<and> disk w' = set_nlink (unlink (disk w) d t) i 0 \<Longrightarrow> Q w'"
  shows "wp (sys_unlinkat d t False) (\<lambda>_. Q) w"
proof (rule wp_unlinkat [OF assms(1)])
  fix e w' assume "follows w w'" "disk w' = disk w"
  then show "Q w'" by (intro assms(4)) auto
next
  fix w' assume w': "follows w w'" "fs_unlink (disk w) d t False = Inr ((), disk w')"
  with assms(2,3) show "Q w'"
    by (intro assms(4)) (auto simp: fs_unlink_file fs_unlink_none)
qed

lemma wp_install:
  fixes h opid t :: _ and i :: Identity
  defines "n \<equiv> StateName opid"
  assumes "quiet w" "disk w = with_file f h t i []" "encode_state s = Some bytes"
    and new: "\<not> in_use f i" "is_dir f h" "prefix (n @ ''.tmp.'') t" "t \<noteq> n" "device i = device h" "lookup f h t = None"
    and old: "lookup f h n = None \<or> (\<exists>j c. lookup f h n = Some j \<and> file_of f j = Some (c, 1))"
    and post: "\<And>r w'. follows w w' \<Longrightarrow> kept h n f (disk w') \<Longrightarrow>
          lookup (disk w') h n = lookup f h n \<and> \<not> r \<or> stored (disk w') h opid s \<Longrightarrow> Q r w'"
  shows "wp (do {
           written \<leftarrow> andM (WriteAll i bytes) (synced i);
           ok \<leftarrow> (if written then andM (RenameAt2 h t h n Replace) (synced h) else ret False);
           if ok then ret True else do { _ \<leftarrow> sys_unlinkat h t False; ret False } }) Q w"
proof -
  note views = with_file_views [OF new(1,2)] and kw = kept_with_file [OF new(1,2,3,4,6)]
  have drop_temp: "wp (sys_unlinkat h t False) (\<lambda>_. Q False) w'"
    if "follows w w'" "disk w' = with_file f h t i c" for w' c
  proof (rule wp_drop_temporary [where i = i and c = c])
    show "quiet w'" using that assms(2) by (simp add: follows_quiet)
    show "Q False w''" if "follows w' w''" "disk w'' = disk w' \<or>
        lookup (disk w') h t = Some i \<and> disk w'' = set_nlink (unlink (disk w') h t) i 0" for w''
      using that \<open>follows w w'\<close> \<open>disk w' = _\<close> kw by (intro post) (auto intro: follows_trans)
  qed (simp_all add: that views new)
  have start: "file_of (disk w) i = Some ([], 1)" by (simp add: assms(3) views)
  show ?thesis
    unfolding wp_bind wp_andM WriteAll_def
  proof (rule wp_write_loop [OF \<open>quiet w\<close> start, unfolded list.size(3)])
    fix b c' w1
    assume w1: "follows w w1" "disk w1 = set_body (disk w) i (Regular c')" and c': "b \<Longrightarrow> c' = [] @ bytes"
    have d1: "disk w1 = with_file f h t i c'" using w1 by (simp add: assms(3) set_body_with_file)
    have q1: "quiet w1" using w1 \<open>quiet w\<close> by (simp add: follows_quiet)
    let ?rest = "\<lambda>written. wp (if written then andM (RenameAt2 h t h n Replace) (synced h) else ret False)
        (\<lambda>ok. wp (if ok then ret True else do { _ \<leftarrow> sys_unlinkat h t False; ret False }) Q)"
    show "(if b then wp (synced i) ?rest else ?rest False) w1"
    proof (cases b)
      case False
      with drop_temp [OF w1(1) d1] show ?thesis by simp
    next
      case True
      have "wp (synced i) ?rest w1"
      proof (rule reads_wp [OF reads_synced q1])
        fix ok w2 assume w2: "follows w1 w2" "disk w2 = disk w1"
        have f2: "follows w w2" using w1 w2 by (auto intro: follows_trans)
        have q2: "quiet w2" using q1 w2 by (simp add: follows_quiet)
        have d2: "disk w2 = with_file f h t i bytes" using d1 w2 c' True by simp
        show "?rest ok w2"
        proof (cases ok)
          case False
          with drop_temp [OF f2 d2] show ?thesis by simp
        next
          case True
          have "wp (sys_rename h t h n Replace) (\<lambda>r. wp (ret (r = Inr ())) (\<lambda>b.
              if b then wp (synced h) (\<lambda>ok. wp (if ok then ret True
                  else do { _ \<leftarrow> sys_unlinkat h t False; ret False }) Q)
              else wp (sys_unlinkat h t False) (\<lambda>_. Q False))) w2"
          proof (rule wp_rename [OF q2])
            fix e w3 assume "follows w2 w3" "disk w3 = disk w2"
            then have "wp (sys_unlinkat h t False) (\<lambda>_. Q False) w3"
              using d2 by (intro drop_temp follows_trans [OF f2]) auto
            then show "wp (ret ((Inl e :: errno + unit) = Inr ())) (\<lambda>b.
              if b then wp (synced h) (\<lambda>ok. wp (if ok then ret True
                  else do { _ \<leftarrow> sys_unlinkat h t False; ret False }) Q)
              else wp (sys_unlinkat h t False) (\<lambda>_. Q False)) w3"
              by simp
          next
            fix w3 assume w3: "follows w2 w3" "fs_rename (disk w2) h t h n Replace = Inr ((), disk w3)"
            have f3: "follows w w3" and q3: "quiet w3" using f2 q2 w3 by (auto intro: follows_trans simp: follows_quiet)
            have k: "kept h n f (disk w3)" "file_at (disk w3) h n i bytes" "lookup (disk w3) h t = None"
              using kept_replace [OF new old w3(2) [unfolded d2]] by auto
            have st: "stored (disk w3) h opid s"
              using k(2) assms(4) by (auto simp: stored_def stored_in_def n_def)
            have "wp (synced h) (\<lambda>ok. wp (if ok then ret True
                  else do { _ \<leftarrow> sys_unlinkat h t False; ret False }) Q) w3"
            proof (rule reads_wp [OF reads_synced q3])
              fix ok w4 assume w4: "follows w3 w4" "disk w4 = disk w3"
              have f4: "follows w w4" using f3 w4 by (auto intro: follows_trans)
              have "wp (sys_unlinkat h t False) (\<lambda>_. Q False) w4"
              proof (rule wp_drop_temporary [where i = i])
                show "Q False w5" if "follows w4 w5" "disk w5 = disk w4 \<or>
                    lookup (disk w4) h t = Some i \<and> disk w5 = set_nlink (unlink (disk w4) h t) i 0" for w5
                  using that f4 w4 k st by (intro post) (auto intro: follows_trans)
              qed (use q3 w4 k new in \<open>auto simp: follows_quiet kept_is_dir [OF k(1)]\<close>)
              moreover have "Q True w4" using f4 w4 k st by (intro post) auto
              ultimately show "wp (if ok then ret True
                  else do { _ \<leftarrow> sys_unlinkat h t False; ret False }) Q w4" by simp
            qed
            then show "wp (ret ((Inr () :: errno + unit) = Inr ())) (\<lambda>b.
              if b then wp (synced h) (\<lambda>ok. wp (if ok then ret True
                  else do { _ \<leftarrow> sys_unlinkat h t False; ret False }) Q)
              else wp (sys_unlinkat h t False) (\<lambda>_. Q False)) w3"
              by simp
          qed
          with True show ?thesis by (simp add: RenameAt2_def cong: if_cong)
        qed
      qed
      with True show ?thesis by simp
    qed
  qed
qed

lemma wp_Save:
  assumes q: "quiet w"
    and post: "\<And>r w'. follows w w' \<Longrightarrow> saved (nd_fd h) opid s (disk w) r (disk w') \<Longrightarrow> Q r w'"
  shows "wp (SaveOperationState h opid s) Q w"
proof (cases "encode_state s")
  case None
  then show ?thesis by (auto simp: SaveOperationState_def saved_def intro!: post)
next
  case (Some bytes)
  let ?n = "StateName opid"
  have unchanged: "Q False w'" if "follows w w'" "disk w' = disk w" for w'
    using that by (intro post) (auto simp: saved_def)
  show ?thesis
    unfolding SaveOperationState_def Some option.case wp_bind
  proof (rule reads_wp [OF reads_MissingAt q], rule reads_wp [OF reads_LoadOperationState], goal_cases)
    case (1 missing w1)
    then show ?case using q by (simp add: follows_quiet)
  next
    case (2 missing w1 loaded w2)
    then have w2: "follows w w2" "disk w2 = disk w" and q2: "quiet w2"
      and m: "missing \<Longrightarrow> lookup (disk w) (nd_fd h) ?n = None"
      and l: "\<And>cur. loaded = Some cur \<Longrightarrow> stored (disk w) (nd_fd h) opid cur \<and> os_token cur = os_token s"
      using q by (auto simp: fs_MissingAt_iff follows_quiet fs_Load_iff [symmetric] dest: follows_trans)
    show ?case
    proof (cases "\<not> missing \<and> loaded = None \<or> (\<exists>cur. loaded = Some cur \<and>
          os_phase cur \<noteq> os_phase s \<and> \<not> forward (os_phase cur) (os_phase s))")
      case True
      then show ?thesis using unchanged [OF w2] by auto
    next
      case False
      then have c: "\<not> (\<not> missing \<and> loaded = None)" "\<not> (case loaded of None \<Rightarrow> False
          | Some cur \<Rightarrow> os_phase cur \<noteq> os_phase s \<and> \<not> forward (os_phase cur) (os_phase s))"
        by (auto split: option.splits)
      have allowed: "lookup (disk w) (nd_fd h) ?n = None \<or> (\<exists>cur. stored (disk w) (nd_fd h) opid cur \<and>
          os_token cur = os_token s \<and> (os_phase cur = os_phase s \<or> forward (os_phase cur) (os_phase s)))"
      proof (cases loaded)
        case None
        with False m show ?thesis by blast
      next
        case (Some cur)
        with l have "stored (disk w) (nd_fd h) opid cur \<and> os_token cur = os_token s" by blast
        moreover have "os_phase cur = os_phase s \<or> forward (os_phase cur) (os_phase s)"
          using False Some by blast
        ultimately show ?thesis by blast
      qed
      then have old: "lookup (disk w) (nd_fd h) ?n = None \<or>
          (\<exists>j c. lookup (disk w) (nd_fd h) ?n = Some j \<and> file_of (disk w) j = Some (c, 1))"
      proof
        assume "lookup (disk w) (nd_fd h) ?n = None"
        then show ?thesis by (rule disjI1)
      next
        assume "\<exists>cur. stored (disk w) (nd_fd h) opid cur \<and>
          os_token cur = os_token s \<and> (os_phase cur = os_phase s \<or> forward (os_phase cur) (os_phase s))"
        then obtain cur where "stored (disk w) (nd_fd h) opid cur" by blast
        then show ?thesis by (rule stored_file [THEN disjI2])
      qed
      show ?thesis
        unfolding if_not_P [OF c(1)] if_not_P [OF c(2)] wp_bind
      proof (rule wp_getrandom)
        fix r w3 assume w3': "follows w2 w3" "disk w3 = disk w2"
        have w3: "follows w w3" "disk w3 = disk w" and q3: "quiet w3"
          using w2 w3' q2 by (auto intro: follows_trans simp: follows_quiet)
        show "wp (case r of Rnd_bytes rs \<Rightarrow>
                 if length rs \<noteq> 8 then ret False
                 else do {
                   let temporary = opid @ ''.state.tmp.'' @ hex_of rs;
                   fd \<leftarrow> sys_create (nd_fd h) temporary;
                   (case fd of
                      Inl _ \<Rightarrow> ret False
                    | Inr i \<Rightarrow> do {
                        written \<leftarrow> andM (WriteAll i bytes) (synced i);
                        ok \<leftarrow> (if written
                               then andM (RenameAt2 (nd_fd h) temporary (nd_fd h) ?n Replace)
                                         (synced (nd_fd h))
                               else ret False);
                        if ok then ret True
                        else do { _ \<leftarrow> sys_unlinkat (nd_fd h) temporary False; ret False } }) }
             | _ \<Rightarrow> ret False) Q w3"
        proof (cases "\<exists>rs. r = Rnd_bytes rs \<and> length rs = 8")
          case False
          then show ?thesis using unchanged [OF w3] by (auto split: rnd.splits)
        next
          case True
          then obtain rs where rs: "r = Rnd_bytes rs" "length rs = 8" by blast
          let ?t = "opid @ ''.state.tmp.'' @ hex_of rs"
          have "wp (sys_create (nd_fd h) ?t) (\<lambda>fd. wp (case fd of
                      Inl _ \<Rightarrow> ret False
                    | Inr i \<Rightarrow> do {
                        written \<leftarrow> andM (WriteAll i bytes) (synced i);
                        ok \<leftarrow> (if written
                               then andM (RenameAt2 (nd_fd h) ?t (nd_fd h) ?n Replace) (synced (nd_fd h))
                               else ret False);
                        if ok then ret True
                        else do { _ \<leftarrow> sys_unlinkat (nd_fd h) ?t False; ret False } }) Q) w3"
          proof (rule wp_create [OF q3])
            fix e w4 assume "follows w3 w4" "disk w4 = disk w3"
            then have "Q False w4" using w3 by (intro unchanged) (auto intro: follows_trans)
            then show "wp (case Inl e of Inl _ \<Rightarrow> ret False | Inr i \<Rightarrow> do {
                        written \<leftarrow> andM (WriteAll i bytes) (synced i);
                        ok \<leftarrow> (if written
                               then andM (RenameAt2 (nd_fd h) ?t (nd_fd h) ?n Replace) (synced (nd_fd h))
                               else ret False);
                        if ok then ret True
                        else do { _ \<leftarrow> sys_unlinkat (nd_fd h) ?t False; ret False } }) Q w4"
              by simp
          next
            fix i w4 assume w4: "follows w3 w4" "is_dir (disk w3) (nd_fd h)" "lookup (disk w3) (nd_fd h) ?t = None" "\<not> in_use (disk w3) i"
              "device i = device (nd_fd h)" "disk w4 = with_file (disk w3) (nd_fd h) ?t i []"
            have "quiet w4" "follows w w4" using q3 w3 w4 by (auto simp: follows_quiet intro: follows_trans)
            show "wp (case Inr i of Inl _ \<Rightarrow> ret False | Inr i \<Rightarrow> do {
                        written \<leftarrow> andM (WriteAll i bytes) (synced i);
                        ok \<leftarrow> (if written
                               then andM (RenameAt2 (nd_fd h) ?t (nd_fd h) ?n Replace) (synced (nd_fd h))
                               else ret False);
                        if ok then ret True
                        else do { _ \<leftarrow> sys_unlinkat (nd_fd h) ?t False; ret False } }) Q w4"
              unfolding sum.case
            proof (rule wp_install [OF \<open>quiet w4\<close> _ Some, where f = "disk w"])
              show "Q r w5" if "follows w4 w5" "kept (nd_fd h) ?n (disk w) (disk w5)"
                "lookup (disk w5) (nd_fd h) ?n = lookup (disk w) (nd_fd h) ?n \<and> \<not> r \<or> stored (disk w5) (nd_fd h) opid s"
                for r w5
                using that \<open>follows w w4\<close> allowed
                by (intro post) (auto simp: saved_def intro: follows_trans)
            qed (use w3(2) w4(2-6) old in \<open>simp_all only: temporary_name not_False_eq_True\<close>)
          qed
          then show ?thesis by (simp only: rs rnd.case Let_def wp_bind simp_thms if_False)
        qed
      qed
    qed
  qed
qed

end
