(* ===== verification/Prepare_Commit.thy ===== *)
theory Prepare_Commit
  imports State_Store
begin

text \<open>
  The handlers that prepare and commit a mutation, \<^verbatim>\<open>linux/runner/session_workspace_prepare_commit.cc\<close>,
  and \<^verbatim>\<open>Prepared\<close> of \<^verbatim>\<open>session_workspace_common.cc\<close>, which finds a prepared operation by its
  receipt. Every handler is a program that returns its reply; each early return of the source is a
  branch that stops.
\<close>

section \<open>Shared steps\<close>

definition IsWrite :: "string \<Rightarrow> bool" where
  "IsWrite oper \<longleftrightarrow> oper = ''write_file'' \<or> oper = ''apply_patch''"

definition ValidOperation :: "string \<Rightarrow> bool" where
  "ValidOperation oper \<longleftrightarrow>
     IsWrite oper \<or> oper = ''move_file'' \<or> oper = ''delete_file'' \<or> oper = ''make_directory''"

text \<open>The receipt's operation id and token, the session key and the root identity.\<close>

definition receipt_args :: "FlValue \<Rightarrow> (string \<times> string) option" where
  "receipt_args a =
     (case Lookup a ''prepared'' of
        Some (FlMap es) \<Rightarrow>
          if length es \<noteq> 2 then None
          else (case (StringArg (FlMap es) ''operationId'', StringArg (FlMap es) ''token'') of
                  (Some opid, Some token) \<Rightarrow>
                    if \<not> SafeOperationId opid \<or> length token \<noteq> 43 then None else Some (opid, token)
                | _ \<Rightarrow> None)
      | _ \<Rightarrow> None)"

definition prepared_args :: "FlValue \<Rightarrow> (string \<times> string \<times> string \<times> string) option" where
  "prepared_args a =
     (case (receipt_args a, StringArg a ''sessionKey'', StringArg a ''rootIdentity'') of
        (Some (opid, token), Some key, Some bound) \<Rightarrow> Some (opid, token, key, bound)
      | _ \<Rightarrow> None)"

definition probe_of :: "FlValue \<Rightarrow> FlValue" where
  "probe_of a =
     fl_set (fl_set (fl_set (fl_set (FlMap []) ''root'' (Lookup a ''root''))
                            ''sessionKey'' (Lookup a ''sessionKey''))
                    ''rootIdentity'' (Lookup a ''rootIdentity''))
            ''path'' (Some (FlString []))"

definition Prepared :: "lib \<Rightarrow> FlValue
    \<Rightarrow> (string + Context \<times> Node \<times> string \<times> OperationState) io" where
  "Prepared L a =
     (case prepared_args a of
        None \<Rightarrow> ret (Inl ''invalid_prepared_receipt'')
      | Some (opid, token, key, bound) \<Rightarrow> do {
          c \<leftarrow> OpenContext L (probe_of a) False;
          (case c of
             Inl _ \<Rightarrow> ret (Inl ''invalid_prepared_receipt'')
           | Inr ctx \<Rightarrow> do {
               h \<leftarrow> EnsureHidden ctx;
               (case h of
                  Inl _ \<Rightarrow> ret (Inl ''invalid_prepared_receipt'')
                | Inr hidden \<Rightarrow> do {
                    l \<leftarrow> LoadOperationState hidden opid token;
                    ret (case l of
                           None \<Rightarrow> Inl ''invalid_prepared_receipt''
                         | Some s \<Rightarrow>
                             if os_root_identity s \<noteq> bound \<or>
                                os_session_identity s \<noteq> Token (nd_id (session ctx)) \<or>
                                os_session_key s \<noteq> key
                             then Inl ''invalid_prepared_receipt''
                             else (case ParseRelative L (os_path s) False of
                                     None \<Rightarrow> Inl ''invalid_prepared_receipt''
                                   | Some ps \<Rightarrow> Inr (ctx\<lparr>parts := ps\<rparr>, hidden, opid, s))) }) }) })"

text \<open>
  \<^verbatim>\<open>OpenDestination\<close>; the context it builds has no \<^verbatim>\<open>sessions\<close> node, which \<^verbatim>\<open>OpenParent\<close> does not
  read: here it keeps the caller's.
\<close>

definition OpenDestination :: "lib \<Rightarrow> Context \<Rightarrow> OperationState \<Rightarrow> (string + Node \<times> string) io" where
  "OpenDestination L c s =
     (if \<not> os_has_destination s then ret (Inl ''invalid_prepared_receipt'')
      else case ParseRelative L (os_destination s) False of
        None \<Rightarrow> ret (Inl ''invalid_prepared_receipt'')
      | Some ps \<Rightarrow> do {
          r \<leftarrow> Duplicate (root c);
          (case r of
             None \<Rightarrow> ret (Inl ''metadata_changed'')
           | Some rt \<Rightarrow> do {
               se \<leftarrow> Duplicate (session c);
               (case se of
                  None \<Rightarrow> ret (Inl ''metadata_changed'')
                | Some sn \<Rightarrow> OpenParent (c\<lparr>root := rt, session := sn, parts := ps\<rparr>)) }) })"

definition FileProof :: "lib \<Rightarrow> Node \<Rightarrow> string \<Rightarrow> string \<Rightarrow> string \<Rightarrow> bool io" where
  "FileProof L p name ident hash = do {
     n \<leftarrow> OpenFileAt (nd_fd p) name;
     (case n of
        None \<Rightarrow> ret False
      | Some nd \<Rightarrow>
          if Token (nd_id nd) \<noteq> ident then ret False
          else andM (Stable nd S_IFREG)
                    (do { r \<leftarrow> HashExact L nd;
                          ret (case r of None \<Rightarrow> False | Some (actual, _) \<Rightarrow> actual = hash) })) }"

definition Persist :: "Node \<Rightarrow> string \<Rightarrow> OperationState \<Rightarrow> OperationPhase \<Rightarrow> bool io" where
  "Persist hidden opid s ph = SaveOperationState hidden opid (s\<lparr>os_phase := ph\<rparr>)"

text \<open>\<open>OpenFileAt\<close> followed by \<open>Verify\<close> of what it opened.\<close>

definition open_verify :: "lib \<Rightarrow> Node \<Rightarrow> string \<Rightarrow> string \<Rightarrow> string \<Rightarrow> bool io" where
  "open_verify L p name ident hash = do {
     n \<leftarrow> OpenFileAt (nd_fd p) name;
     (case n of None \<Rightarrow> ret False | Some nd \<Rightarrow> Verify L nd ident hash) }"

definition stage_name :: "string \<Rightarrow> string" where
  "stage_name opid = opid @ ''.stage''"

definition backup_name :: "string \<Rightarrow> string" where
  "backup_name opid = opid @ ''.backup''"

section \<open>Preparing\<close>

record request =
  rq_opid :: string
  rq_operation :: string
  rq_path :: string
  rq_destination :: "string option"
  rq_expect_missing :: bool
  rq_identity :: "string option"
  rq_hash :: "string option"

definition prepare_args :: "FlValue \<Rightarrow> request option" where
  "prepare_args a =
     (case StringArg a ''operationId'' of None \<Rightarrow> None | Some opid \<Rightarrow>
      if \<not> SafeOperationId opid then None else
      case StringArg a ''operation'' of None \<Rightarrow> None | Some oper \<Rightarrow>
      if \<not> ValidOperation oper then None else
      case StringArg a ''path'' of None \<Rightarrow> None | Some p \<Rightarrow>
      case NullableStringArg a ''destination'' of None \<Rightarrow> None | Some dest \<Rightarrow>
      case BoolArg a ''expectMissing'' of None \<Rightarrow> None | Some missing \<Rightarrow>
      case NullableStringArg a ''expectedIdentity'' of None \<Rightarrow> None | Some ident \<Rightarrow>
      case NullableStringArg a ''expectedHash'' of None \<Rightarrow> None | Some hash \<Rightarrow>
      if (oper = ''move_file'') \<noteq> (dest \<noteq> None) then None
      else Some \<lparr>rq_opid = opid, rq_operation = oper, rq_path = p, rq_destination = dest,
                 rq_expect_missing = missing, rq_identity = ident, rq_hash = hash\<rparr>)"

text \<open>The target, if it is a file, and if not the directory of that name.\<close>

definition open_target :: "Node \<Rightarrow> string \<Rightarrow> (Node option \<times> Node option) io" where
  "open_target p name = do {
     t \<leftarrow> OpenFileAt (nd_fd p) name;
     (case t of
        Some nd \<Rightarrow> ret (Some nd, None)
      | None \<Rightarrow> do { d \<leftarrow> OpenDirAt (nd_fd p) name; ret (None, d) }) }"

definition stale_target :: "lib \<Rightarrow> request \<Rightarrow> Node option \<Rightarrow> Node option \<Rightarrow> bool io" where
  "stale_target L rq target dir =
     (if rq_expect_missing rq then ret (target \<noteq> None \<or> dir \<noteq> None)
      else (case rq_identity rq of
              None \<Rightarrow> ret True
            | Some ident \<Rightarrow>
                (case (target, dir) of
                   (Some nd, _) \<Rightarrow>
                     (case rq_hash rq of
                        None \<Rightarrow> ret True
                      | Some hash \<Rightarrow> notM (Verify L nd ident hash))
                 | (None, Some d) \<Rightarrow> ret (Token (nd_id d) \<noteq> ident)
                 | (None, None) \<Rightarrow> ret True)))"

definition initial_state :: "request \<Rightarrow> string \<Rightarrow> Context \<Rightarrow> bool \<Rightarrow> string \<Rightarrow> OperationState" where
  "initial_state rq key c target_dir token =
     \<lparr>os_token = token, os_root_identity = Token (nd_id (root c)),
      os_session_identity = Token (nd_id (session c)), os_session_key = key,
      os_operation = rq_operation rq, os_path = rq_path rq,
      os_destination = (case rq_destination rq of None \<Rightarrow> [] | Some d \<Rightarrow> d),
      os_expected_identity = (case rq_identity rq of None \<Rightarrow> [] | Some i \<Rightarrow> i),
      os_expected_hash = (case rq_hash rq of None \<Rightarrow> [] | Some x \<Rightarrow> x),
      os_stage_identity = [], os_stage_hash = [], os_backup_identity = [], os_backup_hash = [],
      os_has_destination = (rq_destination rq \<noteq> None), os_expect_missing = rq_expect_missing rq,
      os_target_directory = target_dir, os_result_size = 0, os_phase = ph_prepared\<rparr>"

text \<open>
  Writing what the operation will install or must be able to restore: the staged file of a write,
  the backup of a move or deletion, the staged directory.
\<close>

definition stage_operation :: "lib \<Rightarrow> FlValue \<Rightarrow> Node \<Rightarrow> string \<Rightarrow> Node option \<Rightarrow> OperationState
    \<Rightarrow> (string + OperationState) io" where
  "stage_operation L a hidden opid target s =
     (if IsWrite (os_operation s) then
        (case Lookup a ''bytes'' of
           Some (FlUint8List bytes) \<Rightarrow> do {
             w \<leftarrow> WriteExact L hidden (stage_name opid) bytes;
             ret (case w of
                    None \<Rightarrow> Inl ''mutation_indeterminate''
                  | Some (stage, hash) \<Rightarrow>
                      Inr (s\<lparr>os_stage_hash := hash, os_stage_identity := Token (nd_id stage),
                             os_result_size := of_nat (length bytes)\<rparr>)) }
         | _ \<Rightarrow> ret (Inl ''invalid_argument''))
      else if os_operation s = ''move_file'' \<or> os_operation s = ''delete_file'' then do {
        r \<leftarrow> (case target of
                None \<Rightarrow> ret (Some [])
              | Some nd \<Rightarrow> read_loop (nd_fd nd) (nat (st_size (nd_info nd))) 0 []);
        (case r of
           None \<Rightarrow> ret (Inl ''metadata_changed'')
         | Some bytes \<Rightarrow> do {
             w \<leftarrow> WriteExact L hidden (backup_name opid) bytes;
             ret (case w of
                    None \<Rightarrow> Inl ''mutation_indeterminate''
                  | Some (backup, hash) \<Rightarrow>
                      Inr (s\<lparr>os_backup_hash := hash, os_backup_identity := Token (nd_id backup)\<rparr>)) }) }
      else do {
        m \<leftarrow> sys_mkdirat (nd_fd hidden) (stage_name opid);
        (case m of
           Inl _ \<Rightarrow> ret (Inl ''mutation_indeterminate'')
         | Inr _ \<Rightarrow> do {
             d \<leftarrow> OpenDirAt (nd_fd hidden) (stage_name opid);
             ret (case d of
                    None \<Rightarrow> Inl ''mutation_indeterminate''
                  | Some stage \<Rightarrow> Inr (s\<lparr>os_stage_identity := Token (nd_id stage)\<rparr>)) }) })"

text \<open>From the checked target on.\<close>

definition prepare_target :: "lib \<Rightarrow> FlValue \<Rightarrow> request \<Rightarrow> Context \<Rightarrow> Node \<Rightarrow> Node option \<Rightarrow> bool
    \<Rightarrow> reply io" where
  "prepare_target L a rq c hidden target target_dir = do {
     t \<leftarrow> RandomToken;
     (case t of
        None \<Rightarrow> ret (RespondError ''mutation_indeterminate'')
      | Some token \<Rightarrow> do {
          let key = (case StringArg a ''sessionKey'' of None \<Rightarrow> [] | Some k \<Rightarrow> k);
          st \<leftarrow> stage_operation L a hidden (rq_opid rq) target (initial_state rq key c target_dir token);
          (case st of
             Inl e \<Rightarrow> ret (RespondError e)
           | Inr s \<Rightarrow> do {
               ok \<leftarrow> SaveOperationState hidden (rq_opid rq) s;
               ret (if ok then RespondSuccess (Some (Receipt (rq_opid rq) (os_token s)))
                    else RespondError ''mutation_indeterminate'') }) }) }"

definition HandlePrepare :: "lib \<Rightarrow> FlValue \<Rightarrow> reply io" where
  "HandlePrepare L a =
     (case prepare_args a of
        None \<Rightarrow> ret (RespondError ''invalid_argument'')
      | Some rq \<Rightarrow> do {
          cr \<leftarrow> OpenContext L a True;
          (case cr of
             Inl e \<Rightarrow> ret (RespondError e)
           | Inr c \<Rightarrow> do {
               hr \<leftarrow> EnsureHidden c;
               (case hr of
                  Inl e \<Rightarrow> ret (RespondError e)
                | Inr hidden \<Rightarrow> do {
                    free \<leftarrow> andM (MissingAt (nd_fd hidden) (StateName (rq_opid rq)))
                              (andM (MissingAt (nd_fd hidden) (stage_name (rq_opid rq)))
                                    (MissingAt (nd_fd hidden) (backup_name (rq_opid rq))));
                    if \<not> free then ret (RespondError ''operation_exists'')
                    else do {
                      pr \<leftarrow> OpenParent c;
                      (case pr of
                         Inl e \<Rightarrow> ret (RespondError e)
                       | Inr (p, name) \<Rightarrow> do {
                           td \<leftarrow> open_target p name;
                           (case td of
                              (target, dir) \<Rightarrow> do {
                                stale \<leftarrow> stale_target L rq target dir;
                                if stale then ret (RespondError ''stale_target'')
                                else if dir \<noteq> None \<and> rq_operation rq \<noteq> ''make_directory''
                                then ret (RespondError ''workspace_operation_unsupported'')
                                else prepare_target L a rq c hidden target (dir \<noteq> None) }) }) } }) }) })"

section \<open>Committing\<close>

definition commit_replace :: "lib \<Rightarrow> Node \<Rightarrow> string \<Rightarrow> OperationState \<Rightarrow> Node \<Rightarrow> string
    \<Rightarrow> reply option io" where
  "commit_replace L hidden opid s p name = do {
     ok \<leftarrow> open_verify L p name (os_expected_identity s) (os_expected_hash s);
     if \<not> ok then ret (Some (RespondError ''stale_target''))
     else do {
       saved \<leftarrow> Persist hidden opid s ph_targetQuarantining;
       if \<not> saved then ret (Some (RespondError ''mutation_indeterminate''))
       else do {
         moved \<leftarrow> andM (RenameAt2 (nd_fd hidden) (stage_name opid) (nd_fd p) name Exchange)
                    (andM (synced (nd_fd p)) (synced (nd_fd hidden)));
         if \<not> moved then ret (Some (RespondError ''mutation_indeterminate''))
         else do {
           proved \<leftarrow> FileProof L hidden (stage_name opid) (os_expected_identity s) (os_expected_hash s);
           if proved then ret None
           else do {
             back \<leftarrow> RenameAt2 (nd_fd hidden) (stage_name opid) (nd_fd p) name Exchange;
             if back then do { _ \<leftarrow> synced (nd_fd p); _ \<leftarrow> synced (nd_fd hidden);
                               ret (Some (RespondError ''mutation_indeterminate'')) }
             else ret (Some (RespondError ''mutation_indeterminate'')) } } } } }"

definition commit_create :: "Node \<Rightarrow> string \<Rightarrow> OperationState \<Rightarrow> Node \<Rightarrow> string \<Rightarrow> reply option io" where
  "commit_create hidden opid s p name = do {
     t \<leftarrow> OpenFileAt (nd_fd p) name;
     if t \<noteq> None then ret (Some (RespondError ''stale_target''))
     else do {
       saved \<leftarrow> Persist hidden opid s ph_stageInstalling;
       if \<not> saved then ret (Some (RespondError ''mutation_indeterminate''))
       else do {
         moved \<leftarrow> andM (RenameAt2 (nd_fd hidden) (stage_name opid) (nd_fd p) name Noreplace)
                     (andM (synced (nd_fd p)) (synced (nd_fd hidden)));
         ret (if moved then None else Some (RespondError ''mutation_indeterminate'')) } } }"

definition commit_write :: "lib \<Rightarrow> Node \<Rightarrow> string \<Rightarrow> OperationState \<Rightarrow> Node \<Rightarrow> string
    \<Rightarrow> reply option io" where
  "commit_write L hidden opid s p name = do {
     stage \<leftarrow> FileIdentity hidden (stage_name opid) (os_stage_identity s);
     if stage = None then ret (Some (RespondError ''mutation_indeterminate''))
     else if os_expect_missing s then commit_create hidden opid s p name
     else commit_replace L hidden opid s p name }"

text \<open>
  The deletion and the move differ in where the file goes: the source directory \<open>p\<close>, the directory
  \<open>q\<close> and name it is renamed to, the phase that is stored first.
\<close>

definition commit_away :: "lib \<Rightarrow> Node \<Rightarrow> string \<Rightarrow> OperationState \<Rightarrow> Node \<Rightarrow> string
    \<Rightarrow> OperationPhase \<Rightarrow> Node \<Rightarrow> string \<Rightarrow> reply option io" where
  "commit_away L hidden opid s p name ph q to = do {
     moved \<leftarrow> andM (open_verify L p name (os_expected_identity s) (os_expected_hash s))
               (andM (Persist hidden opid s ph)
               (andM (RenameAt2 (nd_fd p) name (nd_fd q) to Noreplace)
               (andM (synced (nd_fd p)) (synced (nd_fd q)))));
     if \<not> moved then ret (Some (RespondError ''mutation_indeterminate''))
     else do {
       proved \<leftarrow> FileProof L q to (os_expected_identity s) (os_expected_hash s);
       if proved then ret None
       else do {
         back \<leftarrow> RenameAt2 (nd_fd q) to (nd_fd p) name Noreplace;
         if back then do { _ \<leftarrow> synced (nd_fd p); _ \<leftarrow> synced (nd_fd q);
                           ret (Some (RespondError ''mutation_indeterminate'')) }
         else ret (Some (RespondError ''mutation_indeterminate'')) } } }"

definition commit_delete :: "lib \<Rightarrow> Node \<Rightarrow> string \<Rightarrow> OperationState \<Rightarrow> Node \<Rightarrow> string
    \<Rightarrow> reply option io" where
  "commit_delete L hidden opid s p name =
     commit_away L hidden opid s p name ph_targetQuarantining hidden (stage_name opid)"

definition commit_move :: "lib \<Rightarrow> Context \<Rightarrow> Node \<Rightarrow> string \<Rightarrow> OperationState \<Rightarrow> Node \<Rightarrow> string
    \<Rightarrow> reply option io" where
  "commit_move L c hidden opid s p name = do {
     d \<leftarrow> OpenDestination L c s;
     (case d of
        Inl _ \<Rightarrow> ret (Some (RespondError ''mutation_indeterminate''))
      | Inr (q, to) \<Rightarrow> commit_away L hidden opid s p name ph_stageInstalling q to) }"

definition commit_mkdir :: "Node \<Rightarrow> string \<Rightarrow> OperationState \<Rightarrow> Node \<Rightarrow> string \<Rightarrow> reply option io" where
  "commit_mkdir hidden opid s p name = do {
     d \<leftarrow> OpenDirAt (nd_fd hidden) (stage_name opid);
     moved \<leftarrow> (case d of
        None \<Rightarrow> ret False
      | Some stage \<Rightarrow>
          if Token (nd_id stage) \<noteq> os_stage_identity s then ret False
          else andM (Persist hidden opid s ph_stageInstalling)
              (andM (RenameAt2 (nd_fd hidden) (stage_name opid) (nd_fd p) name Noreplace)
              (andM (synced (nd_fd p)) (synced (nd_fd hidden)))));
     ret (if moved then None else Some (RespondError ''mutation_indeterminate'')) }"

definition commit_operation :: "lib \<Rightarrow> Context \<Rightarrow> Node \<Rightarrow> string \<Rightarrow> OperationState \<Rightarrow> Node \<Rightarrow> string
    \<Rightarrow> reply option io" where
  "commit_operation L c hidden opid s p name =
     (if IsWrite (os_operation s) then commit_write L hidden opid s p name
      else if os_operation s = ''delete_file'' then commit_delete L hidden opid s p name
      else if os_operation s = ''move_file'' then commit_move L c hidden opid s p name
      else if os_operation s = ''make_directory'' then commit_mkdir hidden opid s p name
      else ret (Some (RespondError ''invalid_prepared_receipt'')))"

definition HandleCommit :: "lib \<Rightarrow> FlValue \<Rightarrow> reply io" where
  "HandleCommit L a = do {
     r \<leftarrow> Prepared L a;
     (case r of
        Inl e \<Rightarrow> ret (RespondError e)
      | Inr (c, hidden, opid, s) \<Rightarrow>
          if os_phase s = ph_committed then ret (RespondSuccess None)
          else if os_phase s \<noteq> ph_prepared then ret (RespondError ''invalid_prepared_receipt'')
          else do {
            pr \<leftarrow> OpenParent c;
            (case pr of
               Inl e \<Rightarrow> ret (RespondError e)
             | Inr (p, name) \<Rightarrow> do {
                 stop \<leftarrow> commit_operation L c hidden opid s p name;
                 (case stop of
                    Some e \<Rightarrow> ret e
                  | None \<Rightarrow> do {
                      saved \<leftarrow> Persist hidden opid s ph_committed;
                      ret (if saved then RespondSuccess None
                           else RespondError ''mutation_indeterminate'') }) }) }) }"

end
