(* ===== verification/Outcomes.thy ===== *)
theory Outcomes
  imports Prepare_Commit
begin

text \<open>
  The logic in which the handlers are verified. \<open>outcomes b f m Q\<close> says that a run of \<open>m\<close> that
  starts with the file system \<open>f\<close> in a world without interference ends with a result \<open>r\<close> and a
  file system \<open>f'\<close> such that \<open>Q r f'\<close>: under every schedule of failing and short calls when \<open>b\<close> is
  true, when no call fails if it is false. The rules need no world: reading operations give the
  value \<open>reads\<close> says they compute, or when calls may fail one of the values that mean failure.
\<close>

section \<open>Triples\<close>

definition outcomes :: "bool \<Rightarrow> fs \<Rightarrow> 'a io \<Rightarrow> ('a \<Rightarrow> fs \<Rightarrow> bool) \<Rightarrow> bool" where
  "outcomes b f m Q \<longleftrightarrow>
     (\<forall>w. quiet w \<longrightarrow> (faulty w \<longrightarrow> b) \<longrightarrow> disk w = f \<longrightarrow>
        wp m (\<lambda>r w'. follows w w' \<and> Q r (disk w')) w)"

lemma outcomesI:
  "(\<And>w. quiet w \<Longrightarrow> (faulty w \<Longrightarrow> b) \<Longrightarrow> disk w = f \<Longrightarrow>
      wp m (\<lambda>r w'. follows w w' \<and> Q r (disk w')) w) \<Longrightarrow> outcomes b f m Q"
  by (simp add: outcomes_def)

lemma outcomesD:
  "outcomes b f m Q \<Longrightarrow> quiet w \<Longrightarrow> (faulty w \<Longrightarrow> b) \<Longrightarrow> disk w = f \<Longrightarrow> run_state m w = (r, w') \<Longrightarrow>
     Q r (disk w')"
  by (auto simp: outcomes_def dest: wpD)

lemma outcomes_mono:
  "outcomes b f m P \<Longrightarrow> (\<And>r f'. P r f' \<Longrightarrow> Q r f') \<Longrightarrow> outcomes b f m Q"
  by (auto simp: outcomes_def elim!: wp_mono)

lemma outcomes_faults: "outcomes True f m Q \<Longrightarrow> outcomes b f m Q"
  by (simp add: outcomes_def)

lemma outcomes_ret: "Q a f \<Longrightarrow> outcomes b f (ret a) Q"
  by (simp add: outcomes_def)

lemma outcomes_bind:
  assumes "outcomes b f m R" "\<And>a f'. R a f' \<Longrightarrow> outcomes b f' (k a) Q"
  shows "outcomes b f (m \<bind> k) Q"
proof (rule outcomesI)
  fix w assume w: "quiet w" "faulty w \<Longrightarrow> b" "disk w = f"
  with assms(1) have "wp m (\<lambda>r w'. follows w w' \<and> R r (disk w')) w" by (simp add: outcomes_def)
  then have "wp m (\<lambda>r. wp (k r) (\<lambda>a w'. follows w w' \<and> Q a (disk w'))) w"
  proof (rule wp_mono)
    fix r w' assume w': "follows w w' \<and> R r (disk w')"
    then have k: "outcomes b (disk w') (k r) Q" using assms(2) by blast
    have "quiet w'" "faulty w' \<Longrightarrow> b" using w w' by (auto simp: follows_quiet follows_faulty)
    with k have "wp (k r) (\<lambda>a w''. follows w' w'' \<and> Q a (disk w'')) w'" unfolding outcomes_def by blast
    then show "wp (k r) (\<lambda>a w''. follows w w'' \<and> Q a (disk w'')) w'"
      by (rule wp_mono) (use w' in \<open>auto intro: follows_trans\<close>)
  qed
  then show "wp (m \<bind> k) (\<lambda>r w'. follows w w' \<and> Q r (disk w')) w" by simp
qed

lemma outcomes_andM:
  assumes "outcomes b f m R" "\<And>f'. R True f' \<Longrightarrow> outcomes b f' n Q" "\<And>f'. R False f' \<Longrightarrow> Q False f'"
  shows "outcomes b f (andM m n) Q"
  unfolding andM_def
  by (rule outcomes_bind [OF assms(1)]) (use assms(2,3) in \<open>auto intro: outcomes_ret\<close>)

lemma outcomes_at:
  assumes "reads_at f m v bad" "Q v f" "\<And>a. b \<Longrightarrow> a \<in> bad \<Longrightarrow> Q a f"
  shows "outcomes b f m Q"
proof (rule outcomesI)
  fix w assume w: "quiet w" "faulty w \<Longrightarrow> b" "disk w = f"
  show "wp m (\<lambda>r w'. follows w w' \<and> Q r (disk w')) w"
    by (rule reads_at_wp [OF assms(1) w(1,3)]) (use w assms in auto)
qed

lemma outcomes_reads:
  assumes "reads m g bad" "Q (g f) f" "\<And>a. b \<Longrightarrow> a \<in> bad \<Longrightarrow> Q a f"
  shows "outcomes b f m Q"
  by (rule outcomes_at [OF reads_at_of [OF assms(1)]]) (use assms in auto)

lemma outcomes_if:
  "(c \<Longrightarrow> outcomes b f m Q) \<Longrightarrow> (\<not> c \<Longrightarrow> outcomes b f n Q) \<Longrightarrow> outcomes b f (if c then m else n) Q"
  by simp

lemma outcomes_bind_at:
  assumes "reads_at f m v bad" "outcomes b f (k v) Q" "\<And>a. b \<Longrightarrow> a \<in> bad \<Longrightarrow> outcomes b f (k a) Q"
  shows "outcomes b f (m \<bind> k) Q"
  by (rule outcomes_bind [OF outcomes_at [OF assms(1), where Q = "\<lambda>a f'. f' = f \<and> (a = v \<or> b \<and> a \<in> bad)"]])
     (use assms in auto)

lemma outcomes_bind_reads:
  assumes "reads m g bad" "outcomes b f (k (g f)) Q" "\<And>a. b \<Longrightarrow> a \<in> bad \<Longrightarrow> outcomes b f (k a) Q"
  shows "outcomes b f (m \<bind> k) Q"
  by (rule outcomes_bind [OF outcomes_reads [OF assms(1), where Q = "\<lambda>a f'. f' = f \<and> (a = g f \<or> b \<and> a \<in> bad)"]])
     (use assms in auto)

lemma outcomes_andM_reads:
  assumes "reads m g {False}" "g f \<Longrightarrow> outcomes b f n Q" "\<not> g f \<or> b \<Longrightarrow> Q False f"
  shows "outcomes b f (andM m n) Q"
  unfolding andM_def
  by (rule outcomes_bind_reads [OF assms(1)]) (use assms(2,3) in \<open>auto intro: outcomes_ret\<close>)

lemma outcomes_conj:
  "outcomes b f m P \<Longrightarrow> outcomes b f m Q \<Longrightarrow> outcomes b f m (\<lambda>r f'. P r f' \<and> Q r f')"
  unfolding outcomes_def by (blast intro: wp_mono wp_conj)

section \<open>The calls that write\<close>

lemma outcomes_Save:
  assumes "\<And>r f'. saved (nd_fd h) opid s f r f' \<Longrightarrow> Q r f'"
  shows "outcomes b f (SaveOperationState h opid s) Q"
  by (rule outcomesI, rule wp_Save) (use assms in auto)

lemma outcomes_RenameAt2:
  assumes "\<And>f'. fs_rename f d n d' n' mode = Inr ((), f') \<Longrightarrow> Q True f'"
    and "\<And>e. b \<or> fs_rename f d n d' n' mode = Inl e \<Longrightarrow> Q False f"
  shows "outcomes b f (RenameAt2 d n d' n' mode) Q"
  unfolding RenameAt2_def
proof (rule outcomesI)
  fix w assume w: "quiet w" "faulty w \<Longrightarrow> b" "disk w = f"
  show "wp (sys_rename d n d' n' mode \<bind> (\<lambda>r. ret (r = Inr ())))
          (\<lambda>r w'. follows w w' \<and> Q r (disk w')) w"
    unfolding wp_bind wp_return by (rule wp_rename [OF w(1)]) (use w assms in auto)
qed

lemma outcomes_unlinkat:
  assumes "\<And>f'. fs_unlink f d n dir = Inr ((), f') \<Longrightarrow> Q (Inr ()) f'"
    and "\<And>e. b \<and> e = EIO \<or> fs_unlink f d n dir = Inl e \<Longrightarrow> Q (Inl e) f"
  shows "outcomes b f (sys_unlinkat d n dir) Q"
proof (rule outcomesI)
  fix w assume w: "quiet w" "faulty w \<Longrightarrow> b" "disk w = f"
  show "wp (sys_unlinkat d n dir) (\<lambda>r w'. follows w w' \<and> Q r (disk w')) w"
    by (rule wp_unlinkat [OF w(1)]) (use w assms in auto)
qed

lemma outcomes_synced:
  "Q (in_use f i) f \<Longrightarrow> (b \<Longrightarrow> Q False f) \<Longrightarrow> outcomes b f (synced i) Q"
  by (rule outcomes_reads [OF reads_synced]) auto

lemma outcomes_synced_then: "(\<And>r. outcomes b f (k r) Q) \<Longrightarrow> outcomes b f (synced i \<bind> k) Q"
  by (rule outcomes_bind_reads [OF reads_synced])

text \<open>Synchronising what was written is a read of the model that may report failure.\<close>

lemma outcomes_sync_both:
  "(\<And>r. (r \<longrightarrow> in_use f i \<and> in_use f j) \<Longrightarrow> Q r f) \<Longrightarrow> outcomes b f (andM (synced i) (synced j)) Q"
  by (rule outcomes_reads [OF reads_andM [OF reads_synced reads_synced]]) auto

section \<open>The shared steps\<close>

definition fs_Prepared :: "lib \<Rightarrow> fs \<Rightarrow> FlValue \<Rightarrow> string + Context \<times> Node \<times> string \<times> OperationState" where
  "fs_Prepared L f a =
     (case prepared_args a of
        None \<Rightarrow> Inl ''invalid_prepared_receipt''
      | Some (opid, token, key, bound) \<Rightarrow>
          (case fs_OpenContext L f (probe_of a) of
             Inl _ \<Rightarrow> Inl ''invalid_prepared_receipt''
           | Inr ctx \<Rightarrow>
               (case fs_EnsureHidden f ctx of
                  Inl _ \<Rightarrow> Inl ''invalid_prepared_receipt''
                | Inr hidden \<Rightarrow>
                    (case fs_Load f hidden opid token of
                       None \<Rightarrow> Inl ''invalid_prepared_receipt''
                     | Some s \<Rightarrow>
                         if os_root_identity s \<noteq> bound \<or>
                            os_session_identity s \<noteq> Token (nd_id (session ctx)) \<or>
                            os_session_key s \<noteq> key
                         then Inl ''invalid_prepared_receipt''
                         else (case ParseRelative L (os_path s) False of
                                 None \<Rightarrow> Inl ''invalid_prepared_receipt''
                               | Some ps \<Rightarrow> Inr (ctx\<lparr>parts := ps\<rparr>, hidden, opid, s))))))"

lemma fs_Prepared_Inr:
  "fs_Prepared L f a = Inr (c, h, opid, s) \<longleftrightarrow>
     (\<exists>token key bound c0 ps.
        prepared_args a = Some (opid, token, key, bound) \<and> fs_OpenContext L f (probe_of a) = Inr c0 \<and>
        fs_EnsureHidden f c0 = Inr h \<and> fs_Load f h opid token = Some s \<and>
        os_root_identity s = bound \<and> os_session_identity s = Token (nd_id (session c0)) \<and>
        os_session_key s = key \<and> ParseRelative L (os_path s) False = Some ps \<and> c = c0\<lparr>parts := ps\<rparr>)"
  (is "?l \<longleftrightarrow> ?r")
proof
  assume ?r
  then show ?l by (elim exE conjE) (simp add: fs_Prepared_def)
next
  assume l: ?l
  then obtain opid' token key bound where a: "prepared_args a = Some (opid', token, key, bound)"
    by (cases "prepared_args a") (auto simp: fs_Prepared_def)
  from l a obtain c0 where c0: "fs_OpenContext L f (probe_of a) = Inr c0"
    by (cases "fs_OpenContext L f (probe_of a)") (simp_all add: fs_Prepared_def)
  from l a c0 obtain h' where h: "fs_EnsureHidden f c0 = Inr h'"
    by (cases "fs_EnsureHidden f c0") (simp_all add: fs_Prepared_def)
  from l a c0 h obtain s' where s: "fs_Load f h' opid' token = Some s'"
    by (cases "fs_Load f h' opid' token") (simp_all add: fs_Prepared_def)
  from l a c0 h s obtain ps where ps: "ParseRelative L (os_path s') False = Some ps"
    by (cases "ParseRelative L (os_path s') False") (simp_all add: fs_Prepared_def split: if_splits)
  from l have "opid' = opid" "h' = h" "s' = s" "c0\<lparr>parts := ps\<rparr> = c" "os_root_identity s' = bound"
      "os_session_identity s' = Token (nd_id (session c0))" "os_session_key s' = key"
    by (simp_all add: fs_Prepared_def a c0 h s ps split: if_splits)
  with a c0 h s ps show ?r by blast
qed

lemma fs_EnsureHidden_entry:
  "fs_EnsureHidden f c = Inr h \<Longrightarrow> lookup f (nd_fd (session c)) hidden_name = Some (nd_fd h)
     \<and> dir_at f (nd_fd (session c)) hidden_name (nd_fd h) \<and> nd_id h = nd_fd h"
  by (auto simp: fs_EnsureHidden_def dir_at_def split: option.splits if_splits dest!: fs_OpenDirAt_SomeD)

lemma reads_at_Prepared:
  assumes "fs_Prepared L f a = Inr x"
  shows "reads_at f (Prepared L a) (Inr x) {Inl ''invalid_prepared_receipt''}"
proof -
  obtain c' h opid s where x: "x = (c', h, opid, s)" by (cases x)
  from assms [unfolded x fs_Prepared_Inr] obtain token key bound c where
      p: "prepared_args a = Some (opid, token, key, bound)" "fs_OpenContext L f (probe_of a) = Inr c"
        "fs_EnsureHidden f c = Inr h"
    by blast
  show ?thesis
    unfolding Prepared_def p(1) option.case prod.case
  proof (rule reads_at_bind [OF reads_at_of [OF reads_OpenContext]], unfold p(2) sum.case)
    note e = reads_at_EnsureHidden [OF conjunct1 [OF fs_EnsureHidden_entry [OF p(3)]]]
    show "reads_at f (do {
               hr \<leftarrow> EnsureHidden c;
               (case hr of
                  Inl _ \<Rightarrow> ret (Inl ''invalid_prepared_receipt'')
                | Inr hidden \<Rightarrow> do {
                    l \<leftarrow> LoadOperationState hidden opid token;
                    ret (case l of
                           None \<Rightarrow> Inl ''invalid_prepared_receipt''
                         | Some s \<Rightarrow>
                             if os_root_identity s \<noteq> bound \<or>
                                os_session_identity s \<noteq> Token (nd_id (session c)) \<or>
                                os_session_key s \<noteq> key
                             then Inl ''invalid_prepared_receipt''
                             else (case ParseRelative L (os_path s) False of
                                     None \<Rightarrow> Inl ''invalid_prepared_receipt''
                                   | Some ps \<Rightarrow> Inr (c\<lparr>parts := ps\<rparr>, hidden, opid, s))) }) })
        (Inr x) {Inl ''invalid_prepared_receipt''}"
    proof (rule reads_at_bind [OF e], unfold p(3) sum.case)
      show "reads_at f (do {
                    l \<leftarrow> LoadOperationState h opid token;
                    ret (case l of
                           None \<Rightarrow> Inl ''invalid_prepared_receipt''
                         | Some s \<Rightarrow>
                             if os_root_identity s \<noteq> bound \<or>
                                os_session_identity s \<noteq> Token (nd_id (session c)) \<or>
                                os_session_key s \<noteq> key
                             then Inl ''invalid_prepared_receipt''
                             else (case ParseRelative L (os_path s) False of
                                     None \<Rightarrow> Inl ''invalid_prepared_receipt''
                                   | Some ps \<Rightarrow> Inr (c\<lparr>parts := ps\<rparr>, h, opid, s))) })
        (Inr x) {Inl ''invalid_prepared_receipt''}"
        by (rule reads_at_bind [OF reads_at_of [OF reads_LoadOperationState]])
           (use assms p in \<open>auto simp: fs_Prepared_def intro!: reads_at_ret fails_ret\<close>)
    qed (auto intro!: fails_ret)
  qed (auto intro!: fails_ret)
qed

lemma receipt_args_safe: "receipt_args a = Some (opid, token) \<Longrightarrow> SafeOperationId opid \<and> length token = 43"
  by (auto simp: receipt_args_def split: option.splits FlValue.splits if_splits)

lemma fs_PreparedD:
  assumes "fs_Prepared L f a = Inr (c, h, opid, s)"
  shows "stored f (nd_fd h) opid s" "dir_at f (nd_fd (session c)) hidden_name (nd_fd h)"
    "nd_id h = nd_fd h" "\<forall>n \<in> set (parts c). Part L n" "parts c \<noteq> []"
    "nd_id (session c) = nd_fd (session c)" "SafeOperationId opid"
proof -
  from assms [unfolded fs_Prepared_Inr] obtain token key bound c0 where
      p: "prepared_args a = Some (opid, token, key, bound)" "fs_OpenContext L f (probe_of a) = Inr c0"
        "fs_EnsureHidden f c0 = Inr h" "fs_Load f h opid token = Some s"
        "ParseRelative L (os_path s) False = Some (parts c)" "session c = session c0"
    by (elim exE conjE) simp
  show "stored f (nd_fd h) opid s" using p(4) by (simp add: fs_Load_iff)
  show "dir_at f (nd_fd (session c)) hidden_name (nd_fd h)" "nd_id h = nd_fd h"
    using fs_EnsureHidden_entry [OF p(3)] p(6) by simp_all
  show "\<forall>n \<in> set (parts c). Part L n" using p(5) ParseRelative_parts by blast
  show "parts c \<noteq> []" using p(5) by (simp add: ParseRelative_char)
  show "nd_id (session c) = nd_fd (session c)"
    using fs_OpenContext_SomeD [OF p(2)] p(6) by metis
  show "SafeOperationId opid"
    using p(1) by (auto simp: prepared_args_def split: option.splits dest!: receipt_args_safe)
qed

definition fs_open_verify :: "lib \<Rightarrow> fs \<Rightarrow> Node \<Rightarrow> string \<Rightarrow> string \<Rightarrow> string \<Rightarrow> bool" where
  "fs_open_verify L f p name ident hash \<longleftrightarrow>
     (\<exists>i c. file_at f (nd_fd p) name i c \<and> Token i = ident \<and> length hash = 64 \<and>
            length c \<le> kMaxFileBytes \<and> sha256 L c = hash)"

lemma reads_open_verify [reads_intro]:
  "reads (open_verify L p name ident hash) (\<lambda>f. fs_open_verify L f p name ident hash) {False}"
proof (rule readsI_at)
  fix f
  show "reads_at f (open_verify L p name ident hash) (fs_open_verify L f p name ident hash) {False}"
    unfolding open_verify_def
  proof (rule reads_at_bind [OF reads_at_of [OF reads_OpenFileAt]])
    show "reads_at f (case fs_OpenFileAt f (nd_fd p) name of None \<Rightarrow> ret False
        | Some nd \<Rightarrow> Verify L nd ident hash) (fs_open_verify L f p name ident hash) {False}"
    proof (cases "fs_OpenFileAt f (nd_fd p) name")
      case None
      then have "\<nexists>i c. file_at f (nd_fd p) name i c"
        using fs_OpenFileAt_iff [of f "nd_fd p" name] by auto
      with None show ?thesis by (auto simp: fs_open_verify_def intro!: reads_at_ret)
    next
      case (Some nd)
      then obtain i c where i: "file_at f (nd_fd p) name i c" "nd = file_node i c"
        by (auto simp: fs_OpenFileAt_iff)
      then have "fs_open_verify L f p name ident hash = fs_Verify L f nd ident hash"
        by (auto simp: fs_open_verify_def fs_Verify_file file_at_def)
      with Some reads_at_of [OF reads_Verify] show ?thesis by simp
    qed
  qed (auto intro!: fails_ret)
qed

definition fs_FileProof :: "lib \<Rightarrow> fs \<Rightarrow> Node \<Rightarrow> string \<Rightarrow> string \<Rightarrow> string \<Rightarrow> bool" where
  "fs_FileProof L f p name ident hash \<longleftrightarrow>
     (\<exists>i c. file_at f (nd_fd p) name i c \<and> Token i = ident \<and>
            length c \<le> kMaxFileBytes \<and> sha256 L c = hash)"

lemma reads_hash_is:
  "reads (do { r \<leftarrow> HashExact L nd; ret (case r of None \<Rightarrow> False | Some (actual, _) \<Rightarrow> actual = hash) })
     (\<lambda>f. case fs_HashExact L f (nd_fd nd) of None \<Rightarrow> False | Some (actual, _) \<Rightarrow> actual = hash) {False}"
  by (rule reads_pure [OF reads_HashExact refl]) auto

lemma reads_FileProof [reads_intro]:
  "reads (FileProof L p name ident hash) (\<lambda>f. fs_FileProof L f p name ident hash) {False}"
proof (rule readsI_at)
  fix f
  show "reads_at f (FileProof L p name ident hash) (fs_FileProof L f p name ident hash) {False}"
    unfolding FileProof_def
  proof (rule reads_at_bind [OF reads_at_of [OF reads_OpenFileAt]])
    show "reads_at f (case fs_OpenFileAt f (nd_fd p) name of None \<Rightarrow> ret False
        | Some nd \<Rightarrow>
          if Token (nd_id nd) \<noteq> ident then ret False
          else andM (Stable nd S_IFREG)
                    (do { r \<leftarrow> HashExact L nd;
                          ret (case r of None \<Rightarrow> False | Some (actual, _) \<Rightarrow> actual = hash) }))
        (fs_FileProof L f p name ident hash) {False}"
    proof (cases "fs_OpenFileAt f (nd_fd p) name")
      case None
      then have "\<nexists>i c. file_at f (nd_fd p) name i c"
        using fs_OpenFileAt_iff [of f "nd_fd p" name] by auto
      with None show ?thesis by (auto simp: fs_FileProof_def intro!: reads_at_ret)
    next
      case (Some nd)
      then obtain i c where i: "file_at f (nd_fd p) name i c" "nd = file_node i c"
        by (auto simp: fs_OpenFileAt_iff)
      then have c: "file_of f i = Some (c, 1)" by (simp add: file_at_def)
      have e: "fs_FileProof L f p name ident hash \<longleftrightarrow> Token i = ident \<and> length c \<le> kMaxFileBytes \<and> sha256 L c = hash"
        using i by (auto simp: fs_FileProof_def file_at_def)
      show ?thesis
        using reads_at_of [OF reads_andM [OF reads_Stable reads_hash_is], of f nd S_IFREG L nd hash]
        by (cases "length c \<le> kMaxFileBytes")
           (auto simp: Some i(2) e c fs_Stable_file fs_HashExact_def intro!: reads_at_ret)
    qed
  qed (auto intro!: fails_ret)
qed

end
