(* ===== verification/Recovery.thy ===== *)
theory Recovery
  imports Prepare_Commit
begin

text \<open>
  The handlers that find out what became of a prepared mutation, undo it, and remove its traces:
  \<^verbatim>\<open>linux/runner/session_workspace_recovery.cc\<close>.
\<close>

section \<open>Finding out\<close>

definition ReplyState :: "string \<Rightarrow> reply" where
  "ReplyState st = RespondSuccess (Some (FlString st))"

definition result_in_place :: "lib \<Rightarrow> Context \<Rightarrow> Node \<Rightarrow> string \<Rightarrow> OperationState \<Rightarrow> Node \<Rightarrow> string
    \<Rightarrow> bool io" where
  "result_in_place L c hidden opid s p name =
     (if IsWrite (os_operation s) then
        open_verify L p name (os_stage_identity s) (os_stage_hash s)
      else if os_operation s = ''delete_file'' then
        andM (MissingAt (nd_fd p) name)
             (FileProof L hidden (stage_name opid) (os_expected_identity s) (os_expected_hash s))
      else if os_operation s = ''move_file'' then
        andM (MissingAt (nd_fd p) name)
             (do { d \<leftarrow> OpenDestination L c s;
                   (case d of
                      Inl _ \<Rightarrow> ret False
                    | Inr (q, to) \<Rightarrow>
                        FileProof L q to (os_expected_identity s) (os_expected_hash s)) })
      else if os_operation s = ''make_directory'' then do {
        d \<leftarrow> OpenDirAt (nd_fd p) name;
        ret (case d of None \<Rightarrow> False | Some nd \<Rightarrow> Token (nd_id nd) = os_stage_identity s) }
      else ret False)"

definition target_before :: "lib \<Rightarrow> OperationState \<Rightarrow> Node \<Rightarrow> string \<Rightarrow> bool io" where
  "target_before L s p name =
     (if os_expect_missing s then MissingAt (nd_fd p) name
      else open_verify L p name (os_expected_identity s) (os_expected_hash s))"

definition HandleReconcile :: "lib \<Rightarrow> FlValue \<Rightarrow> reply io" where
  "HandleReconcile L a = do {
     r \<leftarrow> Prepared L a;
     (case r of
        Inl e \<Rightarrow> ret (RespondError e)
      | Inr (c, hidden, opid, s) \<Rightarrow>
          if os_phase s = ph_rolledBack then ret (ReplyState ''rolledBack'')
          else do {
            pr \<leftarrow> OpenParent c;
            (case pr of
               Inl e \<Rightarrow> ret (RespondError e)
             | Inr (p, name) \<Rightarrow> do {
                 committed \<leftarrow> result_in_place L c hidden opid s p name;
                 if committed then do {
                   saved \<leftarrow> (if os_phase s \<noteq> ph_committed then Persist hidden opid s ph_committed
                            else ret True);
                   ret (if saved then ReplyState ''committed''
                        else RespondError ''mutation_indeterminate'') }
                 else do {
                   before \<leftarrow> target_before L s p name;
                   ret (ReplyState (if before then ''notCommitted'' else ''indeterminate'')) } }) }) }"

section \<open>Undoing\<close>

definition undo_write :: "lib \<Rightarrow> Node \<Rightarrow> string \<Rightarrow> OperationState \<Rightarrow> Node \<Rightarrow> string
    \<Rightarrow> bool io" where
  "undo_write L hidden opid s p name = do {
     cur \<leftarrow> OpenFileAt (nd_fd p) name;
     result_present \<leftarrow> (case cur of
        None \<Rightarrow> ret False | Some nd \<Rightarrow> Verify L nd (os_stage_identity s) (os_stage_hash s));
     if os_expect_missing s then
       (if result_present then do { r \<leftarrow> sys_unlinkat (nd_fd p) name False; ret (r = Inr ()) }
        else ret True)
     else do {
       swap \<leftarrow> (if result_present
               then FileProof L hidden (stage_name opid) (os_expected_identity s) (os_expected_hash s)
               else ret False);
       if swap then RenameAt2 (nd_fd hidden) (stage_name opid) (nd_fd p) name Exchange
       else do {
         put_back \<leftarrow> (if cur = None
                     then FileProof L hidden (stage_name opid) (os_expected_identity s) (os_expected_hash s)
                     else ret False);
         if put_back then RenameAt2 (nd_fd hidden) (stage_name opid) (nd_fd p) name Noreplace
         else (case cur of
                 None \<Rightarrow> ret False
               | Some nd \<Rightarrow> Verify L nd (os_expected_identity s) (os_expected_hash s)) } } }"

text \<open>
  A condition \<^verbatim>\<open>MissingAt && FileProof && RenameAt2 != 0\<close> that guards the error reply: when the target
  is there, or the moved file cannot be proved, nothing is done and the handler goes on.
\<close>

definition undo_away :: "lib \<Rightarrow> OperationState \<Rightarrow> Node \<Rightarrow> string \<Rightarrow> Node \<Rightarrow> string \<Rightarrow> bool io" where
  "undo_away L s p name q from = do {
     gone \<leftarrow> andM (MissingAt (nd_fd p) name)
               (FileProof L q from (os_expected_identity s) (os_expected_hash s));
     if gone then RenameAt2 (nd_fd q) from (nd_fd p) name Noreplace else ret True }"

definition undo_mkdir :: "OperationState \<Rightarrow> Node \<Rightarrow> string \<Rightarrow> bool io" where
  "undo_mkdir s p name = do {
     d \<leftarrow> OpenDirAt (nd_fd p) name;
     (case d of
        None \<Rightarrow> ret True
      | Some nd \<Rightarrow>
          if Token (nd_id nd) = os_stage_identity s
          then do { r \<leftarrow> sys_unlinkat (nd_fd p) name True; ret (r = Inr ()) }
          else ret True) }"

text \<open>\<open>None\<close>: go on to store the phase; otherwise the error reply.\<close>

definition undo_operation :: "lib \<Rightarrow> Context \<Rightarrow> Node \<Rightarrow> string \<Rightarrow> OperationState \<Rightarrow> Node \<Rightarrow> string
    \<Rightarrow> reply option io" where
  "undo_operation L c hidden opid s p name =
     (let or_fail = (\<lambda>m. do { ok \<leftarrow> andM m (synced (nd_fd p));
                              ret (if ok then None else Some (RespondError ''mutation_indeterminate'')) }) in
      if IsWrite (os_operation s) then or_fail (undo_write L hidden opid s p name)
      else if os_operation s = ''delete_file''
      then or_fail (undo_away L s p name hidden (stage_name opid))
      else if os_operation s = ''move_file'' then do {
        d \<leftarrow> OpenDestination L c s;
        (case d of
           Inl e \<Rightarrow> ret (Some (RespondError e))
         | Inr (q, to) \<Rightarrow> or_fail (undo_away L s p name q to)) }
      else if os_operation s = ''make_directory'' then or_fail (undo_mkdir s p name)
      else or_fail (ret True))"

definition HandleRollback :: "lib \<Rightarrow> FlValue \<Rightarrow> reply io" where
  "HandleRollback L a = do {
     r \<leftarrow> Prepared L a;
     (case r of
        Inl e \<Rightarrow> ret (RespondError e)
      | Inr (c, hidden, opid, s) \<Rightarrow>
          if os_phase s = ph_rolledBack then ret (RespondSuccess None)
          else if os_phase s = ph_committed then ret (RespondError ''already_committed'')
          else do {
            pr \<leftarrow> OpenParent c;
            (case pr of
               Inl e \<Rightarrow> ret (RespondError e)
             | Inr (p, name) \<Rightarrow> do {
                 stop \<leftarrow> (if os_phase s \<noteq> ph_prepared
                         then undo_operation L c hidden opid s p name else ret None);
                 (case stop of
                    Some e \<Rightarrow> ret e
                  | None \<Rightarrow> do {
                      saved \<leftarrow> Persist hidden opid s ph_rolledBack;
                      ret (if saved then RespondSuccess None
                           else RespondError ''mutation_indeterminate'') }) }) }) }"

section \<open>Cleaning up\<close>

definition RemoveIfPresent :: "Node \<Rightarrow> string \<Rightarrow> bool \<Rightarrow> bool io" where
  "RemoveIfPresent p name directory = do {
     m \<leftarrow> MissingAt (nd_fd p) name;
     if m then ret True
     else do { r \<leftarrow> sys_unlinkat (nd_fd p) name directory; ret (r = Inr ()) } }"

definition remove_traces :: "Node \<Rightarrow> string \<Rightarrow> OperationState \<Rightarrow> bool io" where
  "remove_traces hidden opid s =
     andM (RemoveIfPresent hidden (stage_name opid) (os_operation s = ''make_directory''))
    (andM (RemoveIfPresent hidden (backup_name opid) False)
          (DeleteOperationState hidden opid))"

definition HandleCleanup :: "lib \<Rightarrow> FlValue \<Rightarrow> reply io" where
  "HandleCleanup L a =
     (case receipt_args a of
        None \<Rightarrow> ret (RespondError ''invalid_prepared_receipt'')
      | Some (opid, token) \<Rightarrow> do {
          cr \<leftarrow> OpenContext L (probe_of a) False;
          (case cr of
             Inl e \<Rightarrow> ret (RespondError e)
           | Inr c \<Rightarrow> do {
               hr \<leftarrow> EnsureHidden c;
               (case hr of
                  Inl e \<Rightarrow> ret (RespondError e)
                | Inr hidden \<Rightarrow> do {
                    state_missing \<leftarrow> MissingAt (nd_fd hidden) (StateName opid);
                    stage_missing \<leftarrow> MissingAt (nd_fd hidden) (stage_name opid);
                    backup_missing \<leftarrow> MissingAt (nd_fd hidden) (backup_name opid);
                    if state_missing then
                      ret (if stage_missing \<and> backup_missing then RespondSuccess None
                           else RespondError ''mutation_indeterminate'')
                    else do {
                      l \<leftarrow> LoadOperationState hidden opid token;
                      (case l of
                         None \<Rightarrow> ret (RespondError ''invalid_prepared_receipt'')
                       | Some s \<Rightarrow>
                           if os_root_identity s \<noteq> Token (nd_id (root c)) \<or>
                              os_session_identity s \<noteq> Token (nd_id (session c))
                           then ret (RespondError ''invalid_prepared_receipt'')
                           else do {
                             ok \<leftarrow> remove_traces hidden opid s;
                             ret (if ok then RespondSuccess None
                                  else RespondError ''mutation_indeterminate'') }) } }) }) })"

end
