(* ===== verification/Frames.thy ===== *)
theory Frames
  imports Outcomes Recovery
begin

text \<open>
  What stays true while files are renamed and records are saved: the directories, so the same
  context, hidden directory and parents are found (\<open>dirs_kept\<close>); the entries and files a save does
  not touch; and the names of one operation, which differ from each other and from every name a
  caller can give.
\<close>

section \<open>The same directories\<close>

definition dirs_kept :: "fs \<Rightarrow> fs \<Rightarrow> bool" where
  "dirs_kept f f' \<longleftrightarrow>
     (\<forall>d. is_dir f' d = is_dir f d) \<and> (\<forall>d. is_dir f d \<longrightarrow> fs_stat f' d = fs_stat f d) \<and>
     (\<forall>d m e. is_dir f e \<longrightarrow> (lookup f' d m = Some e) = (lookup f d m = Some e)) \<and>
     paths f' = paths f"

lemma dirs_kept_refl [simp]: "dirs_kept f f"
  by (simp add: dirs_kept_def)

lemma dirs_kept_trans: "dirs_kept f g \<Longrightarrow> dirs_kept g h \<Longrightarrow> dirs_kept f h"
  by (simp add: dirs_kept_def)

lemma dirs_kept_is_dir: "dirs_kept f f' \<Longrightarrow> is_dir f' d = is_dir f d"
  by (simp add: dirs_kept_def)

lemma kept_dirs_kept: "kept h n f f' \<Longrightarrow> dirs_kept f f'"
  by (auto simp: dirs_kept_def kept_is_dir kept_stat kept_dir_entry kept_paths)

lemma fs_open_dirE:
  "fs_open f d n True = Inr i \<longleftrightarrow> lookup f d n = Some i \<and> device i = device d \<and> is_dir f i"
proof (cases "is_dir f i")
  case True
  then show ?thesis by (simp add: fs_open_dir)
next
  case False
  then show ?thesis
    by (auto simp: fs_open_def is_dir_def dir_entries_def split: option.splits content.splits if_splits)
qed

lemma fs_OpenDirAt_alt:
  "fs_OpenDirAt f d n =
     (case lookup f d n of
        Some i \<Rightarrow> if device i = device d \<and> is_dir f i then fs_inspect f S_IFDIR (Inr i) else None
      | None \<Rightarrow> None)"
proof (cases "fs_open f d n True")
  case (Inl e)
  then have "\<not> (lookup f d n = Some i \<and> device i = device d \<and> is_dir f i)" for i
    using fs_open_dirE [of f d n i] by auto
  with Inl show ?thesis by (auto simp: fs_OpenDirAt_def split: option.splits)
next
  case (Inr i)
  with fs_open_dirE [of f d n i] show ?thesis by (simp add: fs_OpenDirAt_def)
qed

lemma dirs_kept_OpenDirAt:
  assumes "dirs_kept f f'"
  shows "fs_OpenDirAt f' d n = fs_OpenDirAt f d n"
proof (cases "\<exists>i. lookup f d n = Some i \<and> is_dir f i")
  case True
  then obtain i where i: "lookup f d n = Some i" "is_dir f i" by blast
  then have "lookup f' d n = Some i" "is_dir f' i" "fs_stat f' i = fs_stat f i"
    using assms by (auto simp: dirs_kept_def)
  with i show ?thesis by (simp add: fs_OpenDirAt_alt fs_inspect_def)
next
  case False
  then have "\<not> (\<exists>i. lookup f' d n = Some i \<and> is_dir f' i)" using assms by (auto simp: dirs_kept_def)
  with False show ?thesis by (auto simp: fs_OpenDirAt_alt split: option.splits)
qed

lemma dirs_kept_Stable: "dirs_kept f f' \<Longrightarrow> fs_Stable f' n S_IFDIR = fs_Stable f n S_IFDIR"
proof -
  have t: "fs_Stable g n S_IFDIR \<longleftrightarrow> is_dir g (nd_fd n) \<and> nd_id n = nd_fd n" for g
  proof (cases "is_dir g (nd_fd n)")
    case True
    with dir_stat [OF True] show ?thesis by (auto simp: fs_Stable_def)
  next
    case False
    then show ?thesis
      by (auto simp: fs_Stable_def fs_stat_def is_dir_def dir_entries_def split: option.splits content.splits)
  qed
  show "dirs_kept f f' \<Longrightarrow> fs_Stable f' n S_IFDIR = fs_Stable f n S_IFDIR"
    by (simp add: t dirs_kept_is_dir)
qed

lemma fs_inspect_dir_none: "\<not> is_dir f i \<Longrightarrow> fs_inspect f S_IFDIR (Inr i) = None"
  by (metis fs_inspect_dir not_Some_eq sum.inject(2))

lemma dirs_kept_inspect: "dirs_kept f f' \<Longrightarrow> fs_inspect f' S_IFDIR (Inr i) = fs_inspect f S_IFDIR (Inr i)"
proof (cases "is_dir f i")
  case True
  then show "dirs_kept f f' \<Longrightarrow> fs_inspect f' S_IFDIR (Inr i) = fs_inspect f S_IFDIR (Inr i)"
    by (simp add: fs_inspect_def dirs_kept_def)
next
  case False
  then show "dirs_kept f f' \<Longrightarrow> fs_inspect f' S_IFDIR (Inr i) = fs_inspect f S_IFDIR (Inr i)"
    by (simp add: fs_inspect_dir_none dirs_kept_is_dir)
qed

lemma dirs_kept_OpenRoot: "dirs_kept f f' \<Longrightarrow> fs_OpenRoot f' a = fs_OpenRoot f a"
proof -
  assume k: "dirs_kept f f'"
  have "fs_inspect f' S_IFDIR (fs_open_path f' p) = fs_inspect f S_IFDIR (fs_open_path f p)" for p
  proof -
    have "paths f' = paths f" "\<And>i. (dir_entries f' i = None) = (dir_entries f i = None)"
      using k unfolding dirs_kept_def is_dir_def by metis+
    then show ?thesis
      by (auto simp: fs_open_path_def dirs_kept_inspect [OF k] fs_inspect_dir_none is_dir_def
          split: option.splits)
  qed
  then show ?thesis by (simp add: fs_OpenRoot_def split: option.splits)
qed

lemma dirs_kept_Duplicate: "dirs_kept f f' \<Longrightarrow> fs_Duplicate f' n = fs_Duplicate f n"
proof -
  assume k: "dirs_kept f f'"
  have "fs_inspect g S_IFDIR (if in_use g i then Inr i else Inl EBADF) = fs_inspect g S_IFDIR (Inr i)" for g i
    by (cases "is_dir g i") (simp_all add: is_dir_in_use fs_inspect_dir_none)
  then show ?thesis by (simp add: fs_Duplicate_def dirs_kept_inspect [OF k])
qed

lemma dirs_kept_OpenContext: "dirs_kept f f' \<Longrightarrow> fs_OpenContext L f' a = fs_OpenContext L f a"
  by (simp add: fs_OpenContext_def fs_OpenSessionDirs_def dirs_kept_OpenRoot dirs_kept_OpenDirAt
      dirs_kept_Stable split: option.splits sum.splits prod.splits)

lemma dirs_kept_EnsureHidden: "dirs_kept f f' \<Longrightarrow> fs_EnsureHidden f' c = fs_EnsureHidden f c"
  by (simp add: fs_EnsureHidden_def dirs_kept_OpenDirAt dirs_kept_Stable split: option.splits)

lemma dirs_kept_open_parents:
  "dirs_kept f f' \<Longrightarrow> fs_open_parents f' dev cur ns = fs_open_parents f dev cur ns"
  by (induction ns arbitrary: cur) (simp_all add: dirs_kept_OpenDirAt dirs_kept_Stable split: option.splits)

lemma dirs_kept_OpenParent: "dirs_kept f f' \<Longrightarrow> fs_OpenParent f' c = fs_OpenParent f c"
  by (simp add: fs_OpenParent_def dirs_kept_Duplicate dirs_kept_open_parents split: option.splits)

lemma dirs_kept_Prepared:
  assumes "dirs_kept f f'" "fs_Prepared L f a = Inr (c, h, opid, s)"
    and "stored f' (nd_fd h) opid s'" "s' = s\<lparr>os_phase := os_phase s'\<rparr>"
  shows "fs_Prepared L f' a = Inr (c, h, opid, s')"
proof -
  from assms(2) [unfolded fs_Prepared_Inr] obtain token key bound c0 ps where
      p: "prepared_args a = Some (opid, token, key, bound)" "fs_OpenContext L f (probe_of a) = Inr c0"
        "fs_EnsureHidden f c0 = Inr h" "fs_Load f h opid token = Some s"
        "os_root_identity s = bound" "os_session_identity s = Token (nd_id (session c0))"
        "os_session_key s = key" "ParseRelative L (os_path s) False = Some ps" "c = c0\<lparr>parts := ps\<rparr>"
    by blast
  obtain ph where s': "s' = s\<lparr>os_phase := ph\<rparr>" using assms(4) by blast
  have "os_token s = token" using p(4) by (simp add: fs_Load_iff)
  then have "fs_Load f' h opid token = Some s'" using assms(3) by (simp add: fs_Load_iff s')
  with p show ?thesis
    unfolding fs_Prepared_Inr dirs_kept_OpenContext [OF assms(1)] dirs_kept_EnsureHidden [OF assms(1)]
    by (simp add: s')
qed

lemma with_phase [simp]:
  "os_phase (s\<lparr>os_phase := ph\<rparr>) = ph" "os_operation (s\<lparr>os_phase := ph\<rparr>) = os_operation s"
  "os_expect_missing (s\<lparr>os_phase := ph\<rparr>) = os_expect_missing s"
  "os_expected_identity (s\<lparr>os_phase := ph\<rparr>) = os_expected_identity s"
  "os_expected_hash (s\<lparr>os_phase := ph\<rparr>) = os_expected_hash s"
  "os_stage_identity (s\<lparr>os_phase := ph\<rparr>) = os_stage_identity s"
  "os_stage_hash (s\<lparr>os_phase := ph\<rparr>) = os_stage_hash s"
  "os_has_destination (s\<lparr>os_phase := ph\<rparr>) = os_has_destination s"
  "os_destination (s\<lparr>os_phase := ph\<rparr>) = os_destination s"
  "s\<lparr>os_phase := q, os_phase := ph\<rparr> = s\<lparr>os_phase := ph\<rparr>"
  by simp_all

section \<open>Names\<close>

lemma operation_names:
  "stage_name opid \<noteq> StateName opid" "backup_name opid \<noteq> StateName opid"
  "stage_name opid \<noteq> backup_name opid"
  "\<not> prefix (StateName opid @ ''.tmp.'') (stage_name opid)"
  "\<not> prefix (StateName opid @ ''.tmp.'') (backup_name opid)"
  by (auto simp: stage_name_def backup_name_def StateName_def prefix_def)

text \<open>No entry is shared: a directory, or a file of one link, has one name in one directory.\<close>

definition tree :: "fs \<Rightarrow> bool" where
  "tree f \<longleftrightarrow>
     (\<forall>d n d' n' i. lookup f d n = Some i \<longrightarrow> lookup f d' n' = Some i \<longrightarrow>
        (is_dir f i \<or> (\<exists>c. file_of f i = Some (c, 1))) \<longrightarrow> d = d' \<and> n = n')"

lemma treeD:
  "tree f \<Longrightarrow> lookup f d n = Some i \<Longrightarrow> lookup f d' n' = Some i \<Longrightarrow>
     is_dir f i \<or> (\<exists>c. file_of f i = Some (c, 1)) \<Longrightarrow> d = d' \<and> n = n'"
  unfolding tree_def by blast

lemma tree_file_at: "tree f \<Longrightarrow> file_at f d n i c \<Longrightarrow> file_at f d' n' i c' \<Longrightarrow> d = d' \<and> n = n'"
  by (rule treeD) (auto simp: file_at_def)

lemma walk_last:
  "walk f d ns e \<Longrightarrow> ns \<noteq> [] \<Longrightarrow> \<exists>d'. lookup f d' (last ns) = Some e"
  by (induction ns arbitrary: d) (auto simp: dir_at_def split: if_splits)

text \<open>The parent of a caller's path is never the hidden directory.\<close>

lemma parent_not_hidden:
  assumes "tree f" "dir_at f d hidden_name h" "walk f d ns p" "\<forall>n \<in> set ns. Part L n"
    and "lookup f ss key = Some d" "hd key \<noteq> CHR ''.''"
  shows "p \<noteq> h"
proof
  assume "p = h"
  have h: "lookup f d hidden_name = Some h" "is_dir f h" using assms(2) by (auto simp: dir_at_def)
  show False
  proof (cases "ns = []")
    case True
    then have "d = h" using assms(3) \<open>p = h\<close> by simp
    then have "hidden_name = key"
      using treeD [OF assms(1) h(1) assms(5) [unfolded \<open>d = h\<close>]] h(2) by auto
    then show ?thesis using assms(6) by (auto simp: hidden_name_def)
  next
    case False
    then obtain d' where "lookup f d' (last ns) = Some h"
      using walk_last [OF assms(3)] \<open>p = h\<close> by blast
    then have "last ns = hidden_name" using treeD [OF assms(1) h(1)] h(2) by metis
    moreover have "Part L (last ns)" using assms(4) False by simp
    ultimately show ?thesis using Part_no_dot [of L hidden_name] by (simp add: hidden_name_def)
  qed
qed

lemma context_args_key: "context_args L a = Some (key, ps, b) \<Longrightarrow> Part L key"
  by (auto simp: context_args_def ParseRelative_char split: option.splits list.splits)

lemma prepared_parent:
  assumes "tree f" "fs_Prepared L f a = Inr (c, h, opid, s)" "fs_OpenParent f c = Inr (p, n)"
  shows "nd_fd p \<noteq> nd_fd h" "device (nd_fd p) = device (nd_fd h)" "is_dir f (nd_fd p)" "is_dir f (nd_fd h)"
    "Part L n"
proof -
  from assms(2) [unfolded fs_Prepared_Inr] obtain c0 ps where
      c0: "fs_OpenContext L f (probe_of a) = Inr c0" "c = c0\<lparr>parts := ps\<rparr>"
    by blast
  from fs_OpenContext_SomeD [OF c0(1)] obtain key ps' where
      k: "context_args L (probe_of a) = Some (key, ps', Token (nd_fd (root c0)))"
         "dir_at f (nd_fd (sessions c0)) key (nd_fd (session c0))"
    by metis
  note d = fs_PreparedD [OF assms(2)]
  have w: "walk f (nd_fd (session c)) (butlast (parts c)) (nd_fd p)" "n = last (parts c)"
    using fs_OpenParent_SomeD [OF assms(3)] by blast+
  have "hd key \<noteq> CHR ''.''" using Part_no_dot [OF context_args_key [OF k(1)]] .
  moreover have "\<forall>m \<in> set (butlast (parts c)). Part L m" using d(4) by (auto dest: in_set_butlastD)
  moreover have "lookup f (nd_fd (sessions c0)) key = Some (nd_fd (session c))"
    using k(2) c0(2) by (simp add: dir_at_def)
  ultimately show "nd_fd p \<noteq> nd_fd h"
    by (intro parent_not_hidden [OF assms(1) d(2) w(1)])
  show "device (nd_fd p) = device (nd_fd h)"
    using walk_device [OF w(1)] d(2) by (simp add: dir_at_def)
  show "is_dir f (nd_fd p)" by (rule walk_is_dir [OF w(1)])
  show "is_dir f (nd_fd h)" using d(2) by (simp add: dir_at_def)
  show "Part L n" using w(2) d(4,5) by simp
qed

section \<open>What a rename changes\<close>

text \<open>From \<open>f\<close> to \<open>f'\<close> only the entries in \<open>S\<close> have changed, none of them a directory's.\<close>

definition renamed :: "(Identity \<times> string) set \<Rightarrow> fs \<Rightarrow> fs \<Rightarrow> bool" where
  "renamed S f f' \<longleftrightarrow> dirs_kept f f' \<and>
     (\<forall>d m. (d, m) \<notin> S \<longrightarrow> lookup f' d m = lookup f d m) \<and>
     (\<forall>i. file_of f' i = file_of f i) \<and> (\<forall>i. in_use f' i = in_use f i)"

lemma renamedD:
  assumes "renamed S f f'"
  shows renamed_dirs: "dirs_kept f f'"
    and renamed_lookup: "(d, m) \<notin> S \<Longrightarrow> lookup f' d m = lookup f d m"
    and renamed_file_of: "file_of f' i = file_of f i"
    and renamed_in_use: "in_use f' i = in_use f i"
    and renamed_file_at: "(d, m) \<notin> S \<Longrightarrow> file_at f' d m i c = file_at f d m i c"
    and renamed_stored: "(e, StateName opid) \<notin> S \<Longrightarrow> stored_in f' e opid s i = stored_in f e opid s i"
  using assms by (auto simp: renamed_def file_at_def stored_in_def)

lemma exchange_effect:
  assumes "fs_rename f d n d' n' Exchange = Inr ((), f')"
    and "file_at f d n i c" "file_at f d' n' j c'" "device d = device d'" "(d, n) \<noteq> (d', n')"
  shows "file_at f' d n j c' \<and> file_at f' d' n' i c \<and> renamed {(d, n), (d', n')} f f'"
proof -
  have l: "lookup f d n = Some i" "lookup f d' n' = Some j" "file_of f i = Some (c, 1)"
      "file_of f j = Some (c', 1)" "device i = device d" "device j = device d'"
    using assms(2,3) by (simp_all add: file_at_def)
  have dirs: "is_dir f d" "is_dir f d'" using l lookup_is_dir by blast+
  have nd: "\<not> is_dir f i" "\<not> is_dir f j" using l file_not_dir by blast+
  have f': "f' = link (link f d n j) d' n' i"
    using assms(1) fs_rename_exchange [OF l(1,2) assms(4)] dirs nd by auto
  have "file_at f' d n j c' \<and> file_at f' d' n' i c"
    using l dirs assms(4,5) by (auto simp: f' file_at_def fs_simps)
  moreover have "renamed {(d, n), (d', n')} f f'"
    using l nd by (auto simp: f' renamed_def dirs_kept_def fs_simps)
  ultimately show ?thesis by blast
qed

lemma move_effect:
  assumes "fs_rename f d n d' n' Noreplace = Inr ((), f')" "file_at f d n i c" "device d = device d'"
  shows "lookup f d' n' = None \<and> lookup f' d n = None \<and> file_at f' d' n' i c \<and> renamed {(d, n), (d', n')} f f'"
proof -
  have none: "lookup f d' n' = None"
    using assms(1) fs_rename_noreplace_existing [of f d' n' _ d n] by (cases "lookup f d' n'") auto
  have l: "lookup f d n = Some i" "file_of f i = Some (c, 1)" "device i = device d"
    using assms(2) by (simp_all add: file_at_def)
  have dirs: "is_dir f d" "is_dir f d'"
    using l lookup_is_dir assms(1) by (auto simp: fs_rename_def is_dir_def split: if_splits)
  have nd: "\<not> is_dir f i" using l file_not_dir by blast
  have "i \<noteq> d'" using dirs nd by auto
  then have f': "f' = link (unlink f d n) d' n' i"
    using assms(1) fs_rename_onto_nothing [OF l(1) none dirs(2) assms(3), of Noreplace] by simp
  have "lookup f' d n = None \<and> file_at f' d' n' i c"
    using l dirs assms(3) none by (auto simp: f' file_at_def fs_simps)
  moreover have "renamed {(d, n), (d', n')} f f'"
    using l nd none by (auto simp: f' renamed_def dirs_kept_def fs_simps)
  ultimately show ?thesis using none by blast
qed

section \<open>What a save changes\<close>

lemma saved_file_at:
  assumes "saved h opid s f r f'" "stored_in f h opid t k" "file_at f d m i c" "i \<noteq> k"
    and "d \<noteq> h \<or> m \<noteq> StateName opid \<and> \<not> prefix (StateName opid @ ''.tmp.'') m"
  shows "file_at f' d m i c"
proof -
  have k: "kept h (StateName opid) f f'" using assms(1) by (simp add: saved_def)
  have "lookup f h (StateName opid) \<noteq> Some i" using assms(2,4) by (auto simp: stored_in_def file_at_def)
  moreover have "in_use f i" using assms(3) by (auto simp: file_at_def dest: file_of_in_use)
  moreover have "\<not> (d = h \<and> (m = StateName opid \<or> prefix (StateName opid @ ''.tmp.'') m))"
    using assms(5) by blast
  ultimately show ?thesis
    using assms(3) kept_file [OF k] kept_lookup [OF k] by (simp add: file_at_def)
qed

lemma saved_lookup:
  assumes "saved h opid s f r f'"
    and "d \<noteq> h \<or> m \<noteq> StateName opid \<and> \<not> prefix (StateName opid @ ''.tmp.'') m"
  shows "lookup f' d m = lookup f d m"
  by (rule kept_lookup [of h "StateName opid"]) (use assms in \<open>auto simp: saved_def\<close>)

lemma saved_record:
  assumes "saved h opid s f r f'" "stored_in f h opid t k"
  obtains (old) "stored_in f' h opid t k" "\<not> r"
    | (new) k' where "stored_in f' h opid s k'" "k' = k \<or> \<not> in_use f k'"
        "os_phase t = os_phase s \<or> forward (os_phase t) (os_phase s)"
proof -
  have k: "kept h (StateName opid) f f'" using assms(1) by (simp add: saved_def)
  have l: "lookup f h (StateName opid) = Some k" using assms(2) by (auto simp: stored_in_def file_at_def)
  consider "lookup f' h (StateName opid) = lookup f h (StateName opid)" "\<not> r"
    | "stored f' h opid s" "\<exists>cur. stored f h opid cur \<and> os_token cur = os_token s \<and>
              (os_phase cur = os_phase s \<or> forward (os_phase cur) (os_phase s))"
    using assms(1) l unfolding saved_def by auto
  then show thesis
  proof cases
    case 1
    with stored_kept [OF k _ assms(2)] show thesis by (intro old) auto
  next
    case 2
    then obtain k' where k': "stored_in f' h opid s k'" by (auto simp: stored_def)
    then have "lookup f' h (StateName opid) = Some k'" by (auto simp: stored_in_def file_at_def)
    then have "k' = k \<or> \<not> in_use f k'" using kept_entry [OF k] l by auto
    moreover have "os_phase t = os_phase s \<or> forward (os_phase t) (os_phase s)"
      using 2(2) stored_unique assms(2) unfolding stored_def by metis
    ultimately show thesis using k' by (intro new)
  qed
qed

section \<open>The stored phase\<close>

text \<open>The record of the operation is \<open>s\<close> in the phase \<open>ph\<close>, in a file other than those in \<open>F\<close>.\<close>

definition phase_at :: "Node \<Rightarrow> string \<Rightarrow> OperationState \<Rightarrow> Identity set \<Rightarrow> OperationPhase \<Rightarrow> fs \<Rightarrow> bool" where
  "phase_at h opid s F ph f \<longleftrightarrow> (\<exists>k. stored_in f (nd_fd h) opid (s\<lparr>os_phase := ph\<rparr>) k \<and> k \<notin> F)"

lemma phase_at_stored: "phase_at h opid s F ph f \<Longrightarrow> stored f (nd_fd h) opid (s\<lparr>os_phase := ph\<rparr>)"
  by (auto simp: phase_at_def stored_def)

lemma phase_at_unique: "phase_at h opid s F ph f \<Longrightarrow> phase_at h opid s F ph' f \<Longrightarrow> ph = ph'"
  using stored_unique [OF phase_at_stored phase_at_stored] with_phase(1) by metis

lemma phase_at_renamed:
  "renamed S f f' \<Longrightarrow> (nd_fd h, StateName opid) \<notin> S \<Longrightarrow> phase_at h opid s F ph f' = phase_at h opid s F ph f"
  by (simp add: phase_at_def renamed_stored)

lemma phase_at_saved:
  assumes "phase_at h opid s F ph f" "saved (nd_fd h) opid (s\<lparr>os_phase := ph'\<rparr>) f r f'" "\<forall>i \<in> F. in_use f i"
  shows "phase_at h opid s F ph f' \<and> \<not> r \<or> phase_at h opid s F ph' f'"
proof -
  from assms(1) obtain k where k: "stored_in f (nd_fd h) opid (s\<lparr>os_phase := ph\<rparr>) k" "k \<notin> F"
    by (auto simp: phase_at_def)
  show ?thesis
    by (rule saved_record [OF assms(2) k(1)]) (use k(2) assms(3) in \<open>auto simp: phase_at_def\<close>)
qed

lemma phase_at_file_kept:
  assumes "phase_at h opid s F ph f" "saved (nd_fd h) opid s' f r f'" "file_at f d m i c" "i \<in> F"
    and "d \<noteq> nd_fd h \<or> m \<noteq> StateName opid \<and> \<not> prefix (StateName opid @ ''.tmp.'') m"
  shows "file_at f' d m i c"
proof -
  from assms(1) obtain k where k: "stored_in f (nd_fd h) opid (s\<lparr>os_phase := ph\<rparr>) k" "k \<notin> F"
    by (auto simp: phase_at_def)
  then show ?thesis using saved_file_at [OF assms(2) k(1) assms(3) _ assms(5)] assms(4) by auto
qed

lemma phase_at_Prepared:
  assumes "fs_Prepared L f0 a = Inr (c, h, opid, s)" "dirs_kept f0 f" "phase_at h opid s F ph f"
  shows "fs_Prepared L f a = Inr (c, h, opid, s\<lparr>os_phase := ph\<rparr>)"
  by (rule dirs_kept_Prepared [OF assms(2,1) phase_at_stored [OF assms(3)]]) simp

section \<open>Finding the operation in a handler\<close>

text \<open>A handler finds the operation by its receipt, or fails without touching anything.\<close>

lemma outcomes_Prepared:
  assumes "fs_Prepared L f a = Inr y" "outcomes b f (k (Inr y)) Q"
    and "b \<Longrightarrow> outcomes b f (k (Inl ''invalid_prepared_receipt'')) Q"
  shows "outcomes b f (Prepared L a \<bind> k) Q"
  by (rule outcomes_bind_at [OF reads_at_Prepared [OF assms(1)]]) (use assms in auto)

lemma outcomes_OpenParent:
  assumes "fs_OpenParent f c = Inr y" "outcomes b f (k (Inr y)) Q" "\<And>e. b \<Longrightarrow> outcomes b f (k (Inl e)) Q"
  shows "outcomes b f (OpenParent c \<bind> k) Q"
  by (rule outcomes_bind_reads [OF reads_OpenParent]) (use assms in auto)

section \<open>Destinations\<close>

definition fs_OpenDestination :: "lib \<Rightarrow> fs \<Rightarrow> Context \<Rightarrow> OperationState \<Rightarrow> string + Node \<times> string" where
  "fs_OpenDestination L f c s =
     (if \<not> os_has_destination s then Inl ''invalid_prepared_receipt''
      else case ParseRelative L (os_destination s) False of
        None \<Rightarrow> Inl ''invalid_prepared_receipt''
      | Some ps \<Rightarrow>
          (case fs_Duplicate f (root c) of
             None \<Rightarrow> Inl ''metadata_changed''
           | Some rt \<Rightarrow>
               (case fs_Duplicate f (session c) of
                  None \<Rightarrow> Inl ''metadata_changed''
                | Some sn \<Rightarrow> fs_OpenParent f (c\<lparr>root := rt, session := sn, parts := ps\<rparr>))))"

lemma reads_OpenDestination [reads_intro]:
  "reads (OpenDestination L c s) (\<lambda>f. fs_OpenDestination L f c s) (range Inl)"
proof (rule readsI_at)
  fix f
  have parent: "reads_at f (OpenParent x) (fs_OpenParent f x) (range Inl)" for x
    using reads_at_of [OF reads_OpenParent] .
  show "reads_at f (OpenDestination L c s) (fs_OpenDestination L f c s) (range Inl)"
    unfolding OpenDestination_def fs_OpenDestination_def
    by (auto split: option.splits intro!: reads_at_ret fails_ret parent
        reads_at_bind [OF reads_at_of [OF reads_Duplicate]])
qed

lemma dirs_kept_OpenDestination: "dirs_kept f f' \<Longrightarrow> fs_OpenDestination L f' c s = fs_OpenDestination L f c s"
  by (simp add: fs_OpenDestination_def dirs_kept_Duplicate dirs_kept_OpenParent split: option.splits)

lemma fs_OpenDestination_phase [simp]:
  "fs_OpenDestination L f c (s\<lparr>os_phase := ph\<rparr>) = fs_OpenDestination L f c s"
  by (simp add: fs_OpenDestination_def)

end
