(* ===== verification/Prepare_Safety.thy ===== *)
theory Prepare_Safety
  imports Frames
begin

text \<open>
  What \<^verbatim>\<open>prepareMutation\<close> does to the file system: it only adds. Whatever fails, every entry that was
  there still names the same file or directory and every file keeps its content (\<open>grows\<close>); and a
  receipt is only handed out when the record and the staged file it stands for are in place.
\<close>

unbundle bit_operations_syntax

section \<open>Adding to a file system\<close>

definition grows :: "fs \<Rightarrow> fs \<Rightarrow> bool" where
  "grows f f' \<longleftrightarrow>
     (\<forall>d m i. lookup f d m = Some i \<longrightarrow> lookup f' d m = Some i) \<and>
     (\<forall>i. in_use f i \<longrightarrow> in_use f' i \<and> is_dir f' i = is_dir f i \<and> file_of f' i = file_of f i \<and>
          (is_dir f i \<longrightarrow> fs_stat f' i = fs_stat f i)) \<and>
     paths f' = paths f"

lemma grows_refl [simp]: "grows f f"
  by (simp add: grows_def)

lemma grows_trans [trans]: "grows f g \<Longrightarrow> grows g h \<Longrightarrow> grows f h"
  by (simp add: grows_def)

lemma growsD:
  assumes "grows f f'"
  shows grows_lookup: "lookup f d m = Some i \<Longrightarrow> lookup f' d m = Some i"
    and grows_in_use: "in_use f i \<Longrightarrow> in_use f' i"
    and grows_is_dir: "is_dir f i \<Longrightarrow> is_dir f' i"
    and grows_file_of: "in_use f i \<Longrightarrow> file_of f' i = file_of f i"
    and grows_stat: "is_dir f i \<Longrightarrow> fs_stat f' i = fs_stat f i"
    and grows_paths: "paths f' = paths f"
  using assms is_dir_in_use unfolding grows_def by blast+

lemma grows_file_at: "grows f f' \<Longrightarrow> file_at f d n i c \<Longrightarrow> file_at f' d n i c"
  using grows_lookup [of f f' d n i] grows_file_of [of f f' i] file_of_in_use [of f i]
  by (simp add: file_at_def)

lemma grows_inspect:
  "grows f f' \<Longrightarrow> is_dir f i \<Longrightarrow> fs_inspect f' S_IFDIR (Inr i) = fs_inspect f S_IFDIR (Inr i)"
  by (simp add: fs_inspect_def grows_stat)

lemma grows_OpenDirAt:
  assumes "grows f f'" "fs_OpenDirAt f d n = Some nd"
  shows "fs_OpenDirAt f' d n = Some nd"
proof -
  from assms(2) obtain i where i: "lookup f d n = Some i" "device i = device d" "is_dir f i"
      "fs_inspect f S_IFDIR (Inr i) = Some nd"
    by (auto simp: fs_OpenDirAt_alt split: option.splits if_splits)
  with grows_lookup [OF assms(1) i(1)] grows_is_dir [OF assms(1) i(3)] grows_inspect [OF assms(1) i(3)]
  show ?thesis by (simp add: fs_OpenDirAt_alt)
qed

lemma grows_Stable: "grows f f' \<Longrightarrow> fs_Stable f n S_IFDIR \<Longrightarrow> fs_Stable f' n S_IFDIR"
proof -
  assume g: "grows f f'" and s: "fs_Stable f n S_IFDIR"
  then have "is_dir f (nd_fd n)"
    by (auto simp: fs_Stable_def fs_stat_def is_dir_iff split: option.splits content.splits)
       (metis filetype.distinct type_of.elims)
  with s g show ?thesis by (simp add: fs_Stable_def grows_stat)
qed

lemma grows_OpenSessionDirs:
  "grows f f' \<Longrightarrow> fs_OpenSessionDirs f r key ps = Inr c \<Longrightarrow> fs_OpenSessionDirs f' r key ps = Inr c"
  by (auto simp: fs_OpenSessionDirs_def grows_OpenDirAt grows_Stable split: option.splits if_splits)

lemma grows_OpenRoot: "grows f f' \<Longrightarrow> fs_OpenRoot f a = Inr n \<Longrightarrow> fs_OpenRoot f' a = Inr n"
proof -
  assume g: "grows f f'" and r: "fs_OpenRoot f a = Inr n"
  then obtain p where p: "StringArg a ''root'' = Some p" "p \<noteq> []" "hd p = CHR ''/''"
      "fs_inspect f S_IFDIR (fs_open_path f p) = Some n"
    by (auto simp: fs_OpenRoot_def split: option.splits if_splits)
  from fs_inspect_dir [OF p(4)] obtain i where i: "fs_open_path f p = Inr i" "is_dir f i" by blast
  then have "fs_open_path f' p = Inr i"
    using grows_paths [OF g] grows_is_dir [OF g i(2)]
    by (auto simp: fs_open_path_def is_dir_def split: option.splits)
  with p i grows_inspect [OF g i(2)] show ?thesis by (simp add: fs_OpenRoot_def)
qed

lemma grows_OpenContext: "grows f f' \<Longrightarrow> fs_OpenContext L f a = Inr c \<Longrightarrow> fs_OpenContext L f' a = Inr c"
proof -
  assume g: "grows f f'" and c: "fs_OpenContext L f a = Inr c"
  then obtain key ps bound rt where x: "context_args L a = Some (key, ps, bound)" "fs_OpenRoot f a = Inr rt"
      "Token (nd_id rt) = bound" "fs_OpenSessionDirs f rt key ps = Inr c"
    by (auto simp: fs_OpenContext_def split: option.splits prod.splits sum.splits if_splits)
  from grows_OpenRoot [OF g x(2)] grows_OpenSessionDirs [OF g x(4)] x
  show ?thesis by (simp add: fs_OpenContext_def)
qed

lemma grows_EnsureHidden: "grows f f' \<Longrightarrow> fs_EnsureHidden f c = Inr h \<Longrightarrow> fs_EnsureHidden f' c = Inr h"
  by (auto simp: fs_EnsureHidden_def grows_OpenDirAt grows_Stable split: option.splits if_splits)

lemma grows_open_parents:
  "grows f f' \<Longrightarrow> fs_open_parents f dev cur ns = Some p \<Longrightarrow> fs_open_parents f' dev cur ns = Some p"
proof (induction ns arbitrary: cur)
  case (Cons n ns)
  then obtain nxt where "fs_OpenDirAt f (nd_fd cur) n = Some nxt" "device (nd_id nxt) = dev"
      "fs_Stable f cur S_IFDIR" "fs_open_parents f dev nxt ns = Some p"
    by (auto split: option.splits if_splits)
  with Cons show ?case by (simp add: grows_OpenDirAt grows_Stable)
qed simp

lemma grows_OpenParent: "grows f f' \<Longrightarrow> fs_OpenParent f c = Inr x \<Longrightarrow> fs_OpenParent f' c = Inr x"
proof -
  assume g: "grows f f'" and p: "fs_OpenParent f c = Inr x"
  then obtain cur where cur: "fs_Duplicate f (session c) = Some cur" "parts c \<noteq> []"
    by (auto simp: fs_OpenParent_def split: if_splits option.splits)
  have "is_dir f (nd_fd (session c))" using fs_Duplicate_SomeD [OF cur(1)] by auto
  then have "fs_Duplicate f' (session c) = Some cur"
    using cur(1) g by (simp add: fs_Duplicate_def grows_inspect is_dir_in_use grows_in_use)
  with p cur g show ?thesis
    by (auto simp: fs_OpenParent_def grows_open_parents split: option.splits)
qed

section \<open>What the calls of a preparation add\<close>

text \<open>No entry dangles and none is shared.\<close>

definition sound_entries :: "fs \<Rightarrow> bool" where
  "sound_entries f \<longleftrightarrow> tree f \<and> (\<forall>d m i. lookup f d m = Some i \<longrightarrow> in_use f i)"

lemma grows_with_file:
  assumes "\<not> in_use f i" "is_dir f d" "lookup f d n = None"
  shows "grows f (with_file f d n i c)"
  unfolding grows_def with_file_views [OF assms(1,2)]
  using assms(1,3) with_file_views(6) [OF assms(1,2)] by (auto dest: is_dir_in_use)

definition with_dir :: "fs \<Rightarrow> Identity \<Rightarrow> string \<Rightarrow> Identity \<Rightarrow> fs" where
  "with_dir f d n i = link (add_node f i (Directory []) 2) d n i"

lemma with_dir_views:
  assumes "\<not> in_use f i" "is_dir f d"
  shows "file_of (with_dir f d n i) j = (if j = i then None else file_of f j)"
    and "lookup (with_dir f d n i) e m = (if e = d \<and> m = n then Some i else lookup f e m)"
    and "is_dir (with_dir f d n i) e = (e = i \<or> is_dir f e)"
    and "in_use (with_dir f d n i) j = (j = i \<or> in_use f j)"
    and "paths (with_dir f d n i) = paths f"
    and "j \<noteq> i \<Longrightarrow> fs_stat (with_dir f d n i) j = fs_stat f j"
  using assms add_node_views [of f i "Directory []" "[]" 2] is_dir_in_use [of f d]
  by (auto simp: with_dir_def fs_simps fs_stat_other)

lemma grows_with_dir:
  assumes "\<not> in_use f i" "is_dir f d" "lookup f d n = None"
  shows "grows f (with_dir f d n i)"
  unfolding grows_def with_dir_views [OF assms(1,2)]
  using assms(1,3) with_dir_views(6) [OF assms(1,2)] is_dir_in_use by auto

lemma sound_with_dir:
  assumes "\<not> in_use f i" "is_dir f d" "sound_entries f"
  shows "sound_entries (with_dir f d n i)"
proof -
  have fresh: "lookup f e m \<noteq> Some i" for e m using assms(1,3) by (auto simp: sound_entries_def)
  have t: "tree f" and u: "\<And>e m j. lookup f e m = Some j \<Longrightarrow> in_use f j"
    using assms(3) by (auto simp: sound_entries_def)
  have "tree (with_dir f d n i)"
    unfolding tree_def with_dir_views [OF assms(1,2)]
    using fresh treeD [OF t] by (auto split: if_splits) 
  moreover have "in_use (with_dir f d n i) j" if "lookup (with_dir f d n i) e m = Some j" for e m j
    using that u by (auto simp: with_dir_views [OF assms(1,2)] split: if_splits)
  ultimately show ?thesis by (auto simp: sound_entries_def)
qed

lemma outcomes_mkdirat:
  assumes "\<And>e. Q (Inl e) f"
    and "\<And>i. is_dir f d \<Longrightarrow> lookup f d n = None \<Longrightarrow> \<not> in_use f i \<Longrightarrow> device i = device d \<Longrightarrow>
           Q (Inr i) (with_dir f d n i)"
  shows "outcomes b f (sys_mkdirat d n) Q"
proof (rule outcomesI)
  fix w assume w: "quiet w" "disk w = f"
  show "wp (sys_mkdirat d n) (\<lambda>r w'. follows w w' \<and> Q r (disk w')) w"
    unfolding sys_mkdirat_def
  proof (rule wp_sys [OF w(1)])
    fix a w' assume w': "follows w w'"
      and a: "case a of Inl e \<Rightarrow> disk w' = disk w \<and> (faulty w \<and> e = EIO \<or>
                fs_new (disk w) d n (new_id w d) (Directory []) 2 = Inl e)
              | Inr x \<Rightarrow> fs_new (disk w) d n (new_id w d) (Directory []) 2 = Inr (x, disk w')"
    show "follows w w' \<and> Q a (disk w')"
    proof (cases a)
      case (Inl e)
      with a w w' assms(1) show ?thesis by simp
    next
      case (Inr i)
      then have "fs_new f d n (new_id w d) (Directory []) 2 = Inr (i, disk w')" using a w by simp
      then have "is_dir f d" "lookup f d n = None" "\<not> in_use f i" "device i = device d"
          "disk w' = with_dir f d n i"
        by (auto simp: fs_new_def is_dir_def lookup_def in_use_def new_id_def with_dir_def split: option.splits)
      with Inr w' assms(2) show ?thesis by simp
    qed
  qed
qed

lemma outcomes_create:
  assumes "\<And>e. Q (Inl e) f"
    and "\<And>i. is_dir f d \<Longrightarrow> lookup f d n = None \<Longrightarrow> \<not> in_use f i \<Longrightarrow> device i = device d \<Longrightarrow>
           Q (Inr i) (with_file f d n i [])"
  shows "outcomes b f (sys_create d n) Q"
proof (rule outcomesI)
  fix w assume w: "quiet w" "disk w = f"
  show "wp (sys_create d n) (\<lambda>r w'. follows w w' \<and> Q r (disk w')) w"
    by (rule wp_create [OF w(1)]) (use w assms in auto)
qed

lemma outcomes_write_loop:
  assumes "file_of f i = Some (c, k)"
    and "\<And>r c'. (r \<Longrightarrow> c' = c @ bs) \<Longrightarrow> Q r (set_body f i (Regular c'))"
  shows "outcomes b f (write_loop i (length c) bs) Q"
proof (rule outcomesI)
  fix w assume w: "quiet w" "disk w = f"
  show "wp (write_loop i (length c) bs) (\<lambda>r w'. follows w w' \<and> Q r (disk w')) w"
    by (rule wp_write_loop [OF w(1), where c = c and k = k]) (use w assms in auto)
qed

lemma outcomes_getrandom: "(\<And>r. Q r f) \<Longrightarrow> outcomes b f (sys_getrandom k) Q"
  by (rule outcomesI, rule wp_getrandom) auto

section \<open>The context and the hidden directory\<close>

text \<open>From \<open>f\<close> to \<open>g\<close> something may have been added, soundly.\<close>

definition adds :: "fs \<Rightarrow> fs \<Rightarrow> bool" where
  "adds f g \<longleftrightarrow> grows f g \<and> (sound_entries f \<longrightarrow> sound_entries g)"

lemma adds_refl [simp]: "adds f f"
  by (simp add: adds_def)

lemma adds_trans [trans]: "adds f g \<Longrightarrow> adds g h \<Longrightarrow> adds f h"
  by (auto simp: adds_def intro: grows_trans)

lemma adds_grows: "adds f g \<Longrightarrow> grows f g"
  by (simp add: adds_def)

lemma outcomes_make_or_keep:
  assumes "\<And>r g. adds f g \<Longrightarrow> Q r g"
  shows "outcomes b f (make_or_keep d n) Q"
  unfolding make_or_keep_def
  by (rule outcomes_bind [OF outcomes_mkdirat [where Q = "\<lambda>_. adds f"]])
     (auto simp: adds_def intro!: outcomes_ret assms grows_with_dir sound_with_dir)

lemma outcomes_OpenSessionDirs:
  "outcomes b f (OpenSessionDirs True r key ps)
     (\<lambda>x g. adds f g \<and> (\<forall>c. x = Inr c \<longrightarrow> fs_OpenSessionDirs g r key ps = Inr c))"
  (is "outcomes b f _ ?Q")
proof -
  have last: "outcomes b g2 (do { ok \<leftarrow> andM (Stable r S_IFDIR) (Stable dirs S_IFDIR);
        ret (if ok then Inr \<lparr>root = r, sessions = dirs, session = own, parts = ps\<rparr>
             else Inl ''metadata_changed'') }) ?Q"
    if "adds f g2" "fs_OpenDirAt g2 (nd_fd r) ''sessions'' = Some dirs" "device (nd_id dirs) = device (nd_id r)"
       "fs_OpenDirAt g2 (nd_fd dirs) key = Some own" "device (nd_id own) = device (nd_id r)" for g2 dirs own
    by (rule outcomes_bind_reads [OF reads_andM [OF reads_Stable reads_Stable]])
       (use that in \<open>auto simp: fs_OpenSessionDirs_def intro!: outcomes_ret\<close>)
  show ?thesis
    unfolding OpenSessionDirs_def if_True
    apply (rule outcomes_bind [OF outcomes_make_or_keep [where Q = "\<lambda>_. adds f"]], assumption)
    apply (rule outcomes_if, simp add: outcomes_ret)
    apply (rule outcomes_bind_reads [OF reads_OpenDirAt])
    subgoal for made g
      apply (cases "fs_OpenDirAt g (nd_fd r) ''sessions''")
      subgoal by (simp add: outcomes_ret)
      subgoal for dirs
        apply (simp, intro impI conjI)
        subgoal by (simp add: outcomes_ret)
        subgoal
          apply (rule outcomes_bind [OF outcomes_make_or_keep [where Q = "\<lambda>_. adds g"]], assumption)
          apply (rule outcomes_if)
          subgoal by (auto intro!: outcomes_ret intro: adds_trans)
          apply (rule outcomes_bind_reads [OF reads_OpenDirAt])
          subgoal for made2 g2
            by (auto split: option.splits intro!: outcomes_ret last
                intro: adds_trans grows_OpenDirAt [OF adds_grows])
          subgoal by (auto intro!: outcomes_ret intro: adds_trans)
          done
        done
      done
    subgoal by (simp add: outcomes_ret)
    done
qed

lemma outcomes_OpenContext:
  "outcomes b f (OpenContext L a True)
     (\<lambda>x g. adds f g \<and> (\<forall>c. x = Inr c \<longrightarrow> fs_OpenContext L g a = Inr c))"
proof (cases "context_args L a")
  case None
  then show ?thesis by (simp add: OpenContext_def outcomes_ret)
next
  case (Some x)
  obtain key ps bound where x: "x = (key, ps, bound)" by (cases x)
  show ?thesis
    unfolding OpenContext_def Some x option.case prod.case
    apply (rule outcomes_bind_reads [OF reads_OpenRoot])
    subgoal
      apply (cases "fs_OpenRoot f a")
      subgoal by (simp add: outcomes_ret)
      subgoal for rt
        apply simp
        apply (intro impI conjI)
        subgoal by (simp add: outcomes_ret)
        subgoal
          by (rule outcomes_mono [OF outcomes_OpenSessionDirs])
             (auto simp: fs_OpenContext_def Some x dest: grows_OpenRoot [OF adds_grows])
        done
      done
    subgoal by (auto simp: outcomes_ret)
    done
qed

lemma outcomes_EnsureHidden:
  "outcomes b f (EnsureHidden c) (\<lambda>x g. adds f g \<and> (\<forall>h. x = Inr h \<longrightarrow> fs_EnsureHidden g c = Inr h))"
  unfolding EnsureHidden_def
  apply (rule outcomes_bind [OF outcomes_make_or_keep [where Q = "\<lambda>_. adds f"]], assumption)
  apply (rule outcomes_if, simp add: outcomes_ret)
  apply (rule outcomes_bind_reads [OF reads_OpenDirAt])
  subgoal for made g
    by (cases "fs_OpenDirAt g (nd_fd (session c)) ''.mobilka-workspace''")
       (auto simp: fs_EnsureHidden_def hidden_name_def intro!: outcomes_ret outcomes_bind_reads [OF reads_Stable])
  subgoal by (simp add: outcomes_ret)
  done

section \<open>The staged file\<close>

lemma file_node_inspect:
  "file_of f i = Some (c, 1) \<Longrightarrow> fs_inspect f S_IFREG (Inr i) = Some (file_node i c)"
  by (simp add: fs_inspect_file)

text \<open>Nothing but the entry \<open>n\<close> of \<open>d\<close> may be new.\<close>

definition adds_at :: "Identity \<Rightarrow> string \<Rightarrow> fs \<Rightarrow> fs \<Rightarrow> bool" where
  "adds_at d n f g \<longleftrightarrow> grows f g \<and> (\<forall>e m. (e, m) \<noteq> (d, n) \<longrightarrow> lookup g e m = lookup f e m)"

lemma adds_at_refl [simp]: "adds_at d n f f"
  by (simp add: adds_at_def)

lemma adds_at_with_file:
  "\<not> in_use f i \<Longrightarrow> is_dir f d \<Longrightarrow> lookup f d n = None \<Longrightarrow> adds_at d n f (with_file f d n i c)"
  by (simp add: adds_at_def grows_with_file with_file_views)

lemma outcomes_WriteExact:
  assumes fail: "\<And>g. adds_at (nd_fd p) n f g \<Longrightarrow> Q None g"
    and ok: "\<And>i. is_dir f (nd_fd p) \<Longrightarrow> lookup f (nd_fd p) n = None \<Longrightarrow> \<not> in_use f i \<Longrightarrow>
          device i = device (nd_fd p) \<Longrightarrow> length bs \<le> kMaxFileBytes \<Longrightarrow>
          Q (Some (file_node i [], sha256 L bs)) (with_file f (nd_fd p) n i bs)"
  shows "outcomes b f (WriteExact L p n bs) Q"
proof (cases "length bs > kMaxFileBytes")
  case True
  then show ?thesis by (simp add: WriteExact_def outcomes_ret fail)
next
  case False
  have open_file: "outcomes b (with_file f (nd_fd p) n i []) (do {
        out \<leftarrow> Inspect (Inr i) S_IFREG;
        (case out of None \<Rightarrow> ret None
         | Some nd \<Rightarrow> do {
             ok \<leftarrow> write_loop (nd_fd nd) 0 bs;
             if \<not> ok then ret None
             else do {
               s \<leftarrow> sys_fsync (nd_fd nd);
               (case s of Inl _ \<Rightarrow> ret None
                | Inr _ \<Rightarrow> do { h \<leftarrow> HashExact L nd; ret (map_option (\<lambda>x. (nd, fst x)) h) }) } }) }) Q"
    if i: "is_dir f (nd_fd p)" "lookup f (nd_fd p) n = None" "\<not> in_use f i" "device i = device (nd_fd p)" for i
  proof -
    let ?f = "\<lambda>c. with_file f (nd_fd p) n i c"
    note views = with_file_views [OF i(3,1)]
    have grow: "Q None (?f c)" for c using adds_at_with_file [OF i(3,1,2)] by (rule fail)
    have start: "file_of (?f []) i = Some ([], 1)" by (simp add: views)
    have written: "outcomes b (?f bs) (do {
               s \<leftarrow> sys_fsync i;
               (case s of Inl _ \<Rightarrow> ret None
                | Inr _ \<Rightarrow> do { h \<leftarrow> HashExact L (file_node i []); ret (map_option (\<lambda>x. (file_node i [], fst x)) h) }) }) Q"
      using ok [OF i] False grow
      by (auto simp: views fs_HashExact_def intro!: outcomes_bind_reads [OF reads_fsync] outcomes_ret
          outcomes_bind_reads [OF reads_HashExact])
    show ?thesis
      apply (rule outcomes_bind_reads [OF reads_Inspect])
      subgoal
        unfolding file_node_inspect [OF start] option.case file_node_sel
        apply (rule outcomes_bind [OF outcomes_write_loop [OF start, unfolded list.size(3),
              where Q = "\<lambda>r g. \<exists>c'. g = ?f c' \<and> (r \<longrightarrow> c' = bs)"]])
        subgoal by (auto simp: set_body_with_file)
        subgoal for r g using written grow by (auto intro!: outcomes_ret)
        done
      subgoal using grow by (auto intro!: outcomes_ret)
      done
  qed
  show ?thesis
    unfolding WriteExact_def if_not_P [OF False]
    apply (rule outcomes_bind [OF outcomes_create [where Q = "\<lambda>x g. case x of Inl _ \<Rightarrow> g = f
        | Inr i \<Rightarrow> is_dir f (nd_fd p) \<and> lookup f (nd_fd p) n = None \<and> \<not> in_use f i \<and>
            device i = device (nd_fd p) \<and> g = with_file f (nd_fd p) n i []"]])
    subgoal by simp
    subgoal by simp
    subgoal for x g using open_file fail [OF adds_at_refl] by (cases x) (auto intro!: outcomes_ret)
    done
qed

section \<open>Tokens\<close>

lemma length_alphabet: "length alphabet = 64"
  by (simp add: alphabet_def)

lemma unat_and_63: "unat (x AND 63 :: 32 word) < 64"
proof -
  have "x AND 63 \<le> 63" by (rule word_and_le1)
  then have "unat (x AND 63) \<le> 63" by (simp add: word_le_nat_alt)
  then show ?thesis by simp
qed

lemma alphabet_and_63: "alphabet ! unat (x AND 63 :: 32 word) \<in> set alphabet"
  by (rule nth_mem) (simp add: length_alphabet unat_and_63)

lemma emit_alphabet: "emit bits n = (cs, r) \<Longrightarrow> set cs \<subseteq> set alphabet \<and> r < 6 \<and> 6 * length cs + r = n"
proof (induction n arbitrary: cs rule: less_induct)
  case (less n)
  show ?case
  proof (cases "6 \<le> n")
    case False
    with less.prems show ?thesis by (simp add: emit.simps [of bits n])
  next
    case True
    obtain ds q where ds: "emit bits (n - 6) = (ds, q)" by fastforce
    have "cs = alphabet ! unat (drop_bit (n - 6) bits AND 63) # ds" "q = r"
      using less.prems True ds by (simp_all add: emit.simps [of bits n] Let_def)
    moreover have "set ds \<subseteq> set alphabet \<and> q < 6 \<and> 6 * length ds + q = n - 6"
      using less.IH [of "n - 6" ds] ds \<open>q = r\<close> True by simp
    ultimately show ?thesis using True by (auto simp: alphabet_and_63)
  qed
qed

lemma encode_token_alphabet: "set (encode_token bits n bs) \<subseteq> set alphabet"
proof (induction bits n bs rule: encode_token.induct)
  case (1 bits n)
  then show ?case by (auto simp: alphabet_and_63)
next
  case (2 bits n b bs)
  obtain cs r where e: "emit (push_bit 8 bits OR ucast b) (n + 8) = (cs, r)" by fastforce
  with 2 [OF refl e [symmetric] refl] emit_alphabet [OF e] show ?case by (simp add: Let_def)
qed

text \<open>Enough turns: every one uses up an interrupt or gains a byte.\<close>

lemma fill_random_enough:
  "length acc \<le> 32 \<Longrightarrow> interrupts w + 33 \<le> k + length acc \<Longrightarrow>
     wp (fill_random k acc) (\<lambda>r w'. follows w w' \<and> disk w' = disk w \<and>
       (case r of None \<Rightarrow> faulty w | Some bs \<Rightarrow> length bs = 32)) w"
proof (induction k arbitrary: acc w)
  case 0
  then show ?case by simp
next
  case (Suc k)
  show ?case
  proof (cases "length acc < 32")
    case False
    with Suc.prems show ?thesis by simp
  next
    case True
    let ?w = "w\<lparr>clock := Suc (clock w)\<rparr>"
    have fw: "follows w ?w" "follows w (?w\<lparr>interrupts := n\<rparr>)" for n by (simp_all add: follows_def)
    have more: "wp (fill_random k acc') (\<lambda>r w'. follows w w' \<and> disk w' = disk w \<and>
       (case r of None \<Rightarrow> faulty w | Some bs \<Rightarrow> length bs = 32)) w1"
      if "length acc' \<le> 32" "interrupts w1 + 33 \<le> k + length acc'" "follows w w1" "disk w1 = disk w" for acc' w1
      by (rule wp_mono [OF Suc.IH [OF that(1,2)]])
         (use that(3,4) in \<open>auto simp: follows_faulty split: option.splits intro: follows_trans\<close>)
    show ?thesis
    proof (cases "0 < interrupts w")
      case True
      have "wp (fill_random k acc) (\<lambda>r w'. follows w w' \<and> disk w' = disk w \<and>
         (case r of None \<Rightarrow> faulty w | Some bs \<Rightarrow> length bs = 32)) (?w\<lparr>interrupts := interrupts w - 1\<rparr>)"
        by (rule more) (use Suc.prems True fw in auto)
      then show ?thesis using True \<open>length acc < 32\<close> by (simp add: wp_def sys_getrandom_def)
    next
      case False
      then have z: "interrupts w = 0" by simp
      let ?k = "transfer w (32 - length acc)"
      have t: "0 < ?k" "?k \<le> 32 - length acc" using True by (auto simp: transfer_def split: fault.splits)
      let ?bs = "map (rng w (clock w)) [0..<?k]"
      have go: "wp (fill_random k (acc @ ?bs)) (\<lambda>r w'. follows w w' \<and> disk w' = disk w \<and>
         (case r of None \<Rightarrow> faulty w | Some bs \<Rightarrow> length bs = 32)) ?w"
        by (rule more) (use Suc.prems True t z fw in auto)
      show ?thesis
      proof (cases "sched w (clock w)")
        case Fault
        then have "faulty w" by (auto simp: faulty_def)
        with Fault True z fw show ?thesis by (simp add: wp_def sys_getrandom_def)
      qed (use go True z t in \<open>simp_all add: wp_def sys_getrandom_def\<close>)
    qed
  qed
qed

lemma length_encode_token:
  "n < 6 \<Longrightarrow> 6 * length (encode_token bits n bs) = (if (n + 8 * length bs) mod 6 = 0 then n + 8 * length bs
     else n + 8 * length bs + 6 - (n + 8 * length bs) mod 6)"
proof (induction bits n bs rule: encode_token.induct)
  case (1 bits n)
  then show ?case by simp
next
  case (2 bits n b bs)
  obtain cs r where e: "emit (push_bit 8 bits OR ucast b) (n + 8) = (cs, r)" by fastforce
  then have r: "r < 6" "6 * length cs + r = n + 8" using emit_alphabet [OF e] by auto
  let ?q = "r + 8 * length bs"
  have m: "n + 8 * length (b # bs) = 6 * length cs + ?q" using r by simp
  have m6: "(6 * length cs + ?q) mod 6 = ?q mod 6" by simp
  have t: "encode_token bits n (b # bs) = cs @ encode_token (push_bit 8 bits OR ucast b) r bs"
    using e by (simp add: Let_def)
  have "?q mod 6 < 6" by simp
  then show ?case
    unfolding t m m6 length_append using 2(1) [OF refl e [symmetric] refl r(1)] by (simp split: if_splits)
qed

definition token_ok :: "string \<Rightarrow> bool" where
  "token_ok t \<longleftrightarrow> length t = 43 \<and> CHR 0x00 \<notin> set t"

lemma outcomes_RandomToken:
  "outcomes b f RandomToken (\<lambda>t g. g = f \<and> (t = None \<longrightarrow> b) \<and>
     (\<forall>x. t = Some x \<longrightarrow> length x = 43 \<and> set x \<subseteq> set alphabet))"
proof (rule outcomesI)
  fix w assume w: "quiet w" "faulty w \<Longrightarrow> b" "disk w = f"
  have len: "length (encode_token 0 0 bs) = 43" if "length bs = 32" for bs
    using length_encode_token [of 0 0 bs] that by simp
  have "wp (fill_random (interrupts w + 33) []) (\<lambda>r w'. follows w w' \<and> disk w' = disk w \<and>
       (case r of None \<Rightarrow> faulty w | Some bs \<Rightarrow> length bs = 32)) w"
    by (rule fill_random_enough) simp_all
  then have "wp (fill_random (interrupts w + 33) []) (\<lambda>r w'. wp (ret (case r of
            None \<Rightarrow> None
          | Some bs \<Rightarrow> let t = encode_token 0 0 bs in if length t = 43 then Some t else None))
      (\<lambda>t w'. follows w w' \<and> disk w' = f \<and> (t = None \<longrightarrow> b) \<and>
         (\<forall>x. t = Some x \<longrightarrow> length x = 43 \<and> set x \<subseteq> set alphabet)) w') w"
    by (rule wp_mono) (use w len encode_token_alphabet in \<open>auto simp: Let_def split: option.splits\<close>)
  then show "wp RandomToken (\<lambda>t w'. follows w w' \<and> disk w' = f \<and> (t = None \<longrightarrow> b) \<and>
         (\<forall>x. t = Some x \<longrightarrow> length x = 43 \<and> set x \<subseteq> set alphabet)) w"
    by (simp add: RandomToken_def wp_def State_Monad.get_def split: prod.splits)
qed

lemma alphabet_token_ok: "length t = 43 \<Longrightarrow> set t \<subseteq> set alphabet \<Longrightarrow> token_ok t"
  by (auto simp: token_ok_def alphabet_def)

section \<open>Staging\<close>

text \<open>What staging has added to \<open>f\<close> when it makes \<open>s'\<close> of \<open>s\<close>.\<close>

definition staged :: "lib \<Rightarrow> FlValue \<Rightarrow> Node \<Rightarrow> string \<Rightarrow> byte list \<Rightarrow> fs \<Rightarrow> OperationState \<Rightarrow> OperationState
    \<Rightarrow> fs \<Rightarrow> bool" where
  "staged L a h opid content f s s' g \<longleftrightarrow>
     (if IsWrite (os_operation s) then
        (\<exists>bytes i. Lookup a ''bytes'' = Some (FlUint8List bytes) \<and> length bytes \<le> kMaxFileBytes \<and>
           file_at g (nd_fd h) (stage_name opid) i bytes \<and> \<not> in_use f i \<and>
           s' = s\<lparr>os_stage_hash := sha256 L bytes, os_stage_identity := Token i,
                  os_result_size := of_nat (length bytes)\<rparr>)
      else if os_operation s = ''move_file'' \<or> os_operation s = ''delete_file'' then
        (\<exists>i. length content \<le> kMaxFileBytes \<and>
           file_at g (nd_fd h) (backup_name opid) i content \<and> \<not> in_use f i \<and>
           lookup g (nd_fd h) (stage_name opid) = lookup f (nd_fd h) (stage_name opid) \<and>
           s' = s\<lparr>os_backup_hash := sha256 L content, os_backup_identity := Token i\<rparr>)
      else
        (\<exists>i. dir_at g (nd_fd h) (stage_name opid) i \<and> \<not> in_use f i \<and> s' = s\<lparr>os_stage_identity := Token i\<rparr>))"

lemma file_at_with_file:
  "\<not> in_use f i \<Longrightarrow> is_dir f d \<Longrightarrow> device i = device d \<Longrightarrow> file_at (with_file f d n i c) d n i c"
  by (simp add: file_at_def with_file_views)

text \<open>Nothing but the stage and the backup may be new.\<close>

definition staging :: "Identity \<Rightarrow> string \<Rightarrow> fs \<Rightarrow> fs \<Rightarrow> bool" where
  "staging h opid f g \<longleftrightarrow> grows f g \<and>
     (\<forall>e m. (e, m) \<notin> {(h, stage_name opid), (h, backup_name opid)} \<longrightarrow> lookup g e m = lookup f e m)"

lemma staging_refl [simp]: "staging h opid f f"
  by (simp add: staging_def)

lemma staging_grows: "staging h opid f g \<Longrightarrow> grows f g"
  by (simp add: staging_def)

lemma staging_adds_at:
  "adds_at h (stage_name opid) f g \<Longrightarrow> staging h opid f g"
  "adds_at h (backup_name opid) f g \<Longrightarrow> staging h opid f g"
  by (auto simp: staging_def adds_at_def)

lemma outcomes_stage_operation:
  assumes target: "case target of None \<Rightarrow> content = [] | Some nd \<Rightarrow> \<exists>t. nd = file_node t content \<and> file_of f t = Some (content, 1)"
  shows "outcomes b f (stage_operation L a h opid target s)
           (\<lambda>x g. staging (nd_fd h) opid f g \<and> (\<forall>s'. x = Inr s' \<longrightarrow> staged L a h opid content f s s' g))"
    (is "outcomes b f _ ?Q")
proof -
  have written: "outcomes b f (do {
             w \<leftarrow> WriteExact L h (stage_name opid) bytes;
             ret (case w of
                    None \<Rightarrow> Inl ''mutation_indeterminate''
                  | Some (stage, hash) \<Rightarrow>
                      Inr (s\<lparr>os_stage_hash := hash, os_stage_identity := Token (nd_id stage),
                             os_result_size := of_nat (length bytes)\<rparr>)) }) ?Q"
    if "IsWrite (os_operation s)" "Lookup a ''bytes'' = Some (FlUint8List bytes)" for bytes
    apply (rule outcomes_bind [OF outcomes_WriteExact [where Q = "\<lambda>w g. staging (nd_fd h) opid f g \<and>
        (\<forall>nd hash. w = Some (nd, hash) \<longrightarrow> hash = sha256 L bytes \<and> length bytes \<le> kMaxFileBytes \<and>
           \<not> in_use f (nd_id nd) \<and> file_at g (nd_fd h) (stage_name opid) (nd_id nd) bytes)"]])
    subgoal by (simp add: staging_adds_at)
    subgoal by (simp add: staging_adds_at adds_at_with_file file_at_with_file)
    subgoal for w g using that by (cases w) (auto simp: staged_def intro!: outcomes_ret)
    done
  have backup: "outcomes b f (do {
             w \<leftarrow> WriteExact L h (backup_name opid) content;
             ret (case w of
                    None \<Rightarrow> Inl ''mutation_indeterminate''
                  | Some (backup, hash) \<Rightarrow>
                      Inr (s\<lparr>os_backup_hash := hash, os_backup_identity := Token (nd_id backup)\<rparr>)) }) ?Q"
    if "\<not> IsWrite (os_operation s)" "os_operation s = ''move_file'' \<or> os_operation s = ''delete_file''"
    apply (rule outcomes_bind [OF outcomes_WriteExact [where Q = "\<lambda>w g. staging (nd_fd h) opid f g \<and>
        (\<forall>nd hash. w = Some (nd, hash) \<longrightarrow> hash = sha256 L content \<and> length content \<le> kMaxFileBytes \<and>
           \<not> in_use f (nd_id nd) \<and> file_at g (nd_fd h) (backup_name opid) (nd_id nd) content \<and>
           lookup g (nd_fd h) (stage_name opid) = lookup f (nd_fd h) (stage_name opid))"]])
    subgoal by (simp add: staging_adds_at)
    subgoal using operation_names(3) [of opid]
      by (simp add: staging_adds_at adds_at_with_file file_at_with_file with_file_views)
    subgoal for w g using that by (cases w) (auto simp: staged_def intro!: outcomes_ret)
    done
  have copy: "outcomes b f (case target of None \<Rightarrow> ret (Some [])
              | Some nd \<Rightarrow> read_loop (nd_fd nd) (nat (st_size (nd_info nd))) 0 [])
        (\<lambda>r g. g = f \<and> (\<forall>c. r = Some c \<longrightarrow> c = content))"
    using target by (auto split: option.splits intro!: outcomes_ret outcomes_at [OF loading.reads_at_loop])
  show ?thesis
    unfolding stage_operation_def
    apply (rule outcomes_if)
    subgoal using written by (auto intro!: outcomes_ret split: option.splits FlValue.splits)
    apply (rule outcomes_if)
    subgoal premises p
      apply (rule outcomes_bind [OF copy])
      subgoal for r g using backup [OF p] by (cases r) (auto intro!: outcomes_ret)
      done
    subgoal
      apply (rule outcomes_bind [OF outcomes_mkdirat [where Q = "\<lambda>x g. staging (nd_fd h) opid f g \<and>
          (\<forall>i. x = Inr i \<longrightarrow> dir_at g (nd_fd h) (stage_name opid) i \<and> \<not> in_use f i)"]])
      subgoal by simp
      subgoal by (auto simp: staging_def grows_with_dir dir_at_def with_dir_views)
      subgoal for x g
        by (cases x) (auto simp: staged_def dir_at_def
            intro!: outcomes_ret outcomes_bind_reads [OF reads_OpenDirAt] split: option.splits
            dest!: fs_OpenDirAt_SomeD)
      done
    done
qed

end
