(* ===== verification/Prepare_Handler.thy ===== *)
theory Prepare_Handler
  imports Prepare_Safety
begin

text \<open>
  \<^verbatim>\<open>HandlePrepare\<close> as a whole. Under every schedule of failures it only adds: entries and files that
  were there stay what they were. When it replies a receipt, the record it saved is the one that the
  receipt finds again, and for the replacement of a file, or its deletion or move, the state it
  leaves is one in which \<open>Replace\<close> and \<open>Relocate\<close> prove the later handlers safe.
\<close>

section \<open>The save of a new record\<close>

lemma grows_saved:
  assumes "saved h opid s f r g" "lookup f h (StateName opid) = None"
  shows "grows f g"
proof -
  have k: "kept h (StateName opid) f g" using assms(1) by (simp add: saved_def)
  have "lookup g d m = Some i" if "lookup f d m = Some i" for d m i
    using kept_present [OF k _ that] assms(2) that by (cases "d = h \<and> m = StateName opid") auto
  moreover have "in_use g i \<and> is_dir g i = is_dir f i \<and> file_of g i = file_of f i \<and>
      (is_dir f i \<longrightarrow> fs_stat g i = fs_stat f i)" if "in_use f i" for i
    using keptD [OF k] kept_file [OF k that] that assms(2) by auto
  ultimately show ?thesis using kept_paths [OF k] by (simp add: grows_def)
qed

definition issued :: "lib \<Rightarrow> FlValue \<Rightarrow> request \<Rightarrow> Context \<Rightarrow> Node \<Rightarrow> byte list \<Rightarrow> bool \<Rightarrow> fs \<Rightarrow> reply \<Rightarrow> fs
    \<Rightarrow> bool" where
  "issued L a rq c h content td f r g \<longleftrightarrow>
     (\<exists>token s g1.
        token_ok token \<and> r = Success (Receipt (rq_opid rq) token) \<and> os_token s = token \<and>
        staged L a h (rq_opid rq) content f
          (initial_state rq (case StringArg a ''sessionKey'' of None \<Rightarrow> [] | Some k \<Rightarrow> k) c td token) s g1 \<and>
        lookup g1 (nd_fd h) (StateName (rq_opid rq)) = None \<and> grows f g1 \<and>
        saved (nd_fd h) (rq_opid rq) s g1 True g \<and> stored g (nd_fd h) (rq_opid rq) s \<and> grows g1 g)"

lemma staged_token: "staged L a h opid content f s s' g \<Longrightarrow> os_token s' = os_token s"
  by (auto simp: staged_def split: if_splits)

lemma outcomes_prepare_target:
  assumes target: "case target of None \<Rightarrow> content = [] | Some nd \<Rightarrow> \<exists>t. nd = file_node t content \<and> file_of f t = Some (content, 1)"
    and free: "lookup f (nd_fd h) (StateName (rq_opid rq)) = None"
  shows "outcomes b f (prepare_target L a rq c h target td)
           (\<lambda>r g. grows f g \<and> (is_success r \<longrightarrow> issued L a rq c h content td f r g))"
proof -
  let ?key = "case StringArg a ''sessionKey'' of None \<Rightarrow> [] | Some k \<Rightarrow> k"
  have save: "outcomes b g1 (do {
               ok \<leftarrow> SaveOperationState h (rq_opid rq) s;
               ret (if ok then RespondSuccess (Some (Receipt (rq_opid rq) (os_token s)))
                    else RespondError ''mutation_indeterminate'') })
      (\<lambda>r g. grows f g \<and> (is_success r \<longrightarrow> issued L a rq c h content td f r g))"
    if g1: "staging (nd_fd h) (rq_opid rq) f g1" and token: "token_ok token"
      and s: "staged L a h (rq_opid rq) content f (initial_state rq ?key c td token) s g1" for g1 token s
  proof (rule outcomes_bind [OF outcomes_Save])
    fix r f' assume "saved (nd_fd h) (rq_opid rq) s g1 r f'"
    then show "saved (nd_fd h) (rq_opid rq) s g1 r f'" .
  next
    fix r g assume sv: "saved (nd_fd h) (rq_opid rq) s g1 r g"
    have none: "lookup g1 (nd_fd h) (StateName (rq_opid rq)) = None"
      using g1 free operation_names [of "rq_opid rq"] by (simp add: staging_def)
    have grow: "grows g1 g" by (rule grows_saved [OF sv none])
    have "os_token s = token" using staged_token [OF s] by (simp add: initial_state_def)
    moreover have "stored g (nd_fd h) (rq_opid rq) s" if r using sv that by (simp add: saved_def)
    moreover have "grows f g" using grows_trans [OF staging_grows [OF g1] grow] .
    ultimately show "outcomes b g (ret (if r then RespondSuccess (Some (Receipt (rq_opid rq) (os_token s)))
                    else RespondError ''mutation_indeterminate''))
        (\<lambda>r g. grows f g \<and> (is_success r \<longrightarrow> issued L a rq c h content td f r g))"
      using token s sv grow none staging_grows [OF g1] by (cases r) (auto simp: issued_def intro!: outcomes_ret)
  qed
  show ?thesis
    unfolding prepare_target_def Let_def
    apply (rule outcomes_bind [OF outcomes_RandomToken])
    subgoal for t g
      apply (cases t)
      subgoal by (simp add: outcomes_ret)
      subgoal for token
        apply simp
        apply (rule outcomes_bind [OF outcomes_stage_operation [OF target]])
        subgoal for x g1
          using save [of g1 token] alphabet_token_ok [of token] by (cases x) (auto intro!: outcomes_ret dest: staging_grows)
        done
      done
    done
qed

section \<open>The target that was checked\<close>

definition opened_target :: "fs \<Rightarrow> Node \<Rightarrow> string \<Rightarrow> Node option \<Rightarrow> byte list \<Rightarrow> bool" where
  "opened_target f p name target content \<longleftrightarrow>
     (case target of
        None \<Rightarrow> content = []
      | Some nd \<Rightarrow> \<exists>i. nd = file_node i content \<and> file_at f (nd_fd p) name i content)"

lemma outcomes_open_target:
  "outcomes b f (open_target p name) (\<lambda>x g. g = f \<and> (\<exists>content. opened_target f p name (fst x) content))"
proof -
  have "\<exists>content. opened_target f p name (fs_OpenFileAt f (nd_fd p) name) content"
  proof (cases "fs_OpenFileAt f (nd_fd p) name")
    case (Some nd)
    then obtain i c where "nd = file_node i c \<and> file_at f (nd_fd p) name i c" by (auto simp: fs_OpenFileAt_iff)
    with Some show ?thesis by (auto simp: opened_target_def)
  qed (simp add: opened_target_def)
  moreover have "\<exists>content. opened_target f p name None content" by (simp add: opened_target_def)
  ultimately show ?thesis
    unfolding open_target_def
    by (auto intro!: outcomes_bind_reads [OF reads_OpenFileAt] outcomes_bind_reads [OF reads_OpenDirAt] outcomes_ret
        split: option.splits) blast+
qed

text \<open>A file that is not stale is the one the caller named, with the content it named.\<close>

definition verified :: "lib \<Rightarrow> request \<Rightarrow> fs \<Rightarrow> Node \<Rightarrow> string \<Rightarrow> Node option \<Rightarrow> byte list \<Rightarrow> bool" where
  "verified L rq f p name target content \<longleftrightarrow>
     (\<exists>i. target = Some (file_node i content) \<and> file_at f (nd_fd p) name i content \<and>
          rq_identity rq = Some (Token i) \<and> rq_hash rq = Some (sha256 L content) \<and>
          length (sha256 L content) = 64 \<and> length content \<le> kMaxFileBytes)"

lemma outcomes_stale_target:
  assumes "opened_target f p name target content"
  shows "outcomes b f (stale_target L rq target dir) (\<lambda>r g. g = f \<and>
           (\<not> r \<longrightarrow> rq_expect_missing rq \<or> dir \<noteq> None \<or> verified L rq f p name target content))"
proof -
  have v: "outcomes b f (notM (Verify L nd ident hash)) (\<lambda>r g. g = f \<and> (\<not> r \<longrightarrow> fs_Verify L f nd ident hash))"
    for nd ident hash
    unfolding notM_def by (rule outcomes_bind_reads [OF reads_Verify]) (auto intro!: outcomes_ret)
  show ?thesis
    unfolding stale_target_def
    using assms
    by (auto simp: opened_target_def verified_def file_at_def fs_Verify_file split: option.splits
        intro!: outcomes_ret outcomes_mono [OF v])
qed

section \<open>The handler\<close>

text \<open>What a reply with a receipt says of the file system \<open>g\<close> it leaves.\<close>

definition prepared_well :: "lib \<Rightarrow> FlValue \<Rightarrow> fs \<Rightarrow> reply \<Rightarrow> fs \<Rightarrow> bool" where
  "prepared_well L a f r g \<longleftrightarrow>
     (\<exists>rq c h p name target content td g0.
        prepare_args a = Some rq \<and> adds f g0 \<and> fs_OpenContext L g0 a = Inr c \<and>
        fs_EnsureHidden g0 c = Inr h \<and> fs_OpenParent g0 c = Inr (p, name) \<and>
        (rq_expect_missing rq \<or> rq_operation rq = ''make_directory'' \<or>
         verified L rq g0 p name target content) \<and>
        issued L a rq c h content td g0 r g)"

definition prepare_post :: "lib \<Rightarrow> FlValue \<Rightarrow> fs \<Rightarrow> reply \<Rightarrow> fs \<Rightarrow> bool" where
  "prepare_post L a f r g \<longleftrightarrow> grows f g \<and> (is_success r \<longrightarrow> prepared_well L a f r g)"

lemma prepare_post_error: "grows f g \<Longrightarrow> prepare_post L a f (Error e) g"
  by (simp add: prepare_post_def)

lemma prepare_target_post:
  assumes "prepare_args a = Some rq" "adds f g0" "fs_OpenContext L g0 a = Inr c" "fs_EnsureHidden g0 c = Inr h"
    "fs_OpenParent g0 c = Inr (p, name)" "lookup g0 (nd_fd h) (StateName (rq_opid rq)) = None"
    "opened_target g0 p name target content"
    "rq_expect_missing rq \<or> rq_operation rq = ''make_directory'' \<or> verified L rq g0 p name target content"
  shows "outcomes b g0 (prepare_target L a rq c h target td) (prepare_post L a f)"
proof (rule outcomes_mono [OF outcomes_prepare_target])
  show "case target of None \<Rightarrow> content = [] | Some nd \<Rightarrow> \<exists>t. nd = file_node t content \<and> file_of g0 t = Some (content, 1)"
    using assms(7) by (auto simp: opened_target_def file_at_def split: option.splits)
  show "lookup g0 (nd_fd h) (StateName (rq_opid rq)) = None" by (rule assms(6))
  fix r g assume *: "grows g0 g \<and> (is_success r \<longrightarrow> issued L a rq c h content td g0 r g)"
  then have "grows f g" using adds_grows [OF assms(2)] grows_trans by blast
  moreover have "prepared_well L a f r g" if "is_success r"
    unfolding prepared_well_def using assms * that by blast
  ultimately show "prepare_post L a f r g" by (simp add: prepare_post_def)
qed

lemma prepare_from_parent:
  assumes "prepare_args a = Some rq" "adds f g0" "fs_OpenContext L g0 a = Inr c" "fs_EnsureHidden g0 c = Inr h"
    "fs_OpenParent g0 c = Inr (p, name)" "lookup g0 (nd_fd h) (StateName (rq_opid rq)) = None"
  shows "outcomes b g0 (do {
           td \<leftarrow> open_target p name;
           (case td of
              (target, dir) \<Rightarrow> do {
                stale \<leftarrow> stale_target L rq target dir;
                if stale then ret (RespondError ''stale_target'')
                else if dir \<noteq> None \<and> rq_operation rq \<noteq> ''make_directory''
                then ret (RespondError ''workspace_operation_unsupported'')
                else prepare_target L a rq c h target (dir \<noteq> None) }) }) (prepare_post L a f)"
proof (rule outcomes_bind [OF outcomes_open_target])
  fix td :: "Node option \<times> Node option" and g
  assume "g = g0 \<and> (\<exists>content. opened_target g0 p name (fst td) content)"
  then obtain target dir content where td: "g = g0" "td = (target, dir)" "opened_target g0 p name target content"
    by (cases td) auto
  have err: "outcomes b g0 (ret (Error e)) (prepare_post L a f)" for b e
    by (rule outcomes_ret) (rule prepare_post_error [OF adds_grows [OF assms(2)]])
  show "outcomes b g (case td of
              (target, dir) \<Rightarrow> do {
                stale \<leftarrow> stale_target L rq target dir;
                if stale then ret (RespondError ''stale_target'')
                else if dir \<noteq> None \<and> rq_operation rq \<noteq> ''make_directory''
                then ret (RespondError ''workspace_operation_unsupported'')
                else prepare_target L a rq c h target (dir \<noteq> None) }) (prepare_post L a f)"
    unfolding td(1,2) prod.case RespondError.simps
    apply (rule outcomes_bind [OF outcomes_stale_target [OF td(3)]])
    subgoal for stale g'
      using err by (auto intro!: prepare_target_post [OF assms td(3)] outcomes_if)
    done
qed

lemma outcomes_HandlePrepare: "outcomes b f (HandlePrepare L a) (prepare_post L a f)"
proof (cases "prepare_args a")
  case None
  then show ?thesis by (simp add: HandlePrepare_def outcomes_ret prepare_post_error)
next
  case (Some rq)
  have err: "outcomes b g (ret (Error e)) (prepare_post L a f)" if "adds f g" for b g e
    by (rule outcomes_ret) (rule prepare_post_error [OF adds_grows [OF that]])
  have grow: "adds f g2" if "adds f g1" "adds g1 g2" for g1 g2 using that adds_trans by blast
  show ?thesis
    unfolding HandlePrepare_def Some option.case RespondError.simps
    apply (rule outcomes_bind [OF outcomes_OpenContext])
    subgoal for x g1
      apply (cases x)
      subgoal using err by simp
      subgoal for c
        apply simp
        apply (rule outcomes_bind [OF outcomes_EnsureHidden])
        subgoal for y g2
          apply (cases y)
          subgoal using err [OF grow [of g1 g2]] by simp
          subgoal for h
            apply simp
            apply (rule outcomes_bind_reads [OF reads_andM [OF reads_MissingAt reads_andM [OF reads_MissingAt reads_MissingAt]]])
            subgoal
              apply (rule outcomes_if)
              subgoal using err [OF grow [of g1 g2]] by simp
              subgoal
                apply (rule outcomes_bind_reads [OF reads_OpenParent])
                subgoal
                  apply (cases "fs_OpenParent g2 c")
                  subgoal using err [OF grow [of g1 g2]] by simp
                  subgoal for pn
                    apply (cases pn)
                    apply simp
                    apply (rule prepare_from_parent [OF Some, unfolded RespondError.simps])
                    subgoal using grow [of g1 g2] by simp
                    subgoal by (metis grows_OpenContext adds_grows)
                    subgoal by blast
                    subgoal by blast
                    subgoal by (simp add: fs_MissingAt_iff)
                    done
                  done
                subgoal for bad using err [OF grow [of g1 g2]] by auto
                done
              done
            subgoal using err [OF grow [of g1 g2]] by simp
            done
          done
        done
      done
    done
qed

end
