(* ===== verification/Replace.thy ===== *)
theory Replace
  imports Frames
begin

text \<open>
  Replacing a file (\<^verbatim>\<open>write_file\<close> and \<^verbatim>\<open>apply_patch\<close> on an existing target). The staged file and the
  target are exchanged by one rename, so both contents exist at all times and the target holds one
  of them. \<open>replace_inv\<close> adds what the stored phase promises: \<^verbatim>\<open>committed\<close> is stored only when the
  new content is in place, \<^verbatim>\<open>prepared\<close> and \<^verbatim>\<open>rolledBack\<close> only when the old one is. Each handler keeps
  it under every schedule of failures, hence whatever the order of calls and crashes.
\<close>

section \<open>The invariant\<close>

text \<open>
  The replacement \<open>s\<close> with receipt arguments \<open>a\<close>: in the directory \<open>p\<close> the name \<open>n\<close>, the file \<open>i\<close> of
  content \<open>old\<close> that was there when it was prepared, the staged file \<open>j\<close> of content \<open>new\<close>.
\<close>

record replacement =
  rp_context :: Context
  rp_hidden :: Node
  rp_opid :: string
  rp_state :: OperationState
  rp_parent :: Node
  rp_name :: string
  rp_old_file :: Identity
  rp_old :: "byte list"
  rp_new_file :: Identity
  rp_new :: "byte list"

definition old_in_place :: "replacement \<Rightarrow> fs \<Rightarrow> bool" where
  "old_in_place x f \<longleftrightarrow>
     file_at f (nd_fd (rp_parent x)) (rp_name x) (rp_old_file x) (rp_old x) \<and>
     file_at f (nd_fd (rp_hidden x)) (stage_name (rp_opid x)) (rp_new_file x) (rp_new x)"

definition new_in_place :: "replacement \<Rightarrow> fs \<Rightarrow> bool" where
  "new_in_place x f \<longleftrightarrow>
     file_at f (nd_fd (rp_parent x)) (rp_name x) (rp_new_file x) (rp_new x) \<and>
     file_at f (nd_fd (rp_hidden x)) (stage_name (rp_opid x)) (rp_old_file x) (rp_old x)"

text \<open>What the receipt, the record and the two files have to do with each other.\<close>

definition replaces :: "lib \<Rightarrow> fs \<Rightarrow> FlValue \<Rightarrow> replacement \<Rightarrow> bool" where
  "replaces L f a x \<longleftrightarrow>
     (let s = rp_state x in
      fs_Prepared L f a = Inr (rp_context x, rp_hidden x, rp_opid x, s) \<and>
      fs_OpenParent f (rp_context x) = Inr (rp_parent x, rp_name x) \<and>
      nd_fd (rp_parent x) \<noteq> nd_fd (rp_hidden x) \<and>
      device (nd_fd (rp_parent x)) = device (nd_fd (rp_hidden x)) \<and>
      IsWrite (os_operation s) \<and> \<not> os_expect_missing s \<and>
      rp_old_file x \<noteq> rp_new_file x \<and>
      Token (rp_old_file x) = os_expected_identity s \<and> sha256 L (rp_old x) = os_expected_hash s \<and>
      Token (rp_new_file x) = os_stage_identity s \<and> sha256 L (rp_new x) = os_stage_hash s \<and>
      length (os_expected_hash s) = 64 \<and> length (os_stage_hash s) = 64 \<and>
      length (rp_old x) \<le> kMaxFileBytes \<and> length (rp_new x) \<le> kMaxFileBytes)"

definition phase_is :: "replacement \<Rightarrow> OperationPhase \<Rightarrow> fs \<Rightarrow> bool" where
  "phase_is x = phase_at (rp_hidden x) (rp_opid x) (rp_state x) {rp_old_file x, rp_new_file x}"

definition replace_inv :: "replacement \<Rightarrow> fs \<Rightarrow> fs \<Rightarrow> bool" where
  "replace_inv x f0 f \<longleftrightarrow> dirs_kept f0 f \<and>
     (\<exists>ph. phase_is x ph f \<and>
        (old_in_place x f \<and> ph \<noteq> ph_committed \<or>
         new_in_place x f \<and> ph \<noteq> ph_prepared \<and> ph \<noteq> ph_rolledBack))"

section \<open>The steps\<close>

lemma replace_exchange:
  assumes "replaces L f0 a x"
    and "fs_rename f (nd_fd (rp_hidden x)) (stage_name (rp_opid x)) (nd_fd (rp_parent x)) (rp_name x) Exchange
           = Inr ((), f')"
  shows "old_in_place x f \<Longrightarrow> new_in_place x f' \<and> dirs_kept f f' \<and> (\<forall>ph. phase_is x ph f' = phase_is x ph f)"
    and "new_in_place x f \<Longrightarrow> old_in_place x f' \<and> dirs_kept f f' \<and> (\<forall>ph. phase_is x ph f' = phase_is x ph f)"
proof -
  have n: "nd_fd (rp_parent x) \<noteq> nd_fd (rp_hidden x)" "device (nd_fd (rp_hidden x)) = device (nd_fd (rp_parent x))"
    using assms(1) by (simp_all add: replaces_def Let_def)
  let ?S = "{(nd_fd (rp_hidden x), stage_name (rp_opid x)), (nd_fd (rp_parent x), rp_name x)}"
  have "(nd_fd (rp_hidden x), StateName (rp_opid x)) \<notin> ?S"
    using n operation_names(1) [of "rp_opid x"] by auto
  then have ph: "phase_is x ph f' = phase_is x ph f" if "renamed ?S f f'" for ph
    using phase_at_renamed [OF that] by (simp add: phase_is_def)
  have ex: "file_at f' (nd_fd (rp_parent x)) (rp_name x) i c \<and>
      file_at f' (nd_fd (rp_hidden x)) (stage_name (rp_opid x)) j c' \<and>
      dirs_kept f f' \<and> (\<forall>ph. phase_is x ph f' = phase_is x ph f)"
    if "file_at f (nd_fd (rp_hidden x)) (stage_name (rp_opid x)) i c"
       "file_at f (nd_fd (rp_parent x)) (rp_name x) j c'" for i c j c'
    using exchange_effect [OF assms(2) that n(2)] n(1) ph renamed_dirs by fastforce
  show "old_in_place x f \<Longrightarrow> new_in_place x f' \<and> dirs_kept f f' \<and> (\<forall>ph. phase_is x ph f' = phase_is x ph f)"
    and "new_in_place x f \<Longrightarrow> old_in_place x f' \<and> dirs_kept f f' \<and> (\<forall>ph. phase_is x ph f' = phase_is x ph f)"
    using ex unfolding old_in_place_def new_in_place_def by blast+
qed

lemma replace_saved:
  assumes "replaces L f0 a x" "phase_is x ph f"
    and "saved (nd_fd (rp_hidden x)) (rp_opid x) ((rp_state x)\<lparr>os_phase := ph'\<rparr>) f r f'"
    and "old_in_place x f \<or> new_in_place x f"
  shows "(old_in_place x f \<longrightarrow> old_in_place x f') \<and> (new_in_place x f \<longrightarrow> new_in_place x f') \<and> dirs_kept f f' \<and>
         (phase_is x ph f' \<and> \<not> r \<or> phase_is x ph' f')"
proof -
  have n: "nd_fd (rp_parent x) \<noteq> nd_fd (rp_hidden x)" using assms(1) by (simp add: replaces_def Let_def)
  note keep = phase_at_file_kept [OF assms(2) [unfolded phase_is_def] assms(3)]
  have "old_in_place x f \<longrightarrow> old_in_place x f'" "new_in_place x f \<longrightarrow> new_in_place x f'"
    using keep n operation_names unfolding old_in_place_def new_in_place_def by (metis insertI1 insertI2)+
  moreover have "dirs_kept f f'" using assms(3) kept_dirs_kept by (auto simp: saved_def)
  moreover have "\<forall>i \<in> {rp_old_file x, rp_new_file x}. in_use f i"
    using assms(4) file_of_in_use unfolding old_in_place_def new_in_place_def file_at_def by blast
  then have "phase_is x ph f' \<and> \<not> r \<or> phase_is x ph' f'"
    using phase_at_saved [OF assms(2) [unfolded phase_is_def] assms(3)] by (simp add: phase_is_def)
  ultimately show ?thesis by blast
qed

lemma replace_reads:
  assumes "replaces L f0 a x" "dirs_kept f0 f" "phase_is x ph f"
  shows "fs_Prepared L f a = Inr (rp_context x, rp_hidden x, rp_opid x, (rp_state x)\<lparr>os_phase := ph\<rparr>)"
    and "fs_OpenParent f (rp_context x) = Inr (rp_parent x, rp_name x)"
proof -
  have p: "fs_Prepared L f0 a = Inr (rp_context x, rp_hidden x, rp_opid x, rp_state x)"
      "fs_OpenParent f0 (rp_context x) = Inr (rp_parent x, rp_name x)"
    using assms(1) by (simp_all add: replaces_def Let_def)
  show "fs_Prepared L f a = Inr (rp_context x, rp_hidden x, rp_opid x, (rp_state x)\<lparr>os_phase := ph\<rparr>)"
    by (rule phase_at_Prepared [OF p(1) assms(2) assms(3) [unfolded phase_is_def]])
  show "fs_OpenParent f (rp_context x) = Inr (rp_parent x, rp_name x)"
    using p(2) dirs_kept_OpenParent [OF assms(2)] by simp
qed

lemma replace_verify:
  assumes "replaces L f0 a x"
  shows "old_in_place x f \<Longrightarrow>
      fs_open_verify L f (rp_parent x) (rp_name x) (os_expected_identity (rp_state x)) (os_expected_hash (rp_state x)) \<and>
      \<not> fs_open_verify L f (rp_parent x) (rp_name x) (os_stage_identity (rp_state x)) (os_stage_hash (rp_state x)) \<and>
      \<not> fs_FileProof L f (rp_hidden x) (stage_name (rp_opid x)) (os_expected_identity (rp_state x)) (os_expected_hash (rp_state x))"
    and "new_in_place x f \<Longrightarrow>
      fs_open_verify L f (rp_parent x) (rp_name x) (os_stage_identity (rp_state x)) (os_stage_hash (rp_state x)) \<and>
      \<not> fs_open_verify L f (rp_parent x) (rp_name x) (os_expected_identity (rp_state x)) (os_expected_hash (rp_state x)) \<and>
      fs_FileProof L f (rp_hidden x) (stage_name (rp_opid x)) (os_expected_identity (rp_state x)) (os_expected_hash (rp_state x))"
proof -
  have t: "os_expected_identity (rp_state x) = Token (rp_old_file x)" "sha256 L (rp_old x) = os_expected_hash (rp_state x)"
      "os_stage_identity (rp_state x) = Token (rp_new_file x)" "sha256 L (rp_new x) = os_stage_hash (rp_state x)"
      "length (os_expected_hash (rp_state x)) = 64" "length (os_stage_hash (rp_state x)) = 64"
      "length (rp_old x) \<le> kMaxFileBytes" "length (rp_new x) \<le> kMaxFileBytes" "rp_old_file x \<noteq> rp_new_file x"
    using assms by (simp_all add: replaces_def Let_def)
  show "old_in_place x f \<Longrightarrow>
      fs_open_verify L f (rp_parent x) (rp_name x) (os_expected_identity (rp_state x)) (os_expected_hash (rp_state x)) \<and>
      \<not> fs_open_verify L f (rp_parent x) (rp_name x) (os_stage_identity (rp_state x)) (os_stage_hash (rp_state x)) \<and>
      \<not> fs_FileProof L f (rp_hidden x) (stage_name (rp_opid x)) (os_expected_identity (rp_state x)) (os_expected_hash (rp_state x))"
    using t by (auto simp: old_in_place_def fs_open_verify_def fs_FileProof_def file_at_def)
  show "new_in_place x f \<Longrightarrow>
      fs_open_verify L f (rp_parent x) (rp_name x) (os_stage_identity (rp_state x)) (os_stage_hash (rp_state x)) \<and>
      \<not> fs_open_verify L f (rp_parent x) (rp_name x) (os_expected_identity (rp_state x)) (os_expected_hash (rp_state x)) \<and>
      fs_FileProof L f (rp_hidden x) (stage_name (rp_opid x)) (os_expected_identity (rp_state x)) (os_expected_hash (rp_state x))"
    using t by (auto simp: new_in_place_def fs_open_verify_def fs_FileProof_def file_at_def)
qed

lemma inv_old: "dirs_kept f0 f \<Longrightarrow> phase_is x ph f \<Longrightarrow> old_in_place x f \<Longrightarrow> ph \<noteq> ph_committed \<Longrightarrow> replace_inv x f0 f"
  by (auto simp: replace_inv_def)

lemma inv_new: "dirs_kept f0 f \<Longrightarrow> phase_is x ph f \<Longrightarrow> new_in_place x f \<Longrightarrow> ph \<noteq> ph_prepared \<Longrightarrow> ph \<noteq> ph_rolledBack \<Longrightarrow>
    replace_inv x f0 f"
  by (auto simp: replace_inv_def)

section \<open>Committing\<close>

definition replace_committed :: "replacement \<Rightarrow> fs \<Rightarrow> bool" where
  "replace_committed x f \<longleftrightarrow> new_in_place x f \<and> phase_is x ph_committed f"

text \<open>The swap back after a failed proof.\<close>

lemma replace_swap_back:
  assumes "replaces L f0 a x" "dirs_kept f0 f" "phase_is x ph_targetQuarantining f" "new_in_place x f"
  shows "outcomes b f (do {
             back \<leftarrow> RenameAt2 (nd_fd (rp_hidden x)) (stage_name (rp_opid x)) (nd_fd (rp_parent x)) (rp_name x) Exchange;
             if back then do { _ \<leftarrow> synced (nd_fd (rp_parent x)); _ \<leftarrow> synced (nd_fd (rp_hidden x));
                               ret (Some (Error e)) }
             else ret (Some (Error e)) }) (\<lambda>r f'. r = Some (Error e) \<and> replace_inv x f0 f')"
proof (rule outcomes_bind [where R = "\<lambda>_. replace_inv x f0"])
  show "outcomes b f (RenameAt2 (nd_fd (rp_hidden x)) (stage_name (rp_opid x)) (nd_fd (rp_parent x)) (rp_name x) Exchange)
      (\<lambda>_. replace_inv x f0)"
  proof (rule outcomes_RenameAt2)
    show "replace_inv x f0 f'" if "fs_rename f (nd_fd (rp_hidden x)) (stage_name (rp_opid x))
        (nd_fd (rp_parent x)) (rp_name x) Exchange = Inr ((), f')" for f'
      using replace_exchange(2) [OF assms(1) that assms(4)] assms(3) dirs_kept_trans [OF assms(2)]
      by (intro inv_old [where ph = ph_targetQuarantining]) auto
    show "replace_inv x f0 f"
      by (rule inv_new [OF assms(2-4)]) simp_all
  qed
  show "outcomes b f' (if swapped then do { _ \<leftarrow> synced (nd_fd (rp_parent x)); _ \<leftarrow> synced (nd_fd (rp_hidden x));
        ret (Some (Error e)) } else ret (Some (Error e)))
      (\<lambda>r f'. r = Some (Error e) \<and> replace_inv x f0 f')" if "replace_inv x f0 f'" for swapped f'
    using that by (auto intro!: outcomes_ret outcomes_synced_then)
qed

text \<open>A save of the record in a state of the invariant.\<close>

lemma replace_persist:
  assumes "replaces L f0 a x" "dirs_kept f0 f" "phase_is x ph f" "old_in_place x f \<or> new_in_place x f"
    and "\<And>r f'. dirs_kept f0 f' \<Longrightarrow> (old_in_place x f \<longrightarrow> old_in_place x f') \<Longrightarrow>
           (new_in_place x f \<longrightarrow> new_in_place x f') \<Longrightarrow>
           phase_is x ph f' \<and> \<not> r \<or> phase_is x ph' f' \<Longrightarrow> Q r f'"
  shows "outcomes b f (Persist (rp_hidden x) (rp_opid x) ((rp_state x)\<lparr>os_phase := q\<rparr>) ph') Q"
  unfolding Persist_def
proof (rule outcomes_Save)
  fix r f' assume "saved (nd_fd (rp_hidden x)) (rp_opid x) ((rp_state x)\<lparr>os_phase := q, os_phase := ph'\<rparr>) f r f'"
  then have sv: "saved (nd_fd (rp_hidden x)) (rp_opid x) ((rp_state x)\<lparr>os_phase := ph'\<rparr>) f r f'" by simp
  from replace_saved [OF assms(1,3) sv assms(4)] dirs_kept_trans [OF assms(2)]
  show "Q r f'" by (intro assms(5)) auto
qed

definition replace_done :: "replacement \<Rightarrow> fs \<Rightarrow> reply option \<Rightarrow> fs \<Rightarrow> bool" where
  "replace_done x f0 r f \<longleftrightarrow>
     (case r of
        Some y \<Rightarrow> \<not> is_success y \<and> replace_inv x f0 f
      | None \<Rightarrow> dirs_kept f0 f \<and> new_in_place x f \<and> phase_is x ph_targetQuarantining f)"

lemma replace_commit_body:
  assumes x: "replaces L f0 a x" "dirs_kept f0 f" "phase_is x ph_prepared f" "old_in_place x f"
  shows "outcomes b f (commit_replace L (rp_hidden x) (rp_opid x) ((rp_state x)\<lparr>os_phase := q\<rparr>)
           (rp_parent x) (rp_name x)) (replace_done x f0)"
proof -
  let ?swap = "RenameAt2 (nd_fd (rp_hidden x)) (stage_name (rp_opid x)) (nd_fd (rp_parent x)) (rp_name x) Exchange"
  have stop: "outcomes b g (ret (Some (Error e))) (replace_done x f0)" if "replace_inv x f0 g" for b g e
    using that by (auto simp: replace_done_def intro!: outcomes_ret)
  have inv: "replace_inv x f0 f" using inv_old [OF x(2-4)] by simp
  have swap: "outcomes b g (andM ?swap (andM (synced (nd_fd (rp_parent x))) (synced (nd_fd (rp_hidden x)))))
      (\<lambda>r f'. replace_inv x f0 f' \<and>
        (r \<longrightarrow> dirs_kept f0 f' \<and> new_in_place x f' \<and> phase_is x ph_targetQuarantining f'))"
    if g: "dirs_kept f0 g" "old_in_place x g" "phase_is x ph_targetQuarantining g" for b g
  proof (rule outcomes_andM, rule outcomes_RenameAt2 [where Q = "\<lambda>r f'. if r then dirs_kept f0 f' \<and>
      new_in_place x f' \<and> phase_is x ph_targetQuarantining f' else replace_inv x f0 f'"])
    fix f' assume "fs_rename g (nd_fd (rp_hidden x)) (stage_name (rp_opid x)) (nd_fd (rp_parent x)) (rp_name x)
        Exchange = Inr ((), f')"
    then show "if True then dirs_kept f0 f' \<and> new_in_place x f' \<and> phase_is x ph_targetQuarantining f'
        else replace_inv x f0 f'"
      using replace_exchange(1) [OF x(1) _ g(2)] g dirs_kept_trans [OF g(1)] by simp
  qed (use inv_old [OF g(1,3,2)] inv_new in \<open>auto intro!: outcomes_sync_both\<close>)
  show ?thesis
    unfolding commit_replace_def RespondError.simps
    apply (rule outcomes_bind_reads [OF reads_open_verify])
     apply (rule outcomes_if)
    subgoal by (rule stop [OF inv])
    subgoal
      apply (rule outcomes_bind [where R = "\<lambda>r g. dirs_kept f0 g \<and> old_in_place x g \<and>
            (phase_is x ph_prepared g \<and> \<not> r \<or> phase_is x ph_targetQuarantining g)"])
      subgoal by (rule replace_persist [OF x(1-3)]) (use x(4) in auto)
      subgoal for saved g
        apply (rule outcomes_if)
        subgoal using inv_old [of f0 g x] by (intro stop) auto
        subgoal
          apply (rule outcomes_bind [where R = "\<lambda>r f'. replace_inv x f0 f' \<and>
              (r \<longrightarrow> dirs_kept f0 f' \<and> new_in_place x f' \<and> phase_is x ph_targetQuarantining f')"])
          subgoal by (rule swap) auto
          subgoal for _ f'
            using stop [of f']
            by (auto simp: replace_done_def
                intro!: outcomes_ret outcomes_bind_reads [OF reads_FileProof] outcomes_mono [OF replace_swap_back [OF x(1)]])
          done
        done
      done
    subgoal using stop [OF inv] by simp
    done
qed

section \<open>The handlers keep the invariant\<close>

lemma not_both: "replaces L f0 a x \<Longrightarrow> old_in_place x f \<Longrightarrow> \<not> new_in_place x f"
  by (auto simp: replaces_def Let_def old_in_place_def new_in_place_def file_at_def)

lemma replace_invE:
  assumes "replaces L f0 a x" "replace_inv x f0 f"
  obtains ph where "dirs_kept f0 f" "phase_is x ph f" "old_in_place x f \<or> new_in_place x f"
    "new_in_place x f \<longrightarrow> ph \<noteq> ph_prepared \<and> ph \<noteq> ph_rolledBack"
    "old_in_place x f \<longrightarrow> ph \<noteq> ph_committed"
  using assms(2) not_both [OF assms(1)] unfolding replace_inv_def by blast

lemma replace_record_committed:
  assumes "replaces L f0 a x" "dirs_kept f0 f" "phase_is x ph f" "new_in_place x f"
    and "ph \<noteq> ph_prepared" "ph \<noteq> ph_rolledBack"
  shows "outcomes b f (Persist (rp_hidden x) (rp_opid x) ((rp_state x)\<lparr>os_phase := q\<rparr>) ph_committed)
           (\<lambda>r g. replace_inv x f0 g \<and> (r \<longrightarrow> replace_committed x g))"
  by (rule replace_persist [OF assms(1-3)])
     (use assms in \<open>auto simp: replace_committed_def intro: inv_new\<close>)

lemma replace_commit:
  assumes x: "replaces L f0 a x" and inv: "replace_inv x f0 f"
  shows "outcomes b f (HandleCommit L a)
           (\<lambda>r f'. replace_inv x f0 f' \<and> (is_success r \<longrightarrow> replace_committed x f'))"
proof -
  from replace_invE [OF x inv] obtain ph where ph: "dirs_kept f0 f" "phase_is x ph f"
      "ph = ph_committed \<longrightarrow> new_in_place x f" "ph = ph_prepared \<longrightarrow> old_in_place x f"
    by metis
  have op: "IsWrite (os_operation (rp_state x))" "\<not> os_expect_missing (rp_state x)"
    using x by (simp_all add: replaces_def Let_def)
  have stop: "outcomes b f (ret (Error e)) (\<lambda>r f'. replace_inv x f0 f' \<and> (is_success r \<longrightarrow> replace_committed x f'))" for b e
    using inv by (auto intro!: outcomes_ret)
  note reads = replace_reads [OF x ph(1,2)]
  let ?body = "commit_operation L (rp_context x) (rp_hidden x) (rp_opid x) ((rp_state x)\<lparr>os_phase := ph\<rparr>)
      (rp_parent x) (rp_name x)"
  have body: "outcomes b f ?body (replace_done x f0)" if "ph = ph_prepared"
    unfolding commit_operation_def commit_write_def using op that ph inv
    by (auto simp: replace_done_def intro!: outcomes_ret replace_commit_body [OF x ph(1)]
        outcomes_bind_reads [OF reads_FileIdentity])
  show ?thesis
    unfolding HandleCommit_def
    apply (rule outcomes_Prepared [OF reads(1)])
    subgoal
      unfolding sum.case prod.case with_phase
      apply (rule outcomes_if)
      subgoal using ph by (auto simp: replace_committed_def intro!: outcomes_ret inv)
      apply (rule outcomes_if)
      subgoal by (simp add: stop)
      apply (rule outcomes_OpenParent [OF reads(2)])
      subgoal
        unfolding sum.case prod.case
        apply (rule outcomes_bind [OF body])
        subgoal by simp
        subgoal for stop g
          by (cases stop)
             (auto simp: replace_done_def intro!: outcomes_ret outcomes_bind [OF replace_record_committed [OF x]])
        done
      subgoal by (simp add: stop)
      done
    subgoal by (simp add: stop)
    done
qed

text \<open>What each answer of \<^verbatim>\<open>reconcilePrepared\<close> promises.\<close>

definition replace_answer :: "replacement \<Rightarrow> reply \<Rightarrow> fs \<Rightarrow> bool" where
  "replace_answer x r f \<longleftrightarrow>
     (r = ReplyState ''committed'' \<longrightarrow> replace_committed x f) \<and>
     (r = ReplyState ''notCommitted'' \<longrightarrow> old_in_place x f) \<and>
     (r = ReplyState ''rolledBack'' \<longrightarrow> old_in_place x f \<and> phase_is x ph_rolledBack f)"

lemma replace_answer_simps [simp]:
  "replace_answer x (Error e) f"
  "replace_answer x (ReplyState ''committed'') f = replace_committed x f"
  "replace_answer x (ReplyState ''notCommitted'') f = old_in_place x f"
  "replace_answer x (ReplyState ''rolledBack'') f = (old_in_place x f \<and> phase_is x ph_rolledBack f)"
  "replace_answer x (ReplyState ''indeterminate'') f"
  by (auto simp: replace_answer_def ReplyState_def)

lemma replace_reconcile:
  assumes x: "replaces L f0 a x" and inv: "replace_inv x f0 f"
  shows "outcomes b f (HandleReconcile L a) (\<lambda>r f'. replace_inv x f0 f' \<and> replace_answer x r f')"
proof -
  from replace_invE [OF x inv] obtain ph where ph: "dirs_kept f0 f" "phase_is x ph f"
      "old_in_place x f \<or> new_in_place x f"
      "new_in_place x f \<longrightarrow> ph \<noteq> ph_prepared \<and> ph \<noteq> ph_rolledBack" "ph = ph_rolledBack \<longrightarrow> old_in_place x f"
    by metis
  have op: "IsWrite (os_operation (rp_state x))" "\<not> os_expect_missing (rp_state x)"
    using x by (simp_all add: replaces_def Let_def)
  have stop: "outcomes b f (ret (Error e)) (\<lambda>r f'. replace_inv x f0 f' \<and> replace_answer x r f')" for b e
    using inv by (auto intro!: outcomes_ret)
  note reads = replace_reads [OF x ph(1,2)]
  have new: "fs_open_verify L f (rp_parent x) (rp_name x) (os_stage_identity (rp_state x))
      (os_stage_hash (rp_state x)) \<Longrightarrow> new_in_place x f"
    and old: "fs_open_verify L f (rp_parent x) (rp_name x) (os_expected_identity (rp_state x))
      (os_expected_hash (rp_state x)) \<Longrightarrow> old_in_place x f"
    using ph(3) replace_verify [OF x] by blast+
  show ?thesis
    unfolding HandleReconcile_def
    apply (rule outcomes_Prepared [OF reads(1)])
    subgoal
      unfolding sum.case prod.case with_phase
      apply (rule outcomes_if)
      subgoal using ph inv by (auto intro!: outcomes_ret)
      apply (rule outcomes_OpenParent [OF reads(2)])
      subgoal
        unfolding sum.case prod.case result_in_place_def target_before_def
        using op inv ph(2)
        by (auto simp: replace_committed_def ph(1,3-) new old split: if_splits
            intro!: outcomes_ret outcomes_bind_reads [OF reads_open_verify]
              outcomes_bind [OF replace_record_committed [OF x ph(1,2)]])
      subgoal by (simp add: stop)
      done
    subgoal by (simp add: stop)
    done
qed

definition replace_rolled_back :: "replacement \<Rightarrow> fs \<Rightarrow> bool" where
  "replace_rolled_back x f \<longleftrightarrow> old_in_place x f \<and> phase_is x ph_rolledBack f"

lemma replace_undo:
  assumes x: "replaces L f0 a x" "dirs_kept f0 f" "phase_is x ph f" "old_in_place x f \<or> new_in_place x f"
  shows "outcomes b f (undo_write L (rp_hidden x) (rp_opid x) ((rp_state x)\<lparr>os_phase := q\<rparr>) (rp_parent x) (rp_name x))
           (\<lambda>r g. dirs_kept f0 g \<and> phase_is x ph g \<and> (old_in_place x g \<or> \<not> r \<and> new_in_place x g))"
    (is "outcomes b f _ ?Q")
proof -
  have op: "\<not> os_expect_missing (rp_state x)" using x by (simp add: replaces_def Let_def)
  have stop: "outcomes b f (ret False) ?Q" for b using x by (auto intro!: outcomes_ret)
  have swap: "outcomes b f (RenameAt2 (nd_fd (rp_hidden x)) (stage_name (rp_opid x)) (nd_fd (rp_parent x))
      (rp_name x) Exchange) ?Q" if "new_in_place x f" for b
    by (rule outcomes_RenameAt2)
       (use replace_exchange(2) [OF x(1) _ that] x dirs_kept_trans [OF x(2)] in auto)
  have put_back: "outcomes b f (RenameAt2 (nd_fd (rp_hidden x)) (stage_name (rp_opid x)) (nd_fd (rp_parent x))
      (rp_name x) Noreplace) ?Q" for b
  proof (rule outcomes_RenameAt2)
    fix f' assume "fs_rename f (nd_fd (rp_hidden x)) (stage_name (rp_opid x)) (nd_fd (rp_parent x)) (rp_name x)
        Noreplace = Inr ((), f')"
    moreover obtain j where "lookup f (nd_fd (rp_parent x)) (rp_name x) = Some j"
      using x(4) by (auto simp: old_in_place_def new_in_place_def file_at_def)
    ultimately show "?Q True f'"
      using fs_rename_noreplace_existing [of f "nd_fd (rp_parent x)" "rp_name x" j] by (metis Inl_Inr_False)
  qed (use x in auto)
  have new: "fs_FileProof L f (rp_hidden x) (stage_name (rp_opid x)) (os_expected_identity (rp_state x))
      (os_expected_hash (rp_state x)) \<Longrightarrow> new_in_place x f"
    and old: "fs_open_verify L f (rp_parent x) (rp_name x) (os_expected_identity (rp_state x))
      (os_expected_hash (rp_state x)) \<Longrightarrow> old_in_place x f"
    using x(4) replace_verify [OF x(1)] by blast+
  have cur: "reads_at f (Verify L nd ident hash) (fs_open_verify L f (rp_parent x) (rp_name x) ident hash) {False}"
    if nd: "fs_OpenFileAt f (nd_fd (rp_parent x)) (rp_name x) = Some nd" for nd ident hash
  proof -
    obtain i c where "file_at f (nd_fd (rp_parent x)) (rp_name x) i c" "nd = file_node i c"
      using nd by (auto simp: fs_OpenFileAt_iff)
    then have "fs_open_verify L f (rp_parent x) (rp_name x) ident hash = fs_Verify L f nd ident hash"
      by (auto simp: fs_open_verify_def fs_Verify_file file_at_def)
    then show ?thesis using reads_at_of [OF reads_Verify] by simp
  qed
  have last: "outcomes b f (case cur of None \<Rightarrow> ret False
       | Some nd \<Rightarrow> Verify L nd (os_expected_identity (rp_state x)) (os_expected_hash (rp_state x))) ?Q"
    if "cur = None \<or> cur = fs_OpenFileAt f (nd_fd (rp_parent x)) (rp_name x)" for b cur
    using that stop x(2,3,4) old by (auto split: option.splits intro!: outcomes_at [OF cur])
  have proof_reads: "outcomes b f (if c then FileProof L (rp_hidden x) (stage_name (rp_opid x))
        (os_expected_identity (rp_state x)) (os_expected_hash (rp_state x)) else ret False)
      (\<lambda>r g. g = f \<and> (r \<longrightarrow> new_in_place x f))" for b c
    using new by (auto intro!: outcomes_ret outcomes_reads [OF reads_FileProof])
  show ?thesis
    unfolding undo_write_def with_phase if_not_P [OF op]
    apply (rule outcomes_bind [where R = "\<lambda>cur g. g = f \<and> (cur = None \<or> cur = fs_OpenFileAt f (nd_fd (rp_parent x)) (rp_name x))"])
    subgoal by (auto intro!: outcomes_reads [OF reads_OpenFileAt])
    subgoal for cur
      apply (rule outcomes_bind [where R = "\<lambda>_ g. g = f"])
      subgoal by (auto split: option.splits intro!: outcomes_ret outcomes_reads [OF reads_Verify])
      subgoal
        apply (elim conjE, hypsubst)
        apply (rule outcomes_bind [OF proof_reads], elim conjE, hypsubst)
        apply (rule outcomes_if)
        subgoal by (simp add: swap)
        apply (rule outcomes_bind [OF proof_reads], elim conjE, hypsubst)
        apply (rule outcomes_if)
        subgoal by (rule put_back)
        subgoal by (rule last) simp
        done
      done
    done
qed

definition replace_undone :: "replacement \<Rightarrow> fs \<Rightarrow> OperationPhase \<Rightarrow> reply option \<Rightarrow> fs \<Rightarrow> bool" where
  "replace_undone x f0 ph r f \<longleftrightarrow>
     (if r = None then dirs_kept f0 f \<and> phase_is x ph f \<and> old_in_place x f
      else replace_inv x f0 f \<and> (\<exists>e. r = Some (Error e)))"

lemma replace_rollback:
  assumes x: "replaces L f0 a x" and inv: "replace_inv x f0 f"
  shows "outcomes b f (HandleRollback L a)
           (\<lambda>r f'. replace_inv x f0 f' \<and> (is_success r \<longrightarrow> replace_rolled_back x f'))"
proof -
  from replace_invE [OF x inv] obtain ph where ph: "dirs_kept f0 f" "phase_is x ph f"
      "old_in_place x f \<or> new_in_place x f"
      "new_in_place x f \<longrightarrow> ph \<noteq> ph_prepared \<and> ph \<noteq> ph_rolledBack" "ph = ph_rolledBack \<longrightarrow> old_in_place x f"
      "ph = ph_prepared \<longrightarrow> old_in_place x f"
    by metis
  have op: "IsWrite (os_operation (rp_state x))" using x by (simp add: replaces_def Let_def)
  have stop: "outcomes b f (ret (Error e)) (\<lambda>r f'. replace_inv x f0 f' \<and> (is_success r \<longrightarrow> replace_rolled_back x f'))" for b e
    using inv by (auto intro!: outcomes_ret)
  note reads = replace_reads [OF x ph(1,2)]
  have undo: "outcomes b f (do { ok \<leftarrow> andM (undo_write L (rp_hidden x) (rp_opid x) ((rp_state x)\<lparr>os_phase := ph\<rparr>)
          (rp_parent x) (rp_name x)) (synced (nd_fd (rp_parent x)));
        ret (if ok then None else Some (RespondError ''mutation_indeterminate'')) }) (replace_undone x f0 ph)"
    if "ph \<noteq> ph_committed" "ph \<noteq> ph_prepared" "ph \<noteq> ph_rolledBack"
  proof (rule outcomes_bind [where R = "\<lambda>r g. replace_inv x f0 g \<and>
      (r \<longrightarrow> dirs_kept f0 g \<and> phase_is x ph g \<and> old_in_place x g)"])
    show "outcomes b f (andM (undo_write L (rp_hidden x) (rp_opid x) ((rp_state x)\<lparr>os_phase := ph\<rparr>)
          (rp_parent x) (rp_name x)) (synced (nd_fd (rp_parent x))))
        (\<lambda>r g. replace_inv x f0 g \<and> (r \<longrightarrow> dirs_kept f0 g \<and> phase_is x ph g \<and> old_in_place x g))"
      by (rule outcomes_andM [OF replace_undo [OF x ph(1-3)]])
         (use that inv in \<open>auto intro: inv_old inv_new intro!: outcomes_synced\<close>)
  qed (auto simp: replace_undone_def intro!: outcomes_ret)
  have record_back: "outcomes b g (Persist (rp_hidden x) (rp_opid x) ((rp_state x)\<lparr>os_phase := ph\<rparr>) ph_rolledBack)
      (\<lambda>r g'. replace_inv x f0 g' \<and> (r \<longrightarrow> replace_rolled_back x g'))"
    if "dirs_kept f0 g" "phase_is x ph g" "old_in_place x g" "ph \<noteq> ph_committed" for g
    by (rule replace_persist [OF x that(1,2)])
       (use that in \<open>auto simp: replace_rolled_back_def intro: inv_old\<close>)
  show ?thesis
    unfolding HandleRollback_def
    apply (rule outcomes_Prepared [OF reads(1)])
    subgoal
      unfolding sum.case prod.case with_phase
      apply (rule outcomes_if)
      subgoal by (rule outcomes_ret) (use ph(2,5) inv in \<open>simp add: replace_rolled_back_def\<close>)
      apply (rule outcomes_if)
      subgoal by (simp add: stop)
      apply (rule outcomes_OpenParent [OF reads(2)])
      subgoal
        unfolding sum.case prod.case undo_operation_def Let_def with_phase if_P [OF op]
        apply (rule outcomes_bind [where R = "replace_undone x f0 ph"])
        subgoal
          apply (rule outcomes_if)
          subgoal by (rule undo)
          subgoal using ph by (intro outcomes_ret) (simp add: replace_undone_def)
          done
        subgoal for stop g
          by (cases stop) (auto simp: replace_undone_def intro!: outcomes_ret outcomes_bind [OF record_back])
        done
      subgoal by (simp add: stop)
      done
    subgoal by (simp add: stop)
    done
qed

end
