(* ===== verification/Relocate.thy ===== *)
theory Relocate
  imports Frames
begin

text \<open>
  Deleting and moving a file. Both rename the target away, the deletion to the stage name in the
  hidden directory, the move to its destination, and neither writes a byte of it: the file is at
  all times under its old name or under the new one (\<open>here\<close>, \<open>there\<close>). The stored phase is
  \<^verbatim>\<open>committed\<close> only when it is there. That it is here again once \<^verbatim>\<open>rolledBack\<close> is stored holds only
  while no call fails.
\<close>

record relocation =
  rl_context :: Context
  rl_hidden :: Node
  rl_opid :: string
  rl_state :: OperationState
  rl_from :: Node
  rl_name :: string
  rl_to :: Node
  rl_to_name :: string
  rl_file :: Identity
  rl_content :: "byte list"

definition here :: "relocation \<Rightarrow> fs \<Rightarrow> bool" where
  "here x f \<longleftrightarrow> file_at f (nd_fd (rl_from x)) (rl_name x) (rl_file x) (rl_content x)"

definition there :: "relocation \<Rightarrow> fs \<Rightarrow> bool" where
  "there x f \<longleftrightarrow> lookup f (nd_fd (rl_from x)) (rl_name x) = None \<and>
     file_at f (nd_fd (rl_to x)) (rl_to_name x) (rl_file x) (rl_content x)"

definition relocates :: "lib \<Rightarrow> fs \<Rightarrow> FlValue \<Rightarrow> relocation \<Rightarrow> bool" where
  "relocates L f a x \<longleftrightarrow>
     (let s = rl_state x in
      fs_Prepared L f a = Inr (rl_context x, rl_hidden x, rl_opid x, s) \<and>
      fs_OpenParent f (rl_context x) = Inr (rl_from x, rl_name x) \<and>
      nd_fd (rl_from x) \<noteq> nd_fd (rl_hidden x) \<and>
      device (nd_fd (rl_from x)) = device (nd_fd (rl_to x)) \<and>
      (os_operation s = ''delete_file'' \<and> rl_to x = rl_hidden x \<and> rl_to_name x = stage_name (rl_opid x) \<or>
       os_operation s = ''move_file'' \<and> nd_fd (rl_to x) \<noteq> nd_fd (rl_hidden x) \<and>
         fs_OpenDestination L f (rl_context x) s = Inr (rl_to x, rl_to_name x)) \<and>
      \<not> os_expect_missing s \<and>
      Token (rl_file x) = os_expected_identity s \<and> sha256 L (rl_content x) = os_expected_hash s \<and>
      length (os_expected_hash s) = 64 \<and> length (rl_content x) \<le> kMaxFileBytes)"

definition away_phase :: "relocation \<Rightarrow> OperationPhase \<Rightarrow> fs \<Rightarrow> bool" where
  "away_phase x = phase_at (rl_hidden x) (rl_opid x) (rl_state x) {rl_file x}"

text \<open>\<open>b\<close>: calls may have failed.\<close>

definition relocate_inv :: "bool \<Rightarrow> relocation \<Rightarrow> fs \<Rightarrow> fs \<Rightarrow> bool" where
  "relocate_inv b x f0 f \<longleftrightarrow> dirs_kept f0 f \<and>
     (\<exists>ph. away_phase x ph f \<and>
        (here x f \<and> ph \<noteq> ph_committed \<or>
         there x f \<and> ph \<noteq> ph_prepared \<and> (ph = ph_rolledBack \<longrightarrow> b)))"

lemma not_here_and_there: "here x f \<Longrightarrow> \<not> there x f"
  by (auto simp: here_def there_def file_at_def)

lemma relocate_invE:
  assumes "relocate_inv b x f0 f"
  obtains ph where "dirs_kept f0 f" "away_phase x ph f" "here x f \<or> there x f"
    "there x f \<longrightarrow> ph \<noteq> ph_prepared \<and> (ph = ph_rolledBack \<longrightarrow> b)" "here x f \<longrightarrow> ph \<noteq> ph_committed"
  using assms not_here_and_there unfolding relocate_inv_def by blast

lemma inv_here: "dirs_kept f0 f \<Longrightarrow> away_phase x ph f \<Longrightarrow> here x f \<Longrightarrow> ph \<noteq> ph_committed \<Longrightarrow> relocate_inv b x f0 f"
  by (auto simp: relocate_inv_def)

lemma inv_there: "dirs_kept f0 f \<Longrightarrow> away_phase x ph f \<Longrightarrow> there x f \<Longrightarrow> ph \<noteq> ph_prepared \<Longrightarrow>
    (ph = ph_rolledBack \<longrightarrow> b) \<Longrightarrow> relocate_inv b x f0 f"
  by (auto simp: relocate_inv_def)

section \<open>The steps\<close>

lemma relocates_names:
  assumes "relocates L f0 a x"
  shows "nd_fd (rl_from x) \<noteq> nd_fd (rl_hidden x)" "device (nd_fd (rl_from x)) = device (nd_fd (rl_to x))"
    and "nd_fd (rl_to x) \<noteq> nd_fd (rl_hidden x) \<or> rl_to_name x \<noteq> StateName (rl_opid x) \<and>
         \<not> prefix (StateName (rl_opid x) @ ''.tmp.'') (rl_to_name x)"
    and "(nd_fd (rl_hidden x), StateName (rl_opid x)) \<notin> {(nd_fd (rl_from x), rl_name x), (nd_fd (rl_to x), rl_to_name x)}"
    and "(nd_fd (rl_hidden x), StateName (rl_opid x)) \<notin> {(nd_fd (rl_to x), rl_to_name x), (nd_fd (rl_from x), rl_name x)}"
proof -
  show n: "nd_fd (rl_from x) \<noteq> nd_fd (rl_hidden x)" "device (nd_fd (rl_from x)) = device (nd_fd (rl_to x))"
    using assms by (simp_all add: relocates_def Let_def)
  consider "rl_to x = rl_hidden x" "rl_to_name x = stage_name (rl_opid x)" | "nd_fd (rl_to x) \<noteq> nd_fd (rl_hidden x)"
    using assms unfolding relocates_def Let_def by blast
  then show to: "nd_fd (rl_to x) \<noteq> nd_fd (rl_hidden x) \<or> rl_to_name x \<noteq> StateName (rl_opid x) \<and>
         \<not> prefix (StateName (rl_opid x) @ ''.tmp.'') (rl_to_name x)"
    by cases (simp_all only: operation_names not_False_eq_True simp_thms)
  show "(nd_fd (rl_hidden x), StateName (rl_opid x)) \<notin> {(nd_fd (rl_from x), rl_name x), (nd_fd (rl_to x), rl_to_name x)}"
    and "(nd_fd (rl_hidden x), StateName (rl_opid x)) \<notin> {(nd_fd (rl_to x), rl_to_name x), (nd_fd (rl_from x), rl_name x)}"
    using n(1) to by auto
qed

lemma relocate_go:
  assumes x: "relocates L f0 a x" and here: "here x f" "away_phase x ph f"
    and "fs_rename f (nd_fd (rl_from x)) (rl_name x) (nd_fd (rl_to x)) (rl_to_name x) Noreplace = Inr ((), f')"
  shows "there x f' \<and> dirs_kept f f' \<and> away_phase x ph f'"
  using move_effect [OF assms(4) here(1) [unfolded here_def] relocates_names(2) [OF x]]
    phase_at_renamed [OF _ relocates_names(4) [OF x]] here(2)
  by (auto simp: there_def away_phase_def dest: renamed_dirs)

lemma relocate_come_back:
  assumes x: "relocates L f0 a x" and there: "there x f" "away_phase x ph f"
    and "fs_rename f (nd_fd (rl_to x)) (rl_to_name x) (nd_fd (rl_from x)) (rl_name x) Noreplace = Inr ((), f')"
  shows "here x f' \<and> dirs_kept f f' \<and> away_phase x ph f'"
proof -
  have "file_at f (nd_fd (rl_to x)) (rl_to_name x) (rl_file x) (rl_content x)"
    using there(1) by (simp add: there_def)
  from move_effect [OF assms(4) this relocates_names(2) [OF x, symmetric]]
    phase_at_renamed [OF _ relocates_names(5) [OF x]] there(2)
  show ?thesis by (auto simp: here_def away_phase_def dest: renamed_dirs)
qed

lemma relocate_persist:
  assumes x: "relocates L f0 a x" and "dirs_kept f0 f" "away_phase x ph f" "here x f \<or> there x f"
    and "\<And>r f'. dirs_kept f0 f' \<Longrightarrow> (here x f \<longrightarrow> here x f') \<Longrightarrow> (there x f \<longrightarrow> there x f') \<Longrightarrow>
           away_phase x ph f' \<and> \<not> r \<or> away_phase x ph' f' \<Longrightarrow> Q r f'"
  shows "outcomes b f (Persist (rl_hidden x) (rl_opid x) ((rl_state x)\<lparr>os_phase := q\<rparr>) ph') Q"
  unfolding Persist_def with_phase
proof (rule outcomes_Save)
  fix r f' assume sv: "saved (nd_fd (rl_hidden x)) (rl_opid x) ((rl_state x)\<lparr>os_phase := ph'\<rparr>) f r f'"
  note n = relocates_names [OF x]
  note keep = phase_at_file_kept [OF assms(3) [unfolded away_phase_def] sv _ insertI1]
  show "Q r f'"
  proof (rule assms(5))
    show "dirs_kept f0 f'"
      using sv kept_dirs_kept dirs_kept_trans [OF assms(2)] by (auto simp: saved_def)
    show "here x f \<longrightarrow> here x f'" using keep n(1) by (simp add: here_def)
    show "there x f \<longrightarrow> there x f'"
      using keep n(1,3) saved_lookup [OF sv, of "nd_fd (rl_from x)"] by (simp add: there_def)
    have "in_use f (rl_file x)"
      using assms(4) file_of_in_use unfolding here_def there_def file_at_def by blast
    then show "away_phase x ph f' \<and> \<not> r \<or> away_phase x ph' f'"
      using phase_at_saved [OF assms(3) [unfolded away_phase_def] sv] by (simp add: away_phase_def)
  qed
qed

lemma relocate_reads:
  assumes "relocates L f0 a x" "dirs_kept f0 f" "away_phase x ph f"
  shows "fs_Prepared L f a = Inr (rl_context x, rl_hidden x, rl_opid x, (rl_state x)\<lparr>os_phase := ph\<rparr>)"
    and "fs_OpenParent f (rl_context x) = Inr (rl_from x, rl_name x)"
    and "os_operation (rl_state x) = ''move_file'' \<Longrightarrow>
         fs_OpenDestination L f (rl_context x) (rl_state x) = Inr (rl_to x, rl_to_name x)"
proof -
  have p: "fs_Prepared L f0 a = Inr (rl_context x, rl_hidden x, rl_opid x, rl_state x)"
      "fs_OpenParent f0 (rl_context x) = Inr (rl_from x, rl_name x)"
    using assms(1) by (simp_all add: relocates_def Let_def)
  show "fs_Prepared L f a = Inr (rl_context x, rl_hidden x, rl_opid x, (rl_state x)\<lparr>os_phase := ph\<rparr>)"
    by (rule phase_at_Prepared [OF p(1) assms(2) assms(3) [unfolded away_phase_def]])
  show "fs_OpenParent f (rl_context x) = Inr (rl_from x, rl_name x)"
    using p(2) dirs_kept_OpenParent [OF assms(2)] by simp
  show "os_operation (rl_state x) = ''move_file'' \<Longrightarrow>
         fs_OpenDestination L f (rl_context x) (rl_state x) = Inr (rl_to x, rl_to_name x)"
    using assms(1) dirs_kept_OpenDestination [OF assms(2)] by (auto simp: relocates_def Let_def)
qed

text \<open>What can be proved of the file where it is.\<close>

lemma relocate_proofs:
  assumes "relocates L f0 a x"
  shows "here x f \<Longrightarrow> fs_open_verify L f (rl_from x) (rl_name x) (os_expected_identity (rl_state x)) (os_expected_hash (rl_state x))
           \<and> \<not> fs_MissingAt f (nd_fd (rl_from x)) (rl_name x)"
    and "there x f \<Longrightarrow> fs_FileProof L f (rl_to x) (rl_to_name x) (os_expected_identity (rl_state x)) (os_expected_hash (rl_state x))
           \<and> \<not> fs_open_verify L f (rl_from x) (rl_name x) (os_expected_identity (rl_state x)) (os_expected_hash (rl_state x))"
proof -
  have t: "os_expected_identity (rl_state x) = Token (rl_file x)" "sha256 L (rl_content x) = os_expected_hash (rl_state x)"
      "length (os_expected_hash (rl_state x)) = 64" "length (rl_content x) \<le> kMaxFileBytes"
    using assms by (simp_all add: relocates_def Let_def)
  show "here x f \<Longrightarrow> fs_open_verify L f (rl_from x) (rl_name x) (os_expected_identity (rl_state x)) (os_expected_hash (rl_state x))
           \<and> \<not> fs_MissingAt f (nd_fd (rl_from x)) (rl_name x)"
    using t by (auto simp: here_def fs_open_verify_def fs_MissingAt_iff file_at_def)
  show "there x f \<Longrightarrow> fs_FileProof L f (rl_to x) (rl_to_name x) (os_expected_identity (rl_state x)) (os_expected_hash (rl_state x))
           \<and> \<not> fs_open_verify L f (rl_from x) (rl_name x) (os_expected_identity (rl_state x)) (os_expected_hash (rl_state x))"
    using t by (auto simp: there_def fs_open_verify_def fs_FileProof_def file_at_def)
qed

section \<open>Committing\<close>

definition relocate_committed :: "relocation \<Rightarrow> fs \<Rightarrow> bool" where
  "relocate_committed x f \<longleftrightarrow> there x f \<and> away_phase x ph_committed f"

definition relocate_done :: "bool \<Rightarrow> relocation \<Rightarrow> fs \<Rightarrow> OperationPhase \<Rightarrow> reply option \<Rightarrow> fs \<Rightarrow> bool" where
  "relocate_done b x f0 mid r f \<longleftrightarrow>
     (case r of
        Some y \<Rightarrow> \<not> is_success y \<and> relocate_inv b x f0 f
      | None \<Rightarrow> dirs_kept f0 f \<and> there x f \<and> away_phase x mid f)"

lemma relocate_back:
  assumes x: "relocates L f0 a x" and f: "dirs_kept f0 f" "away_phase x mid f" "there x f"
    and mid: "mid \<noteq> ph_prepared" "mid \<noteq> ph_committed" "mid \<noteq> ph_rolledBack"
  shows "outcomes b f (do {
             back \<leftarrow> RenameAt2 (nd_fd (rl_to x)) (rl_to_name x) (nd_fd (rl_from x)) (rl_name x) Noreplace;
             if back then do { _ \<leftarrow> synced (nd_fd (rl_from x)); _ \<leftarrow> synced (nd_fd (rl_to x));
                               ret (Some (Error e)) }
             else ret (Some (Error e)) }) (relocate_done b x f0 mid)"
proof (rule outcomes_bind [where R = "\<lambda>_. relocate_inv b x f0"])
  show "outcomes b f (RenameAt2 (nd_fd (rl_to x)) (rl_to_name x) (nd_fd (rl_from x)) (rl_name x) Noreplace)
      (\<lambda>_. relocate_inv b x f0)"
  proof (rule outcomes_RenameAt2)
    show "relocate_inv b x f0 f'" if "fs_rename f (nd_fd (rl_to x)) (rl_to_name x) (nd_fd (rl_from x)) (rl_name x)
        Noreplace = Inr ((), f')" for f'
      using relocate_come_back [OF x f(3,2) that] dirs_kept_trans [OF f(1)] mid
      by (intro inv_here [where ph = mid]) auto
    show "relocate_inv b x f0 f" by (rule inv_there [OF f]) (use mid in simp_all)
  qed
  show "outcomes b f' (if moved then do { _ \<leftarrow> synced (nd_fd (rl_from x)); _ \<leftarrow> synced (nd_fd (rl_to x));
        ret (Some (Error e)) } else ret (Some (Error e))) (relocate_done b x f0 mid)"
    if "relocate_inv b x f0 f'" for moved f'
    using that by (auto simp: relocate_done_def intro!: outcomes_ret outcomes_synced_then)
qed

lemma relocate_away:
  assumes x: "relocates L f0 a x" and f: "dirs_kept f0 f" "away_phase x ph_prepared f" "here x f"
    and mid: "mid \<noteq> ph_prepared" "mid \<noteq> ph_committed" "mid \<noteq> ph_rolledBack"
  shows "outcomes b f (commit_away L (rl_hidden x) (rl_opid x) ((rl_state x)\<lparr>os_phase := q\<rparr>) (rl_from x) (rl_name x)
           mid (rl_to x) (rl_to_name x)) (relocate_done b x f0 mid)"
proof -
  let ?Q = "\<lambda>r g. relocate_inv b x f0 g \<and> (r \<longrightarrow> dirs_kept f0 g \<and> there x g \<and> away_phase x mid g)"
  have inv: "relocate_inv b x f0 f" by (rule inv_here [OF f]) simp
  have rename: "outcomes b g (andM (RenameAt2 (nd_fd (rl_from x)) (rl_name x) (nd_fd (rl_to x)) (rl_to_name x) Noreplace)
       (andM (synced (nd_fd (rl_from x))) (synced (nd_fd (rl_to x))))) ?Q"
    if g: "dirs_kept f0 g" "here x g" "away_phase x mid g" for g
  proof (rule outcomes_andM, rule outcomes_RenameAt2 [where Q = "\<lambda>r g. if r then dirs_kept f0 g \<and> there x g \<and>
      away_phase x mid g else relocate_inv b x f0 g"])
    fix f' assume "fs_rename g (nd_fd (rl_from x)) (rl_name x) (nd_fd (rl_to x)) (rl_to_name x) Noreplace = Inr ((), f')"
    then show "if True then dirs_kept f0 f' \<and> there x f' \<and> away_phase x mid f' else relocate_inv b x f0 f'"
      using relocate_go [OF x g(2,3)] dirs_kept_trans [OF g(1)] by simp
  qed (use inv_here [OF g(1,3,2)] inv_there mid in \<open>auto intro!: outcomes_sync_both\<close>)
  have persist: "outcomes b f (Persist (rl_hidden x) (rl_opid x) ((rl_state x)\<lparr>os_phase := q\<rparr>) mid)
      (\<lambda>r g. dirs_kept f0 g \<and> here x g \<and> relocate_inv b x f0 g \<and> (r \<longrightarrow> away_phase x mid g))"
    by (rule relocate_persist [OF x f(1,2)]) (use f(3) mid in \<open>auto intro: inv_here\<close>)
  show ?thesis
    unfolding commit_away_def with_phase RespondError.simps
    apply (rule outcomes_bind [where R = ?Q])
    subgoal
      apply (rule outcomes_andM_reads [OF reads_open_verify])
      subgoal
        apply (rule outcomes_andM [OF persist])
        subgoal by (rule rename) auto
        subgoal by simp
        done
      subgoal using inv by simp
      done
    subgoal for moved g
      apply (rule outcomes_if)
      subgoal by (auto simp: relocate_done_def intro!: outcomes_ret)
      subgoal
        apply (rule outcomes_bind_reads [OF reads_FileProof])
        subgoal by (rule outcomes_if) (auto simp: relocate_done_def intro!: outcomes_ret relocate_back [OF x] mid)
        subgoal by (simp add: relocate_back [OF x] mid)
        done
      done
    done
qed

text \<open>The phase stored before the rename.\<close>

definition away_mid :: "relocation \<Rightarrow> OperationPhase" where
  "away_mid x = (if os_operation (rl_state x) = ''delete_file'' then ph_targetQuarantining else ph_stageInstalling)"

lemma away_mid_neq [simp]:
  "away_mid x \<noteq> ph_prepared" "away_mid x \<noteq> ph_committed" "away_mid x \<noteq> ph_rolledBack"
  by (simp_all add: away_mid_def)

lemma relocate_record_committed:
  assumes x: "relocates L f0 a x" and f: "dirs_kept f0 f" "away_phase x ph f" "there x f"
    and ph: "ph \<noteq> ph_prepared" "ph = ph_rolledBack \<longrightarrow> b"
  shows "outcomes b f (Persist (rl_hidden x) (rl_opid x) ((rl_state x)\<lparr>os_phase := q\<rparr>) ph_committed)
           (\<lambda>r g. relocate_inv b x f0 g \<and> (r \<longrightarrow> relocate_committed x g))"
  by (rule relocate_persist [OF x f(1,2)])
     (use f ph in \<open>auto simp: relocate_committed_def intro: inv_there\<close>)

lemma relocate_commit:
  assumes x: "relocates L f0 a x" and inv: "relocate_inv b x f0 f"
  shows "outcomes b f (HandleCommit L a)
           (\<lambda>r f'. relocate_inv b x f0 f' \<and> (is_success r \<longrightarrow> relocate_committed x f'))" (is "outcomes b f _ ?Q")
proof -
  from relocate_invE [OF inv] obtain ph where ph: "dirs_kept f0 f" "away_phase x ph f"
      "ph = ph_committed \<longrightarrow> there x f" "ph = ph_prepared \<longrightarrow> here x f"
    by metis
  have op: "os_operation (rl_state x) = ''delete_file'' \<and> rl_to x = rl_hidden x \<and> rl_to_name x = stage_name (rl_opid x)
      \<or> os_operation (rl_state x) = ''move_file''"
    using x by (auto simp: relocates_def Let_def)
  have stop: "outcomes c f (ret (Error e)) ?Q" for c e
    using inv by (auto intro!: outcomes_ret)
  note reads = relocate_reads [OF x ph(1,2)]
  have body: "outcomes b f (commit_operation L (rl_context x) (rl_hidden x) (rl_opid x) ((rl_state x)\<lparr>os_phase := ph\<rparr>)
      (rl_from x) (rl_name x)) (relocate_done b x f0 (away_mid x))" if "ph = ph_prepared"
  proof -
    have here: "away_phase x ph_prepared f" "here x f" using that ph by auto
    note away = relocate_away [OF x ph(1) here]
    show ?thesis
      using op
    proof
      assume d: "os_operation (rl_state x) = ''delete_file'' \<and> rl_to x = rl_hidden x \<and> rl_to_name x = stage_name (rl_opid x)"
      then have e: "commit_operation L (rl_context x) (rl_hidden x) (rl_opid x) ((rl_state x)\<lparr>os_phase := ph\<rparr>)
            (rl_from x) (rl_name x)
          = commit_away L (rl_hidden x) (rl_opid x) ((rl_state x)\<lparr>os_phase := ph\<rparr>) (rl_from x) (rl_name x)
              ph_targetQuarantining (rl_to x) (rl_to_name x)"
        by (simp add: commit_operation_def commit_delete_def IsWrite_def)
      show ?thesis unfolding e using away [of ph_targetQuarantining] d by (simp add: away_mid_def)
    next
      assume m: "os_operation (rl_state x) = ''move_file''"
      show ?thesis
        unfolding commit_operation_def with_phase m commit_move_def
        using inv reads(3) [OF m] m
        by (auto simp: IsWrite_def relocate_done_def [of _ _ _ _ "Some _"] away_mid_def
            intro!: outcomes_bind_reads [OF reads_OpenDestination] outcomes_ret away)
    qed
  qed
  show ?thesis
    unfolding HandleCommit_def
    apply (rule outcomes_Prepared [OF reads(1)])
    subgoal
      unfolding sum.case prod.case with_phase
      apply (rule outcomes_if)
      subgoal by (rule outcomes_ret) (use ph inv in \<open>auto simp: relocate_committed_def\<close>)
      apply (rule outcomes_if)
      subgoal unfolding RespondError.simps by (rule stop)
      apply (rule outcomes_OpenParent [OF reads(2)])
      subgoal
        unfolding sum.case prod.case
        apply (rule outcomes_bind [OF body])
        subgoal by simp
        subgoal for stop g
          by (cases stop)
             (auto simp: relocate_done_def
               intro!: outcomes_ret outcomes_bind [OF relocate_record_committed [OF x]])
        done
      subgoal unfolding sum.case RespondError.simps by (rule stop)
      done
    subgoal unfolding sum.case RespondError.simps by (rule stop)
    done
qed

section \<open>Finding out and undoing\<close>

definition relocate_answer :: "bool \<Rightarrow> relocation \<Rightarrow> reply \<Rightarrow> fs \<Rightarrow> bool" where
  "relocate_answer b x r f \<longleftrightarrow>
     (r = ReplyState ''committed'' \<longrightarrow> relocate_committed x f) \<and>
     (r = ReplyState ''notCommitted'' \<longrightarrow> here x f) \<and>
     (r = ReplyState ''rolledBack'' \<longrightarrow> away_phase x ph_rolledBack f \<and> (here x f \<or> b))"

lemma relocate_answer_simps [simp]:
  "relocate_answer b x (Error e) f"
  "relocate_answer b x (ReplyState ''committed'') f = relocate_committed x f"
  "relocate_answer b x (ReplyState ''notCommitted'') f = here x f"
  "relocate_answer b x (ReplyState ''rolledBack'') f = (away_phase x ph_rolledBack f \<and> (here x f \<or> b))"
  "relocate_answer b x (ReplyState ''indeterminate'') f"
  by (auto simp: relocate_answer_def ReplyState_def)

lemma reads_gone:
  "reads (andM (MissingAt d name) (FileProof L q from ident hash))
     (\<lambda>f. fs_MissingAt f d name \<and> fs_FileProof L f q from ident hash) {False}"
  by (rule reads_andM [OF reads_MissingAt reads_FileProof])

lemma relocate_gone:
  assumes x: "relocates L f0 a x" and "here x f \<or> there x f"
  shows "fs_MissingAt f (nd_fd (rl_from x)) (rl_name x) \<Longrightarrow> there x f"
    and "fs_open_verify L f (rl_from x) (rl_name x) (os_expected_identity (rl_state x)) (os_expected_hash (rl_state x))
          \<Longrightarrow> here x f"
    and "there x f \<Longrightarrow> is_dir f (nd_fd (rl_from x)) \<Longrightarrow> fs_MissingAt f (nd_fd (rl_from x)) (rl_name x)"
proof -
  show "fs_MissingAt f (nd_fd (rl_from x)) (rl_name x) \<Longrightarrow> there x f"
    using assms(2) relocate_proofs(1) [OF x, of f] by blast
  show "fs_open_verify L f (rl_from x) (rl_name x) (os_expected_identity (rl_state x)) (os_expected_hash (rl_state x))
          \<Longrightarrow> here x f"
    using assms(2) relocate_proofs(2) [OF x, of f] by blast
  show "there x f \<Longrightarrow> is_dir f (nd_fd (rl_from x)) \<Longrightarrow> fs_MissingAt f (nd_fd (rl_from x)) (rl_name x)"
    by (simp add: there_def fs_MissingAt_iff)
qed

lemma relocate_result:
  assumes x: "relocates L f0 a x" and f: "dirs_kept f0 f" "away_phase x ph f" "here x f \<or> there x f"
  shows "outcomes b f (result_in_place L (rl_context x) (rl_hidden x) (rl_opid x) ((rl_state x)\<lparr>os_phase := q\<rparr>)
           (rl_from x) (rl_name x)) (\<lambda>r g. g = f \<and> (r \<longrightarrow> there x f))"
proof -
  have op: "os_operation (rl_state x) = ''delete_file'' \<or> os_operation (rl_state x) = ''move_file''"
    using x by (auto simp: relocates_def Let_def)
  note gone = relocate_gone [OF x f(3)]
  show ?thesis
    using op
  proof
    assume d: "os_operation (rl_state x) = ''delete_file''"
    show ?thesis
      unfolding result_in_place_def with_phase d
      by (auto simp: IsWrite_def intro!: outcomes_reads [OF reads_gone] gone)
  next
    assume m: "os_operation (rl_state x) = ''move_file''"
    show ?thesis
      unfolding result_in_place_def with_phase m
      apply (simp add: IsWrite_def)
      apply (rule outcomes_andM_reads [OF reads_MissingAt])
      subgoal
        apply (rule outcomes_bind_reads [OF reads_OpenDestination])
        subgoal
          unfolding relocate_reads(3) [OF x f(1,2) m, unfolded m] fs_OpenDestination_phase sum.case prod.case
          by (rule outcomes_reads [OF reads_FileProof]) (auto dest: gone(1))
        subgoal by (auto intro!: outcomes_ret)
        done
      subgoal by simp
      done
  qed
qed

lemma relocate_reconcile:
  assumes x: "relocates L f0 a x" and inv: "relocate_inv b x f0 f"
  shows "outcomes b f (HandleReconcile L a) (\<lambda>r f'. relocate_inv b x f0 f' \<and> relocate_answer b x r f')"
    (is "outcomes b f _ ?Q")
proof -
  from relocate_invE [OF inv] obtain ph where ph: "dirs_kept f0 f" "away_phase x ph f" "here x f \<or> there x f"
      "there x f \<longrightarrow> ph \<noteq> ph_prepared \<and> (ph = ph_rolledBack \<longrightarrow> b)" "here x f \<longrightarrow> ph \<noteq> ph_committed"
    by metis
  have missing: "\<not> os_expect_missing (rl_state x)" using x by (simp add: relocates_def Let_def)
  have stop: "outcomes c f (ret (Error e)) ?Q" for c e using inv by (auto intro!: outcomes_ret)
  note reads = relocate_reads [OF x ph(1,2)] and gone = relocate_gone [OF x ph(3)]
  have before: "outcomes b f (do { before \<leftarrow> target_before L ((rl_state x)\<lparr>os_phase := ph\<rparr>) (rl_from x) (rl_name x);
        ret (ReplyState (if before then ''notCommitted'' else ''indeterminate'')) }) ?Q"
    unfolding target_before_def with_phase if_not_P [OF missing]
    using inv gone(2)
    by (auto split: if_splits intro!: outcomes_bind_reads [OF reads_open_verify] outcomes_ret)
  show ?thesis
    unfolding HandleReconcile_def
    apply (rule outcomes_Prepared [OF reads(1)])
    subgoal
      unfolding sum.case prod.case with_phase
      apply (rule outcomes_if)
      subgoal by (rule outcomes_ret) (use ph inv in auto)
      apply (rule outcomes_OpenParent [OF reads(2)])
      subgoal
        unfolding sum.case prod.case
        apply (rule outcomes_bind [OF relocate_result [OF x ph(1-3)]], elim conjE, hypsubst)
        apply (rule outcomes_if)
        subgoal
          apply (cases "ph = ph_committed")
          subgoal using ph inv by (auto simp: relocate_committed_def intro!: outcomes_ret)
          subgoal
            using ph(4) by (auto split: if_splits
              intro!: outcomes_bind [OF relocate_record_committed [OF x ph(1,2)]] outcomes_ret)
          done
        subgoal by (rule before)
        done
      subgoal unfolding sum.case RespondError.simps by (rule stop)
      done
    subgoal unfolding sum.case RespondError.simps by (rule stop)
    done
qed

definition relocate_rolled_back :: "bool \<Rightarrow> relocation \<Rightarrow> fs \<Rightarrow> bool" where
  "relocate_rolled_back b x f \<longleftrightarrow> away_phase x ph_rolledBack f \<and> (here x f \<or> there x f \<and> b)"

lemma relocate_undo:
  assumes x: "relocates L f0 a x" and f: "dirs_kept f0 f" "away_phase x ph f" "here x f \<or> there x f"
    and dir: "is_dir f (nd_fd (rl_from x))"
  shows "outcomes b f (undo_away L ((rl_state x)\<lparr>os_phase := q\<rparr>) (rl_from x) (rl_name x) (rl_to x) (rl_to_name x))
           (\<lambda>r g. dirs_kept f0 g \<and> away_phase x ph g \<and> (here x g \<or> there x g \<and> (r \<longrightarrow> b)))" (is "outcomes b f _ ?Q")
proof -
  have go_back: "outcomes b f (RenameAt2 (nd_fd (rl_to x)) (rl_to_name x) (nd_fd (rl_from x)) (rl_name x) Noreplace) ?Q"
    if "there x f" for b
    by (rule outcomes_RenameAt2)
       (use relocate_come_back [OF x that f(2)] dirs_kept_trans [OF f(1)] f that in auto)
  note proofs = relocate_proofs [OF x] and gone = relocate_gone [OF x f(3)]
  show ?thesis
    unfolding undo_away_def with_phase
    apply (rule outcomes_bind_reads [OF reads_gone])
    subgoal
      apply (rule outcomes_if)
      subgoal using gone go_back by blast
      subgoal using f proofs gone(3) dir by (intro outcomes_ret) blast
      done
    subgoal using f by (auto intro!: outcomes_ret)
    done
qed

definition relocate_undone :: "bool \<Rightarrow> relocation \<Rightarrow> fs \<Rightarrow> OperationPhase \<Rightarrow> reply option \<Rightarrow> fs \<Rightarrow> bool" where
  "relocate_undone b x f0 ph r f \<longleftrightarrow>
     (if r = None then dirs_kept f0 f \<and> away_phase x ph f \<and> (here x f \<or> there x f \<and> b)
      else relocate_inv b x f0 f \<and> (\<exists>e. r = Some (Error e)))"

lemma relocate_undo_operation:
  assumes x: "relocates L f0 a x" and f: "dirs_kept f0 f" "away_phase x ph f" "here x f \<or> there x f"
    and ph: "ph \<noteq> ph_committed" "ph \<noteq> ph_prepared" "ph = ph_rolledBack \<longrightarrow> b"
    and dir: "is_dir f (nd_fd (rl_from x))"
  shows "outcomes b f (undo_operation L (rl_context x) (rl_hidden x) (rl_opid x) ((rl_state x)\<lparr>os_phase := q\<rparr>)
           (rl_from x) (rl_name x)) (relocate_undone b x f0 ph)"
proof -
  have inv: "relocate_inv b x f0 g" if "dirs_kept f0 g" "away_phase x ph g" "here x g \<or> there x g" for g
    using that ph by (auto intro: inv_here inv_there)
  have undo: "outcomes b f (do { ok \<leftarrow> andM (undo_away L ((rl_state x)\<lparr>os_phase := q\<rparr>) (rl_from x) (rl_name x)
          (rl_to x) (rl_to_name x)) (synced (nd_fd (rl_from x)));
        ret (if ok then None else Some (RespondError ''mutation_indeterminate'')) }) (relocate_undone b x f0 ph)"
  proof (rule outcomes_bind [where R = "\<lambda>r g. relocate_inv b x f0 g \<and>
      (r \<longrightarrow> dirs_kept f0 g \<and> away_phase x ph g \<and> (here x g \<or> there x g \<and> b))"])
    show "outcomes b f (andM (undo_away L ((rl_state x)\<lparr>os_phase := q\<rparr>) (rl_from x) (rl_name x)
          (rl_to x) (rl_to_name x)) (synced (nd_fd (rl_from x))))
        (\<lambda>r g. relocate_inv b x f0 g \<and> (r \<longrightarrow> dirs_kept f0 g \<and> away_phase x ph g \<and> (here x g \<or> there x g \<and> b)))"
      by (rule outcomes_andM [OF relocate_undo [OF x f dir]])
         (auto intro: inv intro!: outcomes_synced)
  qed (auto simp: relocate_undone_def intro!: outcomes_ret)
  consider "os_operation (rl_state x) = ''delete_file''" "rl_to x = rl_hidden x" "rl_to_name x = stage_name (rl_opid x)"
    | "os_operation (rl_state x) = ''move_file''"
    using x by (auto simp: relocates_def Let_def)
  then show ?thesis
  proof cases
    case 1
    then show ?thesis
      unfolding undo_operation_def Let_def with_phase 1(1)
      using undo by (simp add: IsWrite_def)
  next
    case 2
    show ?thesis
      unfolding undo_operation_def Let_def with_phase 2
      apply (simp add: IsWrite_def)
      apply (rule outcomes_bind_reads [OF reads_OpenDestination])
      subgoal
        unfolding relocate_reads(3) [OF x f(1,2) 2, unfolded 2] fs_OpenDestination_phase sum.case prod.case
        using undo by (simp add: 2)
      subgoal using inv f by (auto simp: relocate_undone_def intro!: outcomes_ret)
      done
  qed
qed

lemma relocate_rollback:
  assumes x: "relocates L f0 a x" and inv: "relocate_inv b x f0 f" and dir: "is_dir f (nd_fd (rl_from x))"
  shows "outcomes b f (HandleRollback L a)
           (\<lambda>r f'. relocate_inv b x f0 f' \<and> (is_success r \<longrightarrow> relocate_rolled_back b x f'))" (is "outcomes b f _ ?Q")
proof -
  from relocate_invE [OF inv] obtain ph where ph: "dirs_kept f0 f" "away_phase x ph f" "here x f \<or> there x f"
      "there x f \<longrightarrow> ph \<noteq> ph_prepared \<and> (ph = ph_rolledBack \<longrightarrow> b)" "here x f \<longrightarrow> ph \<noteq> ph_committed"
    by metis
  have stop: "outcomes c f (ret (Error e)) ?Q" for c e using inv by (auto intro!: outcomes_ret)
  note reads = relocate_reads [OF x ph(1,2)]
  have record_back: "outcomes b g (Persist (rl_hidden x) (rl_opid x) ((rl_state x)\<lparr>os_phase := q\<rparr>) ph_rolledBack)
      (\<lambda>r g'. relocate_inv b x f0 g' \<and> (r \<longrightarrow> relocate_rolled_back b x g'))"
    if g: "dirs_kept f0 g" "away_phase x ph g" "here x g \<or> there x g \<and> b" "ph \<noteq> ph_committed"
      "there x g \<longrightarrow> ph \<noteq> ph_prepared" for g q
    by (rule relocate_persist [OF x g(1,2)])
       (use g in \<open>auto simp: relocate_rolled_back_def intro: inv_here inv_there\<close>)
  have finish: "outcomes b g (case stop of Some e \<Rightarrow> ret e
        | None \<Rightarrow> do {
            saved \<leftarrow> Persist (rl_hidden x) (rl_opid x) ((rl_state x)\<lparr>os_phase := ph\<rparr>) ph_rolledBack;
            ret (if saved then RespondSuccess None else RespondError ''mutation_indeterminate'') }) ?Q"
    if "relocate_undone b x f0 ph stop g" "ph \<noteq> ph_committed" "there x g \<longrightarrow> ph \<noteq> ph_prepared" for stop g
    using that by (cases stop) (auto simp: relocate_undone_def intro!: outcomes_ret outcomes_bind [OF record_back])
  show ?thesis
    unfolding HandleRollback_def
    apply (rule outcomes_Prepared [OF reads(1)])
    subgoal
      unfolding sum.case prod.case with_phase
      apply (rule outcomes_if)
      subgoal by (rule outcomes_ret) (use ph inv in \<open>auto simp: relocate_rolled_back_def\<close>)
      apply (rule outcomes_if)
      subgoal unfolding RespondError.simps by (rule stop)
      apply (rule outcomes_OpenParent [OF reads(2)])
      subgoal
        unfolding sum.case prod.case
        apply (cases "ph = ph_prepared")
        subgoal
          apply (rule outcomes_bind [where R = "\<lambda>r g. r = None \<and> g = f"])
          subgoal by (simp add: outcomes_ret)
          subgoal premises p by (rule finish) (use p ph in \<open>auto simp: relocate_undone_def\<close>)
          done
        subgoal
          apply (rule outcomes_bind [where R = "relocate_undone b x f0 ph"])
          subgoal using relocate_undo_operation [OF x ph(1-3) _ _ _ dir] by simp
          subgoal by (rule finish) auto
          done
        done
      subgoal unfolding sum.case RespondError.simps by (rule stop)
      done
    subgoal unfolding sum.case RespondError.simps by (rule stop)
    done
qed

end
