(* ===== verification/Prepare_Receipt.thy ===== *)
theory Prepare_Receipt
  imports Prepare_Handler Replace Relocate
begin

text \<open>
  From a receipt to the later calls: what \<open>HandlePrepare\<close> replies, sent back with the same root,
  session key and root identity, finds the record it saved, and for a file that was there the
  prepared state is the initial state of the invariants of \<open>Replace\<close> and \<open>Relocate\<close>.
\<close>

section \<open>The receipt finds the record\<close>

text \<open>The arguments of a later call with the receipt \<open>v\<close>.\<close>

definition receipt_call :: "FlValue \<Rightarrow> FlValue \<Rightarrow> FlValue" where
  "receipt_call a v =
     fl_set (fl_set (fl_set (fl_set (FlMap []) ''root'' (Lookup a ''root''))
                            ''sessionKey'' (Lookup a ''sessionKey''))
                    ''rootIdentity'' (Lookup a ''rootIdentity''))
            ''prepared'' (Some v)"

fun is_map :: "FlValue \<Rightarrow> bool" where
  "is_map (FlMap _) = True"
| "is_map _ = False"

lemma is_map_fl_set [simp]: "is_map m \<Longrightarrow> is_map (fl_set m k v)"
  by (cases m) (auto simp: fl_set_def split: option.splits)

lemma Lookup_set:
  "is_map m \<Longrightarrow> Lookup (fl_set m k v) j = (if j = k \<and> v \<noteq> None then v else Lookup m j)"
  by (cases m) (auto simp: Lookup_fl_set split: option.splits)

lemma Lookup_probe_of:
  "Lookup (probe_of a) ''root'' = Lookup a ''root''"
  "Lookup (probe_of a) ''sessionKey'' = Lookup a ''sessionKey''"
  "Lookup (probe_of a) ''rootIdentity'' = Lookup a ''rootIdentity''"
  "Lookup (probe_of a) ''path'' = Some (FlString [])"
  by (simp_all add: probe_of_def Lookup_set)

lemma Lookup_receipt_call:
  "Lookup (receipt_call a v) ''root'' = Lookup a ''root''"
  "Lookup (receipt_call a v) ''sessionKey'' = Lookup a ''sessionKey''"
  "Lookup (receipt_call a v) ''rootIdentity'' = Lookup a ''rootIdentity''"
  "Lookup (receipt_call a v) ''prepared'' = Some v"
  by (simp_all add: receipt_call_def Lookup_set)

lemma SafeOperationId_no_nul: "SafeOperationId s \<Longrightarrow> CHR 0x00 \<notin> set s"
  by (auto simp: SafeOperationId_def list_all_iff ascii_isalnum_def)

lemma receipt_args_Receipt:
  assumes "SafeOperationId opid" "token_ok token"
  shows "receipt_args (receipt_call a (Receipt opid token)) = Some (opid, token)"
proof -
  have "Receipt opid token = FlMap [(FlString ''token'', FlString token), (FlString ''operationId'', FlString opid)]"
    by (simp add: Receipt_def fl_set_def)
  moreover have "c_str opid = opid" "c_str token = token" "length token = 43"
    using assms SafeOperationId_no_nul by (auto simp: c_str_id token_ok_def)
  ultimately show ?thesis
    using assms(1) by (simp add: receipt_args_def Lookup_receipt_call StringArg_def)
qed

lemma StringArg_receipt_call:
  "StringArg (receipt_call a v) ''sessionKey'' = StringArg a ''sessionKey''"
  "StringArg (receipt_call a v) ''rootIdentity'' = StringArg a ''rootIdentity''"
  by (simp_all add: StringArg_def Lookup_receipt_call)

lemma probe_of_receipt_call: "probe_of (receipt_call a v) = probe_of a"
  by (simp add: probe_of_def Lookup_receipt_call)

lemma context_argsE:
  assumes "context_args L a = Some (key, ps, bound)"
  obtains ks p where "StringArg a ''sessionKey'' = Some ks" "StringArg a ''path'' = Some p"
    "StringArg a ''rootIdentity'' = Some bound" "ParseRelative L ks False = Some [key]"
    "ParseRelative L p True = Some ps"
  using assms by (auto simp: context_args_def split: option.splits list.splits)

text \<open>The probe of \<open>Prepared\<close> opens the context of the call, with no path.\<close>

lemma probe_context:
  assumes "fs_OpenContext L f a = Inr c"
  shows "fs_OpenContext L f (probe_of a) = Inr (c\<lparr>parts := []\<rparr>)"
proof -
  have args: "StringArg (probe_of a) k = StringArg a k" if "k = ''root'' \<or> k = ''sessionKey'' \<or> k = ''rootIdentity''" for k
    using that by (auto simp: StringArg_def Lookup_probe_of)
  have path: "StringArg (probe_of a) ''path'' = Some []"
    by (simp add: StringArg_def Lookup_probe_of c_str_def)
  have root: "fs_OpenRoot f (probe_of a) = fs_OpenRoot f a" using args by (simp add: fs_OpenRoot_def)
  from assms obtain key ps bound rt where k: "context_args L a = Some (key, ps, bound)"
      and rt: "fs_OpenRoot f a = Inr rt" "Token (nd_id rt) = bound" "fs_OpenSessionDirs f rt key ps = Inr c"
    by (auto simp: fs_OpenContext_def split: option.splits prod.splits sum.splits if_splits)
  from context_argsE [OF k] obtain ks where ks: "StringArg a ''sessionKey'' = Some ks"
      "StringArg a ''rootIdentity'' = Some bound" "ParseRelative L ks False = Some [key]"
    by metis
  then have "context_args L (probe_of a) = Some (key, [], bound)"
    using args path by (simp add: context_args_def ParseRelative_def)
  moreover have "fs_OpenSessionDirs f rt key [] = Inr (c\<lparr>parts := []\<rparr>)"
    using rt(3) by (auto simp: fs_OpenSessionDirs_def split: option.splits if_splits)
  ultimately show ?thesis using rt by (simp add: fs_OpenContext_def root)
qed

lemma context_args_path:
  assumes "context_args L a = Some (key, ps, b)" "StringArg a ''path'' = Some p" "ps \<noteq> []"
  shows "ParseRelative L p False = Some ps"
  using context_argsE [OF assms(1)] assms(2,3) by (metis ParseRelative_root option.inject)

lemma prepare_argsD:
  assumes "prepare_args a = Some rq"
  shows "SafeOperationId (rq_opid rq)" "StringArg a ''path'' = Some (rq_path rq)"
    "ValidOperation (rq_operation rq)" "(rq_operation rq = ''move_file'') = (rq_destination rq \<noteq> None)"
  using assms unfolding prepare_args_def by (auto split: option.splits if_splits)

definition same_call :: "OperationState \<Rightarrow> OperationState \<Rightarrow> bool" where
  "same_call s s' \<longleftrightarrow>
     os_token s' = os_token s \<and> os_root_identity s' = os_root_identity s \<and>
     os_session_identity s' = os_session_identity s \<and> os_session_key s' = os_session_key s \<and>
     os_operation s' = os_operation s \<and> os_path s' = os_path s \<and> os_destination s' = os_destination s \<and>
     os_expected_identity s' = os_expected_identity s \<and> os_expected_hash s' = os_expected_hash s \<and>
     os_has_destination s' = os_has_destination s \<and> os_expect_missing s' = os_expect_missing s \<and>
     os_phase s' = os_phase s"

lemma staged_same_call: "staged L a h opid content f s s' g \<Longrightarrow> same_call s s'"
  by (auto simp: staged_def same_call_def split: if_splits)

lemma receipt_found:
  assumes rq: "prepare_args a = Some rq" and c: "fs_OpenContext L g a = Inr c" "fs_EnsureHidden g c = Inr h"
    and p: "fs_OpenParent g c = Inr (p, name)" and token: "token_ok token" and st: "stored g (nd_fd h) (rq_opid rq) s"
    and s: "same_call (initial_state rq (case StringArg a ''sessionKey'' of None \<Rightarrow> [] | Some k \<Rightarrow> k) c td token) s"
  shows "fs_Prepared L g (receipt_call a (Receipt (rq_opid rq) token)) = Inr (c, h, rq_opid rq, s)"
proof -
  note d = prepare_argsD [OF rq]
  from fs_OpenContext_SomeD [OF c(1)] obtain key ps where
      k: "context_args L a = Some (key, ps, Token (nd_fd (root c)))" "parts c = ps" "nd_id (root c) = nd_fd (root c)"
    by metis
  have "parts c \<noteq> []" using fs_OpenParent_SomeD [OF p] by simp
  with k d(2) have path: "ParseRelative L (rq_path rq) False = Some (parts c)" by (auto intro: context_args_path)
  from k(1) obtain key' where str: "StringArg a ''sessionKey'' = Some key'"
      "StringArg a ''rootIdentity'' = Some (Token (nd_fd (root c)))"
    using context_argsE [OF k(1)] by metis
  have "prepared_args (receipt_call a (Receipt (rq_opid rq) token)) =
      Some (rq_opid rq, token, key', Token (nd_fd (root c)))"
    using receipt_args_Receipt [OF d(1) token] str by (simp add: prepared_args_def StringArg_receipt_call)
  moreover have "fs_OpenContext L g (probe_of (receipt_call a (Receipt (rq_opid rq) token))) = Inr (c\<lparr>parts := []\<rparr>)"
    using probe_context [OF c(1)] by (simp add: probe_of_receipt_call)
  moreover have "fs_EnsureHidden g (c\<lparr>parts := []\<rparr>) = Inr h"
    using c(2) by (simp add: fs_EnsureHidden_def split: option.splits if_splits)
  moreover have "fs_Load g h (rq_opid rq) token = Some s"
    using st s by (simp add: fs_Load_iff same_call_def initial_state_def)
  moreover have "os_root_identity s = Token (nd_fd (root c))" "os_session_identity s = Token (nd_id (session c))"
      "os_session_key s = key'" "os_path s = rq_path rq"
    using s str k(3) by (simp_all add: same_call_def initial_state_def)
  ultimately show ?thesis unfolding fs_Prepared_Inr using path by auto
qed

section \<open>The parent is not the hidden directory\<close>

lemma opened_parent:
  assumes "tree f" "fs_OpenContext L f a = Inr c" "fs_EnsureHidden f c = Inr h" "fs_OpenParent f c = Inr (p, n)"
  shows "nd_fd p \<noteq> nd_fd h" "device (nd_fd p) = device (nd_fd h)"
proof -
  from fs_OpenContext_SomeD [OF assms(2)] obtain key ps where
      k: "context_args L a = Some (key, ps, Token (nd_fd (root c)))" "parts c = ps"
         "dir_at f (nd_fd (sessions c)) key (nd_fd (session c))"
    by metis
  have h: "dir_at f (nd_fd (session c)) hidden_name (nd_fd h)" using fs_EnsureHidden_entry [OF assms(3)] by simp
  have w: "parts c \<noteq> []" "walk f (nd_fd (session c)) (butlast (parts c)) (nd_fd p)"
    using fs_OpenParent_SomeD [OF assms(4)] by blast+
  have "hd key \<noteq> CHR ''.''" using Part_no_dot [OF context_args_key [OF k(1)]] .
  moreover obtain q where "ParseRelative L q True = Some (parts c)"
    using context_argsE [OF k(1)] k(2) by metis
  then have "\<forall>m \<in> set (butlast (parts c)). Part L m" by (auto dest!: in_set_butlastD ParseRelative_parts)
  moreover have "lookup f (nd_fd (sessions c)) key = Some (nd_fd (session c))"
    using k(3) by (simp add: dir_at_def)
  ultimately show "nd_fd p \<noteq> nd_fd h" by (intro parent_not_hidden [OF assms(1) h w(2)])
  show "device (nd_fd p) = device (nd_fd h)" using walk_device [OF w(2)] h by (simp add: dir_at_def)
qed

section \<open>Prepared operations on a file\<close>

text \<open>The facts of a prepared operation on a file that was there.\<close>

lemma prepared_file:
  assumes "prepared_well L a f r g" "prepare_args a = Some rq" "\<not> rq_expect_missing rq"
    and "rq_operation rq \<noteq> ''make_directory''" "sound_entries f"
  obtains c h p name i content td token s g0 g1 k where
    "fs_Prepared L g (receipt_call a (Receipt (rq_opid rq) token)) = Inr (c, h, rq_opid rq, s)"
    "fs_OpenParent g c = Inr (p, name)" "nd_fd p \<noteq> nd_fd h" "device (nd_fd p) = device (nd_fd h)"
    "r = Success (Receipt (rq_opid rq) token)" "file_at g (nd_fd p) name i content" "in_use g0 i"
    "rq_identity rq = Some (Token i)" "rq_hash rq = Some (sha256 L content)"
    "length (sha256 L content) = 64" "length content \<le> kMaxFileBytes"
    "staged L a h (rq_opid rq) content g0
       (initial_state rq (case StringArg a ''sessionKey'' of None \<Rightarrow> [] | Some k \<Rightarrow> k) c td token) s g1"
    "grows g1 g" "stored_in g (nd_fd h) (rq_opid rq) s k" "\<not> in_use g1 k" "grows g0 g1"
proof -
  let ?key = "case StringArg a ''sessionKey'' of None \<Rightarrow> [] | Some k \<Rightarrow> k"
  from assms(1-4) obtain c h p name target content td g0 where
      add: "adds f g0" and c: "fs_OpenContext L g0 a = Inr c" "fs_EnsureHidden g0 c = Inr h"
        "fs_OpenParent g0 c = Inr (p, name)" and v: "verified L rq g0 p name target content"
      and iss: "issued L a rq c h content td g0 r g"
    unfolding prepared_well_def by auto
  from iss obtain token s g1 where
      t: "token_ok token" "r = Success (Receipt (rq_opid rq) token)"
        "staged L a h (rq_opid rq) content g0 (initial_state rq ?key c td token) s g1"
        "lookup g1 (nd_fd h) (StateName (rq_opid rq)) = None" "grows g0 g1"
        "saved (nd_fd h) (rq_opid rq) s g1 True g" "stored g (nd_fd h) (rq_opid rq) s" "grows g1 g"
    unfolding issued_def by blast
  have g: "grows g0 g" using grows_trans [OF t(5,8)] .
  have tr: "tree g0" using add assms(5) by (auto simp: adds_def sound_entries_def)
  from v obtain i where i: "file_at g0 (nd_fd p) name i content" "rq_identity rq = Some (Token i)"
      "rq_hash rq = Some (sha256 L content)" "length (sha256 L content) = 64" "length content \<le> kMaxFileBytes"
    unfolding verified_def by blast
  obtain k where k: "stored_in g (nd_fd h) (rq_opid rq) s k" using t(7) by (auto simp: stored_def)
  have "kept (nd_fd h) (StateName (rq_opid rq)) g1 g" using t(6) by (simp add: saved_def)
  then have "\<not> in_use g1 k" using kept_entry k t(4) by (fastforce simp: stored_in_def file_at_def)
  moreover have "in_use g0 i" using i(1) by (auto simp: file_at_def dest: file_of_in_use)
  moreover have "fs_OpenParent g c = Inr (p, name)" using grows_OpenParent [OF g c(3)] .
  moreover have "fs_Prepared L g (receipt_call a (Receipt (rq_opid rq) token)) = Inr (c, h, rq_opid rq, s)"
    by (rule receipt_found [OF assms(2) grows_OpenContext [OF g c(1)] grows_EnsureHidden [OF g c(2)]
          grows_OpenParent [OF g c(3)] t(1,7) staged_same_call [OF t(3)]])
  ultimately show thesis
    using that t k i grows_file_at [OF g i(1)] opened_parent [OF tr c] by blast
qed

lemma prepared_replacement:
  assumes "prepared_well L a f r g" "prepare_args a = Some rq" "\<not> rq_expect_missing rq"
    and "IsWrite (rq_operation rq)" "sound_entries f" "\<And>bs. length (sha256 L bs) = 64"
  shows "\<exists>v x. r = Success v \<and> replaces L g (receipt_call a v) x \<and> replace_inv x g g \<and> old_in_place x g \<and>
           rq_hash rq = Some (sha256 L (rp_old x)) \<and> Lookup a ''bytes'' = Some (FlUint8List (rp_new x))"
proof -
  have op: "rq_operation rq \<noteq> ''make_directory''" using assms(4) by (auto simp: IsWrite_def)
  obtain c h p name i content td token s g0 g1 k where p:
    "fs_Prepared L g (receipt_call a (Receipt (rq_opid rq) token)) = Inr (c, h, rq_opid rq, s)"
    "fs_OpenParent g c = Inr (p, name)" "nd_fd p \<noteq> nd_fd h" "device (nd_fd p) = device (nd_fd h)"
    "r = Success (Receipt (rq_opid rq) token)" "file_at g (nd_fd p) name i content" "in_use g0 i"
    "rq_identity rq = Some (Token i)" "rq_hash rq = Some (sha256 L content)"
    "length (sha256 L content) = 64" "length content \<le> kMaxFileBytes"
    "staged L a h (rq_opid rq) content g0
       (initial_state rq (case StringArg a ''sessionKey'' of None \<Rightarrow> [] | Some k \<Rightarrow> k) c td token) s g1"
    "grows g1 g" "stored_in g (nd_fd h) (rq_opid rq) s k" "\<not> in_use g1 k" "grows g0 g1"
    using prepared_file [OF assms(1-3) op assms(5)] by metis
  obtain bytes j where j: "Lookup a ''bytes'' = Some (FlUint8List bytes)" "length bytes \<le> kMaxFileBytes"
      "file_at g1 (nd_fd h) (stage_name (rq_opid rq)) j bytes" "\<not> in_use g0 j"
      "os_stage_hash s = sha256 L bytes" "os_stage_identity s = Token j"
    using p(12) assms(4) by (auto simp: staged_def initial_state_def)
  have s: "os_operation s = rq_operation rq" "\<not> os_expect_missing s" "os_expected_identity s = Token i"
      "os_expected_hash s = sha256 L content" "os_phase s = ph_prepared"
    using staged_same_call [OF p(12)] p(8,9) assms(3) by (simp_all add: same_call_def initial_state_def)
  define x where "x = \<lparr>rp_context = c, rp_hidden = h, rp_opid = rq_opid rq, rp_state = s, rp_parent = p, rp_name = name,
      rp_old_file = i, rp_old = content, rp_new_file = j, rp_new = bytes\<rparr>"
  have use: "in_use g1 i" "in_use g1 j" using p(7,16) growsD j(3) by (auto simp: file_at_def dest: file_of_in_use)
  have old: "old_in_place x g"
    using p(6) grows_file_at [OF p(13) j(3)] by (simp add: old_in_place_def x_def)
  moreover have "phase_is x ph_prepared g"
  proof -
    have "s\<lparr>os_phase := ph_prepared\<rparr> = s" using s(5) by simp
    moreover have "k \<noteq> i" "k \<noteq> j" using p(15) use by auto
    ultimately show ?thesis using p(14) by (auto simp: phase_is_def phase_at_def x_def)
  qed
  ultimately have "replace_inv x g g" by (auto simp: replace_inv_def)
  moreover have "replaces L g (receipt_call a (Receipt (rq_opid rq) token)) x"
    using p(1-4,7,10,11) j s assms(4,6) by (auto simp: replaces_def x_def Let_def)
  ultimately show ?thesis using old p(5,9) j(1) by (auto simp: x_def)
qed

lemma prepared_deletion:
  assumes "prepared_well L a f r g" "prepare_args a = Some rq" "\<not> rq_expect_missing rq"
    and del: "rq_operation rq = ''delete_file''" and "sound_entries f"
  shows "\<exists>v x. r = Success v \<and> relocates L g (receipt_call a v) x \<and> relocate_inv False x g g \<and> here x g \<and>
           rq_hash rq = Some (sha256 L (rl_content x))"
proof -
  have op: "rq_operation rq \<noteq> ''make_directory''" using del by simp
  obtain c h p name i content td token s g0 g1 k where p:
    "fs_Prepared L g (receipt_call a (Receipt (rq_opid rq) token)) = Inr (c, h, rq_opid rq, s)"
    "fs_OpenParent g c = Inr (p, name)" "nd_fd p \<noteq> nd_fd h" "device (nd_fd p) = device (nd_fd h)"
    "r = Success (Receipt (rq_opid rq) token)" "file_at g (nd_fd p) name i content" "in_use g0 i"
    "rq_identity rq = Some (Token i)" "rq_hash rq = Some (sha256 L content)"
    "length (sha256 L content) = 64" "length content \<le> kMaxFileBytes"
    "staged L a h (rq_opid rq) content g0
       (initial_state rq (case StringArg a ''sessionKey'' of None \<Rightarrow> [] | Some k \<Rightarrow> k) c td token) s g1"
    "grows g1 g" "stored_in g (nd_fd h) (rq_opid rq) s k" "\<not> in_use g1 k" "grows g0 g1"
    using prepared_file [OF assms(1-3) op assms(5)] by metis
  have s: "os_operation s = ''delete_file''" "\<not> os_expect_missing s" "os_expected_identity s = Token i"
      "os_expected_hash s = sha256 L content" "os_phase s = ph_prepared"
    using staged_same_call [OF p(12)] p(8,9) assms(3) del by (simp_all add: same_call_def initial_state_def)
  define x where "x = \<lparr>rl_context = c, rl_hidden = h, rl_opid = rq_opid rq, rl_state = s, rl_from = p, rl_name = name,
      rl_to = h, rl_to_name = stage_name (rq_opid rq), rl_file = i, rl_content = content\<rparr>"
  have "in_use g1 i" using p(7,16) growsD by blast
  then have "k \<noteq> i" using p(15) by auto
  moreover have "s\<lparr>os_phase := ph_prepared\<rparr> = s" using s(5) by simp
  ultimately have "away_phase x ph_prepared g" using p(14) by (auto simp: away_phase_def phase_at_def x_def)
  moreover have here: "here x g" using p(6) by (simp add: here_def x_def)
  ultimately have "relocate_inv False x g g" by (auto simp: relocate_inv_def)
  moreover have "relocates L g (receipt_call a (Receipt (rq_opid rq) token)) x"
    using p(1-4,10,11) s by (auto simp: relocates_def x_def Let_def)
  ultimately show ?thesis using here p(5,9) by (auto simp: x_def)
qed

end
