(* ===== verification/Workspace_Read.thy ===== *)
theory Workspace_Read
  imports Context_Specs "HOL-Library.List_Lexorder" "HOL-Library.Char_ord"
begin

text \<open>
  The handlers that only read the workspace, \<^verbatim>\<open>linux/runner/session_workspace_read.cc\<close>, and
  \<^verbatim>\<open>HandleRootIdentity\<close> of \<^verbatim>\<open>session_workspace_common.cc\<close>: metadata, directory listings, chunks of
  a text file and binary files.
\<close>

unbundle bit_operations_syntax

section \<open>Metadata\<close>

definition HandleRootIdentity :: "FlValue \<Rightarrow> reply io" where
  "HandleRootIdentity a = do {
     r \<leftarrow> OpenRoot a;
     ret (case r of
            Inl e \<Rightarrow> RespondError e
          | Inr n \<Rightarrow> RespondSuccess (Some (FlString (Token (nd_id n))))) }"

definition Entry :: "string \<Rightarrow> Node \<Rightarrow> bool \<Rightarrow> string option \<Rightarrow> FlValue" where
  "Entry p n dir hash =
     (let m = fl_set (fl_set (fl_set (fl_set (FlMap [])
                ''path'' (Some (FlString (c_str p))))
                ''type'' (Some (FlString (if dir then ''directory'' else ''file''))))
                ''size'' (Some (FlInt (if dir then 0 else of_int (st_size (nd_info n))))))
                ''identity'' (Some (FlString (Token (nd_id n))))
      in case hash of None \<Rightarrow> m | Some x \<Rightarrow> fl_set m ''sha256'' (Some (FlString x)))"

definition path_arg :: "FlValue \<Rightarrow> string" where
  "path_arg a = (case StringArg a ''path'' of None \<Rightarrow> [] | Some p \<Rightarrow> p)"

definition metadata_of :: "lib \<Rightarrow> FlValue \<Rightarrow> Node \<Rightarrow> string \<Rightarrow> reply io" where
  "metadata_of L a p name = do {
     st \<leftarrow> sys_fstatat (nd_fd p) name;
     (case st of
        Inl e \<Rightarrow> ret (if e = ENOENT then RespondSuccess None else RespondError ''unsafe_path'')
      | Inr s \<Rightarrow> do {
          let dir = (st_type s = S_IFDIR);
          r \<leftarrow> (if dir then OpenDirAt (nd_fd p) name else OpenFileAt (nd_fd p) name);
          (case r of
             None \<Rightarrow> ret (RespondError ''unsafe_path'')
           | Some n \<Rightarrow>
               if dir then ret (RespondSuccess (Some (Entry (path_arg a) n True None)))
               else do {
                 h \<leftarrow> HashExact L n;
                 ret (case h of
                        None \<Rightarrow> RespondError ''workspace_file_too_large''
                      | Some (hash, _) \<Rightarrow>
                          RespondSuccess (Some (Entry (path_arg a) n False (Some hash)))) }) }) }"

definition HandleMetadata :: "lib \<Rightarrow> FlValue \<Rightarrow> reply io" where
  "HandleMetadata L a = do {
     c \<leftarrow> OpenContext L a False;
     (case c of
        Inl e \<Rightarrow> ret (if e = ''not_found'' then RespondSuccess None else RespondError e)
      | Inr x \<Rightarrow> do {
          pr \<leftarrow> OpenParent x;
          (case pr of
             Inl e \<Rightarrow> ret (if e = ''parent_missing'' then RespondSuccess None else RespondError e)
           | Inr (p, name) \<Rightarrow> metadata_of L a p name) }) }"

section \<open>Listings\<close>

text \<open>
  The entries of a directory, checked one by one. A failed \<^verbatim>\<open>readdir\<close> ends the loop like the end
  of the directory does.
\<close>

fun list_names :: "lib \<Rightarrow> Node \<Rightarrow> string list \<Rightarrow> string list \<Rightarrow> (string + string list) io" where
  "list_names L d [] names = do { _ \<leftarrow> sys_readdir; ret (Inr names) }"
| "list_names L d (n # es) names = do {
     r \<leftarrow> sys_readdir;
     (case r of
        Inl _ \<Rightarrow> ret (Inr names)
      | Inr _ \<Rightarrow>
          if n = ''.'' \<or> n = ''..'' \<or> n \<noteq> [] \<and> hd n = CHR ''.'' then list_names L d es names
          else if length names = kMaxListEntries then ret (Inl ''too_many_entries'')
          else do {
            st \<leftarrow> sys_fstatat (nd_fd d) n;
            (case st of
               Inl _ \<Rightarrow> ret (Inl ''unsafe_child'')
             | Inr s \<Rightarrow>
                 if device (st_id s) \<noteq> device (nd_id d) then ret (Inl ''unsafe_child'')
                 else (case ParseRelative L n False of
                         Some [_] \<Rightarrow> list_names L d es (names @ [n])
                       | _ \<Rightarrow> ret (Inl ''unsafe_child''))) }) }"

fun list_entries :: "(Node \<Rightarrow> string \<Rightarrow> FlValue list \<Rightarrow> (string + FlValue list) io) \<Rightarrow> Node
    \<Rightarrow> string \<Rightarrow> bool \<Rightarrow> string list \<Rightarrow> FlValue list \<Rightarrow> (string + FlValue list) io" where
  "list_entries into d pre recursive [] out = do {
     ok \<leftarrow> Stable d S_IFDIR;
     ret (if ok then Inr out else Inl ''metadata_changed'') }"
| "list_entries into d pre recursive (n # ns) out =
     (if length out \<ge> kMaxListEntries then ret (Inl ''too_many_entries'')
      else do {
        st \<leftarrow> sys_fstatat (nd_fd d) n;
        (case st of
           Inl _ \<Rightarrow> ret (Inl ''metadata_changed'')
         | Inr s \<Rightarrow>
             if device (st_id s) \<noteq> device (nd_id d) then ret (Inl ''metadata_changed'')
             else do {
               let isdir = (st_type s = S_IFDIR);
               ch \<leftarrow> (if isdir then OpenDirAt (nd_fd d) n else OpenFileAt (nd_fd d) n);
               (case ch of
                  None \<Rightarrow> ret (Inl ''unsafe_child'')
                | Some child \<Rightarrow> do {
                    let path = (if pre = [] then n else pre @ ''/'' @ n);
                    let out' = out @ [Entry path child isdir None];
                    r \<leftarrow> (if recursive \<and> isdir then into child path out' else ret (Inr out'));
                    (case r of
                       Inl e \<Rightarrow> ret (Inl e)
                     | Inr out'' \<Rightarrow> list_entries into d pre recursive ns out'') }) }) })"

text \<open>
  The first argument bounds the depth. Every level has added an entry to \<open>out\<close>, and at
  \<open>kMaxListEntries\<close> entries the loop stops, so \<open>kMaxListEntries + 1\<close> levels are enough
  (\<open>ListInto_enough\<close>).
\<close>

fun ListInto :: "lib \<Rightarrow> nat \<Rightarrow> Node \<Rightarrow> string \<Rightarrow> bool \<Rightarrow> FlValue list
    \<Rightarrow> (string + FlValue list) io" where
  "ListInto L 0 d pre recursive out = ret (Inl ''depth_exhausted'')"
| "ListInto L (Suc k) d pre recursive out = do {
     fd \<leftarrow> sys_dup (nd_fd d);
     es \<leftarrow> (case fd of Inl e \<Rightarrow> ret (Inl e) | Inr i \<Rightarrow> sys_opendir i);
     (case es of
        Inl _ \<Rightarrow> ret (Inl ''io_error'')
      | Inr stream \<Rightarrow> do {
          r \<leftarrow> list_names L d stream [];
          (case r of
             Inl e \<Rightarrow> ret (Inl e)
           | Inr names \<Rightarrow>
               list_entries (\<lambda>child path out'. ListInto L k child path True out')
                 d pre recursive (sort names) out) }) }"

definition list_target :: "Context \<Rightarrow> (string + Node) io" where
  "list_target x =
     (if parts x = [] then do {
        d \<leftarrow> Duplicate (session x);
        ret (case d of None \<Rightarrow> Inl ''metadata_changed'' | Some n \<Rightarrow> Inr n) }
      else do {
        pr \<leftarrow> OpenParent x;
        (case pr of
           Inl e \<Rightarrow> ret (Inl e)
         | Inr (p, n) \<Rightarrow> do {
             d \<leftarrow> OpenDirAt (nd_fd p) n;
             ret (case d of None \<Rightarrow> Inl ''not_found'' | Some nd \<Rightarrow> Inr nd) }) })"

definition HandleList :: "lib \<Rightarrow> FlValue \<Rightarrow> reply io" where
  "HandleList L a =
     (case BoolArg a ''recursive'' of
        None \<Rightarrow> ret (RespondError ''invalid_argument'')
      | Some recursive \<Rightarrow> do {
          c \<leftarrow> OpenContext L a False;
          (case c of
             Inl e \<Rightarrow> ret (if e = ''not_found'' then RespondSuccess (Some (FlList []))
                          else RespondError e)
           | Inr x \<Rightarrow> do {
               t \<leftarrow> list_target x;
               (case t of
                  Inl e \<Rightarrow> ret (RespondError e)
                | Inr d \<Rightarrow> do {
                    r \<leftarrow> ListInto L (kMaxListEntries + 1) d (path_arg a) recursive [];
                    ret (case r of
                           Inl e \<Rightarrow> RespondError e
                         | Inr out \<Rightarrow> RespondSuccess (Some (FlList out))) }) }) })"

section \<open>Reading text in chunks\<close>

definition boundary :: "byte list \<Rightarrow> nat \<Rightarrow> bool" where
  "boundary bytes i \<longleftrightarrow> i = 0 \<or> i = length bytes \<or> and (bytes ! i) 0xc0 \<noteq> 0x80"

fun back_to :: "byte list \<Rightarrow> nat \<Rightarrow> nat \<Rightarrow> nat" where
  "back_to bytes lo e = (if lo < e \<and> \<not> boundary bytes e then back_to bytes lo (e - 1) else e)"

declare back_to.simps [simp del]

text \<open>The arguments \<open>offset\<close> and \<open>maxBytes\<close> in range.\<close>

definition read_args :: "FlValue \<Rightarrow> (nat \<times> nat) option" where
  "read_args a =
     (case (IntArg a ''offset'', IntArg a ''maxBytes'') of
        (Some off, Some mx) \<Rightarrow>
          if sint off < 0 \<or> sint mx < 0 \<or> sint mx > 256 * 1024 then None
          else Some (nat (sint off), nat (sint mx))
      | _ \<Rightarrow> None)"

definition read_reply :: "lib \<Rightarrow> Node \<Rightarrow> string \<Rightarrow> byte list \<Rightarrow> nat \<Rightarrow> nat \<Rightarrow> reply" where
  "read_reply L f hash bytes offset mx =
     (if \<not> utf8_valid L bytes then RespondError ''unsupported_text''
      else if offset > length bytes then RespondError ''invalid_utf8_offset''
      else if \<not> boundary bytes offset then RespondError ''invalid_utf8_offset''
      else let e = back_to bytes offset (min (length bytes) (offset + mx)) in
        RespondSuccess (Some
          (fl_set (fl_set (fl_set (fl_set (fl_set (fl_set (FlMap [])
             ''bytes'' (Some (FlUint8List (take (e - offset) (drop offset bytes)))))
             ''size'' (Some (FlInt (of_nat (length bytes)))))
             ''sha256'' (Some (FlString hash)))
             ''nextOffset'' (Some (FlInt (of_nat e))))
             ''truncated'' (Some (FlBool (e < length bytes))))
             ''identity'' (Some (FlString (Token (nd_id f)))))))"

definition open_for_read :: "Context \<Rightarrow> (string + Node) io" where
  "open_for_read x = do {
     pr \<leftarrow> OpenParent x;
     (case pr of
        Inl e \<Rightarrow> ret (Inl e)
      | Inr (p, n) \<Rightarrow> do {
          f \<leftarrow> OpenFileAt (nd_fd p) n;
          ret (case f of None \<Rightarrow> Inl ''not_found'' | Some nd \<Rightarrow> Inr nd) }) }"

definition HandleRead :: "lib \<Rightarrow> FlValue \<Rightarrow> reply io" where
  "HandleRead L a =
     (case read_args a of
        None \<Rightarrow> ret (RespondError ''invalid_argument'')
      | Some (offset, mx) \<Rightarrow> do {
          c \<leftarrow> OpenContext L a False;
          (case c of
             Inl e \<Rightarrow> ret (RespondError e)
           | Inr x \<Rightarrow> do {
               t \<leftarrow> open_for_read x;
               (case t of
                  Inl e \<Rightarrow> ret (RespondError e)
                | Inr f \<Rightarrow> do {
                    h \<leftarrow> HashExact L f;
                    (case h of
                       None \<Rightarrow> ret (RespondError ''workspace_file_too_large'')
                     | Some (hash, sz) \<Rightarrow> do {
                         r \<leftarrow> (if sz \<noteq> 0 then sys_pread (nd_fd f) sz 0 else ret (Inr []));
                         ret (case r of
                                Inl _ \<Rightarrow> RespondError ''metadata_changed''
                              | Inr bytes \<Rightarrow>
                                  if length bytes \<noteq> sz then RespondError ''metadata_changed''
                                  else read_reply L f hash bytes offset mx) }) }) }) })"

section \<open>Reading binary files\<close>

definition kMaxBinaryFileBytes :: int where "kMaxBinaryFileBytes = 10 * 1024 * 1024"

definition binary_args :: "FlValue \<Rightarrow> int option" where
  "binary_args a =
     (case IntArg a ''maxBytes'' of
        Some mx \<Rightarrow> if sint mx < 0 \<or> sint mx > kMaxBinaryFileBytes then None else Some (sint mx)
      | None \<Rightarrow> None)"

definition read_all_of :: "lib \<Rightarrow> Node \<Rightarrow> nat \<Rightarrow> reply io" where
  "read_all_of L f sz = do {
     r \<leftarrow> (if sz \<noteq> 0 then sys_pread (nd_fd f) sz 0 else ret (Inr []));
     (case r of
        Inl _ \<Rightarrow> ret (RespondError ''metadata_changed'')
      | Inr bytes \<Rightarrow>
          if length bytes \<noteq> sz then ret (RespondError ''metadata_changed'')
          else do {
            extra \<leftarrow> sys_pread (nd_fd f) 1 sz;
            if extra \<noteq> Inr [] then ret (RespondError ''metadata_changed'')
            else do {
              after \<leftarrow> sys_fstat (nd_fd f);
              ret (case after of
                     Inl _ \<Rightarrow> RespondError ''metadata_changed''
                   | Inr s \<Rightarrow>
                       if st_size s \<noteq> int sz \<or> \<not> Same (st_id s) (nd_id f)
                       then RespondError ''metadata_changed''
                       else RespondSuccess (Some
                         (fl_set (fl_set (fl_set (fl_set (FlMap [])
                            ''bytes'' (Some (FlUint8List bytes)))
                            ''size'' (Some (FlInt (of_nat sz))))
                            ''sha256'' (Some (FlString (sha256 L bytes))))
                            ''identity'' (Some (FlString (Token (nd_id f))))))) } }) }"

definition HandleReadBinary :: "lib \<Rightarrow> FlValue \<Rightarrow> reply io" where
  "HandleReadBinary L a =
     (case binary_args a of
        None \<Rightarrow> ret (RespondError ''invalid_argument'')
      | Some mx \<Rightarrow> do {
          c \<leftarrow> OpenContext L a False;
          (case c of
             Inl e \<Rightarrow> ret (RespondError e)
           | Inr x \<Rightarrow> do {
               t \<leftarrow> open_for_read x;
               (case t of
                  Inl e \<Rightarrow> ret (RespondError e)
                | Inr f \<Rightarrow>
                    if st_size (nd_info f) < 0 \<or> st_size (nd_info f) > mx
                    then ret (RespondError ''workspace_file_too_large'')
                    else read_all_of L f (nat (st_size (nd_info f)))) }) })"

end
