(* ===== verification/Channel.thy ===== *)
theory Channel
  imports Recovery Workspace_Read
begin

text \<open>
  The method channel, \<^verbatim>\<open>linux/runner/session_workspace_channel.cc\<close>: the dispatch of a call to its
  handler. No handler of the model throws, so the \<^verbatim>\<open>catch\<close> has no counterpart.
\<close>

definition MethodCall :: "lib \<Rightarrow> string \<Rightarrow> FlValue option \<Rightarrow> reply io" where
  "MethodCall L name args =
     (case args of
        Some (FlMap es) \<Rightarrow>
          (let a = FlMap es in
           if name = ''rootIdentity'' then HandleRootIdentity a
           else if name = ''metadata'' then HandleMetadata L a
           else if name = ''list'' then HandleList L a
           else if name = ''read'' then HandleRead L a
           else if name = ''readBinary'' then HandleReadBinary L a
           else if name = ''prepareMutation'' then HandlePrepare L a
           else if name = ''commitPrepared'' then HandleCommit L a
           else if name = ''reconcilePrepared'' then HandleReconcile L a
           else if name = ''rollbackPrepared'' then HandleRollback L a
           else if name = ''cleanupPrepared'' then HandleCleanup L a
           else ret NotImplemented)
      | _ \<Rightarrow> ret (RespondError ''invalid_argument''))"

end
