(* ===== verification/Example_World.thy ===== *)
theory Example_World
  imports Prepare_Receipt Workspace_Read Channel
begin

text \<open>
  A small workspace, on which the properties that have hypotheses are applied: a root at \<open>/w\<close> with
  one session, the file \<open>notes\<close> in it, and in the hidden directory the stage and the record of one
  prepared operation.
\<close>

section \<open>The workspace\<close>

abbreviation nd :: "64 word \<Rightarrow> Identity" where
  "nd i \<equiv> \<lparr>device = 1, inode = i\<rparr>"

definition demo_lib :: lib where
  "demo_lib = \<lparr>sha256 = (\<lambda>_. replicate 64 (CHR ''a'')), utf8_valid = (\<lambda>_. True)\<rparr>"

definition demo_opid :: string where
  "demo_opid = replicate 32 (CHR ''b'')"

definition demo_token :: string where
  "demo_token = replicate 43 (CHR ''c'')"

definition demo_state :: "string \<Rightarrow> OperationState" where
  "demo_state oper =
     \<lparr>os_token = demo_token, os_root_identity = Token (nd 1), os_session_identity = Token (nd 3),
      os_session_key = ''key'', os_operation = oper, os_path = ''notes'', os_destination = [],
      os_expected_identity = Token (nd 5), os_expected_hash = replicate 64 (CHR ''a''),
      os_stage_identity = Token (nd 6), os_stage_hash = replicate 64 (CHR ''a''),
      os_backup_identity = [], os_backup_hash = [], os_has_destination = False,
      os_expect_missing = False, os_target_directory = False, os_result_size = 1,
      os_phase = ph_prepared\<rparr>"

definition demo_record :: "string \<Rightarrow> byte list" where
  "demo_record oper = (case encode_state (demo_state oper) of Some bs \<Rightarrow> bs | None \<Rightarrow> [])"

definition demo_fs :: "string \<Rightarrow> fs" where
  "demo_fs oper =
     \<lparr>inodes = map_of
        [(nd 1, \<lparr>body = Directory [(''sessions'', nd 2)], nlink = 1\<rparr>),
         (nd 2, \<lparr>body = Directory [(''key'', nd 3)], nlink = 1\<rparr>),
         (nd 3, \<lparr>body = Directory [(hidden_name, nd 4), (''notes'', nd 5)], nlink = 1\<rparr>),
         (nd 4, \<lparr>body = Directory ((StateName demo_opid, nd 7) #
                   (if IsWrite oper then [(stage_name demo_opid, nd 6)] else [])), nlink = 1\<rparr>),
         (nd 5, \<lparr>body = Regular [1], nlink = 1\<rparr>),
         (nd 6, \<lparr>body = Regular [2], nlink = 1\<rparr>),
         (nd 7, \<lparr>body = Regular (demo_record oper), nlink = 1\<rparr>)],
      paths = map_of [(''/w'', nd 1)]\<rparr>"

definition demo_args :: FlValue where
  "demo_args = FlMap
     [(FlString ''root'', FlString ''/w''), (FlString ''sessionKey'', FlString ''key''),
      (FlString ''rootIdentity'', FlString (Token (nd 1))),
      (FlString ''prepared'', Receipt demo_opid demo_token)]"

definition dir_node :: "Identity \<Rightarrow> Node" where
  "dir_node i = \<lparr>nd_fd = i, nd_info = \<lparr>st_type = S_IFDIR, st_nlink = 1, st_size = 0, st_id = i\<rparr>, nd_id = i\<rparr>"

definition demo_context :: Context where
  "demo_context = \<lparr>root = dir_node (nd 1), sessions = dir_node (nd 2), session = dir_node (nd 3), parts = [''notes'']\<rparr>"

lemma demo_prepared_args:
  "prepared_args demo_args = Some (demo_opid, demo_token, ''key'', Token (nd 1))"
  by code_simp

lemma demo_OpenContext:
  "fs_OpenContext demo_lib (demo_fs oper) (probe_of demo_args) = Inr (demo_context\<lparr>parts := []\<rparr>)"
  by code_simp

lemma demo_EnsureHidden: "fs_EnsureHidden (demo_fs oper) (demo_context\<lparr>parts := ps\<rparr>) = Inr (dir_node (nd 4))"
  by code_simp

lemma demo_OpenParent: "fs_OpenParent (demo_fs oper) demo_context = Inr (dir_node (nd 3), ''notes'')"
  by code_simp

lemma demo_state_strings_ok: "length oper \<le> 64 \<Longrightarrow> strings_ok (demo_state oper)"
proof -
  have "length (Token (nd 1)) = 3" "length (Token (nd 3)) = 3" "length (Token (nd 5)) = 3" "length (Token (nd 6)) = 3"
    by code_simp+
  then show "length oper \<le> 64 \<Longrightarrow> strings_ok (demo_state oper)"
    by (simp add: strings_ok_def state_strings_def demo_state_def kMaxStringBytes_def demo_token_def)
qed

lemma demo_files:
  "file_at (demo_fs oper) (nd 3) ''notes'' (nd 5) [1]"
  "file_at (demo_fs oper) (nd 4) (StateName demo_opid) (nd 7) (demo_record oper)"
  "IsWrite oper \<Longrightarrow> file_at (demo_fs oper) (nd 4) (stage_name demo_opid) (nd 6) [2]"
  by (simp_all add: file_at_def demo_fs_def lookup_def dir_entries_def file_of_def hidden_name_def operation_names)

lemma demo_stored:
  assumes "length oper \<le> 64"
  shows "stored_in (demo_fs oper) (nd 4) demo_opid (demo_state oper) (nd 7)"
  using demo_state_strings_ok [OF assms] demo_files(2) [of oper]
  by (auto simp: stored_in_def encode_state_eq demo_record_def)

lemma demo_Prepared:
  assumes "length oper \<le> 64"
  shows "fs_Prepared demo_lib (demo_fs oper) demo_args =
    Inr (demo_context, dir_node (nd 4), demo_opid, demo_state oper)"
proof -
  have "ParseRelative demo_lib ''notes'' False = Some [''notes'']" by code_simp
  moreover have "fs_Load (demo_fs oper) (dir_node (nd 4)) demo_opid demo_token = Some (demo_state oper)"
    using demo_stored [OF assms] by (auto simp: fs_Load_iff stored_def dir_node_def demo_state_def)
  moreover note demo_prepared_args demo_OpenContext demo_EnsureHidden [where ps = "[]"]
  ultimately show ?thesis
    unfolding fs_Prepared_Inr by (auto simp: demo_state_def demo_context_def dir_node_def)
qed

lemma demo_lookup:
  "lookup (demo_fs oper) d n = Some i \<longleftrightarrow>
     (d, n, i) \<in> {(nd 1, ''sessions'', nd 2), (nd 2, ''key'', nd 3), (nd 3, hidden_name, nd 4), (nd 3, ''notes'', nd 5),
       (nd 4, StateName demo_opid, nd 7)} \<or> IsWrite oper \<and> (d, n, i) = (nd 4, stage_name demo_opid, nd 6)"
  using operation_names(1) [of demo_opid]
  by (auto simp: lookup_def dir_entries_def demo_fs_def hidden_name_def split: if_splits)

lemma demo_sound: "sound_entries (demo_fs oper)"
proof -
  have "tree (demo_fs oper)" unfolding tree_def demo_lookup by auto
  moreover have "in_use (demo_fs oper) i" if "lookup (demo_fs oper) d n = Some i" for d n i
    using that unfolding demo_lookup by (auto simp: in_use_def demo_fs_def)
  ultimately show ?thesis by (auto simp: sound_entries_def)
qed

section \<open>A prepared replacement\<close>

definition demo_replacement :: replacement where
  "demo_replacement =
     \<lparr>rp_context = demo_context, rp_hidden = dir_node (nd 4), rp_opid = demo_opid,
      rp_state = demo_state ''write_file'', rp_parent = dir_node (nd 3), rp_name = ''notes'',
      rp_old_file = nd 5, rp_old = [1], rp_new_file = nd 6, rp_new = [2]\<rparr>"

lemma demo_replaces: "replaces demo_lib (demo_fs ''write_file'') demo_args demo_replacement"
  using demo_Prepared [of "''write_file''"] demo_OpenParent [of "''write_file''"]
  by (simp add: replaces_def demo_replacement_def Let_def dir_node_def demo_state_def demo_lib_def IsWrite_def
      kMaxFileBytes_def)

lemma demo_replace_inv:
  "replace_inv demo_replacement (demo_fs ''write_file'') (demo_fs ''write_file'')"
proof -
  have "phase_is demo_replacement ph_prepared (demo_fs ''write_file'')"
    using demo_stored [of "''write_file''"]
    by (auto simp: phase_is_def phase_at_def demo_replacement_def dir_node_def demo_state_def)
  moreover have "old_in_place demo_replacement (demo_fs ''write_file'')"
    using demo_files [of "''write_file''"] by (simp add: IsWrite_def old_in_place_def demo_replacement_def dir_node_def)
  ultimately show ?thesis by (auto simp: replace_inv_def)
qed

section \<open>A prepared deletion\<close>

definition demo_deletion :: relocation where
  "demo_deletion =
     \<lparr>rl_context = demo_context, rl_hidden = dir_node (nd 4), rl_opid = demo_opid,
      rl_state = demo_state ''delete_file'', rl_from = dir_node (nd 3), rl_name = ''notes'',
      rl_to = dir_node (nd 4), rl_to_name = stage_name demo_opid, rl_file = nd 5, rl_content = [1]\<rparr>"

lemma demo_relocates: "relocates demo_lib (demo_fs ''delete_file'') demo_args demo_deletion"
  using demo_Prepared [of "''delete_file''"] demo_OpenParent [of "''delete_file''"]
  by (simp add: relocates_def demo_deletion_def Let_def dir_node_def demo_state_def demo_lib_def
      kMaxFileBytes_def)

lemma demo_relocate_inv:
  "relocate_inv b demo_deletion (demo_fs ''delete_file'') (demo_fs ''delete_file'')"
proof -
  have "away_phase demo_deletion ph_prepared (demo_fs ''delete_file'')"
    using demo_stored [of "''delete_file''"]
    by (auto simp: away_phase_def phase_at_def demo_deletion_def dir_node_def demo_state_def)
  moreover have "here demo_deletion (demo_fs ''delete_file'')"
    using demo_files [of "''delete_file''"] by (simp add: here_def demo_deletion_def dir_node_def)
  ultimately show ?thesis by (auto simp: relocate_inv_def)
qed

lemma demo_from_dir: "is_dir (demo_fs ''delete_file'') (nd_fd (rl_from demo_deletion))"
  by (simp add: is_dir_def demo_deletion_def dir_node_def demo_fs_def dir_entries_def)

section \<open>Requests to prepare\<close>

definition demo_request :: "string \<Rightarrow> request" where
  "demo_request oper =
     \<lparr>rq_opid = replicate 32 (CHR ''d''), rq_operation = oper, rq_path = ''notes'', rq_destination = None,
      rq_expect_missing = False, rq_identity = Some (Token (nd 5)), rq_hash = Some (replicate 64 (CHR ''a''))\<rparr>"

definition demo_request_args :: "string \<Rightarrow> FlValue" where
  "demo_request_args oper = FlMap
     [(FlString ''root'', FlString ''/w''), (FlString ''sessionKey'', FlString ''key''),
      (FlString ''rootIdentity'', FlString (Token (nd 1))),
      (FlString ''operationId'', FlString (replicate 32 (CHR ''d''))),
      (FlString ''operation'', FlString oper), (FlString ''path'', FlString ''notes''),
      (FlString ''expectMissing'', FlBool False), (FlString ''expectedIdentity'', FlString (Token (nd 5))),
      (FlString ''expectedHash'', FlString (replicate 64 (CHR ''a''))), (FlString ''bytes'', FlUint8List [3, 4])]"

definition demo_prepare_write :: FlValue where
  "demo_prepare_write = demo_request_args ''write_file''"

definition demo_prepare_delete :: FlValue where
  "demo_prepare_delete = demo_request_args ''delete_file''"

lemma demo_prepare_write_args: "prepare_args demo_prepare_write = Some (demo_request ''write_file'')"
  by code_simp

lemma demo_prepare_delete_args: "prepare_args demo_prepare_delete = Some (demo_request ''delete_file'')"
  by code_simp

lemma demo_sha: "length (sha256 demo_lib bs) = 64"
  by (simp add: demo_lib_def)

section \<open>A world without failures\<close>

definition demo_world :: "fs \<Rightarrow> world" where
  "demo_world f = \<lparr>disk = f, clock = 0, sched = (\<lambda>_. Pass), env = (\<lambda>_ g. g), rng = (\<lambda>n k. of_nat k),
     newino = (\<lambda>n. of_nat n + 100), interrupts = 0\<rparr>"

lemma demo_world_quiet: "quiet (demo_world f)" "\<not> faulty (demo_world f)" "disk (demo_world f) = f"
  by (simp_all add: demo_world_def quiet_def faulty_def)

end
