(* ===== verification/Updater_Names.thy ===== *)
theory Updater_Names
  imports Prelude
begin

text \<open>
  The names of staged updates, \<^verbatim>\<open>windows/runner/updater_staging.cpp\<close>: the regular expression
  \<^verbatim>\<open>kGenerated\<close>, \<^verbatim>\<open>SafeName\<close> and \<^verbatim>\<open>IsMsiName\<close>. A \<^verbatim>\<open>std::wstring\<close> is a list of 16-bit units. What
  \<^verbatim>\<open>\d\<close> accepts is decided by the locale and an argument: it is only used as the class it is.
\<close>

type_synonym wchar = "16 word"
type_synonym wstring = "wchar list"

definition wide :: "string \<Rightarrow> wstring" where
  "wide s = map (\<lambda>c. of_nat (of_char c)) s"

definition separator :: wchar where "separator = 92"

section \<open>Regular expressions\<close>

text \<open>Matching as backtracking does it: what can be left of a string after a prefix that matches.\<close>

datatype rex = Lit wstring | Class "wchar \<Rightarrow> bool" | Plus "wchar \<Rightarrow> bool" | Many "wchar \<Rightarrow> bool"
  | Seq rex rex | Alt rex rex | Opt rex

fun many :: "(wchar \<Rightarrow> bool) \<Rightarrow> wstring \<Rightarrow> wstring list" where
  "many P [] = [[]]"
| "many P (c # s) = (if P c then (c # s) # many P s else [c # s])"

fun rests :: "rex \<Rightarrow> wstring \<Rightarrow> wstring list" where
  "rests (Lit l) s = (if take (length l) s = l then [drop (length l) s] else [])"
| "rests (Class P) s = (case s of c # t \<Rightarrow> if P c then [t] else [] | [] \<Rightarrow> [])"
| "rests (Plus P) s = (case s of c # t \<Rightarrow> if P c then many P t else [] | [] \<Rightarrow> [])"
| "rests (Many P) s = many P s"
| "rests (Seq a b) s = concat (map (rests b) (rests a s))"
| "rests (Alt a b) s = rests a s @ rests b s"
| "rests (Opt a) s = rests a s @ [s]"

definition regex_match :: "wstring \<Rightarrow> rex \<Rightarrow> bool" where
  "regex_match s r \<longleftrightarrow> [] \<in> set (rests r s)"

definition in_range :: "char \<Rightarrow> char \<Rightarrow> wchar \<Rightarrow> bool" where
  "in_range a b c \<longleftrightarrow> of_nat (of_char a) \<le> c \<and> c \<le> of_nat (of_char b)"

definition word_unit :: "wchar \<Rightarrow> bool" where
  "word_unit c \<longleftrightarrow> in_range CHR ''A'' CHR ''Z'' c \<or> in_range CHR ''a'' CHR ''z'' c \<or> in_range CHR ''0'' CHR ''9'' c \<or>
     [c] = wide ''_'' \<or> [c] = wide ''-''"

definition hex_unit :: "wchar \<Rightarrow> bool" where
  "hex_unit c \<longleftrightarrow> in_range CHR ''0'' CHR ''9'' c \<or> in_range CHR ''a'' CHR ''f'' c"

fun sequence :: "rex list \<Rightarrow> rex" where
  "sequence [] = Lit []"
| "sequence (r # rs) = Seq r (sequence rs)"

text \<open>After the first number: the rest of the version, the platform, the build and the digest; the extension.\<close>

definition middle :: "(wchar \<Rightarrow> bool) \<Rightarrow> rex" where
  "middle digit = sequence
     [Lit (wide ''.''), Plus digit, Lit (wide ''.''), Plus digit,
      Opt (sequence [Lit (wide ''_fix''), Class (in_range CHR ''1'' CHR ''9''), Many (in_range CHR ''0'' CHR ''9'')]),
      Lit (wide ''-''), Alt (Lit (wide ''android'')) (Lit (wide ''windows'')), Lit (wide ''-''), Plus word_unit, Lit (wide ''-''), Plus hex_unit]"

definition extension :: rex where
  "extension = sequence [Lit (wide ''.''), Alt (Lit (wide ''apk'')) (Lit (wide ''msi'')), Opt (Lit (wide ''.part''))]"

definition kGenerated :: "(wchar \<Rightarrow> bool) \<Rightarrow> rex" where
  "kGenerated digit = sequence [Lit (wide ''mobilka-''), Plus digit, middle digit, extension]"

definition SafeName :: "(wchar \<Rightarrow> bool) \<Rightarrow> wstring \<Rightarrow> bool" where
  "SafeName digit name \<longleftrightarrow> regex_match name (kGenerated digit) \<and> separator \<notin> set name \<and> 47 \<notin> set name"

text \<open>\<^verbatim>\<open>name.compare(at, n, s) == 0\<close>, where the position is inside the name.\<close>

definition piece :: "wstring \<Rightarrow> nat \<Rightarrow> nat \<Rightarrow> wstring" where
  "piece name at n = take n (drop at name)"

definition IsMsiName :: "(wchar \<Rightarrow> bool) \<Rightarrow> wstring \<Rightarrow> bool \<Rightarrow> bool" where
  "IsMsiName digit name allow_part \<longleftrightarrow>
     regex_match name (kGenerated digit) \<and>
     (let part = length name > 5 \<and> piece name (length name - 5) 5 = wide ''.part'';
          at = (if part then length name - 9 else length name - 4)
      in piece name at 4 = wide ''.msi'' \<and> (allow_part \<or> \<not> part))"

section \<open>What a matching name looks like\<close>

lemma rests_Lit: "t \<in> set (rests (Lit l) s) \<longleftrightarrow> s = l @ t"
  using append_take_drop_id [of "length l" s] by (auto simp del: append_take_drop_id)

lemma rests_Seq: "t \<in> set (rests (Seq a b) s) \<longleftrightarrow> (\<exists>u. u \<in> set (rests a s) \<and> t \<in> set (rests b u))"
  by auto

lemma rests_choice:
  "t \<in> set (rests (Alt a b) s) \<longleftrightarrow> t \<in> set (rests a s) \<or> t \<in> set (rests b s)"
  "t \<in> set (rests (Opt a) s) \<longleftrightarrow> t \<in> set (rests a s) \<or> t = s"
  by auto

lemmas rests_parts = rests_Lit rests_Seq rests_choice

lemma many_suffix: "t \<in> set (many P s) \<Longrightarrow> \<exists>p. s = p @ t \<and> list_all P p"
proof (induction s)
  case (Cons c s)
  then consider "t = c # s" | "P c" "t \<in> set (many P s)" by (auto split: if_splits)
  then show ?case
  proof cases
    case 1
    then show ?thesis by (intro exI [of _ "[]"]) simp
  next
    case 2
    with Cons.IH obtain p where "s = p @ t" "list_all P p" by blast
    with 2(1) show ?thesis by (intro exI [of _ "c # p"]) simp
  qed
qed simp

lemma rests_suffix: "t \<in> set (rests r s) \<Longrightarrow> \<exists>p. s = p @ t"
proof (induction r arbitrary: s t)
  case (Lit l)
  then show ?case by (simp only: rests_Lit) blast
next
  case (Plus P)
  then obtain c u where "s = c # u" "t \<in> set (many P u)" by (auto split: list.splits if_splits)
  with many_suffix [of t P u] show ?case by (auto intro: exI [of _ "c # p" for p])
next
  case (Seq a b)
  then obtain u where "u \<in> set (rests a s)" "t \<in> set (rests b u)" by auto
  with Seq.IH obtain p q where "s = p @ u" "u = q @ t" by blast
  then show ?case by (intro exI [of _ "p @ q"]) simp
qed (auto split: list.splits if_splits dest: many_suffix)

text \<open>The last two parts of a name: the extension and an optional \<^verbatim>\<open>.part\<close>.\<close>

lemma kGenerated_shape:
  assumes "regex_match name (kGenerated digit)"
  shows "\<exists>stem ext. name = wide ''mobilka-'' @ stem @ ext \<and> stem \<noteq> [] \<and>
    ext \<in> {wide ''.apk'', wide ''.msi'', wide ''.apk.part'', wide ''.msi.part''}"
proof -
  have "[] \<in> set (rests (kGenerated digit) name)" using assms by (simp add: regex_match_def)
  then obtain a b u where a: "name = wide ''mobilka-'' @ a" "b \<in> set (rests (Plus digit) a)"
      "u \<in> set (rests (middle digit) b)" "[] \<in> set (rests extension u)"
    unfolding kGenerated_def sequence.simps rests_parts by auto
  obtain c v where v: "a = c # v" "b \<in> set (many digit v)" using a(2) by (auto split: list.splits if_splits)
  from many_suffix [OF v(2)] rests_suffix [OF a(3)] obtain w p where "v = w @ b" "b = p @ u" by blast
  moreover have "u \<in> {wide ''.apk'', wide ''.msi'', wide ''.apk.part'', wide ''.msi.part''}"
    using a(4) unfolding extension_def sequence.simps rests_parts by (auto simp: wide_def)
  ultimately show ?thesis using a(1) v(1) by (intro exI [of _ "c # w @ p"] exI [of _ u]) simp
qed

lemma SafeName_component: "SafeName digit name \<Longrightarrow> separator \<notin> set name \<and> name \<noteq> []"
  using kGenerated_shape [of name digit] by (auto simp: SafeName_def wide_def)

text \<open>The positions \<^verbatim>\<open>IsMsiName\<close> computes are inside the name, and it decides the extension.\<close>

lemma piece_end: "n \<le> length s \<Longrightarrow> piece s (length s - n) n = drop (length s - n) s"
  by (simp add: piece_def)

lemma part_name:
  assumes "name = stem @ ext" "5 < length name" "ext \<in> {wide ''.apk'', wide ''.msi'', wide ''.apk.part'', wide ''.msi.part''}"
  shows "piece name (length name - 5) 5 = wide ''.part'' \<longleftrightarrow> ext \<in> {wide ''.apk.part'', wide ''.msi.part''}"
proof
  assume "piece name (length name - 5) 5 = wide ''.part''"
  moreover have "5 \<le> length name" using assms(2) by simp
  ultimately have d: "drop (length name - 5) name = wide ''.part''" by (simp add: piece_end)
  then have "last name = last (wide ''.part'')" using assms(2) last_drop [of "length name - 5" name] by simp
  with assms(1,3) have "last ext = last (wide ''.part'')" by (auto simp: wide_def)
  with assms(3) show "ext \<in> {wide ''.apk.part'', wide ''.msi.part''}" by (auto simp: wide_def)
next
  assume "ext \<in> {wide ''.apk.part'', wide ''.msi.part''}"
  with assms(1) show "piece name (length name - 5) 5 = wide ''.part''" by (auto simp: piece_def wide_def)
qed

lemma IsMsiName_shape:
  "IsMsiName digit name allow \<longleftrightarrow> regex_match name (kGenerated digit) \<and>
     (\<exists>stem. name = stem @ wide ''.msi'' \<or> allow \<and> name = stem @ wide ''.msi.part'')"
proof (cases "regex_match name (kGenerated digit)")
  case False
  then show ?thesis by (simp add: IsMsiName_def)
next
  case True
  then obtain s ext where n: "name = wide ''mobilka-'' @ s @ ext" "ext \<in> {wide ''.apk'', wide ''.msi'', wide ''.apk.part'', wide ''.msi.part''}"
    using kGenerated_shape by blast
  define stem where "stem = wide ''mobilka-'' @ s"
  have name: "name = stem @ ext" and long: "5 < length name" by (simp_all add: stem_def n(1) wide_def)
  note part = part_name [OF name long n(2)]
  have last: "name = t @ x \<Longrightarrow> x \<noteq> [] \<Longrightarrow> last x = last ext" for t x
  proof -
    assume t: "name = t @ x" "x \<noteq> []"
    have "ext \<noteq> []" using n(2) by (auto simp: wide_def)
    then have "last name = last ext" by (simp add: name)
    with t show "last x = last ext" by simp
  qed
  have same: "stem @ ext = t @ x \<Longrightarrow> length x = length ext \<Longrightarrow> x = ext" for t x by simp
  consider "ext = wide ''.apk''" | "ext = wide ''.msi''" | "ext = wide ''.apk.part''" | "ext = wide ''.msi.part''" using n(2) by auto
  then show ?thesis
  proof cases
    case 1
    then have "name \<noteq> t @ wide ''.msi''" "name \<noteq> t @ wide ''.msi.part''" for t
      using last [of t "wide ''.msi''"] last [of t "wide ''.msi.part''"] by (auto simp: wide_def)
    moreover have "\<not> IsMsiName digit name allow"
      using 1 part by (auto simp: IsMsiName_def Let_def piece_def name wide_def)
    ultimately show ?thesis by blast
  next
    case 2
    moreover have "IsMsiName digit name allow"
      using 2 part True by (auto simp: IsMsiName_def Let_def piece_def name wide_def)
    ultimately show ?thesis using True name by blast
  next
    case 3
    then have "name \<noteq> t @ wide ''.msi''" "name \<noteq> t @ wide ''.msi.part''" for t
      using last [of t "wide ''.msi''"] same [of t "wide ''.msi.part''"] by (auto simp: wide_def name)
    moreover have "\<not> IsMsiName digit name allow"
      using 3 part by (auto simp: IsMsiName_def Let_def piece_def name wide_def)
    ultimately show ?thesis by blast
  next
    case 4
    then have "name \<noteq> t @ wide ''.msi''" for t using last [of t "wide ''.msi''"] by (auto simp: wide_def)
    moreover have "IsMsiName digit name allow \<longleftrightarrow> allow"
      using 4 part True long by (auto simp: IsMsiName_def Let_def piece_def name wide_def)
    ultimately show ?thesis using True name 4 by blast
  qed
qed

end
