(* ===== verification/Updater_Staging.thy ===== *)
theory Updater_Staging
  imports Updater_Names State_Store
begin

text \<open>
  The staging of Windows updates, \<^verbatim>\<open>windows/runner/updater_staging.cpp\<close>: download sessions and the
  checks under which a staged file is listed, verified, made final or deleted. The Windows file
  system is a list of full paths with the files they name; paths that Windows takes for the same
  (case, short names) have the same \<open>canon\<close>. Any call may fail: \<open>uw_calls\<close> says which of the next
  ones do. A handle is the file it is open on; closing one matters only for a file whose deletion is
  pending, which goes with its last handle. No other process acts between the calls of a handler.
\<close>

section \<open>Values\<close>

datatype EncodableValue = EvNull | EvBool bool | EvInt32 "32 word" | EvInt64 "64 word" | EvDouble
  | EvString string | EvBytes "byte list" | EvList "EncodableValue list"
  | EvMap "(EncodableValue \<times> EncodableValue) list" | EvOther

datatype answer = Failed string | Answered EncodableValue

section \<open>Windows\<close>

record winfile =
  wf_directory :: bool
  wf_reparse :: bool
  wf_links :: nat
  wf_bytes :: "byte list"
  wf_time :: "64 word"
  wf_pending :: bool

text \<open>A \<^verbatim>\<open>DownloadSession\<close>; the hash object is what has been fed to it.\<close>

record DownloadSession =
  ds_file :: nat
  ds_path :: wstring
  ds_hashed :: "byte list"
  ds_size :: "64 word"

datatype fate = works | fails | short nat

record uworld =
  uw_entries :: "(wstring \<times> nat) list"
  uw_files :: "nat \<Rightarrow> winfile option"
  uw_sessions :: "string \<Rightarrow> DownloadSession option"
  uw_calls :: "fate list"
  uw_random :: "byte list list"
  uw_next :: nat
  uw_clock :: "64 word"

type_synonym 'a upd = "(uworld, 'a) state"

text \<open>
  What does not change: SHA-256, the conversions between UTF-8 and UTF-16 (\<open>None\<close>: invalid), the
  digits of the locale, the system directory (\<open>None\<close>: it cannot be had), the volume, which paths are
  the same.
\<close>

record updater_env =
  ue_sha :: "byte list \<Rightarrow> byte list"
  ue_wide :: "string \<Rightarrow> wstring option"
  ue_utf8 :: "wstring \<Rightarrow> string option"
  ue_digit :: "wchar \<Rightarrow> bool"
  ue_system :: "wstring option"
  ue_volume :: "32 word"
  ue_canon :: "wstring \<Rightarrow> wstring"

definition get_world :: "uworld upd" where
  "get_world = State (\<lambda>w. (w, w))"

definition change :: "(uworld \<Rightarrow> uworld) \<Rightarrow> unit upd" where
  "change f = State (\<lambda>w. ((), f w))"

definition next_call :: "fate upd" where
  "next_call = State (\<lambda>w. case uw_calls w of [] \<Rightarrow> (works, w) | c # cs \<Rightarrow> (c, w\<lparr>uw_calls := cs\<rparr>))"

definition call :: "bool upd" where
  "call = do { c \<leftarrow> next_call; ret (c = works) }"

definition named :: "updater_env \<Rightarrow> uworld \<Rightarrow> wstring \<Rightarrow> nat option" where
  "named E w path = map_of (map (\<lambda>(p, h). (ue_canon E p, h)) (uw_entries w)) (ue_canon E path)"

definition file_with :: "uworld \<Rightarrow> nat \<Rightarrow> (winfile \<Rightarrow> winfile) \<Rightarrow> uworld" where
  "file_with w h f = w\<lparr>uw_files := (uw_files w)(h := map_option f (uw_files w h))\<rparr>"

definition add_file :: "wstring \<Rightarrow> bool \<Rightarrow> uworld \<Rightarrow> uworld" where
  "add_file path directory w =
     w\<lparr>uw_entries := (path, uw_next w) # uw_entries w,
       uw_files := (uw_files w)(uw_next w \<mapsto> \<lparr>wf_directory = directory, wf_reparse = False, wf_links = 1,
         wf_bytes = [], wf_time = uw_clock w, wf_pending = False\<rparr>),
       uw_next := uw_next w + 1\<rparr>"

definition remove_names :: "nat \<Rightarrow> uworld \<Rightarrow> uworld" where
  "remove_names h w = w\<lparr>uw_entries := filter (\<lambda>(p, i). i \<noteq> h) (uw_entries w)\<rparr>"

text \<open>The end of a handle: a file with a pending deletion goes when no session has it open.\<close>

definition closing :: "nat \<Rightarrow> unit upd" where
  "closing h = change (\<lambda>w.
     if (\<exists>f. uw_files w h = Some f \<and> wf_pending f) \<and> \<not> (\<exists>sid s. uw_sessions w sid = Some s \<and> ds_file s = h)
     then remove_names h w else w)"

definition openable :: "updater_env \<Rightarrow> uworld \<Rightarrow> wstring \<Rightarrow> bool \<Rightarrow> nat option" where
  "openable E w path directory =
     (case named E w path of
        None \<Rightarrow> None
      | Some h \<Rightarrow> (case uw_files w h of
                    None \<Rightarrow> None
                  | Some f \<Rightarrow> if wf_pending f \<or> (wf_directory f \<and> \<not> directory) then None else Some h))"

definition OpenNoFollow :: "updater_env \<Rightarrow> wstring \<Rightarrow> bool \<Rightarrow> nat option upd" where
  "OpenNoFollow E path directory =
     do { ok \<leftarrow> call; w \<leftarrow> get_world; ret (if ok then openable E w path directory else None) }"

text \<open>\<^verbatim>\<open>OpenNoFollow\<close> with \<^verbatim>\<open>CREATE_NEW\<close>.\<close>

definition CreateNew :: "updater_env \<Rightarrow> wstring \<Rightarrow> nat option upd" where
  "CreateNew E path =
     do { ok \<leftarrow> call; w \<leftarrow> get_world;
          if ok \<and> named E w path = None then do { change (add_file path False); ret (Some (uw_next w)) }
          else ret None }"

record file_info =
  fi_volume :: "32 word"
  fi_index :: "64 word"
  fi_directory :: bool
  fi_reparse :: bool
  fi_links :: nat
  fi_size :: "64 word"
  fi_time :: "64 word"

definition info_of :: "updater_env \<Rightarrow> nat \<Rightarrow> winfile \<Rightarrow> file_info" where
  "info_of E h f =
     \<lparr>fi_volume = ue_volume E, fi_index = of_nat h, fi_directory = wf_directory f, fi_reparse = wf_reparse f,
      fi_links = wf_links f, fi_size = of_nat (length (wf_bytes f)), fi_time = wf_time f\<rparr>"

definition no_info :: file_info where
  "no_info = \<lparr>fi_volume = 0, fi_index = 0, fi_directory = False, fi_reparse = False, fi_links = 0, fi_size = 0, fi_time = 0\<rparr>"

definition GetInfo :: "updater_env \<Rightarrow> nat \<Rightarrow> file_info option upd" where
  "GetInfo E h = do { ok \<leftarrow> call; w \<leftarrow> get_world; ret (if ok then map_option (info_of E h) (uw_files w h) else None) }"

definition Stable_w :: "updater_env \<Rightarrow> nat \<Rightarrow> bool \<Rightarrow> bool upd" where
  "Stable_w E h directory =
     do { i \<leftarrow> GetInfo E h;
          ret (case i of
                 None \<Rightarrow> False
               | Some i \<Rightarrow> fi_directory i = directory \<and> \<not> fi_reparse i \<and> (directory \<or> fi_links i = 1)) }"

section \<open>Helpers\<close>

definition Utf8ToWide :: "updater_env \<Rightarrow> string \<Rightarrow> wstring" where
  "Utf8ToWide E s = (if s = [] then [] else case ue_wide E s of None \<Rightarrow> [] | Some w \<Rightarrow> w)"

definition WideToUtf8 :: "updater_env \<Rightarrow> wstring \<Rightarrow> string" where
  "WideToUtf8 E s = (if s = [] then [] else case ue_utf8 E s of None \<Rightarrow> [] | Some u \<Rightarrow> u)"

text \<open>The first separator at or after a position.\<close>

definition find_separator :: "wstring \<Rightarrow> nat \<Rightarrow> nat option" where
  "find_separator path pos =
     (let n = length (takeWhile (\<lambda>c. c \<noteq> separator) (drop pos path)) in
      if pos + n < length path then Some (pos + n) else None)"

lemma find_separator_bounds: "find_separator path pos = Some q \<Longrightarrow> pos \<le> q \<and> q < length path"
  by (auto simp: find_separator_def Let_def split: if_splits)

text \<open>The prefixes \<^verbatim>\<open>ValidateComponents\<close> opens, from a position on.\<close>

function prefixes :: "wstring \<Rightarrow> nat \<Rightarrow> wstring list" where
  "prefixes path pos =
     (if pos < length path then
        (case find_separator path pos of
           None \<Rightarrow> [path]
         | Some q \<Rightarrow> take q path # prefixes path (q + 1))
      else [])"
  by pat_completeness auto
termination
  by (relation "measure (\<lambda>(path, pos). length path - pos)") (auto dest!: find_separator_bounds)

declare prefixes.simps [simp del]

fun check_prefixes :: "updater_env \<Rightarrow> wstring list \<Rightarrow> bool upd" where
  "check_prefixes E [] = ret True"
| "check_prefixes E (p # ps) =
     do { h \<leftarrow> OpenNoFollow E p True;
          case h of
            None \<Rightarrow> ret False
          | Some h \<Rightarrow> do {
              i \<leftarrow> GetInfo E h;
              if (case i of None \<Rightarrow> True | Some i \<Rightarrow> fi_reparse i) then ret False else check_prefixes E ps } }"

definition ValidateComponents :: "updater_env \<Rightarrow> wstring \<Rightarrow> bool upd" where
  "ValidateComponents E path =
     (if length path < 3 \<or> path ! 1 \<noteq> 58 \<or> path ! 2 \<noteq> separator then ret False
      else check_prefixes E (prefixes path 3))"

definition Token_w :: "file_info \<Rightarrow> string" where
  "Token_w i = decimal (unat (fi_volume i)) @ '':'' @ decimal (unat (drop_bit 32 (fi_index i))) @ '':'' @
     decimal (unat (take_bit 32 (fi_index i)))"

definition RandomId :: "string upd" where
  "RandomId = do { ok \<leftarrow> call; w \<leftarrow> get_world;
     if ok then do {
       change (\<lambda>w. w\<lparr>uw_random := tl (uw_random w)\<rparr>);
       ret (hex_of (case uw_random w of [] \<Rightarrow> replicate 16 0 | r # _ \<Rightarrow> take 16 r)) }
     else ret [] }"

text \<open>Three calls: the provider, the size of its object, the hash.\<close>

definition InitHash :: "bool upd" where
  "InitHash = andM call (andM call call)"

definition Identity_w :: "updater_env \<Rightarrow> nat \<Rightarrow> wstring \<Rightarrow> string \<Rightarrow> EncodableValue upd" where
  "Identity_w E h name hash =
     do { found \<leftarrow> GetInfo E h;
          let i = (case found of None \<Rightarrow> no_info | Some i \<Rightarrow> i);
          ret (EvMap [(EvString ''basename'', EvString (WideToUtf8 E name)),
                      (EvString ''size'', EvInt64 (fi_size i)),
                      (EvString ''modifiedMillis'', EvInt64 ((fi_time i - 116444736000000000) div 10000)),
                      (EvString ''sha256'', EvString hash),
                      (EvString ''identityToken'', EvString (Token_w i))]) }"

text \<open>The reads of a file in chunks of 65536 bytes, each hashed, up to the read that returns nothing.\<close>

function hash_reads :: "byte list \<Rightarrow> bool upd" where
  "hash_reads rest =
     (if rest = [] then call else andM call (andM call (hash_reads (drop 65536 rest))))"
  by pat_completeness auto
termination
  by (relation "measure length") auto

declare hash_reads.simps [simp del]

definition HashHandle :: "updater_env \<Rightarrow> nat \<Rightarrow> string upd" where
  "HashHandle E h =
     do { w \<leftarrow> get_world;
          let content = (case uw_files w h of None \<Rightarrow> [] | Some f \<Rightarrow> wf_bytes f);
          ok \<leftarrow> andM call (andM call (andM call (andM call (andM (hash_reads content) call))));
          ret (if ok then hex_of (ue_sha E content) else []) }"

definition StringArg_w :: "updater_env \<Rightarrow> (EncodableValue \<times> EncodableValue) list \<Rightarrow> string \<Rightarrow> wstring" where
  "StringArg_w E args key =
     (case map_of args (EvString key) of
        None \<Rightarrow> []
      | Some v \<Rightarrow> (case v of EvString s \<Rightarrow> Utf8ToWide E s | _ \<Rightarrow> []))"

definition IntArg_w :: "(EncodableValue \<times> EncodableValue) list \<Rightarrow> string \<Rightarrow> int" where
  "IntArg_w args key =
     (case map_of args (EvString key) of
        None \<Rightarrow> -1
      | Some v \<Rightarrow> (case v of EvInt64 i \<Rightarrow> sint i | EvInt32 i \<Rightarrow> sint i | _ \<Rightarrow> -1))"

section \<open>Sessions\<close>

definition put_session :: "string \<Rightarrow> DownloadSession option \<Rightarrow> unit upd" where
  "put_session sid s = change (\<lambda>w. w\<lparr>uw_sessions := (uw_sessions w)(sid := s)\<rparr>)"

definition WriteFile_w :: "nat \<Rightarrow> byte list \<Rightarrow> nat option upd" where
  "WriteFile_w h bs =
     do { c \<leftarrow> next_call;
          case c of
            fails \<Rightarrow> ret None
          | works \<Rightarrow> do { change (\<lambda>w. file_with w h (\<lambda>f. f\<lparr>wf_bytes := wf_bytes f @ bs, wf_time := uw_clock w\<rparr>));
                        ret (Some (length bs)) }
          | short n \<Rightarrow> do { change (\<lambda>w. file_with w h (\<lambda>f. f\<lparr>wf_bytes := wf_bytes f @ take n bs, wf_time := uw_clock w\<rparr>));
                          ret (Some (min n (length bs))) } }"

definition writeDownload :: "string \<Rightarrow> DownloadSession \<Rightarrow> (EncodableValue \<times> EncodableValue) list \<Rightarrow> answer upd" where
  "writeDownload sid s args =
     (case map_of args (EvString ''chunk'') of
        Some (EvBytes chunk) \<Rightarrow>
          do { written \<leftarrow> WriteFile_w (ds_file s) (take (length chunk mod 2 ^ 32) chunk);
               hashed \<leftarrow> (if written = Some (length chunk) then call else ret False);
               if hashed then do {
                 put_session sid (Some (s\<lparr>ds_hashed := ds_hashed s @ chunk, ds_size := ds_size s + of_nat (length chunk)\<rparr>));
                 ret (Answered EvNull) }
               else ret (Failed ''writeFailed'') }
      | _ \<Rightarrow> ret (Failed ''writeFailed''))"

text \<open>\<^verbatim>\<open>path.substr(path.find_last_of('\\') + 1)\<close>; without a separator the whole path.\<close>

definition last_part :: "wstring \<Rightarrow> wstring" where
  "last_part path = rev (takeWhile (\<lambda>c. c \<noteq> separator) (rev path))"

definition finishDownload :: "updater_env \<Rightarrow> string \<Rightarrow> DownloadSession \<Rightarrow> answer upd" where
  "finishDownload E sid s =
     do { ok \<leftarrow> andM call call;
          if \<not> ok then ret (Failed ''finishFailed'')
          else do {
            v \<leftarrow> Identity_w E (ds_file s) (last_part (ds_path s)) (hex_of (ue_sha E (ds_hashed s)));
            put_session sid None;
            closing (ds_file s);
            ret (Answered v) } }"

definition mark_deleted :: "nat \<Rightarrow> bool upd" where
  "mark_deleted h = do { ok \<leftarrow> call; if ok then do { change (\<lambda>w. file_with w h (\<lambda>f. f\<lparr>wf_pending := True\<rparr>)); ret True } else ret False }"

definition abortDownload :: "string \<Rightarrow> DownloadSession \<Rightarrow> answer upd" where
  "abortDownload sid s =
     do { ok \<leftarrow> mark_deleted (ds_file s);
          if \<not> ok then ret (Failed ''abortFailed'')
          else do { put_session sid None; closing (ds_file s); ret (Answered EvNull) } }"

section \<open>The staged files\<close>

definition child :: "wstring \<Rightarrow> wstring \<Rightarrow> wstring" where
  "child rt name = rt @ [separator] @ name"

text \<open>The directory of a path; \<open>None\<close> when it has no separator.\<close>

definition dir_part :: "wstring \<Rightarrow> wstring option" where
  "dir_part path =
     (if separator \<in> set path then Some (take (length path - length (last_part path) - 1) path) else None)"

text \<open>The updates root is checked, made if it is not there, and opened: an error, or \<open>None\<close>.\<close>

definition CreateDirectory_w :: "updater_env \<Rightarrow> wstring \<Rightarrow> bool upd" where
  "CreateDirectory_w E path =
     do { ok \<leftarrow> call; w \<leftarrow> get_world;
          if \<not> ok then ret False
          else if named E w path \<noteq> None then ret True
          else do { change (add_file path True); ret True } }"

definition open_root :: "updater_env \<Rightarrow> wstring \<Rightarrow> string option upd" where
  "open_root E rt =
     do { ok \<leftarrow> ValidateComponents E (case dir_part rt of None \<Rightarrow> [] | Some d \<Rightarrow> d);
          if \<not> ok then ret (Some ''unsafePath'')
          else do {
            seen \<leftarrow> call; w \<leftarrow> get_world;
            there \<leftarrow> (if seen \<and> named E w rt \<noteq> None then ret True else CreateDirectory_w E rt);
            if \<not> there then ret (Some ''unsafePath'')
            else do {
              h \<leftarrow> OpenNoFollow E rt True;
              valid \<leftarrow> ValidateComponents E rt;
              if \<not> valid then ret (Some ''unsafePath'')
              else case h of
                None \<Rightarrow> ret (Some ''unsafePath'')
              | Some h \<Rightarrow> do { stable \<leftarrow> Stable_w E h True; ret (if stable then None else Some ''unsafePath'') } } } }"

text \<open>What \<^verbatim>\<open>FindFirstFileW\<close> finds: the names in the root.\<close>

definition names_in :: "updater_env \<Rightarrow> uworld \<Rightarrow> wstring \<Rightarrow> wstring list" where
  "names_in E w rt =
     map (\<lambda>(p, h). last_part p) (filter (\<lambda>(p, h). map_option (ue_canon E) (dir_part p) = Some (ue_canon E rt)) (uw_entries w))"

fun list_found :: "updater_env \<Rightarrow> wstring \<Rightarrow> wstring list \<Rightarrow> EncodableValue list upd" where
  "list_found E rt [] = ret []"
| "list_found E rt (n # ns) =
     do { entry \<leftarrow>
            (if SafeName (ue_digit E) n \<and> IsMsiName (ue_digit E) n True then do {
               h \<leftarrow> OpenNoFollow E (child rt n) False;
               case h of
                 None \<Rightarrow> ret []
               | Some h \<Rightarrow> do {
                   stable \<leftarrow> Stable_w E h False;
                   if stable then do { hash \<leftarrow> HashHandle E h; v \<leftarrow> Identity_w E h n hash; ret [v] } else ret [] } }
             else ret []);
          more \<leftarrow> call;
          rest \<leftarrow> (if more then list_found E rt ns else ret []);
          ret (entry @ rest) }"

definition safeList :: "updater_env \<Rightarrow> wstring \<Rightarrow> answer upd" where
  "safeList E rt =
     do { found \<leftarrow> call; w \<leftarrow> get_world;
          entries \<leftarrow> (if found then list_found E rt (names_in E w rt) else ret []);
          ret (Answered (EvList entries)) }"

text \<open>A file that is opened and checked: its handle and what Windows says of it.\<close>

definition open_checked :: "updater_env \<Rightarrow> wstring \<Rightarrow> (nat \<times> file_info) option upd" where
  "open_checked E path =
     do { h \<leftarrow> OpenNoFollow E path False;
          case h of
            None \<Rightarrow> ret None
          | Some h \<Rightarrow> do {
              stable \<leftarrow> Stable_w E h False;
              if \<not> stable then ret None
              else do { i \<leftarrow> GetInfo E h; ret (map_option (Pair h) i) } } }"

definition verifyUpdate :: "updater_env \<Rightarrow> wstring \<Rightarrow> wstring \<Rightarrow> (EncodableValue \<times> EncodableValue) list \<Rightarrow> answer upd" where
  "verifyUpdate E rt name args =
     (let expected_size = IntArg_w args ''expectedSize'';
          expected_hash = WideToUtf8 E (StringArg_w E args ''expectedSha256'') in
      if expected_size < 0 \<or> length expected_hash \<noteq> 64 \<or> \<not> IsMsiName (ue_digit E) name True
      then ret (Answered EvNull)
      else do {
        file \<leftarrow> open_checked E (child rt name);
        case file of
          None \<Rightarrow> ret (Answered EvNull)
        | Some (h, i) \<Rightarrow> do {
            hash \<leftarrow> HashHandle E h;
            let expected_identity = WideToUtf8 E (StringArg_w E args ''identityToken'');
            if fi_size i \<noteq> word_of_int expected_size \<or> hash \<noteq> expected_hash \<or>
               (expected_identity \<noteq> [] \<and> Token_w i \<noteq> expected_identity)
            then ret (Answered EvNull)
            else do { v \<leftarrow> Identity_w E h name hash; ret (Answered v) } } })"

text \<open>The rename through the handle, relative to the root; an existing name is not replaced.\<close>

definition rename_to :: "updater_env \<Rightarrow> nat \<Rightarrow> wstring \<Rightarrow> wstring \<Rightarrow> bool upd" where
  "rename_to E h from target =
     do { ok \<leftarrow> call; w \<leftarrow> get_world;
          if ok \<and> named E w target = None then do {
            change (\<lambda>w. w\<lparr>uw_entries := map (\<lambda>(p, i). if i = h \<and> ue_canon E p = ue_canon E from then (target, i) else (p, i)) (uw_entries w)\<rparr>);
            ret True }
          else ret False }"

definition finalizeUpdate :: "updater_env \<Rightarrow> wstring \<Rightarrow> wstring \<Rightarrow> (EncodableValue \<times> EncodableValue) list \<Rightarrow> answer upd" where
  "finalizeUpdate E rt name args =
     (let partial = StringArg_w E args ''partialName'';
          expected_size = IntArg_w args ''expectedSize'';
          expected_hash = WideToUtf8 E (StringArg_w E args ''expectedSha256'') in
      if expected_size < 0 \<or> length expected_hash \<noteq> 64 \<or> \<not> IsMsiName (ue_digit E) name False \<or>
         partial \<noteq> name @ wide ''.part'' \<or> \<not> IsMsiName (ue_digit E) partial True
      then ret (Failed ''invalid'')
      else do {
        file \<leftarrow> open_checked E (child rt partial);
        case file of
          None \<Rightarrow> ret (Failed ''invalid'')
        | Some (h, i) \<Rightarrow> do {
            hash \<leftarrow> HashHandle E h;
            if fi_size i \<noteq> word_of_int expected_size \<or> hash \<noteq> expected_hash then ret (Failed ''invalid'')
            else do {
              renamed \<leftarrow> rename_to E h (child rt partial) (child rt name);
              if \<not> renamed then ret (Failed ''io'')
              else do { v \<leftarrow> Identity_w E h name hash; ret (Answered v) } } } })"

definition beginDownload :: "updater_env \<Rightarrow> wstring \<Rightarrow> wstring \<Rightarrow> answer upd" where
  "beginDownload E rt name =
     (if length name < 5 \<or> drop (length name - 5) name \<noteq> wide ''.part'' then ret (Failed ''unsafePath'')
      else do {
        h \<leftarrow> CreateNew E (child rt name);
        sid \<leftarrow> RandomId;
        case h of
          None \<Rightarrow> ret (Failed ''createFailed'')
        | Some h \<Rightarrow> do {
            ok \<leftarrow> (if sid = [] then ret False else andM (Stable_w E h False) InitHash);
            if \<not> ok then ret (Failed ''createFailed'')
            else do {
              put_session sid (Some \<lparr>ds_file = h, ds_path = child rt name, ds_hashed = [], ds_size = 0\<rparr>);
              ret (Answered (EvString sid)) } } })"

definition delete_staged :: "updater_env \<Rightarrow> nat \<Rightarrow> wstring \<Rightarrow> (EncodableValue \<times> EncodableValue) list \<Rightarrow> answer upd" where
  "delete_staged E h name args =
     do { found \<leftarrow> GetInfo E h;
          let i = (case found of None \<Rightarrow> no_info | Some i \<Rightarrow> i);
          let expected_token = WideToUtf8 E (StringArg_w E args ''identityToken'');
          let expected_hash = WideToUtf8 E (StringArg_w E args ''expectedSha256'');
          same \<leftarrow> (if \<not> IsMsiName (ue_digit E) name True \<or> IntArg_w args ''expectedSize'' \<noteq> sint (fi_size i) \<or>
                      expected_token \<noteq> Token_w i then ret False
                   else do { hash \<leftarrow> HashHandle E h; ret (expected_hash = hash) });
          if \<not> same then ret (Failed ''identityChanged'')
          else do {
            ok \<leftarrow> mark_deleted h;
            if \<not> ok then ret (Failed ''deleteFailed'')
            else do { closing h; ret (Answered EvNull) } } }"

definition staged_child :: "updater_env \<Rightarrow> wstring \<Rightarrow> wstring \<Rightarrow> string \<Rightarrow> (EncodableValue \<times> EncodableValue) list \<Rightarrow> answer upd" where
  "staged_child E rt name method args =
     do { h \<leftarrow> OpenNoFollow E (child rt name) False;
          case h of
            None \<Rightarrow> ret (Failed ''unsafePath'')
          | Some h \<Rightarrow> do {
              stable \<leftarrow> Stable_w E h False;
              if \<not> stable then ret (Failed ''unsafePath'')
              else if method = ''delete'' then delete_staged E h name args
              else do { hash \<leftarrow> HashHandle E h; v \<leftarrow> Identity_w E h name hash; ret (Answered v) } } }"

definition root_method :: "updater_env \<Rightarrow> string \<Rightarrow> (EncodableValue \<times> EncodableValue) list \<Rightarrow> answer upd" where
  "root_method E method args =
     (let rt = StringArg_w E args ''updatesRoot''; name = StringArg_w E args ''basename'' in
      do { bad \<leftarrow> open_root E rt;
           case bad of
             Some e \<Rightarrow> ret (Failed e)
           | None \<Rightarrow>
               if method = ''safeList'' then safeList E rt
               else if method = ''verifyUpdate'' then verifyUpdate E rt name args
               else if method = ''finalizeUpdate'' then finalizeUpdate E rt name args
               else if \<not> SafeName (ue_digit E) name then ret (Failed ''unsafePath'')
               else if method = ''beginDownload'' then beginDownload E rt name
               else staged_child E rt name method args })"

definition session_method :: "updater_env \<Rightarrow> string \<Rightarrow> (EncodableValue \<times> EncodableValue) list \<Rightarrow> answer upd" where
  "session_method E method args =
     (let sid = WideToUtf8 E (StringArg_w E args ''session'') in
      do { w \<leftarrow> get_world;
           case uw_sessions w sid of
             None \<Rightarrow> ret (Failed ''invalidSession'')
           | Some s \<Rightarrow>
               if method = ''writeDownload'' then writeDownload sid s args
               else if method = ''finishDownload'' then finishDownload E sid s
               else abortDownload sid s })"

definition updater_call :: "updater_env \<Rightarrow> string \<Rightarrow> EncodableValue \<Rightarrow> answer upd" where
  "updater_call E method arguments =
     (if method = ''getTrustedSystemPaths'' then
        (case ue_system E of
           None \<Rightarrow> ret (Failed ''systemPath'')
         | Some rt \<Rightarrow> ret (Answered (EvMap
             [(EvString ''powershell'', EvString (WideToUtf8 E (child (child (child rt (wide ''WindowsPowerShell'')) (wide ''v1.0'')) (wide ''powershell.exe'')))),
              (EvString ''msiexec'', EvString (WideToUtf8 E (child rt (wide ''msiexec.exe''))))])))
      else case arguments of
        EvMap args \<Rightarrow>
          if method \<in> {''writeDownload'', ''finishDownload'', ''abortDownload''} then session_method E method args
          else root_method E method args
      | _ \<Rightarrow> ret (Failed ''invalidArgument''))"

end
