(* ===== verification/Broker_Package.thy ===== *)
theory Broker_Package
  imports Updater_Staging
begin

text \<open>
  What the broker of the Windows document worker checks before it starts the helper,
  \<^verbatim>\<open>windows/runner/document_worker_broker.cpp\<close> lines 64 to 212: the paths of
  \<^verbatim>\<open>std::filesystem\<close> it uses, the place and the owner of the bundle, and the files of the manifest.
  None of this changes anything; what the calls of Windows answer is one record, in which a call that
  fails answers \<open>None\<close>.
\<close>

section \<open>Paths\<close>

text \<open>The parts of \<^verbatim>\<open>std::filesystem::path\<close> on Windows: root name, root directory, names.\<close>

definition is_separator :: "wchar \<Rightarrow> bool" where
  "is_separator c \<longleftrightarrow> c = separator \<or> c = 47"

definition drive_letter :: "wchar \<Rightarrow> bool" where
  "drive_letter c \<longleftrightarrow> in_range CHR ''A'' CHR ''Z'' c \<or> in_range CHR ''a'' CHR ''z'' c"

text \<open>\<open>C:\<close> or \<open>\\server\<close>, which includes \<open>\\?\<close>; else empty.\<close>

definition root_name_length :: "wstring \<Rightarrow> nat" where
  "root_name_length p =
     (if length p \<ge> 2 \<and> drive_letter (p ! 0) \<and> p ! 1 = 58 then 2
      else if length p \<ge> 3 \<and> is_separator (p ! 0) \<and> is_separator (p ! 1) \<and> \<not> is_separator (p ! 2)
      then 2 + length (takeWhile (\<lambda>c. \<not> is_separator c) (drop 2 p))
      else 0)"

text \<open>With the separators after the root name.\<close>

definition root_length :: "wstring \<Rightarrow> nat" where
  "root_length p = root_name_length p + length (takeWhile is_separator (drop (root_name_length p) p))"

text \<open>Without the last name and the separators before it; a root is its own parent.\<close>

definition parent_path :: "wstring \<Rightarrow> wstring" where
  "parent_path p =
     (let rt = take (root_length p) p; rel = drop (root_length p) p;
          dir = rev (dropWhile is_separator (dropWhile (\<lambda>c. \<not> is_separator c) (rev rel))) in
      rt @ dir)"

lemma dropWhile_shorter: "length (dropWhile P xs) \<le> length xs"
  by (induction xs) auto

lemma shortened: "length (dropWhile P (dropWhile Q xs)) = length xs \<Longrightarrow> dropWhile P (dropWhile Q xs) = xs"
proof -
  assume same: "length (dropWhile P (dropWhile Q xs)) = length xs"
  have keep: "dropWhile R ys = ys" if "length (dropWhile R ys) = length ys" for R :: "'a \<Rightarrow> bool" and ys
    using that dropWhile_shorter [of R "tl ys"] by (cases ys) (auto split: if_splits)
  have "length (dropWhile Q xs) = length xs"
    using same dropWhile_shorter [of P "dropWhile Q xs"] dropWhile_shorter [of Q xs] by linarith
  then show ?thesis using keep [of Q xs] keep [of P xs] same by simp
qed

lemma parent_path_shorter: "parent_path p \<noteq> p \<Longrightarrow> length (parent_path p) < length p"
proof -
  assume other: "parent_path p \<noteq> p"
  let ?rel = "drop (root_length p) p"
  let ?dir = "dropWhile is_separator (dropWhile (\<lambda>c. \<not> is_separator c) (rev ?rel))"
  have "length ?dir \<noteq> length (rev ?rel)"
  proof
    assume "length ?dir = length (rev ?rel)"
    then have "?dir = rev ?rel" by (rule shortened)
    with other show False by (simp add: parent_path_def Let_def)
  qed
  moreover have "length ?dir \<le> length (rev ?rel)"
    using dropWhile_shorter [of is_separator] dropWhile_shorter [of "\<lambda>c. \<not> is_separator c"] le_trans by blast
  ultimately show ?thesis by (simp add: parent_path_def Let_def)
qed

definition is_absolute_path :: "wstring \<Rightarrow> bool" where
  "is_absolute_path p =
     (if length p \<ge> 2 \<and> drive_letter (p ! 0) \<and> p ! 1 = 58 then length p \<ge> 3 \<and> is_separator (p ! 2)
      else root_name_length p > 0)"

text \<open>
  \<^verbatim>\<open>operator/\<close>: an absolute name, or one with another root name, replaces the path; one with a root
  directory what is after the root name; nothing separates a drive without root directory from a name.
\<close>

definition append_path :: "wstring \<Rightarrow> wstring \<Rightarrow> wstring" where
  "append_path p name =
     (let k = root_name_length p; m = root_name_length name in
      if is_absolute_path name \<or> (m > 0 \<and> take m name \<noteq> take k p) then name
      else if m < length name \<and> is_separator (name ! m) then take k p @ drop m name
      else (if k = length p then (if k \<ge> 3 then p @ [separator] else p)
            else if is_separator (last p) then p else p @ [separator]) @ drop m name)"

definition filename :: "wstring \<Rightarrow> wstring" where
  "filename p = rev (takeWhile (\<lambda>c. \<not> is_separator c) (rev (drop (root_length p) p)))"

section \<open>Normal form\<close>

fun names_of_path :: "wstring \<Rightarrow> wstring list" where
  "names_of_path [] = [[]]"
| "names_of_path (c # s) =
     (if is_separator c then [] # names_of_path s
      else case names_of_path s of n # ns \<Rightarrow> (c # n) # ns | [] \<Rightarrow> [[c]])"

text \<open>Dots are dropped, two dots take back a name; at the root they are dropped too.\<close>

fun resolve_dots :: "bool \<Rightarrow> wstring list \<Rightarrow> wstring list \<Rightarrow> wstring list" where
  "resolve_dots rooted acc [] = rev acc"
| "resolve_dots rooted acc (n # ns) =
     (if n = [] \<or> n = wide ''.'' then resolve_dots rooted acc ns
      else if n = wide ''..'' then
        (case acc of
           a # as \<Rightarrow> if a = wide ''..'' then resolve_dots rooted (n # acc) ns else resolve_dots rooted as ns
         | [] \<Rightarrow> if rooted then resolve_dots rooted [] ns else resolve_dots rooted [n] ns)
      else resolve_dots rooted (n # acc) ns)"

fun join_names :: "wstring list \<Rightarrow> wstring" where
  "join_names [] = []"
| "join_names [n] = n"
| "join_names (n # ns) = n @ [separator] @ join_names ns"

definition lexically_normal :: "wstring \<Rightarrow> wstring" where
  "lexically_normal p =
     (if p = [] then []
      else
        let k = root_name_length p; rooted = root_length p > k;
            rt = map (\<lambda>c. if is_separator c then separator else c) (take k p) @ (if rooted then [separator] else []);
            given = names_of_path (drop (root_length p) p);
            names = resolve_dots rooted [] given;
            ends = (last given = [] \<or> last given = wide ''.'' \<or> last given = wide ''..'') \<and>
              names \<noteq> [] \<and> last names \<noteq> wide ''..'';
            result = rt @ join_names names @ (if ends then [separator] else [])
        in if result = [] then wide ''.'' else result)"

section \<open>What Windows answers\<close>

text \<open>
  A file as \<^verbatim>\<open>OpenOrdinaryDirectFile\<close> and \<^verbatim>\<open>NoReparseAncestors\<close> see it: its attributes (a reparse
  point, a directory) and identity, \<open>None\<close> when they cannot be read; its content, and whether all calls
  that read and hash it succeed.
\<close>

record seen_file =
  sf_attributes :: "(bool \<times> bool) option"
  sf_identity :: "(32 word \<times> 32 word \<times> 32 word) option"
  sf_content :: "byte list"
  sf_hashed :: bool

text \<open>
  \<open>be_module\<close>: the path of the program (\<open>None\<close> when it cannot be had or is too long); \<open>be_open\<close>: files
  opened for reading, \<open>be_entry\<close>: entries opened for their attributes; \<open>be_programs\<close>: the variable
  \<^verbatim>\<open>ProgramW6432\<close> when it is set and fits; \<open>be_elevated\<close> and \<open>be_user\<close>: of the process's token;
  \<open>be_owner\<close>: the owner of a path; \<open>be_lower\<close>: the case mapping of \<^verbatim>\<open>_wcsnicmp\<close>; \<open>be_derive\<close> and \<open>be_create\<close>:
  what deriving and creating the application container answer; \<open>be_sha\<close>: the hash provider;
  \<open>be_manifest\<close>: the generated manifest.
\<close>

record broker_env =
  be_module :: "wstring option"
  be_open :: "wstring \<Rightarrow> seen_file option"
  be_entry :: "wstring \<Rightarrow> seen_file option"
  be_programs :: "wstring option"
  be_elevated :: "bool option"
  be_user :: "byte list option"
  be_owner :: "wstring \<Rightarrow> byte list option"
  be_lower :: "wchar \<Rightarrow> wchar"
  be_derive :: "32 word"
  be_create :: "32 word"
  be_sha :: "byte list \<Rightarrow> byte list"
  be_manifest :: "(wstring \<times> string) list"

section \<open>The checks\<close>

text \<open>\<^verbatim>\<open>FileIdentity\<close> of this file; the function of that name is in \<open>Workspace_Nodes\<close>.\<close>

type_synonym HelperIdentity = "32 word \<times> 32 word \<times> 32 word"

definition BundleDirectory :: "broker_env \<Rightarrow> wstring" where
  "BundleDirectory E = (case be_module E of None \<Rightarrow> [] | Some p \<Rightarrow> parent_path p)"

definition OpenOrdinaryDirectFile :: "broker_env \<Rightarrow> wstring \<Rightarrow> wstring \<Rightarrow> seen_file option" where
  "OpenOrdinaryDirectFile E rt path =
     (if parent_path path \<noteq> rt then None
      else case be_open E path of
        None \<Rightarrow> None
      | Some f \<Rightarrow>
          (case sf_attributes f of
             None \<Rightarrow> None
           | Some (reparse, directory) \<Rightarrow> if reparse \<or> directory then None else Some f))"

text \<open>\<^verbatim>\<open>_wcsnicmp\<close> on as many units as the parent has.\<close>

definition PathUnder :: "broker_env \<Rightarrow> wstring \<Rightarrow> wstring \<Rightarrow> bool" where
  "PathUnder E path parent =
     (if parent = [] then False
      else
        let path_text = lexically_normal path; p = lexically_normal parent;
            parent_text = (if last p \<noteq> separator then p @ [separator] else p) in
        length path_text > length parent_text \<and>
        map (be_lower E) (take (length parent_text) path_text) = map (be_lower E) parent_text)"

function NoReparseAncestors :: "broker_env \<Rightarrow> wstring \<Rightarrow> bool" where
  "NoReparseAncestors E path =
     (if path = [] then True
      else case be_entry E path of
        None \<Rightarrow> False
      | Some f \<Rightarrow>
          (case sf_attributes f of
             None \<Rightarrow> False
           | Some (reparse, _) \<Rightarrow>
               if reparse then False
               else if parent_path path = path then True
               else NoReparseAncestors E (parent_path path)))"
  by pat_completeness auto
termination
  by (relation "measure (\<lambda>(E, path). length path)") (auto intro: parent_path_shorter)

declare NoReparseAncestors.simps [simp del]

definition TrustedBundleProvenance :: "broker_env \<Rightarrow> wstring \<Rightarrow> bool" where
  "TrustedBundleProvenance E bundle =
     (if \<not> NoReparseAncestors E bundle then False
      else if (case be_entry E bundle of
                 None \<Rightarrow> True
               | Some f \<Rightarrow> (case sf_attributes f of None \<Rightarrow> True | Some (reparse, directory) \<Rightarrow> reparse \<or> \<not> directory))
      then False
      else if (case be_programs E of None \<Rightarrow> False | Some p \<Rightarrow> PathUnder E bundle p) then True
      else if be_elevated E \<noteq> Some False then False
      else case be_user E of
        None \<Rightarrow> False
      | Some user \<Rightarrow> (case be_owner E bundle of None \<Rightarrow> False | Some own \<Rightarrow> own = user))"

definition Sha256 :: "broker_env \<Rightarrow> seen_file \<Rightarrow> string" where
  "Sha256 E f = (if sf_hashed f then hex_of (be_sha E (sf_content f)) else [])"

text \<open>The loop over the manifest: the files opened so far, the identity of the helper.\<close>

fun verify_entries :: "broker_env \<Rightarrow> wstring \<Rightarrow> (wstring \<times> string) list \<Rightarrow> seen_file list \<Rightarrow> HelperIdentity
    \<Rightarrow> (seen_file list \<times> HelperIdentity) option" where
  "verify_entries E rt [] files ident = Some (files, ident)"
| "verify_entries E rt ((name, digest) # es) files ident =
     (let path = append_path rt name in
      case OpenOrdinaryDirectFile E rt path of
        None \<Rightarrow> None
      | Some f \<Rightarrow>
          if Sha256 E f \<noteq> digest then None
          else if filename path = wide ''document_worker.exe'' then
            (case sf_identity f of
               None \<Rightarrow> None
             | Some i \<Rightarrow> verify_entries E rt es (files @ [f]) i)
          else verify_entries E rt es (files @ [f]) ident)"

definition VerifyPackage :: "broker_env \<Rightarrow> (wstring \<times> seen_file list \<times> HelperIdentity) option" where
  "VerifyPackage E =
     (let rt = BundleDirectory E in
      if rt = [] \<or> \<not> TrustedBundleProvenance E rt then None
      else case verify_entries E rt (be_manifest E) [] (0, 0, 0) of
        None \<Rightarrow> None
      | Some (files, ident) \<Rightarrow>
          if length files = length (be_manifest E) then Some (append_path rt (wide ''document_worker.exe''), files, ident)
          else None)"

text \<open>\<^verbatim>\<open>FAILED\<close> is a negative result; the container may be there already.\<close>

definition failed :: "32 word \<Rightarrow> bool" where
  "failed hr \<longleftrightarrow> hr <s 0"

definition AppContainerAvailable :: "broker_env \<Rightarrow> bool" where
  "AppContainerAvailable E =
     (let hr = (if failed (be_derive E) then be_create E else be_derive E) in \<not> failed hr \<or> hr = 0x800700B7)"

definition worker_capabilities :: "string list" where
  "worker_capabilities = [''isolatedProcess'', ''offline'', ''immutableInput'', ''boundedOutput'', ''osManagedMemoryIsolation'',
     ''wallDeadline'', ''workerInvalidatedAfterDeadline'']"

definition Capabilities :: "broker_env \<Rightarrow> EncodableValue" where
  "Capabilities E =
     (let ready = VerifyPackage E \<noteq> None \<and> AppContainerAvailable E in
      EvMap [(EvString ''version'', EvInt32 1), (EvString ''available'', EvBool ready),
             (EvString ''capabilities'', EvList (if ready then map EvString worker_capabilities else []))])"

section \<open>What a verified package is\<close>

text \<open>A file of the manifest is as it should be.\<close>

definition genuine :: "broker_env \<Rightarrow> wstring \<Rightarrow> wstring \<times> string \<Rightarrow> seen_file \<Rightarrow> bool" where
  "genuine E rt e f \<longleftrightarrow> OpenOrdinaryDirectFile E rt (append_path rt (fst e)) = Some f \<and> Sha256 E f = snd e"

lemma verify_entries_sound:
  "verify_entries E rt es files ident = Some (files', ident') \<Longrightarrow>
     \<exists>fs. files' = files @ fs \<and> list_all2 (genuine E rt) es fs \<and>
       (ident' = ident \<and> (\<forall>e\<in>set es. filename (append_path rt (fst e)) \<noteq> wide ''document_worker.exe'') \<or>
        (\<exists>e f. genuine E rt e f \<and> e \<in> set es \<and> f \<in> set fs \<and> filename (append_path rt (fst e)) = wide ''document_worker.exe'' \<and>
           sf_identity f = Some ident'))"
proof (induction es arbitrary: files ident)
  case (Cons e es)
  let ?helper = "filename (append_path rt (fst e)) = wide ''document_worker.exe''"
  from Cons.prems obtain f i where f: "genuine E rt e f" "verify_entries E rt es (files @ [f]) i = Some (files', ident')"
      "if ?helper then sf_identity f = Some i else i = ident"
    by (cases e) (auto simp: genuine_def Let_def split: option.splits if_splits)
  from Cons.IH [OF f(2)] obtain fs where fs: "files' = (files @ [f]) @ fs" "list_all2 (genuine E rt) es fs"
      "ident' = i \<and> (\<forall>e\<in>set es. filename (append_path rt (fst e)) \<noteq> wide ''document_worker.exe'') \<or>
        (\<exists>e f. genuine E rt e f \<and> e \<in> set es \<and> f \<in> set fs \<and> filename (append_path rt (fst e)) = wide ''document_worker.exe'' \<and>
           sf_identity f = Some ident')" by blast
  show ?case
    by (rule exI [of _ "f # fs"]) (use fs f(1,3) in \<open>auto simp del: split_paired_Ex split: if_splits\<close>)
qed simp

end
