(* ===== verification/Worker_Broker.thy ===== *)
theory Worker_Broker
  imports Broker_Package
begin

text \<open>
  The broker of the Windows document worker, \<^verbatim>\<open>windows/runner/document_worker_broker.cpp\<close>: the method
  channel on the platform thread and the thread that runs one helper process, as steps that
  interleave. A step of the worker thread is the code between two points at which the other thread,
  the helper or Windows can make a difference; what Windows answers is part of the step. Jobs and
  processes are numbered; a process in a job dies when the job is terminated or its last handle
  closed, which the flag \<^verbatim>\<open>KILL_ON_JOB_CLOSE\<close> promises.
\<close>

definition kMaxRequest :: nat where "kMaxRequest = 108 + 10 * 1024 * 1024"

definition kMaxBrokerResponse :: nat where "kMaxBrokerResponse = 1024 * 1024"

section \<open>State\<close>

text \<open>A process outside every job, one in a job (each is made suspended and runs once it is resumed), one that is over.\<close>

datatype process_state = Outside bool | InJob nat bool | Gone int

datatype broker_reply = BrokerError string | BrokerSuccess EncodableValue

text \<open>Where the worker thread is: the request it serves (its number and bytes), its process and job.\<close>

datatype point =
    Finished
  | Preparing nat "byte list" wstring HelperIdentity
  | Launched nat "byte list" nat nat
  | Assigned nat "byte list" nat nat
  | Published nat "byte list" nat
  | Feeding nat "byte list" nat nat
  | Collecting nat "byte list" nat
  | Waiting nat "byte list" nat
  | TimedOut nat nat
  | Cleaning

text \<open>Where the platform thread is: free, about to terminate the job it has read, in the destructor.\<close>

datatype platform = Free | Terminating "nat option" | Stopping "nat option" | Joining | Destroyed

record broker =
  bk_running :: bool
  bk_job :: "nat option"
  bk_thread :: point
  bk_platform :: platform
  bk_open :: "nat set"
  bk_processes :: "nat \<Rightarrow> process_state option"
  bk_next :: nat
  bk_requests :: nat
  bk_answers :: "(nat \<times> broker_reply) list"

definition new_broker :: broker where
  "new_broker = \<lparr>bk_running = False, bk_job = None, bk_thread = Finished, bk_platform = Free, bk_open = {},
     bk_processes = Map.empty, bk_next = 0, bk_requests = 0, bk_answers = []\<rparr>"

definition answer_request :: "nat \<Rightarrow> broker_reply \<Rightarrow> broker \<Rightarrow> broker" where
  "answer_request r v b = b\<lparr>bk_answers := (r, v) # bk_answers b\<rparr>"

definition at_point :: "point \<Rightarrow> broker \<Rightarrow> broker" where
  "at_point p b = b\<lparr>bk_thread := p\<rparr>"

text \<open>What ends a process: nothing happens to one that is over.\<close>

definition kill_process :: "nat \<Rightarrow> broker \<Rightarrow> broker" where
  "kill_process p b =
     b\<lparr>bk_processes := (bk_processes b)(p := (case bk_processes b p of None \<Rightarrow> None | Some (Gone c) \<Rightarrow> Some (Gone c) | Some _ \<Rightarrow> Some (Gone 1)))\<rparr>"

definition kill_job :: "nat \<Rightarrow> broker \<Rightarrow> broker" where
  "kill_job j b =
     b\<lparr>bk_processes := (\<lambda>p. case bk_processes b p of Some (InJob i run) \<Rightarrow> if i = j then Some (Gone 1) else Some (InJob i run) | s \<Rightarrow> s)\<rparr>"

text \<open>\<^verbatim>\<open>TerminateJobObject\<close> on a handle: it may fail, and does when the handle is closed.\<close>

definition terminate_job :: "bool \<Rightarrow> nat \<Rightarrow> broker \<Rightarrow> broker" where
  "terminate_job ok j b = (if ok \<and> j \<in> bk_open b then kill_job j b else b)"

definition terminate_own :: "bool \<Rightarrow> broker \<Rightarrow> broker" where
  "terminate_own ok b = (case bk_job b of None \<Rightarrow> b | Some j \<Rightarrow> terminate_job ok j b)"

text \<open>\<^verbatim>\<open>CloseHandle\<close> of the one handle of a job.\<close>

definition close_job :: "nat \<Rightarrow> broker \<Rightarrow> broker" where
  "close_job j b = kill_job j b\<lparr>bk_open := bk_open b - {j}\<rparr>"

section \<open>The platform thread\<close>

definition Run :: "broker_env \<Rightarrow> EncodableValue option \<Rightarrow> broker \<Rightarrow> broker" where
  "Run E arguments b =
     (let r = bk_requests b; b = b\<lparr>bk_requests := r + 1\<rparr> in
      case arguments of
        Some (EvBytes bytes) \<Rightarrow>
          if length bytes < 108 \<or> length bytes > kMaxRequest
          then answer_request r (BrokerError ''invalid_document_worker_request'') b
          else (case VerifyPackage E of
                  None \<Rightarrow> answer_request r (BrokerError ''document_worker_unavailable'') b
                | Some (helper, files, ident) \<Rightarrow>
                    if \<not> AppContainerAvailable E then answer_request r (BrokerError ''document_worker_unavailable'') b
                    else if bk_running b then answer_request r (BrokerError ''document_worker_busy'') b
                    else at_point (Preparing r bytes helper ident) (b\<lparr>bk_running := True\<rparr>))
      | _ \<Rightarrow> answer_request r (BrokerError ''invalid_document_worker_request'') b)"

text \<open>
  The calls of the channel. \<^verbatim>\<open>terminate\<close> and the destructor read the job under the lock and use it
  after; the destructor then waits for the thread.
\<close>

datatype call = CallRun broker_env "EncodableValue option" | CallCapabilities broker_env | CallTerminate | CallStop
  | CallOther

fun broker_call :: "call \<Rightarrow> broker \<Rightarrow> broker" where
  "broker_call (CallRun E arguments) b = Run E arguments b"
| "broker_call (CallCapabilities E) b = b"
| "broker_call CallTerminate b = b\<lparr>bk_platform := Terminating (bk_job b)\<rparr>"
| "broker_call CallStop b = b\<lparr>bk_platform := Stopping (bk_job b)\<rparr>"
| "broker_call CallOther b = b"

definition platform_continues :: "bool \<Rightarrow> broker \<Rightarrow> broker option" where
  "platform_continues ok b =
     (case bk_platform b of
        Terminating j \<Rightarrow> Some ((case j of None \<Rightarrow> b | Some j \<Rightarrow> terminate_job ok j b)\<lparr>bk_platform := Free\<rparr>)
      | Stopping j \<Rightarrow> Some ((case j of None \<Rightarrow> b | Some j \<Rightarrow> terminate_job ok j b)\<lparr>bk_platform := Joining\<rparr>)
      | Joining \<Rightarrow> if bk_thread b = Finished then Some (b\<lparr>bk_platform := Destroyed\<rparr>) else None
      | _ \<Rightarrow> None)"

section \<open>The worker thread\<close>

text \<open>
  From the pipes to \<^verbatim>\<open>CreateProcessW\<close>: the calls in their order (pipes, job and its limits, container,
  attributes, the second look at the helper, the process). \<open>oks\<close> says which of the eight succeed that
  answer no more than that: two pipes, the job, its limits, three for the attributes, the process. An
  early return closes the local job, in which there is nothing yet.
\<close>

definition same_helper :: "broker_env \<Rightarrow> wstring \<Rightarrow> HelperIdentity \<Rightarrow> bool" where
  "same_helper E helper ident =
     (case OpenOrdinaryDirectFile E (BundleDirectory E) helper of
        None \<Rightarrow> False
      | Some f \<Rightarrow> sf_identity f = Some ident)"

definition prepare_process :: "broker_env \<Rightarrow> bool list \<Rightarrow> nat \<Rightarrow> byte list \<Rightarrow> wstring \<Rightarrow> HelperIdentity \<Rightarrow> broker \<Rightarrow> broker" where
  "prepare_process E oks r bytes helper ident b =
     (if oks \<noteq> replicate 8 True \<or> failed (be_derive E) \<or> \<not> same_helper E helper ident
      then at_point Cleaning (answer_request r (BrokerError ''document_worker_unavailable'') b)
      else at_point (Launched r bytes (bk_next b) (bk_next b))
        (b\<lparr>bk_next := bk_next b + 1, bk_open := insert (bk_next b) (bk_open b),
           bk_processes := (bk_processes b)(bk_next b \<mapsto> Outside False)\<rparr>))"

text \<open>What Windows answers to the worker thread.\<close>

datatype read_answer = GotBytes "byte list" | PipeBroken | ReadFailed

datatype answer_event =
    Prepared broker_env "bool list"
  | AssignedToJob bool bool
  | Locked
  | Resumed bool
  | Wrote "nat option" bool
  | ReadSome read_answer bool
  | Waited bool bool
  | Reaped
  | Cleaned

text \<open>The loop that writes the request stops at a write that fails or writes nothing.\<close>

definition feed_process :: "nat option \<Rightarrow> bool \<Rightarrow> nat \<Rightarrow> byte list \<Rightarrow> nat \<Rightarrow> nat \<Rightarrow> broker \<Rightarrow> broker option" where
  "feed_process written ok r bytes sent p b =
     (case written of
        Some n \<Rightarrow>
          if n > min (length bytes - sent) 65536 then None
          else if n > 0 then
            Some (at_point (if sent + n < length bytes then Feeding r bytes (sent + n) p else Collecting r [] p) b)
          else Some (at_point Cleaning (answer_request r (BrokerError ''document_worker_died'') (terminate_own ok b)))
      | None \<Rightarrow> Some (at_point Cleaning (answer_request r (BrokerError ''document_worker_died'') (terminate_own ok b))))"

definition collect_response :: "read_answer \<Rightarrow> bool \<Rightarrow> nat \<Rightarrow> byte list \<Rightarrow> nat \<Rightarrow> broker \<Rightarrow> broker option" where
  "collect_response a ok r response p b =
     (case a of
        ReadFailed \<Rightarrow> Some (at_point Cleaning (answer_request r (BrokerError ''document_worker_died'') (terminate_own ok b)))
      | PipeBroken \<Rightarrow> Some (at_point (Waiting r response p) b)
      | GotBytes bs \<Rightarrow>
          if length bs > 65536 then None
          else if bs = [] then Some (at_point (Waiting r response p) b)
          else if length response + length bs > kMaxBrokerResponse
          then Some (at_point Cleaning (answer_request r (BrokerError ''document_worker_output_limit'') (terminate_own ok b)))
          else Some (at_point (Collecting r (response @ bs) p) b))"

text \<open>The process is over when the wait says so; \<^verbatim>\<open>GetExitCodeProcess\<close> may fail and leave 1.\<close>

definition exit_reply :: "int \<Rightarrow> byte list \<Rightarrow> broker_reply" where
  "exit_reply code response =
     (if code \<noteq> 0 \<or> response = [] then BrokerError ''document_worker_died'' else BrokerSuccess (EvBytes response))"

definition await_process :: "bool \<Rightarrow> bool \<Rightarrow> nat \<Rightarrow> byte list \<Rightarrow> nat \<Rightarrow> broker \<Rightarrow> broker option" where
  "await_process signalled ok r response p b =
     (if signalled then
        (case bk_processes b p of
           Some (Gone code) \<Rightarrow>
             Some (at_point Cleaning (answer_request r (exit_reply (if ok then code else 1) response) b))
         | _ \<Rightarrow> None)
      else Some (at_point (TimedOut r p) (terminate_own ok b)))"

definition assign_process :: "bool \<Rightarrow> bool \<Rightarrow> nat \<Rightarrow> byte list \<Rightarrow> nat \<Rightarrow> nat \<Rightarrow> broker \<Rightarrow> broker" where
  "assign_process ok killed r bytes p j b =
     (if ok then at_point (Assigned r bytes p j) (b\<lparr>bk_processes := (bk_processes b)(p \<mapsto> InJob j False)\<rparr>)
      else at_point Cleaning (close_job j
        (answer_request r (BrokerError ''document_worker_unavailable'') (if killed then kill_process p b else b))))"

definition publish_job :: "nat \<Rightarrow> byte list \<Rightarrow> nat \<Rightarrow> nat \<Rightarrow> broker \<Rightarrow> broker" where
  "publish_job r bytes p j b = at_point (Published r bytes p) (b\<lparr>bk_job := Some j\<rparr>)"

definition resume_process :: "bool \<Rightarrow> nat \<Rightarrow> byte list \<Rightarrow> nat \<Rightarrow> broker \<Rightarrow> broker" where
  "resume_process ok r bytes p b =
     at_point (if bytes = [] then Collecting r [] p else Feeding r bytes 0 p)
       (b\<lparr>bk_processes := (bk_processes b)(p := (case bk_processes b p of
          Some (Outside run) \<Rightarrow> Some (Outside (run \<or> ok))
        | Some (InJob j run) \<Rightarrow> Some (InJob j (run \<or> ok))
        | s \<Rightarrow> s))\<rparr>)"

definition reap_process :: "nat \<Rightarrow> nat \<Rightarrow> broker \<Rightarrow> broker option" where
  "reap_process r p b =
     (case bk_processes b p of
        Some (Gone _) \<Rightarrow> Some (at_point Cleaning (answer_request r (BrokerError ''document_worker_timeout'') b))
      | _ \<Rightarrow> None)"

definition clean_up :: "broker \<Rightarrow> broker" where
  "clean_up b = at_point Finished ((case bk_job b of None \<Rightarrow> b | Some j \<Rightarrow> close_job j b)\<lparr>bk_job := None, bk_running := False\<rparr>)"

definition worker_step :: "answer_event \<Rightarrow> broker \<Rightarrow> broker option" where
  "worker_step a b =
     (case bk_thread b of
        Finished \<Rightarrow> None
      | Preparing r bytes helper ident \<Rightarrow> (case a of Prepared E oks \<Rightarrow> Some (prepare_process E oks r bytes helper ident b) | _ \<Rightarrow> None)
      | Launched r bytes p j \<Rightarrow> (case a of AssignedToJob ok killed \<Rightarrow> Some (assign_process ok killed r bytes p j b) | _ \<Rightarrow> None)
      | Assigned r bytes p j \<Rightarrow> (case a of Locked \<Rightarrow> Some (publish_job r bytes p j b) | _ \<Rightarrow> None)
      | Published r bytes p \<Rightarrow> (case a of Resumed ok \<Rightarrow> Some (resume_process ok r bytes p b) | _ \<Rightarrow> None)
      | Feeding r bytes sent p \<Rightarrow> (case a of Wrote written ok \<Rightarrow> feed_process written ok r bytes sent p b | _ \<Rightarrow> None)
      | Collecting r response p \<Rightarrow> (case a of ReadSome x ok \<Rightarrow> collect_response x ok r response p b | _ \<Rightarrow> None)
      | Waiting r response p \<Rightarrow> (case a of Waited signalled ok \<Rightarrow> await_process signalled ok r response p b | _ \<Rightarrow> None)
      | TimedOut r p \<Rightarrow> (case a of Reaped \<Rightarrow> reap_process r p b | _ \<Rightarrow> None)
      | Cleaning \<Rightarrow> (case a of Cleaned \<Rightarrow> Some (clean_up b) | _ \<Rightarrow> None))"

section \<open>Steps\<close>

text \<open>A running process may end by itself.\<close>

datatype event = Platform call | PlatformContinues bool | Worker answer_event | Exits nat int

definition process_exits :: "nat \<Rightarrow> int \<Rightarrow> broker \<Rightarrow> broker option" where
  "process_exits p code b =
     (case bk_processes b p of
        Some (InJob j True) \<Rightarrow> Some (b\<lparr>bk_processes := (bk_processes b)(p \<mapsto> Gone code)\<rparr>)
      | Some (Outside True) \<Rightarrow> Some (b\<lparr>bk_processes := (bk_processes b)(p \<mapsto> Gone code)\<rparr>)
      | _ \<Rightarrow> None)"

fun broker_step :: "event \<Rightarrow> broker \<Rightarrow> broker option" where
  "broker_step (Platform c) b = (if bk_platform b = Free then Some (broker_call c b) else None)"
| "broker_step (PlatformContinues ok) b = platform_continues ok b"
| "broker_step (Worker a) b = worker_step a b"
| "broker_step (Exits p code) b = process_exits p code b"

inductive broker_reach :: "broker \<Rightarrow> bool" where
  start: "broker_reach new_broker"
| step: "broker_reach b \<Longrightarrow> broker_step e b = Some b' \<Longrightarrow> broker_reach b'"

end
