(* ===== verification/Broker_Safety.thy ===== *)
theory Broker_Safety
  imports Worker_Broker
begin

text \<open>
  The invariants of the broker over every interleaving of its two threads, the helper and Windows:
  who owns jobs and processes, and that no process runs outside a job.
\<close>

section \<open>Processes in jobs\<close>

definition alive :: "broker \<Rightarrow> (nat \<times> nat \<times> bool) set" where
  "alive b = {(p, j, run). bk_processes b p = Some (InJob j run)}"

lemma alive_updates [simp]:
  "alive (b\<lparr>bk_running := x1\<rparr>) = alive b" "alive (b\<lparr>bk_job := x2\<rparr>) = alive b" "alive (b\<lparr>bk_thread := x3\<rparr>) = alive b"
  "alive (b\<lparr>bk_platform := x4\<rparr>) = alive b" "alive (b\<lparr>bk_open := x5\<rparr>) = alive b" "alive (b\<lparr>bk_next := x6\<rparr>) = alive b"
  "alive (b\<lparr>bk_requests := x7\<rparr>) = alive b" "alive (b\<lparr>bk_answers := x8\<rparr>) = alive b"
  by (simp_all add: alive_def)

lemma alive_process: "alive (b\<lparr>bk_processes := (bk_processes b)(p := s)\<rparr>) =
    {(q, j, run) \<in> alive b. q \<noteq> p} \<union> {(q, j, run). q = p \<and> s = Some (InJob j run)}"
  by (auto simp: alive_def split: if_splits)

lemma answer_request_simps [simp]:
  "bk_running (answer_request r v b) = bk_running b" "bk_job (answer_request r v b) = bk_job b"
  "bk_thread (answer_request r v b) = bk_thread b" "bk_platform (answer_request r v b) = bk_platform b"
  "bk_open (answer_request r v b) = bk_open b" "bk_processes (answer_request r v b) = bk_processes b"
  "bk_next (answer_request r v b) = bk_next b" "bk_requests (answer_request r v b) = bk_requests b"
  "bk_answers (answer_request r v b) = (r, v) # bk_answers b" "alive (answer_request r v b) = alive b"
  by (simp_all add: answer_request_def alive_def)

lemma at_point_simps [simp]:
  "bk_running (at_point p b) = bk_running b" "bk_job (at_point p b) = bk_job b" "bk_thread (at_point p b) = p"
  "bk_platform (at_point p b) = bk_platform b" "bk_open (at_point p b) = bk_open b"
  "bk_processes (at_point p b) = bk_processes b" "bk_next (at_point p b) = bk_next b"
  "bk_requests (at_point p b) = bk_requests b" "bk_answers (at_point p b) = bk_answers b" "alive (at_point p b) = alive b"
  by (simp_all add: at_point_def alive_def)

lemma kill_process_simps [simp]:
  "bk_running (kill_process p b) = bk_running b" "bk_job (kill_process p b) = bk_job b" "bk_thread (kill_process p b) = bk_thread b"
  "bk_platform (kill_process p b) = bk_platform b" "bk_open (kill_process p b) = bk_open b" "bk_next (kill_process p b) = bk_next b"
  "bk_requests (kill_process p b) = bk_requests b" "bk_answers (kill_process p b) = bk_answers b"
  by (simp_all add: kill_process_def)

lemma kill_job_simps [simp]:
  "bk_running (kill_job j b) = bk_running b" "bk_job (kill_job j b) = bk_job b" "bk_thread (kill_job j b) = bk_thread b"
  "bk_platform (kill_job j b) = bk_platform b" "bk_open (kill_job j b) = bk_open b" "bk_next (kill_job j b) = bk_next b"
  "bk_requests (kill_job j b) = bk_requests b" "bk_answers (kill_job j b) = bk_answers b"
  "alive (kill_job j b) = {(p, i, run) \<in> alive b. i \<noteq> j}"
  by (auto simp: kill_job_def alive_def split: option.splits process_state.splits if_splits)

lemma alive_kill_process: "alive (kill_process p b) \<subseteq> alive b"
  by (auto simp: kill_process_def alive_def split: option.splits process_state.splits if_splits)

lemma terminate_simps [simp]:
  "bk_running (terminate_job ok j b) = bk_running b" "bk_job (terminate_job ok j b) = bk_job b" "bk_thread (terminate_job ok j b) = bk_thread b"
  "bk_platform (terminate_job ok j b) = bk_platform b" "bk_open (terminate_job ok j b) = bk_open b" "bk_next (terminate_job ok j b) = bk_next b"
  "bk_requests (terminate_job ok j b) = bk_requests b" "bk_answers (terminate_job ok j b) = bk_answers b"
  by (simp_all add: terminate_job_def)

lemma alive_terminate_job: "alive (terminate_job ok j b) \<subseteq> alive b"
  by (auto simp: terminate_job_def)

lemma terminate_own_simps [simp]:
  "bk_running (terminate_own ok b) = bk_running b" "bk_job (terminate_own ok b) = bk_job b" "bk_thread (terminate_own ok b) = bk_thread b"
  "bk_platform (terminate_own ok b) = bk_platform b" "bk_open (terminate_own ok b) = bk_open b" "bk_next (terminate_own ok b) = bk_next b"
  "bk_requests (terminate_own ok b) = bk_requests b" "bk_answers (terminate_own ok b) = bk_answers b"
  by (simp_all add: terminate_own_def split: option.split)

lemma alive_terminate_own: "alive (terminate_own ok b) \<subseteq> alive b"
  using alive_terminate_job by (auto simp: terminate_own_def split: option.splits)

lemma close_job_simps [simp]:
  "bk_running (close_job j b) = bk_running b" "bk_job (close_job j b) = bk_job b" "bk_thread (close_job j b) = bk_thread b"
  "bk_platform (close_job j b) = bk_platform b" "bk_open (close_job j b) = bk_open b - {j}" "bk_next (close_job j b) = bk_next b"
  "bk_requests (close_job j b) = bk_requests b" "bk_answers (close_job j b) = bk_answers b"
  "alive (close_job j b) = {(p, i, run) \<in> alive b. i \<noteq> j}"
  by (simp_all add: close_job_def)

lemmas alive_smaller = alive_kill_process [THEN subsetD] alive_terminate_job [THEN subsetD] alive_terminate_own [THEN subsetD]

section \<open>Who owns what\<close>

text \<open>The job \<open>j\<close> is the only open one, and no process is in a job but \<open>p\<close>, in \<open>j\<close>.\<close>

definition owns :: "broker \<Rightarrow> nat \<Rightarrow> nat \<Rightarrow> bool" where
  "owns b j p \<longleftrightarrow> bk_open b = {j} \<and> alive b \<subseteq> {(p, j, False), (p, j, True)}"

definition owns_nothing :: "broker \<Rightarrow> bool" where
  "owns_nothing b \<longleftrightarrow> bk_job b = None \<and> bk_open b = {} \<and> alive b = {}"

definition serves :: "broker \<Rightarrow> nat \<Rightarrow> bool" where
  "serves b p \<longleftrightarrow> bk_running b \<and> (\<exists>j. bk_job b = Some j \<and> owns b j p)"

definition owned :: "broker \<Rightarrow> bool" where
  "owned b \<longleftrightarrow>
     (case bk_thread b of
        Finished \<Rightarrow> \<not> bk_running b \<and> owns_nothing b
      | Preparing r bytes helper ident \<Rightarrow> bk_running b \<and> owns_nothing b
      | Launched r bytes p j \<Rightarrow> bk_running b \<and> bk_job b = None \<and> bk_open b = {j} \<and> alive b = {}
      | Assigned r bytes p j \<Rightarrow> bk_running b \<and> bk_job b = None \<and> bk_open b = {j} \<and> alive b \<subseteq> {(p, j, False)}
      | Published r bytes p \<Rightarrow> bk_running b \<and> (\<exists>j. bk_job b = Some j \<and> bk_open b = {j} \<and> alive b \<subseteq> {(p, j, False)})
      | Feeding r bytes sent p \<Rightarrow> serves b p
      | Collecting r response p \<Rightarrow> serves b p
      | Waiting r response p \<Rightarrow> serves b p
      | TimedOut r p \<Rightarrow> serves b p
      | Cleaning \<Rightarrow> bk_running b \<and> (owns_nothing b \<or> (\<exists>p. serves b p)))"

lemma owned_new: "owned new_broker"
  by (simp add: owned_def new_broker_def owns_nothing_def alive_def)

lemma alive_start: "alive b = {} \<Longrightarrow> alive (b\<lparr>bk_next := n, bk_open := js, bk_processes := (bk_processes b)(p \<mapsto> Outside False)\<rparr>) = {}"
  by (auto simp: alive_def split: if_splits)

text \<open>Less alive, and the rest the same, is as well owned.\<close>

lemma owned_less:
  assumes "owned b" "bk_running b' = bk_running b" "bk_job b' = bk_job b" "bk_thread b' = bk_thread b" "bk_open b' = bk_open b"
    "alive b' \<subseteq> alive b"
  shows "owned b'"
  using assms by (auto simp: owned_def owns_def owns_nothing_def serves_def dest: subset_trans split: point.splits)

lemma serves_less:
  "serves b p \<Longrightarrow> bk_running b' = bk_running b \<Longrightarrow> bk_job b' = bk_job b \<Longrightarrow> bk_open b' = bk_open b \<Longrightarrow> alive b' \<subseteq> alive b \<Longrightarrow> serves b' p"
  by (auto simp: serves_def owns_def dest: subset_trans)

lemma owned_platform: "owned b \<Longrightarrow> owned (b\<lparr>bk_platform := x\<rparr>)"
  by (erule owned_less) simp_all

lemma owned_call: "owned b \<Longrightarrow> owned (broker_call c b)"
proof (cases c)
  case (CallRun E arguments)
  have refused: "owned (answer_request r v (b\<lparr>bk_requests := n\<rparr>))" if "owned b" for r v n
    by (rule owned_less [OF that]) simp_all
  have taken: "owned (at_point (Preparing r bytes helper ident) (b\<lparr>bk_requests := n, bk_running := True\<rparr>))"
    if "owned b" "\<not> bk_running b" for r bytes helper ident n
    using that by (auto simp: owned_def owns_nothing_def serves_def split: point.splits)
  assume "owned b"
  with refused taken CallRun show ?thesis
    by (auto simp: Run_def Let_def split: option.split EncodableValue.split prod.split)
qed (simp_all add: owned_platform)

lemma owned_platform_continues:
  assumes "owned b" "platform_continues ok b = Some b'"
  shows "owned b'"
proof -
  have "owned ((case j of None \<Rightarrow> b | Some j \<Rightarrow> terminate_job ok j b)\<lparr>bk_platform := x\<rparr>)" for j x
    by (rule owned_platform) (cases j, simp_all add: assms(1), rule owned_less [OF assms(1)], simp_all add: alive_terminate_job)
  with assms show ?thesis
    by (auto simp: platform_continues_def owned_platform split: platform.splits if_splits)
qed

lemma owned_exits: "owned b \<Longrightarrow> process_exits p code b = Some b' \<Longrightarrow> owned b'"
  by (rule owned_less [of b]) (auto simp: process_exits_def alive_process split: option.splits process_state.splits bool.splits)

section \<open>The worker thread\<close>

lemma owned_cleaning:
  assumes "bk_running b'" "owns_nothing b' \<or> (\<exists>p. serves b' p)"
  shows "owned (at_point Cleaning b')"
  using assms by (auto simp: owned_def owns_nothing_def serves_def owns_def)

lemma serves_running: "serves b p \<Longrightarrow> bk_running b"
  by (simp add: serves_def)

lemma serves_terminated: "serves b p \<Longrightarrow> serves (terminate_own ok b) p"
  by (erule serves_less) (simp_all add: alive_terminate_own)

lemma serves_answered: "serves (answer_request r v b) p = serves b p"
  by (simp add: serves_def owns_def)

lemma serves_at: "serves (at_point x b) p = serves b p"
  by (simp add: serves_def owns_def)

lemma owned_died: "serves b p \<Longrightarrow> owned (at_point Cleaning (answer_request r v (terminate_own ok b)))"
  by (rule owned_cleaning) (auto simp: serves_answered serves_running intro: serves_terminated)

lemma owned_over: "serves b p \<Longrightarrow> owned (at_point Cleaning (answer_request r v b))"
  by (rule owned_cleaning) (auto simp: serves_answered serves_running)

lemma owned_assign:
  assumes "bk_running b" "bk_job b = None" "bk_open b = {j}" "alive b = {}"
  shows "owned (assign_process ok killed r bytes p j b)"
proof -
  have "alive (kill_process p b) = {}" using alive_kill_process [of p b] assms(4) by blast
  with assms show ?thesis by (auto simp: assign_process_def owned_def owns_nothing_def alive_process)
qed

lemma owned_clean_up:
  assumes "bk_running b" "owns_nothing b \<or> (\<exists>p. serves b p)"
  shows "owned (clean_up b)"
  using assms(2)
proof
  assume "owns_nothing b"
  then show ?thesis by (simp add: clean_up_def owned_def owns_nothing_def)
next
  assume "\<exists>p. serves b p"
  then obtain p j where "bk_job b = Some j" "bk_open b = {j}" "alive b \<subseteq> {(p, j, False), (p, j, True)}"
    by (auto simp: serves_def owns_def)
  then show ?thesis by (auto simp: clean_up_def owned_def owns_nothing_def)
qed

lemma alive_resume:
  "alive (resume_process ok r bytes p b) \<subseteq> {(q, j, run'). \<exists>run. (q, j, run) \<in> alive b}"
  by (auto simp: resume_process_def alive_def split: option.splits process_state.splits if_splits)

lemma owned_worker:
  assumes "owned b" "worker_step a b = Some b'"
  shows "owned b'"
proof (cases "bk_thread b")
  case Finished
  with assms show ?thesis by (simp add: worker_step_def)
next
  case (Preparing r bytes helper ident)
  with assms show ?thesis
    by (auto simp: worker_step_def prepare_process_def owned_def owns_nothing_def alive_start split: answer_event.splits if_splits)
next
  case (Launched r bytes p j)
  with assms owned_assign show ?thesis by (auto simp: worker_step_def owned_def split: answer_event.splits)
next
  case (Assigned r bytes p j)
  with assms show ?thesis by (auto simp: worker_step_def publish_job_def owned_def split: answer_event.splits)
next
  case (Published r bytes p)
  then obtain j where "bk_running b" "bk_job b = Some j" "bk_open b = {j}" "alive b \<subseteq> {(p, j, False)}"
    using assms(1) by (auto simp: owned_def)
  then have "serves (resume_process ok r bytes p b) p" for ok
    using alive_resume [of ok r bytes p b] by (auto simp: serves_def owns_def) (auto simp: resume_process_def)
  with assms(2) Published show ?thesis
    by (auto simp: worker_step_def owned_def split: answer_event.splits) (auto simp: resume_process_def)
next
  case (Feeding r bytes sent p)
  then have b: "serves b p" using assms(1) by (simp add: owned_def)
  with assms(2) Feeding owned_died [OF b] show ?thesis
    by (auto simp: worker_step_def feed_process_def owned_def serves_at split: answer_event.splits option.splits if_splits)
next
  case (Collecting r response p)
  then have b: "serves b p" using assms(1) by (simp add: owned_def)
  with assms(2) Collecting owned_died [OF b] show ?thesis
    by (auto simp: worker_step_def collect_response_def owned_def serves_at split: answer_event.splits read_answer.splits if_splits)
next
  case (Waiting r response p)
  then have b: "serves b p" using assms(1) by (simp add: owned_def)
  with assms(2) Waiting owned_over [OF b] serves_terminated [OF b] show ?thesis
    by (auto simp: worker_step_def await_process_def owned_def serves_at split: answer_event.splits option.splits process_state.splits if_splits)
next
  case (TimedOut r p)
  then have b: "serves b p" using assms(1) by (simp add: owned_def)
  with assms(2) TimedOut owned_over [OF b] show ?thesis
    by (auto simp: worker_step_def reap_process_def split: answer_event.splits option.splits process_state.splits)
next
  case Cleaning
  with assms owned_clean_up show ?thesis by (auto simp: worker_step_def owned_def split: answer_event.splits)
qed

lemma owned_step:
  assumes "owned b" "broker_step e b = Some b'"
  shows "owned b'"
proof (cases e)
  case (Platform c)
  with assms owned_call [OF assms(1)] show ?thesis by (simp split: if_splits) blast
next
  case (PlatformContinues ok)
  with assms owned_platform_continues show ?thesis by simp
next
  case (Worker a)
  with assms owned_worker show ?thesis by simp
next
  case (Exits p code)
  with assms owned_exits show ?thesis by simp
qed

lemma reach_owned: "broker_reach b \<Longrightarrow> owned b"
  by (induction rule: broker_reach.induct) (auto simp: owned_new intro: owned_step)

section \<open>Runs\<close>

fun broker_steps :: "event list \<Rightarrow> broker \<Rightarrow> broker option" where
  "broker_steps [] b = Some b"
| "broker_steps (e # es) b = (case broker_step e b of None \<Rightarrow> None | Some b' \<Rightarrow> broker_steps es b')"

lemma steps_reach: "broker_reach b \<Longrightarrow> broker_steps es b = Some b' \<Longrightarrow> broker_reach b'"
  by (induction es arbitrary: b) (auto split: option.splits intro: broker_reach.step)

lemma steps_append: "broker_steps (es @ fs) b = (case broker_steps es b of None \<Rightarrow> None | Some b' \<Rightarrow> broker_steps fs b')"
  by (induction es arbitrary: b) (auto split: option.splits)

text \<open>What holds after every run, with the events that led there.\<close>

lemma steps_induct [consumes 1, case_names start step]:
  assumes "broker_steps es new_broker = Some b" "P [] new_broker"
    and "\<And>es b e b'. broker_steps es new_broker = Some b \<Longrightarrow> broker_reach b \<Longrightarrow> P es b \<Longrightarrow> broker_step e b = Some b' \<Longrightarrow> P (es @ [e]) b'"
  shows "P es b"
  using assms(1)
proof (induction es arbitrary: b rule: rev_induct)
  case Nil
  with assms(2) show ?case by simp
next
  case (snoc e es)
  from snoc.prems obtain b1 where "broker_steps es new_broker = Some b1" "broker_step e b1 = Some b"
    by (auto simp: steps_append split: option.splits)
  then show ?case using assms(3) snoc.IH steps_reach [OF broker_reach.start] by blast
qed

section \<open>Processes outside jobs\<close>

text \<open>
  No process outside the jobs runs, and there is none but the one that was just made and those that
  could neither be assigned nor terminated.
\<close>

definition outside :: "broker \<Rightarrow> nat set" where
  "outside b = {p. \<exists>run. bk_processes b p = Some (Outside run)}"

definition confined :: "bool \<Rightarrow> broker \<Rightarrow> bool" where
  "confined given_up b \<longleftrightarrow> (\<forall>p. bk_processes b p \<noteq> Some (Outside True)) \<and>
     (case bk_thread b of
        Launched r bytes p j \<Rightarrow> given_up \<or> outside b \<subseteq> {p}
      | Assigned r bytes p j \<Rightarrow> p \<notin> outside b \<and> (given_up \<or> outside b = {})
      | Published r bytes p \<Rightarrow> p \<notin> outside b \<and> (given_up \<or> outside b = {})
      | _ \<Rightarrow> given_up \<or> outside b = {})"

text \<open>Only the processes and the thread count; what kills processes puts none outside.\<close>

definition no_worse :: "broker \<Rightarrow> broker \<Rightarrow> bool" where
  "no_worse b b' \<longleftrightarrow> (\<forall>p run. bk_processes b' p = Some (Outside run) \<longrightarrow> bk_processes b p = Some (Outside run))"

lemma no_worse_intros:
  "bk_processes b' = bk_processes b \<Longrightarrow> no_worse b b'"
  "no_worse b (kill_process p b)" "no_worse b (kill_job j b)" "no_worse b (terminate_job ok j b)" "no_worse b (terminate_own ok b)"
  "no_worse b (close_job j b)" "process_exits p code b = Some b' \<Longrightarrow> no_worse b b'"
  by (auto simp: no_worse_def kill_process_def kill_job_def terminate_job_def terminate_own_def close_job_def process_exits_def
    split: option.splits process_state.splits if_splits bool.splits)

lemma no_worse_outside: "no_worse b b' \<Longrightarrow> outside b' \<subseteq> outside b"
  by (auto simp: no_worse_def outside_def)

lemma no_worse_trans: "no_worse a b \<Longrightarrow> no_worse b c \<Longrightarrow> no_worse a c"
  by (auto simp: no_worse_def)

lemma confined_same: "confined g b \<Longrightarrow> no_worse b b' \<Longrightarrow> bk_thread b' = bk_thread b \<Longrightarrow> confined g b'"
  using no_worse_outside [of b b'] by (auto simp: confined_def no_worse_def split: point.splits)

lemma confined_given_up: "confined g b \<Longrightarrow> confined (g \<or> h) b"
  by (auto simp: confined_def split: point.splits)

text \<open>At most points that is all there is to it.\<close>

definition settled :: "bool \<Rightarrow> broker \<Rightarrow> bool" where
  "settled given_up b \<longleftrightarrow> (\<forall>p. bk_processes b p \<noteq> Some (Outside True)) \<and> (given_up \<or> outside b = {})"

fun special :: "point \<Rightarrow> bool" where
  "special (Launched r bytes p j) = True"
| "special (Assigned r bytes p j) = True"
| "special (Published r bytes p) = True"
| "special _ = False"

lemma confined_settled: "\<not> special (bk_thread b) \<Longrightarrow> confined g b = settled g b"
  by (cases "bk_thread b") (simp_all add: confined_def settled_def)

lemma settled_worse: "settled g b \<Longrightarrow> no_worse b b' \<Longrightarrow> settled g b'"
  using no_worse_outside [of b b'] by (auto simp: settled_def no_worse_def)

lemma settled_at:
  assumes "settled g b" "no_worse b b'" "\<not> special pt"
  shows "confined g (at_point pt b')"
  using settled_worse [OF assms(1,2)] assms(3) by (subst confined_settled) (simp_all add: settled_def outside_def)

lemma no_worse_answer: "no_worse b b' \<Longrightarrow> no_worse b (answer_request r v b')"
  by (simp add: no_worse_def)

lemma no_worse_closed: "no_worse b (close_job j (answer_request r v b))"
  by (rule no_worse_trans [OF no_worse_answer no_worse_intros(6)]) (rule no_worse_intros(1), rule refl)

lemma confined_assign:
  assumes "confined g b" "bk_thread b = Launched r bytes p j"
  shows "confined (g \<or> \<not> ok \<and> \<not> killed) (assign_process ok killed r bytes p j b)"
proof (cases ok)
  case True
  with assms show ?thesis by (auto simp: confined_def assign_process_def outside_def split: if_splits)
next
  case False
  show ?thesis
  proof (cases killed)
    case True
    have "settled g (kill_process p b)"
      using assms by (auto simp: settled_def confined_def outside_def kill_process_def split: option.splits process_state.splits if_splits)
    with False True settled_at [OF this no_worse_closed] show ?thesis by (simp add: assign_process_def)
  next
    case killed: False
    have "settled True b" using assms by (auto simp: settled_def confined_def)
    with False killed settled_at [OF this no_worse_closed] show ?thesis by (simp add: assign_process_def)
  qed
qed

lemma confined_resume:
  assumes "confined g b" "bk_thread b = Published r bytes p"
  shows "confined g (resume_process ok r bytes p b)"
proof -
  have "settled g b" "p \<notin> outside b" using assms by (auto simp: settled_def confined_def)
  moreover have "no_worse b (resume_process ok r bytes p b)"
    using \<open>p \<notin> outside b\<close> by (auto simp: no_worse_def resume_process_def outside_def split: option.splits process_state.splits if_splits)
  moreover have "\<not> special (bk_thread (resume_process ok r bytes p b))" by (simp add: resume_process_def)
  ultimately show ?thesis by (simp add: confined_settled settled_worse)
qed

lemma confined_worker:
  assumes "confined g b" "worker_step a b = Some b'"
  shows "confined (g \<or> a = AssignedToJob False False) b'"
proof (cases "special (bk_thread b)")
  case True
  then consider r bytes p j where "bk_thread b = Launched r bytes p j" | r bytes p j where "bk_thread b = Assigned r bytes p j"
    | r bytes p where "bk_thread b = Published r bytes p" by (cases "bk_thread b") auto
  then show ?thesis
  proof cases
    case 1
    with assms confined_assign [OF assms(1) 1] show ?thesis by (auto simp: worker_step_def split: answer_event.splits)
  next
    case 2
    with assms show ?thesis
      by (auto simp: worker_step_def publish_job_def confined_def outside_def split: answer_event.splits)
  next
    case 3
    with assms confined_resume [OF assms(1) 3] show ?thesis by (auto simp: worker_step_def split: answer_event.splits)
  qed
next
  case False
  then have s: "settled g b" using assms(1) by (simp add: confined_settled)
  note move = settled_at [OF s] no_worse_answer no_worse_intros(5) no_worse_intros(1) [OF refl]
  have clean: "confined g (clean_up b)"
    unfolding clean_up_def by (rule move) (auto simp: no_worse_def close_job_def kill_job_def split: option.splits process_state.splits if_splits)
  have prepare: "confined g (prepare_process E oks r bytes helper ident b)" for E oks r bytes helper ident
    using s by (auto simp: prepare_process_def confined_def settled_def outside_def)
  have "confined g b'"
    using assms(2) False clean prepare
    by (auto simp: worker_step_def feed_process_def collect_response_def await_process_def reap_process_def
      split: point.splits answer_event.splits option.splits read_answer.splits process_state.splits if_splits intro!: move)
  then show ?thesis by (rule confined_given_up)
qed

lemma confined_step:
  assumes "confined g b" "broker_step e b = Some b'" "owned b"
  shows "confined (g \<or> e = Worker (AssignedToJob False False)) b'"
proof (cases e)
  case (Platform c)
  have "confined g (broker_call c b)"
  proof (cases "bk_thread (broker_call c b) = bk_thread b")
    case True
    have "no_worse b (broker_call c b)"
      by (rule no_worse_intros) (cases c, auto simp: Run_def Let_def split: option.split EncodableValue.split prod.split)
    from confined_same [OF assms(1) this True] show ?thesis .
  next
    case False
    with assms(3) have "\<not> special (bk_thread b)" "\<not> special (bk_thread (broker_call c b))" "bk_processes (broker_call c b) = bk_processes b"
      by (cases c; auto simp: Run_def Let_def owned_def serves_def split: if_splits option.splits EncodableValue.splits prod.splits point.splits)+
    with assms(1) show ?thesis by (simp add: confined_settled settled_def outside_def)
  qed
  with assms(2) Platform show ?thesis by (auto split: if_splits)
next
  case (PlatformContinues ok)
  have "no_worse b b' \<and> bk_thread b' = bk_thread b"
    using assms(2) PlatformContinues
    by (auto simp: platform_continues_def no_worse_def terminate_job_def kill_job_def
      split: platform.splits option.splits process_state.splits if_splits)
  with PlatformContinues confined_same [OF assms(1)] show ?thesis by simp
next
  case (Worker a)
  with assms(2) confined_worker [OF assms(1)] show ?thesis by simp
next
  case (Exits p code)
  with assms(2) have "no_worse b b'" "bk_thread b' = bk_thread b"
    by (auto simp: no_worse_def process_exits_def split: option.splits process_state.splits bool.splits if_splits)
  with Exits confined_same [OF assms(1)] show ?thesis by simp
qed

lemma steps_confined:
  "broker_steps es new_broker = Some b \<Longrightarrow> confined (Worker (AssignedToJob False False) \<in> set es) b"
proof (induction rule: steps_induct)
  case start
  show ?case by (simp add: confined_def new_broker_def outside_def)
next
  case (step es b e b')
  from confined_step [OF step(4,3) reach_owned [OF step(2)]] show ?case by (simp add: disj_commute eq_commute)
qed

end
