(* ===== verification/Broker_Liveness.thy ===== *)
theory Broker_Liveness
  imports Broker_Safety
begin

text \<open>
  Every request is answered once, and when the calls of the worker thread return the broker becomes
  free again: the account of requests and answers, the measure of the worker's steps, infinite runs.
\<close>

section \<open>The account\<close>

fun served :: "point \<Rightarrow> nat option" where
  "served (Preparing r _ _ _) = Some r"
| "served (Launched r _ _ _) = Some r"
| "served (Assigned r _ _ _) = Some r"
| "served (Published r _ _) = Some r"
| "served (Feeding r _ _ _) = Some r"
| "served (Collecting r _ _) = Some r"
| "served (Waiting r _ _) = Some r"
| "served (TimedOut r _) = Some r"
| "served _ = None"

definition point_ok :: "point \<Rightarrow> bool" where
  "point_ok pt \<longleftrightarrow>
     (case pt of
        Feeding r bytes sent p \<Rightarrow> sent < length bytes
      | Collecting r response p \<Rightarrow> length response \<le> kMaxBrokerResponse
      | Waiting r response p \<Rightarrow> length response \<le> kMaxBrokerResponse
      | _ \<Rightarrow> True)"

definition broker_errors :: "string set" where
  "broker_errors = {''invalid_document_worker_request'', ''document_worker_unavailable'', ''document_worker_busy'',
     ''document_worker_died'', ''document_worker_output_limit'', ''document_worker_timeout''}"

definition reply_ok :: "broker_reply \<Rightarrow> bool" where
  "reply_ok v \<longleftrightarrow>
     (case v of
        BrokerError e \<Rightarrow> e \<in> broker_errors
      | BrokerSuccess x \<Rightarrow> \<exists>bs. x = EvBytes bs \<and> bs \<noteq> [] \<and> length bs \<le> kMaxBrokerResponse)"

definition answered :: "broker \<Rightarrow> nat set" where
  "answered b = fst ` set (bk_answers b)"

definition accounted :: "broker \<Rightarrow> bool" where
  "accounted b \<longleftrightarrow>
     distinct (map fst (bk_answers b)) \<and> answered b \<union> set_option (served (bk_thread b)) = {..<bk_requests b} \<and>
     answered b \<inter> set_option (served (bk_thread b)) = {} \<and> point_ok (bk_thread b) \<and> (\<forall>(r, v) \<in> set (bk_answers b). reply_ok v)"

lemma accounted_new: "accounted new_broker"
  by (simp add: accounted_def new_broker_def answered_def point_ok_def)

lemma reply_ok_errors [simp]: "e \<in> broker_errors \<Longrightarrow> reply_ok (BrokerError e)"
  by (simp add: reply_ok_def)

text \<open>The ways a step changes the account.\<close>

lemma accounted_move:
  assumes "accounted b" "bk_answers b' = bk_answers b" "bk_requests b' = bk_requests b"
    "served (bk_thread b') = served (bk_thread b)" "point_ok (bk_thread b')"
  shows "accounted b'"
  using assms by (simp add: accounted_def answered_def)

lemma accounted_answer:
  assumes "accounted b" "served (bk_thread b) = Some r" "reply_ok v" "bk_answers b' = (r, v) # bk_answers b"
    "bk_requests b' = bk_requests b" "bk_thread b' = Cleaning"
  shows "accounted b'"
  using assms by (auto simp: accounted_def answered_def point_ok_def)

lemma accounted_refuse:
  assumes "accounted b" "reply_ok v"
  shows "accounted (answer_request (bk_requests b) v (b\<lparr>bk_requests := bk_requests b + 1\<rparr>))"
proof -
  have "answered b \<union> set_option (served (bk_thread b)) = {..<bk_requests b}" using assms(1) by (simp add: accounted_def)
  then have "bk_requests b \<notin> answered b" "served (bk_thread b) \<noteq> Some (bk_requests b)" by auto
  with assms show ?thesis by (auto simp: accounted_def answered_def lessThan_Suc)
qed

lemma accounted_take:
  assumes "accounted b" "bk_thread b = Finished"
  shows "accounted (at_point (Preparing (bk_requests b) bytes helper ident) (b\<lparr>bk_requests := bk_requests b + 1, bk_running := True\<rparr>))"
  using assms by (auto simp: accounted_def answered_def lessThan_Suc point_ok_def)

lemma accounted_call:
  assumes "accounted b" "owned b"
  shows "accounted (broker_call c b)"
proof (cases c)
  case (CallRun E arguments)
  have "bk_thread b = Finished" if "\<not> bk_running b"
    using that assms(2) by (auto simp: owned_def serves_def split: point.splits)
  with CallRun accounted_refuse [OF assms(1)] accounted_take [OF assms(1)] show ?thesis
    by (simp add: Run_def Let_def broker_errors_def split: option.split EncodableValue.split prod.split)
qed (use assms(1) in \<open>simp_all add: accounted_def answered_def\<close>)

lemma accounted_platform_continues:
  assumes "accounted b" "platform_continues ok b = Some b'"
  shows "accounted b'"
  by (rule accounted_move [OF assms(1)])
    (use assms in \<open>auto simp: platform_continues_def accounted_def split: platform.splits option.splits if_splits\<close>)

lemma accounted_exits:
  assumes "accounted b" "process_exits p code b = Some b'"
  shows "accounted b'"
  by (rule accounted_move [OF assms(1)])
    (use assms in \<open>auto simp: process_exits_def accounted_def split: option.splits process_state.splits bool.splits\<close>)

lemma exit_reply_ok: "length response \<le> kMaxBrokerResponse \<Longrightarrow> reply_ok (exit_reply code response)"
  by (simp add: exit_reply_def reply_ok_def broker_errors_def)

section \<open>Progress\<close>

text \<open>More steps than this the worker thread does not take.\<close>

fun left :: "point \<Rightarrow> nat" where
  "left (Preparing r bytes _ _) = kMaxBrokerResponse + length bytes + 10"
| "left (Launched r bytes _ _) = kMaxBrokerResponse + length bytes + 9"
| "left (Assigned r bytes _ _) = kMaxBrokerResponse + length bytes + 8"
| "left (Published r bytes _) = kMaxBrokerResponse + length bytes + 7"
| "left (Feeding r bytes sent _) = kMaxBrokerResponse + (length bytes - sent) + 6"
| "left (Collecting r response _) = kMaxBrokerResponse - length response + 5"
| "left (Waiting r response _) = 4"
| "left (TimedOut r _) = 3"
| "left Cleaning = 2"
| "left Finished = 0"

lemma worker_step_cases:
  assumes "worker_step a b = Some b'" "point_ok (bk_thread b)"
  shows "left (bk_thread b') < left (bk_thread b) \<and> bk_requests b' = bk_requests b \<and>
    (bk_answers b' = bk_answers b \<and> served (bk_thread b') = served (bk_thread b) \<and> point_ok (bk_thread b') \<or>
     (\<exists>r v. served (bk_thread b) = Some r \<and> reply_ok v \<and> bk_answers b' = (r, v) # bk_answers b \<and> bk_thread b' = Cleaning))"
proof (cases "bk_thread b")
  case Finished
  with assms show ?thesis by (simp add: worker_step_def)
next
  case (Preparing r bytes helper ident)
  with assms show ?thesis
    by (auto simp: worker_step_def prepare_process_def point_ok_def broker_errors_def split: answer_event.splits if_splits)
next
  case (Launched r bytes p j)
  with assms show ?thesis
    by (auto simp: worker_step_def assign_process_def point_ok_def broker_errors_def split: answer_event.splits if_splits)
next
  case (Assigned r bytes p j)
  with assms show ?thesis by (auto simp: worker_step_def publish_job_def point_ok_def split: answer_event.splits)
next
  case (Published r bytes p)
  with assms show ?thesis by (auto simp: worker_step_def resume_process_def point_ok_def split: answer_event.splits)
next
  case (Feeding r bytes sent p)
  with assms show ?thesis
    by (auto simp: worker_step_def feed_process_def point_ok_def broker_errors_def split: answer_event.splits option.splits if_splits)
next
  case (Collecting r response p)
  with assms(1) obtain x ok where x: "a = ReadSome x ok" "collect_response x ok r response p b = Some b'"
    by (auto simp: worker_step_def split: answer_event.splits)
  have response: "length response \<le> kMaxBrokerResponse" using Collecting assms(2) by (simp add: point_ok_def)
  show ?thesis
  proof (cases x)
    case (GotBytes bs)
    show ?thesis
    proof (cases "bs = []")
      case False
      then obtain c cs where "bs = c # cs" by (cases bs) auto
      with x(2) GotBytes Collecting response show ?thesis
        by (auto simp: collect_response_def point_ok_def broker_errors_def split: if_splits)
    qed (use x(2) GotBytes Collecting response in \<open>auto simp: collect_response_def point_ok_def\<close>)
  qed (use x(2) Collecting response in \<open>auto simp: collect_response_def point_ok_def broker_errors_def\<close>)
next
  case (Waiting r response p)
  then have "length response \<le> kMaxBrokerResponse" using assms(2) by (simp add: point_ok_def)
  with Waiting assms(1) show ?thesis
    by (auto simp: worker_step_def await_process_def point_ok_def exit_reply_ok
      split: answer_event.splits option.splits process_state.splits if_splits)
next
  case (TimedOut r p)
  with assms show ?thesis
    by (auto simp: worker_step_def reap_process_def broker_errors_def split: answer_event.splits option.splits process_state.splits)
next
  case Cleaning
  with assms show ?thesis
    by (auto simp: worker_step_def clean_up_def point_ok_def split: answer_event.splits option.splits)
qed

lemma accounted_worker:
  assumes "accounted b" "worker_step a b = Some b'"
  shows "accounted b'"
proof -
  have "point_ok (bk_thread b)" using assms(1) by (simp add: accounted_def)
  from worker_step_cases [OF assms(2) this] show ?thesis
    using accounted_move [OF assms(1)] accounted_answer [OF assms(1)] by blast
qed

lemma reach_accounted: "broker_reach b \<Longrightarrow> accounted b"
proof (induction rule: broker_reach.induct)
  case start
  show ?case by (rule accounted_new)
next
  case (step b e b')
  note owned = reach_owned [OF step.hyps(1)]
  show ?case
  proof (cases e)
    case (Platform c)
    with step accounted_call [OF step.IH owned] show ?thesis by (simp split: if_splits) blast
  next
    case (PlatformContinues ok)
    with step accounted_platform_continues show ?thesis by simp
  next
    case (Worker a)
    with step accounted_worker show ?thesis by simp
  next
    case (Exits p code)
    with step accounted_exits show ?thesis by simp
  qed
qed

text \<open>No other step moves a thread that has work.\<close>

lemma thread_moves:
  assumes "broker_step e b = Some b'" "owned b" "bk_thread b \<noteq> Finished" "\<nexists>a. e = Worker a"
  shows "bk_thread b' = bk_thread b"
proof -
  have "bk_running b" using assms(2,3) by (auto simp: owned_def serves_def split: point.splits)
  then have "bk_thread (broker_call c b) = bk_thread b" for c
    by (cases c) (auto simp: Run_def Let_def split: option.split EncodableValue.split prod.split)
  with assms show ?thesis
    by (cases e) (auto simp: platform_continues_def process_exits_def
      split: if_splits platform.splits option.splits process_state.splits bool.splits)
qed

lemma requests_grow: "broker_step e b = Some b' \<Longrightarrow> accounted b \<Longrightarrow> bk_requests b \<le> bk_requests b'"
proof -
  assume s: "broker_step e b = Some b'" and a: "accounted b"
  have call: "bk_requests b \<le> bk_requests (broker_call c b)" for c
    by (cases c) (auto simp: Run_def Let_def split: option.split EncodableValue.split prod.split)
  have "bk_requests x = bk_requests b" if "worker_step y b = Some x" for x y
    using worker_step_cases [OF that] a by (simp add: accounted_def)
  with s call show ?thesis
    by (cases e) (auto simp: platform_continues_def process_exits_def
      split: if_splits platform.splits option.splits process_state.splits bool.splits)
qed

section \<open>Runs\<close>

definition broker_run :: "(nat \<Rightarrow> broker) \<Rightarrow> (nat \<Rightarrow> event) \<Rightarrow> bool" where
  "broker_run s e \<longleftrightarrow> s 0 = new_broker \<and> (\<forall>n. broker_step (e n) (s n) = Some (s (Suc n)))"

text \<open>The calls of the worker thread return: while it has work it takes another step.\<close>

definition calls_return :: "(nat \<Rightarrow> broker) \<Rightarrow> (nat \<Rightarrow> event) \<Rightarrow> bool" where
  "calls_return s e \<longleftrightarrow> (\<forall>n. bk_thread (s n) \<noteq> Finished \<longrightarrow> (\<exists>m\<ge>n. \<exists>a. e m = Worker a))"

lemma run_reach: "broker_run s e \<Longrightarrow> broker_reach (s n)"
  by (induction n) (auto simp: broker_run_def intro: broker_reach.intros)

lemma thread_waits:
  assumes "broker_run s e" "bk_thread (s n) \<noteq> Finished" "\<And>i. n \<le> i \<Longrightarrow> i < m \<Longrightarrow> \<nexists>a. e i = Worker a" "n \<le> m"
  shows "bk_thread (s m) = bk_thread (s n)"
  using assms(4,3)
proof (induction rule: dec_induct)
  case (step i)
  then have "bk_thread (s i) = bk_thread (s n)" by simp
  moreover have "broker_step (e i) (s i) = Some (s (Suc i))" using assms(1) by (simp add: broker_run_def)
  ultimately show ?case
    using thread_moves [OF _ reach_owned [OF run_reach [OF assms(1)]]] assms(2) step by (metis lessI)
qed simp

lemma becomes_free:
  assumes "broker_run s e" "calls_return s e"
  shows "\<exists>m\<ge>n. bk_thread (s m) = Finished"
proof (induction "left (bk_thread (s n))" arbitrary: n rule: less_induct)
  case less
  show ?case
  proof (cases "bk_thread (s n) = Finished")
    case False
    with assms(2) have "\<exists>m. n \<le> m \<and> (\<exists>a. e m = Worker a)" by (simp add: calls_return_def)
    define m where "m = (LEAST m. n \<le> m \<and> (\<exists>a. e m = Worker a))"
    have m: "n \<le> m" "\<exists>a. e m = Worker a"
      using LeastI_ex [OF \<open>\<exists>m. n \<le> m \<and> (\<exists>a. e m = Worker a)\<close>] by (simp_all add: m_def)
    have before: "\<nexists>a. e i = Worker a" if "n \<le> i" "i < m" for i
      using not_less_Least [of i "\<lambda>m. n \<le> m \<and> (\<exists>a. e m = Worker a)"] that by (auto simp: m_def)
    have same: "bk_thread (s m) = bk_thread (s n)" by (rule thread_waits [OF assms(1) False before m(1)])
    have "broker_step (e m) (s m) = Some (s (Suc m))" using assms(1) by (simp add: broker_run_def)
    moreover have "point_ok (bk_thread (s m))" using reach_accounted [OF run_reach [OF assms(1)]] by (simp add: accounted_def)
    ultimately have "left (bk_thread (s (Suc m))) < left (bk_thread (s n))"
      using m(2) worker_step_cases same by fastforce
    from less [OF this] m(1) show ?thesis by (meson Suc_leD le_trans)
  qed blast
qed

lemma run_requests_grow:
  assumes "broker_run s e" "n \<le> m"
  shows "bk_requests (s n) \<le> bk_requests (s m)"
  using assms(2)
proof (induction m rule: dec_induct)
  case (step m)
  have "broker_step (e m) (s m) = Some (s (Suc m))" using assms(1) by (simp add: broker_run_def)
  from requests_grow [OF this reach_accounted [OF run_reach [OF assms(1)]]] step.IH show ?case by simp
qed simp

lemma answered_in_the_end:
  assumes "broker_run s e" "calls_return s e" "r < bk_requests (s n)"
  shows "\<exists>m\<ge>n. r \<in> answered (s m) \<and> \<not> bk_running (s m)"
proof -
  obtain m where m: "n \<le> m" "bk_thread (s m) = Finished" using becomes_free [OF assms(1,2)] by blast
  have "answered (s m) = {..<bk_requests (s m)}"
    using reach_accounted [OF run_reach [OF assms(1)], of m] m(2) by (simp add: accounted_def)
  moreover have "\<not> bk_running (s m)" using reach_owned [OF run_reach [OF assms(1)], of m] m(2) by (simp add: owned_def)
  ultimately show ?thesis using m(1) assms(3) run_requests_grow [OF assms(1) m(1)] by auto
qed

end
