(* ===== verification/Document_Engine.thy ===== *)
theory Document_Engine
  imports Prelude Complex_Main
begin

text \<open>
  The native document engine, \<^verbatim>\<open>native/documents/\<close>: limits, the text of PDF pages, and the
  recognition of rasters and images. PDFium, Tesseract and Leptonica are code outside the repository:
  the record \<open>libs\<close> has what the engine asks of them. A C++ exception is a value of \<open>exn\<close>;
  \<^verbatim>\<open>size_t\<close> is a 64-bit word, \<^verbatim>\<open>int\<close> an integer (only compared, and computed with inside checked
  bounds). The mutex of \<^verbatim>\<open>process\<close> makes its calls sequential and is not modelled otherwise.
\<close>

unbundle bit_operations_syntax

section \<open>Data\<close>

datatype Operation = pdf_text | pdf_ocr | image_ocr | other_operation int
datatype Language = lang_eng | lang_rus | lang_eng_rus | other_language int
datatype Error = err_none | err_invalid_request | err_unsupported | err_invalid_document | err_limit
  | err_unavailable

text \<open>A pointer and a size; a null pointer has a size too.\<close>

record Bytes =
  by_null :: bool
  by_bytes :: "byte list"

record Limits =
  source_bytes :: "64 word"
  pdf_pages :: int
  selected_pages :: int
  raster_dimension :: int
  page_pixels :: "64 word"
  total_pixels :: "64 word"
  page_output_bytes :: "64 word"
  output_bytes :: "64 word"

definition ceiling_limits :: Limits where
  "ceiling_limits =
     \<lparr>source_bytes = 10485760, pdf_pages = 100, selected_pages = 25, raster_dimension = 4096,
      page_pixels = 4000000, total_pixels = 20000000, page_output_bytes = 262144,
      output_bytes = 1048576\<rparr>"

record Request =
  rqs_operation :: Operation
  rqs_language :: Language
  rqs_first_page :: int
  rqs_page_count :: int
  rqs_limits :: Limits
  rqs_source :: Bytes

record Page =
  pg_number :: int
  pg_text :: "byte list"
  pg_width :: int
  pg_height :: int

record Result =
  rs_error :: Error
  rs_page_count :: int
  rs_pages :: "Page list"

datatype exn = Failure Error | bad_alloc | other_exception

fun require :: "bool \<Rightarrow> Error \<Rightarrow> (unit \<Rightarrow> exn + 'a) \<Rightarrow> exn + 'a" where
  "require c e k = (if c then k () else Inl (Failure e))"

fun and_then :: "exn + 'a \<Rightarrow> ('a \<Rightarrow> exn + 'b) \<Rightarrow> exn + 'b" where
  "and_then (Inl e) k = Inl e"
| "and_then (Inr a) k = k a"

section \<open>The libraries\<close>

record Pix =
  pix_width :: int
  pix_height :: int
  pix_data :: "32 word list"

record tess_symbol =
  sym_text :: "byte list option"
  sym_ends_line :: bool
  sym_ends_word :: bool

text \<open>
  PDFium on the bytes of a document: the number of pages (\<open>None\<close>: it does not load), whether a page
  loads, its text page (\<open>None\<close>: it does not load), the number and values of its characters, its size
  in points (\<open>None\<close>: not finite), whether a bitmap of a size can be made, and the BGRA bytes after
  rendering. Tesseract: whether it starts with the language data it can read, and the symbols it
  finds (\<open>None\<close>: it fails; \<open>Some None\<close>: no iterator). Leptonica: the format of a buffer, the size
  in its header, the image in it, whether an image of a size can be made. \<open>can_allocate\<close>: whether
  memory for a raster is there.
\<close>

datatype image_format = IFF_PNG | IFF_JFIF_JPEG | IFF_other

record libs =
  pdf_count :: "byte list \<Rightarrow> int option"
  pdf_page_loads :: "byte list \<Rightarrow> int \<Rightarrow> bool"
  pdf_char_count :: "byte list \<Rightarrow> int \<Rightarrow> int option"
  pdf_unicode :: "byte list \<Rightarrow> int \<Rightarrow> int \<Rightarrow> 32 word"
  pdf_page_width :: "byte list \<Rightarrow> int \<Rightarrow> real option"
  pdf_page_height :: "byte list \<Rightarrow> int \<Rightarrow> real option"
  pdf_bitmap_ok :: "int \<Rightarrow> int \<Rightarrow> bool"
  pdf_render :: "byte list \<Rightarrow> int \<Rightarrow> int \<Rightarrow> int \<Rightarrow> byte list"
  tess_init :: "string \<Rightarrow> (string \<Rightarrow> byte list option) \<Rightarrow> bool"
  tess_recognize :: "Pix \<Rightarrow> string \<Rightarrow> tess_symbol list option option"
  lept_format :: "byte list \<Rightarrow> image_format option"
  lept_header :: "byte list \<Rightarrow> (int \<times> int) option"
  lept_read :: "byte list \<Rightarrow> Pix option"
  lept_create :: "int \<Rightarrow> int \<Rightarrow> bool"
  can_allocate :: "64 word \<Rightarrow> bool"

section \<open>Limits\<close>

definition check_pixels :: "int \<Rightarrow> int \<Rightarrow> Limits \<Rightarrow> 64 word \<Rightarrow> exn + 64 word" where
  "check_pixels width height lm used =
     require (width > 0 \<and> height > 0 \<and> width \<le> raster_dimension lm \<and> height \<le> raster_dimension lm) err_limit (\<lambda>_.
       let pixels = word_of_int width * word_of_int height in
       require (pixels \<le> page_pixels lm \<and> used \<le> total_pixels lm \<and> pixels \<le> total_pixels lm - used) err_limit (\<lambda>_.
         Inr (used + pixels)))"

definition append_bytes :: "byte list \<Rightarrow> byte list \<Rightarrow> 64 word \<Rightarrow> exn + byte list" where
  "append_bytes text bs limit =
     require (of_nat (length text) \<le> limit \<and> of_nat (length bs) \<le> limit - of_nat (length text)) err_limit (\<lambda>_.
       Inr (text @ bs))"

definition valid_limits :: "Limits \<Rightarrow> bool" where
  "valid_limits l \<longleftrightarrow>
     source_bytes l > 0 \<and> source_bytes l \<le> source_bytes ceiling_limits \<and>
     pdf_pages l > 0 \<and> pdf_pages l \<le> pdf_pages ceiling_limits \<and>
     selected_pages l > 0 \<and> selected_pages l \<le> selected_pages ceiling_limits \<and>
     raster_dimension l > 0 \<and> raster_dimension l \<le> raster_dimension ceiling_limits \<and>
     page_pixels l > 0 \<and> page_pixels l \<le> page_pixels ceiling_limits \<and>
     total_pixels l \<ge> page_pixels l \<and> total_pixels l \<le> total_pixels ceiling_limits \<and>
     page_output_bytes l > 0 \<and> page_output_bytes l \<le> page_output_bytes ceiling_limits \<and>
     output_bytes l > 0 \<and> output_bytes l \<le> output_bytes ceiling_limits"

section \<open>Text\<close>

definition utf8_bytes :: "32 word \<Rightarrow> byte list" where
  "utf8_bytes v =
     (if v < 0x80 then [ucast v]
      else if v < 0x800 then [ucast (0xc0 OR drop_bit 6 v), ucast (0x80 OR (v AND 63))]
      else if v < 0x10000 then
        [ucast (0xe0 OR drop_bit 12 v), ucast (0x80 OR (drop_bit 6 v AND 63)), ucast (0x80 OR (v AND 63))]
      else
        [ucast (0xf0 OR drop_bit 18 v), ucast (0x80 OR (drop_bit 12 v AND 63)),
         ucast (0x80 OR (drop_bit 6 v AND 63)), ucast (0x80 OR (v AND 63))])"

definition append_unicode :: "byte list \<Rightarrow> 32 word \<Rightarrow> 64 word \<Rightarrow> exn + byte list" where
  "append_unicode text v limit =
     require (v \<le> 0x10ffff \<and> \<not> (v \<ge> 0xd800 \<and> v \<le> 0xdfff)) err_invalid_document (\<lambda>_.
       append_bytes text (utf8_bytes v) limit)"

text \<open>The loop over the characters of a page, from the \<open>i\<close>-th on.\<close>

fun append_chars :: "32 word list \<Rightarrow> byte list \<Rightarrow> 64 word \<Rightarrow> exn + byte list" where
  "append_chars [] text limit = Inr text"
| "append_chars (v # vs) text limit =
     (if v \<noteq> 0 then and_then (append_unicode text v limit) (\<lambda>t. append_chars vs t limit)
      else append_chars vs text limit)"

definition page_text :: "libs \<Rightarrow> byte list \<Rightarrow> int \<Rightarrow> 64 word \<Rightarrow> exn + byte list" where
  "page_text E src i limit =
     (case pdf_char_count E src i of
        None \<Rightarrow> Inl (Failure err_invalid_document)
      | Some count \<Rightarrow>
          require (count \<ge> 0 \<and> word_of_int count \<le> limit) err_limit (\<lambda>_.
            append_chars (map (\<lambda>k. pdf_unicode E src i (int k)) [0..<nat count]) [] limit))"

section \<open>Recognition\<close>

definition read_language :: "Bytes \<Rightarrow> Bytes \<Rightarrow> string \<Rightarrow> byte list option" where
  "read_language eng rus filename =
     (let pick = (if filename = ''/mobilka-memory/eng.traineddata'' then Some eng
                  else if filename = ''/mobilka-memory/rus.traineddata'' then Some rus else None) in
      case pick of
        None \<Rightarrow> None
      | Some b \<Rightarrow> if by_null b \<or> by_bytes b = [] \<or> length (by_bytes b) > 16777216 then None
                  else Some (by_bytes b))"

definition language_name :: "Language \<Rightarrow> string" where
  "language_name l = (if l = lang_eng then ''eng'' else if l = lang_rus then ''rus'' else ''eng+rus'')"

text \<open>The scan for the end of a symbol, which stops one past what still fits.\<close>

function symbol_size :: "byte list \<Rightarrow> 64 word \<Rightarrow> nat \<Rightarrow> nat" where
  "symbol_size symbol remaining k =
     (if of_nat k \<le> remaining \<and> k < length symbol then symbol_size symbol remaining (Suc k) else k)"
  by pat_completeness auto
termination
  by (relation "measure (\<lambda>(s, _, k). length s - k)") auto

declare symbol_size.simps [simp del]

definition append_symbol :: "tess_symbol \<Rightarrow> byte list \<Rightarrow> 64 word \<Rightarrow> exn + byte list" where
  "append_symbol s text limit =
     (case sym_text s of
        None \<Rightarrow> Inr text
      | Some symbol \<Rightarrow>
          let sz = symbol_size symbol (limit - of_nat (length text)) 0 in
          and_then (append_bytes text (take sz symbol) limit) (\<lambda>t.
            if sym_ends_line s then append_bytes t [10] limit
            else if sym_ends_word s then append_bytes t [32] limit
            else Inr t))"

fun append_symbols :: "tess_symbol list \<Rightarrow> byte list \<Rightarrow> 64 word \<Rightarrow> exn + byte list" where
  "append_symbols [] text limit = Inr text"
| "append_symbols (s # ss) text limit =
     and_then (append_symbol s text limit) (\<lambda>t. append_symbols ss t limit)"

definition recognize :: "libs \<Rightarrow> Pix \<Rightarrow> Language \<Rightarrow> Bytes \<Rightarrow> Bytes \<Rightarrow> 64 word \<Rightarrow> exn + byte list" where
  "recognize E pic lang eng rus limit =
     require (tess_init E (language_name lang) (read_language eng rus)) err_unavailable (\<lambda>_.
       case tess_recognize E pic (language_name lang) of
         None \<Rightarrow> Inl (Failure err_invalid_document)
       | Some None \<Rightarrow> Inr []
       | Some (Some ss) \<Rightarrow> append_symbols ss [] limit)"

section \<open>Images\<close>

definition process_image :: "libs \<Rightarrow> Request \<Rightarrow> Bytes \<Rightarrow> Bytes \<Rightarrow> exn + Result" where
  "process_image E rq eng rus =
     (let src = by_bytes (rqs_source rq); lm = rqs_limits rq in
      require (rqs_first_page rq = 1 \<and> rqs_page_count rq = 1) err_invalid_request (\<lambda>_.
      require (length src \<ge> 12) err_invalid_document (\<lambda>_.
      case lept_format E src of
        None \<Rightarrow> Inl (Failure err_invalid_document)
      | Some fmt \<Rightarrow>
          require (fmt = IFF_PNG \<or> fmt = IFF_JFIF_JPEG) err_unsupported (\<lambda>_.
          case lept_header E src of
            None \<Rightarrow> Inl (Failure err_invalid_document)
          | Some (width, height) \<Rightarrow>
              and_then (check_pixels width height lm 0) (\<lambda>_.
              case lept_read E src of
                None \<Rightarrow> Inl (Failure err_invalid_document)
              | Some pic \<Rightarrow>
                  require (pix_width pic = width \<and> pix_height pic = height) err_invalid_document (\<lambda>_.
                  and_then (recognize E pic (rqs_language rq) eng rus
                              (min (page_output_bytes lm) (output_bytes lm))) (\<lambda>text.
                  Inr \<lparr>rs_error = err_none, rs_page_count = 1,
                       rs_pages = [\<lparr>pg_number = 1, pg_text = text, pg_width = pix_width pic,
                                    pg_height = pix_height pic\<rparr>]\<rparr>)))))))"

section \<open>PDF\<close>

text \<open>A pixel of the image from the four bytes of the BGRA raster.\<close>

definition pixel :: "byte list \<Rightarrow> nat \<Rightarrow> 32 word" where
  "pixel raster k = push_bit 24 (ucast (raster ! (4 * k + 2))) OR push_bit 16 (ucast (raster ! (4 * k + 1)))
     OR push_bit 8 (ucast (raster ! (4 * k)))"

definition pix_of_raster :: "int \<Rightarrow> int \<Rightarrow> byte list \<Rightarrow> Pix" where
  "pix_of_raster w h raster = \<lparr>pix_width = w, pix_height = h, pix_data = map (pixel raster) [0..<nat (w * h)]\<rparr>"

text \<open>The raster of a page: its text, its size, the pixels used so far.\<close>

definition page_raster :: "libs \<Rightarrow> Request \<Rightarrow> Bytes \<Rightarrow> Bytes \<Rightarrow> int \<Rightarrow> 64 word \<Rightarrow> 64 word
    \<Rightarrow> exn + (byte list \<times> int \<times> int \<times> 64 word)" where
  "page_raster E rq eng rus i limit pixels =
     (let src = by_bytes (rqs_source rq); lm = rqs_limits rq in
      case (pdf_page_width E src i, pdf_page_height E src i) of
        (Some pw, Some ph) \<Rightarrow>
          let width = pw * 2; height = ph * 2 in
          require (width > 0 \<and> height > 0 \<and> width \<le> of_int (raster_dimension lm) \<and>
                   height \<le> of_int (raster_dimension lm)) err_limit (\<lambda>_.
          let w = \<lceil>width\<rceil>; h = \<lceil>height\<rceil> in
          and_then (check_pixels w h lm pixels) (\<lambda>used.
          if \<not> can_allocate E (word_of_int w * word_of_int h * 4) then Inl bad_alloc
          else
          require (pdf_bitmap_ok E w h) err_limit (\<lambda>_.
          require (lept_create E w h) err_limit (\<lambda>_.
          and_then (recognize E (pix_of_raster w h (pdf_render E src i w h)) (rqs_language rq) eng rus limit) (\<lambda>text.
          Inr (text, w, h, used))))))
      | _ \<Rightarrow> Inl (Failure err_limit))"

definition pdf_page :: "libs \<Rightarrow> Request \<Rightarrow> Bytes \<Rightarrow> Bytes \<Rightarrow> int \<Rightarrow> 64 word \<Rightarrow> 64 word
    \<Rightarrow> exn + (byte list \<times> int \<times> int \<times> 64 word)" where
  "pdf_page E rq eng rus number output pixels =
     (let src = by_bytes (rqs_source rq); lm = rqs_limits rq in
      require (pdf_page_loads E src (number - 1)) err_invalid_document (\<lambda>_.
      let limit = min (page_output_bytes lm) (output_bytes lm - output) in
      if rqs_operation rq = pdf_text then
        and_then (page_text E src (number - 1) limit) (\<lambda>text. Inr (text, 0, 0, pixels))
      else page_raster E rq eng rus (number - 1) limit pixels))"

text \<open>The loop over the selected pages: \<open>k\<close> of them are left, \<open>number\<close> is the next.\<close>

fun pdf_pages_from :: "libs \<Rightarrow> Request \<Rightarrow> Bytes \<Rightarrow> Bytes \<Rightarrow> nat \<Rightarrow> int \<Rightarrow> 64 word \<Rightarrow> 64 word
    \<Rightarrow> exn + Page list" where
  "pdf_pages_from E rq eng rus 0 number output pixels = Inr []"
| "pdf_pages_from E rq eng rus (Suc k) number output pixels =
     and_then (pdf_page E rq eng rus number output pixels) (\<lambda>(text, w, h, used).
     and_then (pdf_pages_from E rq eng rus k (number + 1) (output + of_nat (length text)) used) (\<lambda>ps.
     Inr (\<lparr>pg_number = number, pg_text = text, pg_width = w, pg_height = h\<rparr> # ps)))"

definition process_pdf :: "libs \<Rightarrow> Request \<Rightarrow> Bytes \<Rightarrow> Bytes \<Rightarrow> exn + Result" where
  "process_pdf E rq eng rus =
     (case pdf_count E (by_bytes (rqs_source rq)) of
        None \<Rightarrow> Inl (Failure err_invalid_document)
      | Some pages \<Rightarrow>
          require (pages > 0 \<and> pages \<le> pdf_pages (rqs_limits rq)) err_limit (\<lambda>_.
          require (rqs_first_page rq \<le> pages \<and> rqs_page_count rq \<le> pages - rqs_first_page rq + 1) err_invalid_request (\<lambda>_.
          and_then (pdf_pages_from E rq eng rus (nat (rqs_page_count rq)) (rqs_first_page rq) 0 0) (\<lambda>ps.
          Inr \<lparr>rs_error = err_none, rs_page_count = pages, rs_pages = ps\<rparr>))))"

section \<open>The entry point\<close>

definition process_body :: "libs \<Rightarrow> Request \<Rightarrow> Bytes \<Rightarrow> Bytes \<Rightarrow> exn + Result" where
  "process_body E rq eng rus =
     (let l = rqs_limits rq; src = rqs_source rq in
      require (valid_limits l) err_invalid_request (\<lambda>_.
      require (\<not> by_null src \<and> length (by_bytes src) > 0 \<and> of_nat (length (by_bytes src)) \<le> source_bytes l \<and>
               rqs_first_page rq > 0 \<and> rqs_page_count rq > 0 \<and> rqs_page_count rq \<le> selected_pages l)
        err_invalid_request (\<lambda>_.
      require (rqs_language rq = lang_eng \<or> rqs_language rq = lang_rus \<or> rqs_language rq = lang_eng_rus)
        err_invalid_request (\<lambda>_.
      case rqs_operation rq of
        pdf_text \<Rightarrow> process_pdf E rq eng rus
      | pdf_ocr \<Rightarrow> process_pdf E rq eng rus
      | image_ocr \<Rightarrow> process_image E rq eng rus
      | other_operation _ \<Rightarrow> Inl (Failure err_invalid_request)))))"

definition process :: "libs \<Rightarrow> Request \<Rightarrow> Bytes \<Rightarrow> Bytes \<Rightarrow> Result" where
  "process E rq eng rus =
     (case process_body E rq eng rus of
        Inr r \<Rightarrow> r
      | Inl (Failure e) \<Rightarrow> \<lparr>rs_error = e, rs_page_count = 0, rs_pages = []\<rparr>
      | Inl bad_alloc \<Rightarrow> \<lparr>rs_error = err_limit, rs_page_count = 0, rs_pages = []\<rparr>
      | Inl other_exception \<Rightarrow> \<lparr>rs_error = err_invalid_document, rs_page_count = 0, rs_pages = []\<rparr>)"

end
