(* ===== verification/Engine_Bounds.thy ===== *)
theory Engine_Bounds
  imports Document_Engine
begin

text \<open>
  What the document engine guarantees whatever the documents are and whatever the libraries answer:
  the arithmetic of the limits does not wrap, text and rasters stay within them, and the text of a
  PDF page is the UTF-8 of its characters.
\<close>

section \<open>Failing early\<close>

lemma require_Inr [simp]: "require c e k = Inr r \<longleftrightarrow> c \<and> k () = Inr r"
  by simp

lemma and_then_Inr [simp]: "and_then x k = Inr r \<longleftrightarrow> (\<exists>a. x = Inr a \<and> k a = Inr r)"
  by (cases x) auto

section \<open>Pixels\<close>

lemma unat_area:
  assumes "0 < w" "0 < h" "w \<le> 4096" "h \<le> 4096"
  shows "unat (word_of_int w * word_of_int h :: 64 word) = nat (w * h)" "w * h \<le> 4096 * 4096"
proof -
  show le: "w * h \<le> 4096 * 4096" using assms by (intro mult_mono) auto
  have "uint (word_of_int (w * h) :: 64 word) = w * h"
    unfolding uint_word_of_int_eq using assms le by (intro take_bit_int_eq_self) auto
  then show "unat (word_of_int w * word_of_int h :: 64 word) = nat (w * h)"
    by (simp only: wi_hom_mult unat_eq_nat_uint)
qed

lemma check_pixels_Inr:
  assumes "raster_dimension lm \<le> 4096"
  shows "check_pixels w h lm used = Inr u \<longleftrightarrow>
    0 < w \<and> 0 < h \<and> w \<le> raster_dimension lm \<and> h \<le> raster_dimension lm \<and>
    nat (w * h) \<le> unat (page_pixels lm) \<and> unat used + nat (w * h) \<le> unat (total_pixels lm) \<and>
    unat u = unat used + nat (w * h)"
proof (cases "0 < w \<and> 0 < h \<and> w \<le> raster_dimension lm \<and> h \<le> raster_dimension lm")
  case False
  then show ?thesis by (auto simp: check_pixels_def)
next
  case True
  then have a: "unat (word_of_int w * word_of_int h :: 64 word) = nat (w * h)"
    using assms by (intro unat_area) auto
  let ?p = "word_of_int w * word_of_int h :: 64 word"
  have sum: "unat (used + ?p) = unat used + unat ?p" if "unat used + unat ?p \<le> unat (total_pixels lm)"
    using that unsigned_less [of "total_pixels lm", where ?'a = nat] by (simp add: unat_add_lem [symmetric])
  have "used \<le> total_pixels lm \<and> ?p \<le> total_pixels lm - used \<longleftrightarrow> unat used + unat ?p \<le> unat (total_pixels lm)"
    by (auto simp: word_le_nat_alt unat_sub)
  moreover have "u = used + ?p \<longleftrightarrow> unat u = unat (used + ?p)" by (simp add: word_unat_eq_iff)
  ultimately show ?thesis
    using True sum by (auto simp: check_pixels_def Let_def a [symmetric] word_le_nat_alt)
qed

section \<open>Text\<close>

lemma append_bytes_eq:
  assumes "length acc \<le> unat limit" "length bs < 2 ^ 64"
  shows "append_bytes acc bs limit =
    (if length acc + length bs \<le> unat limit then Inr (acc @ bs) else Inl (Failure err_limit))"
proof -
  have "length acc < 2 ^ 64" using assms(1) unsigned_less [of limit, where ?'a = nat] by simp
  then have t: "unat (of_nat (length acc) :: 64 word) = length acc" by (simp add: unat_of_nat)
  have b: "unat (of_nat (length bs) :: 64 word) = length bs" using assms(2) by (simp add: unat_of_nat)
  show ?thesis
    using assms(1) by (auto simp: append_bytes_def word_le_nat_alt unat_sub t b)
qed

definition scalar :: "32 word \<Rightarrow> bool" where
  "scalar v \<longleftrightarrow> v \<le> 0x10ffff \<and> \<not> (v \<ge> 0xd800 \<and> v \<le> 0xdfff)"

lemma length_utf8_bytes: "length (utf8_bytes v) \<le> 4"
  by (simp add: utf8_bytes_def)

lemma append_chars_Inr:
  "append_chars vs acc limit = Inr t \<Longrightarrow> length acc \<le> unat limit \<Longrightarrow>
     t = acc @ concat (map utf8_bytes (filter (\<lambda>v. v \<noteq> 0) vs)) \<and> length t \<le> unat limit \<and>
     (\<forall>v \<in> set vs. scalar v)"
proof (induction vs arbitrary: acc)
  case (Cons v vs)
  show ?case
  proof (cases "v = 0")
    case True
    with Cons show ?thesis by (auto simp: scalar_def)
  next
    case False
    then obtain t1 where t1: "append_unicode acc v limit = Inr t1" "append_chars vs t1 limit = Inr t"
      using Cons.prems(1) by auto
    have "length (utf8_bytes v) < 2 ^ 64" using length_utf8_bytes [of v] by simp
    with t1(1) Cons.prems(2) have u: "t1 = acc @ utf8_bytes v" "length t1 \<le> unat limit" "scalar v"
      by (auto simp: append_unicode_def append_bytes_eq scalar_def split: if_splits)
    from Cons.IH [OF t1(2) u(2)] u False show ?thesis by auto
  qed
qed simp

section \<open>Recognised text\<close>

lemma symbol_size_le: "symbol_size s r k \<le> max k (length s)"
proof (induction s r k rule: symbol_size.induct)
  case (1 s r k)
  then show ?case by (cases "of_nat k \<le> r \<and> k < length s") (auto simp: symbol_size.simps [of s r k])
qed

lemma symbol_size_fits: "r < 2 ^ 32 \<Longrightarrow> k < 2 ^ 33 \<Longrightarrow> symbol_size s r k < 2 ^ 33"
proof (induction s r k rule: symbol_size.induct)
  case (1 s r k)
  show ?case
  proof (cases "of_nat k \<le> r \<and> k < length s")
    case False
    then have "symbol_size s r k = k" by (subst symbol_size.simps, subst if_not_P) simp_all
    with 1 show ?thesis by simp
  next
    case True
    have "unat (of_nat k :: 64 word) = k" using 1(3) by (simp add: unat_of_nat)
    then have "k < 2 ^ 32" using True 1(2) by (simp add: word_le_nat_alt word_less_nat_alt)
    then have "symbol_size s r (Suc k) < 2 ^ 33" using 1 True by simp
    moreover have "symbol_size s r k = symbol_size s r (Suc k)" using True by (subst symbol_size.simps) simp
    ultimately show ?thesis by simp
  qed
qed

lemma append_symbol_Inr:
  assumes "append_symbol s acc limit = Inr t" "length acc \<le> unat limit" "limit < 2 ^ 32"
  shows "length t \<le> unat limit"
proof (cases "sym_text s")
  case None
  with assms show ?thesis by (simp add: append_symbol_def)
next
  case (Some symbol)
  let ?r = "limit - of_nat (length acc) :: 64 word"
  have l: "unat limit < 2 ^ 32" using assms(3) by (simp add: word_less_nat_alt)
  have "unat (of_nat (length acc) :: 64 word) = length acc" using assms(2) l by (simp add: unat_of_nat)
  then have "?r < 2 ^ 32" using assms(2) l by (simp add: word_less_nat_alt unat_sub word_le_nat_alt)
  then have "symbol_size symbol ?r 0 < 2 ^ 33" by (intro symbol_size_fits) simp_all
  then have "length (take (symbol_size symbol ?r 0) symbol) < 2 ^ 64" by simp
  then obtain t1 where t1: "append_bytes acc (take (symbol_size symbol ?r 0) symbol) limit = Inr t1"
      "length t1 \<le> unat limit"
      "(if sym_ends_line s then append_bytes t1 [10] limit
        else if sym_ends_word s then append_bytes t1 [32] limit else Inr t1) = Inr t"
    using assms(1,2) by (auto simp: append_symbol_def Some Let_def append_bytes_eq split: if_splits)
  then show ?thesis using append_bytes_eq [OF t1(2)] by (auto split: if_splits)
qed

lemma append_symbols_Inr:
  "append_symbols ss acc limit = Inr t \<Longrightarrow> length acc \<le> unat limit \<Longrightarrow> limit < 2 ^ 32 \<Longrightarrow> length t \<le> unat limit"
  by (induction ss arbitrary: acc) (auto dest: append_symbol_Inr)

lemma recognize_Inr: "recognize E p lang eng rus limit = Inr t \<Longrightarrow> limit < 2 ^ 32 \<Longrightarrow> length t \<le> unat limit"
  by (auto simp: recognize_def split: option.splits if_splits dest: append_symbols_Inr)

section \<open>Pages\<close>

lemma valid_limitsD:
  assumes "valid_limits lm"
  shows "raster_dimension lm \<le> 4096" "page_output_bytes lm \<le> 262144" "output_bytes lm \<le> 1048576"
    "selected_pages lm \<le> 25" "total_pixels lm \<le> 20000000"
  using assms by (simp_all add: valid_limits_def ceiling_limits_def)

text \<open>A page within the limits, with the raster size the operation gives it.\<close>

definition page_within :: "Operation \<Rightarrow> Limits \<Rightarrow> Page \<Rightarrow> bool" where
  "page_within oper lm p \<longleftrightarrow>
     length (pg_text p) \<le> unat (page_output_bytes lm) \<and>
     (if oper = pdf_text then pg_width p = 0 \<and> pg_height p = 0
      else 0 < pg_width p \<and> pg_width p \<le> raster_dimension lm \<and> 0 < pg_height p \<and> pg_height p \<le> raster_dimension lm
        \<and> nat (pg_width p * pg_height p) \<le> unat (page_pixels lm))"

lemma page_raster_Inr:
  assumes "page_raster E rq eng rus i limit pixels = Inr (acc, w, h, used)" "valid_limits (rqs_limits rq)" "limit < 2 ^ 32"
  shows "length acc \<le> unat limit \<and> 0 < w \<and> 0 < h \<and> w \<le> raster_dimension (rqs_limits rq) \<and>
    h \<le> raster_dimension (rqs_limits rq) \<and> nat (w * h) \<le> unat (page_pixels (rqs_limits rq)) \<and>
    unat used = unat pixels + nat (w * h) \<and> unat used \<le> unat (total_pixels (rqs_limits rq))"
proof -
  note d = valid_limitsD [OF assms(2)]
  from assms(1) obtain width height where
      c: "check_pixels w h (rqs_limits rq) pixels = Inr used"
        "recognize E (pix_of_raster w h (pdf_render E (by_bytes (rqs_source rq)) i w h)) (rqs_language rq) eng rus limit = Inr acc"
        "w = \<lceil>width * 2 :: real\<rceil>" "h = \<lceil>height * 2 :: real\<rceil>"
    unfolding page_raster_def Let_def
    by (auto split: option.splits if_splits simp del: require.simps)
  from check_pixels_Inr [OF d(1)] c(1) recognize_Inr [OF c(2) assms(3)] show ?thesis by auto
qed

lemma page_text_Inr:
  assumes "page_text E src i limit = Inr acc"
  shows "length acc \<le> unat limit \<and>
    (\<exists>vs. acc = concat (map utf8_bytes (filter (\<lambda>v. v \<noteq> 0) vs)) \<and> (\<forall>v \<in> set vs. scalar v) \<and>
       pdf_char_count E src i = Some (int (length vs)) \<and> vs = map (\<lambda>k. pdf_unicode E src i (int k)) [0..<length vs])"
proof -
  from assms obtain count where c: "pdf_char_count E src i = Some count" "count \<ge> 0"
      "append_chars (map (\<lambda>k. pdf_unicode E src i (int k)) [0..<nat count]) [] limit = Inr acc"
    unfolding page_text_def by (auto split: option.splits if_splits)
  from append_chars_Inr [OF c(3)] have a: "length acc \<le> unat limit"
      "acc = concat (map utf8_bytes (filter (\<lambda>v. v \<noteq> 0) (map (\<lambda>k. pdf_unicode E src i (int k)) [0..<nat count])))"
      "\<forall>v \<in> set (map (\<lambda>k. pdf_unicode E src i (int k)) [0..<nat count]). scalar v" by auto
  show ?thesis
    by (rule conjI [OF a(1)], rule exI [of _ "map (\<lambda>k. pdf_unicode E src i (int k)) [0..<nat count]"])
       (use a c in \<open>simp add: del: set_map\<close>)
qed

lemma unat_limit:
  assumes "valid_limits lm" "unat sofar \<le> unat (output_bytes lm)"
  shows "unat (min (page_output_bytes lm) (output_bytes lm - sofar)) =
      min (unat (page_output_bytes lm)) (unat (output_bytes lm) - unat sofar)"
    and "min (page_output_bytes lm) (output_bytes lm - sofar) < 2 ^ 32"
proof -
  have le: "sofar \<le> output_bytes lm" using assms(2) by (simp add: word_le_nat_alt)
  show "unat (min (page_output_bytes lm) (output_bytes lm - sofar)) =
      min (unat (page_output_bytes lm)) (unat (output_bytes lm) - unat sofar)"
    using le by (auto simp: min_def word_le_nat_alt unat_sub)
  have "unat (page_output_bytes lm) \<le> 262144" using valid_limitsD(2) [OF assms(1)] by (simp add: word_le_nat_alt)
  then show "min (page_output_bytes lm) (output_bytes lm - sofar) < 2 ^ 32"
    by (auto simp: min_def word_less_nat_alt word_le_nat_alt)
qed

lemma pdf_page_Inr:
  assumes "pdf_page E rq eng rus number sofar pixels = Inr (acc, w, h, used)" "valid_limits (rqs_limits rq)"
    and "unat sofar \<le> unat (output_bytes (rqs_limits rq))"
  shows "page_within (rqs_operation rq) (rqs_limits rq) \<lparr>pg_number = number, pg_text = acc, pg_width = w, pg_height = h\<rparr> \<and>
    unat sofar + length acc \<le> unat (output_bytes (rqs_limits rq)) \<and>
    unat used = unat pixels + nat (w * h) \<and>
    (unat pixels \<le> unat (total_pixels (rqs_limits rq)) \<longrightarrow> unat used \<le> unat (total_pixels (rqs_limits rq)))"
proof -
  let ?lm = "rqs_limits rq"
  let ?limit = "min (page_output_bytes ?lm) (output_bytes ?lm - sofar)"
  note l = unat_limit [OF assms(2,3)]
  have len: "length acc \<le> unat (page_output_bytes ?lm) \<and> unat sofar + length acc \<le> unat (output_bytes ?lm)"
    if "length acc \<le> unat ?limit" using that assms(3) unfolding l(1) by linarith
  show ?thesis
  proof (cases "rqs_operation rq = pdf_text")
    case True
    then have "page_text E (by_bytes (rqs_source rq)) (number - 1) ?limit = Inr acc" "w = 0" "h = 0" "used = pixels"
      using assms(1) by (auto simp: pdf_page_def Let_def split: if_splits)
    with len page_text_Inr [of E] True show ?thesis by (auto simp: page_within_def)
  next
    case False
    then have "page_raster E rq eng rus (number - 1) ?limit pixels = Inr (acc, w, h, used)"
      using assms(1) by (auto simp: pdf_page_def Let_def split: if_splits)
    from page_raster_Inr [OF this assms(2) l(2)] len False show ?thesis by (auto simp: page_within_def)
  qed
qed

lemma pdf_pages_from_Inr:
  "pdf_pages_from E rq eng rus k number sofar pixels = Inr ps \<Longrightarrow> valid_limits (rqs_limits rq) \<Longrightarrow>
   unat sofar \<le> unat (output_bytes (rqs_limits rq)) \<Longrightarrow>
   unat pixels \<le> unat (total_pixels (rqs_limits rq)) \<Longrightarrow>
     map pg_number ps = map (\<lambda>i. number + int i) [0..<k] \<and>
     list_all (page_within (rqs_operation rq) (rqs_limits rq)) ps \<and>
     unat sofar + sum_list (map (\<lambda>p. length (pg_text p)) ps) \<le> unat (output_bytes (rqs_limits rq)) \<and>
     unat pixels + sum_list (map (\<lambda>p. nat (pg_width p * pg_height p)) ps) \<le> unat (total_pixels (rqs_limits rq))"
proof (induction k arbitrary: number sofar pixels ps)
  case (Suc k)
  let ?lm = "rqs_limits rq"
  from Suc.prems(1) obtain acc w h used qs where p: "pdf_page E rq eng rus number sofar pixels = Inr (acc, w, h, used)"
      "pdf_pages_from E rq eng rus k (number + 1) (sofar + of_nat (length acc)) used = Inr qs"
      "ps = \<lparr>pg_number = number, pg_text = acc, pg_width = w, pg_height = h\<rparr> # qs"
    by auto
  note one = pdf_page_Inr [OF p(1) Suc.prems(2,3)]
  have "unat (output_bytes ?lm) \<le> 1048576" using valid_limitsD(3) [OF Suc.prems(2)] by (simp add: word_le_nat_alt)
  then have o: "unat (sofar + of_nat (length acc)) = unat sofar + length acc"
    using one by (simp add: unat_word_ariths unat_of_nat)
  have "unat (sofar + of_nat (length acc)) \<le> unat (output_bytes ?lm)" using one o by simp
  moreover have "unat used \<le> unat (total_pixels ?lm)" using one Suc.prems(4) by simp
  ultimately have rest: "map pg_number qs = map (\<lambda>i. (number + 1) + int i) [0..<k] \<and>
     list_all (page_within (rqs_operation rq) ?lm) qs \<and>
     unat (sofar + of_nat (length acc)) + sum_list (map (\<lambda>p. length (pg_text p)) qs) \<le> unat (output_bytes ?lm) \<and>
     unat used + sum_list (map (\<lambda>p. nat (pg_width p * pg_height p)) qs) \<le> unat (total_pixels ?lm)"
    by (intro Suc.IH [OF p(2) Suc.prems(2)])
  have "[0..<Suc k] = 0 # map Suc [0..<k]" by (simp add: upt_conv_Cons map_Suc_upt del: upt_Suc)
  then have "map (\<lambda>i. number + int i) [0..<Suc k] = number # map (\<lambda>i. (number + 1) + int i) [0..<k]"
    by (simp del: upt_Suc)
  with rest one o show ?case by (simp add: p(3))
qed simp

section \<open>Results\<close>

definition result_within :: "Request \<Rightarrow> Result \<Rightarrow> bool" where
  "result_within rq r \<longleftrightarrow>
     (let lm = rqs_limits rq; ps = rs_pages r in
      map pg_number ps = map (\<lambda>i. rqs_first_page rq + int i) [0..<nat (rqs_page_count rq)] \<and>
      list_all (page_within (rqs_operation rq) lm) ps \<and>
      sum_list (map (\<lambda>p. length (pg_text p)) ps) \<le> unat (output_bytes lm) \<and>
      sum_list (map (\<lambda>p. nat (pg_width p * pg_height p)) ps) \<le> unat (total_pixels lm) \<and>
      rqs_first_page rq + rqs_page_count rq - 1 \<le> rs_page_count r \<and> rs_page_count r \<le> pdf_pages lm)"

lemma process_pdf_within:
  assumes "process_pdf E rq eng rus = Inr r" "valid_limits (rqs_limits rq)"
  shows "rs_error r = err_none \<and> result_within rq r"
proof -
  from assms(1) obtain ps pages where p: "pdf_count E (by_bytes (rqs_source rq)) = Some pages"
      "pages \<le> pdf_pages (rqs_limits rq)" "rqs_page_count rq \<le> pages - rqs_first_page rq + 1"
      "pdf_pages_from E rq eng rus (nat (rqs_page_count rq)) (rqs_first_page rq) 0 0 = Inr ps"
      "r = \<lparr>rs_error = err_none, rs_page_count = pages, rs_pages = ps\<rparr>"
    unfolding process_pdf_def by (auto split: option.splits if_splits)
  from pdf_pages_from_Inr [OF p(4) assms(2)] p(2,3,5) show ?thesis
    by (simp add: result_within_def Let_def)
qed

lemma process_image_within:
  assumes "process_image E rq eng rus = Inr r" "valid_limits (rqs_limits rq)" "rqs_operation rq = image_ocr"
  shows "rs_error r = err_none \<and> result_within rq r"
proof -
  let ?lm = "rqs_limits rq"
  let ?limit = "min (page_output_bytes ?lm) (output_bytes ?lm)"
  from assms(1) obtain w h u pic acc where p: "rqs_first_page rq = 1" "rqs_page_count rq = 1"
      "check_pixels w h ?lm 0 = Inr u" "pix_width pic = w" "pix_height pic = h"
      "recognize E pic (rqs_language rq) eng rus ?limit = Inr acc"
      "r = \<lparr>rs_error = err_none, rs_page_count = 1, rs_pages =
        [\<lparr>pg_number = 1, pg_text = acc, pg_width = pix_width pic, pg_height = pix_height pic\<rparr>]\<rparr>"
    unfolding process_image_def Let_def by (auto split: option.splits if_splits)
  have l: "unat ?limit = min (unat (page_output_bytes ?lm)) (unat (output_bytes ?lm))" "?limit < 2 ^ 32"
    using unat_limit [OF assms(2), of 0] by simp_all
  have "length acc \<le> unat ?limit" by (rule recognize_Inr [OF p(6) l(2)])
  moreover have "1 \<le> pdf_pages ?lm" using assms(2) by (simp add: valid_limits_def)
  ultimately show ?thesis
    using p(1-5) assms(3) check_pixels_Inr [OF valid_limitsD(1) [OF assms(2)], of w h 0 u]
    by (simp add: p(7) l result_within_def Let_def page_within_def)
qed

lemma process_within:
  assumes "rs_error (process E rq eng rus) = err_none"
  shows "valid_limits (rqs_limits rq) \<and> 0 < rqs_first_page rq \<and> 0 < rqs_page_count rq \<and>
    rqs_page_count rq \<le> selected_pages (rqs_limits rq) \<and> result_within rq (process E rq eng rus) \<or>
    process_body E rq eng rus = Inl (Failure err_none)"
proof (cases "process_body E rq eng rus")
  case (Inl e)
  with assms show ?thesis by (cases e) (auto simp: process_def)
next
  case (Inr r)
  then have v: "valid_limits (rqs_limits rq)" "0 < rqs_first_page rq" "0 < rqs_page_count rq"
      "rqs_page_count rq \<le> selected_pages (rqs_limits rq)"
    by (auto simp: process_body_def Let_def split: if_splits)
  have r: "process E rq eng rus = r" using Inr by (simp add: process_def)
  have "process_pdf E rq eng rus = Inr r \<or> process_image E rq eng rus = Inr r \<and> rqs_operation rq = image_ocr"
    using Inr by (auto simp: process_body_def Let_def split: if_splits Operation.splits)
  then show ?thesis using process_pdf_within process_image_within v r by blast
qed

end
