(* ===== verification/Utf8.thy ===== *)
theory Utf8
  imports Engine_Bounds
begin

text \<open>
  UTF-8 as the reader of the engine's text understands it: the strict decoder of RFC 3629 (no
  overlong forms, no surrogates, nothing above 10FFFF), which is what \<^verbatim>\<open>utf8.decode\<close> of Dart does
  before it drops a leading byte-order mark. It is written in natural-number arithmetic,
  independently of the bit operations of \<open>append_unicode\<close>.
\<close>

unbundle bit_operations_syntax

section \<open>The decoder\<close>

definition cont :: "byte \<Rightarrow> bool" where
  "cont b \<longleftrightarrow> 0x80 \<le> unat b \<and> unat b < 0xc0"

fun utf8_next :: "byte list \<Rightarrow> (nat \<times> byte list) option" where
  "utf8_next [] = None"
| "utf8_next (b # bs) =
     (let n = unat b in
      if n < 0x80 then Some (n, bs)
      else if n < 0xc0 then None
      else if n < 0xe0 then
        (case bs of
           c # r \<Rightarrow> let v = (n - 0xc0) * 64 + (unat c - 0x80) in
             if cont c \<and> 0x80 \<le> v then Some (v, r) else None
         | _ \<Rightarrow> None)
      else if n < 0xf0 then
        (case bs of
           c # d # r \<Rightarrow> let v = (n - 0xe0) * 4096 + (unat c - 0x80) * 64 + (unat d - 0x80) in
             if cont c \<and> cont d \<and> 0x800 \<le> v \<and> \<not> (0xd800 \<le> v \<and> v \<le> 0xdfff) then Some (v, r) else None
         | _ \<Rightarrow> None)
      else if n < 0xf8 then
        (case bs of
           c # d # e # r \<Rightarrow>
             let v = (n - 0xf0) * 262144 + (unat c - 0x80) * 4096 + (unat d - 0x80) * 64 + (unat e - 0x80) in
             if cont c \<and> cont d \<and> cont e \<and> 0x10000 \<le> v \<and> v \<le> 0x10ffff then Some (v, r) else None
         | _ \<Rightarrow> None)
      else None)"

lemma utf8_next_shorter: "utf8_next bs = Some (v, r) \<Longrightarrow> length r < length bs"
  by (cases bs) (auto simp: Let_def split: if_splits list.splits)

function utf8_chars :: "byte list \<Rightarrow> nat list option" where
  "utf8_chars bs =
     (if bs = [] then Some []
      else case utf8_next bs of
             None \<Rightarrow> None
           | Some (v, r) \<Rightarrow> map_option ((#) v) (utf8_chars r))"
  by pat_completeness auto
termination
  by (relation "measure length") (auto dest: utf8_next_shorter)

declare utf8_chars.simps [simp del]

lemma utf8_chars_Nil [simp]: "utf8_chars [] = Some []"
  by (simp add: utf8_chars.simps)

lemma utf8_chars_next: "utf8_next bs = Some (v, r) \<Longrightarrow> utf8_chars bs = map_option ((#) v) (utf8_chars r)"
  by (subst utf8_chars.simps) auto

text \<open>\<^verbatim>\<open>utf8.decode\<close>: a string is the list of its code points.\<close>

definition drop_mark :: "nat list \<Rightarrow> nat list" where
  "drop_mark cs = (case cs of c # r \<Rightarrow> if c = 0xfeff then r else cs | [] \<Rightarrow> [])"

definition dart_utf8_decode :: "byte list \<Rightarrow> nat list option" where
  "dart_utf8_decode bs = map_option drop_mark (utf8_chars bs)"

section \<open>The encoder's bytes\<close>

lemma unat_drop_div: "unat (drop_bit n (v :: 32 word)) = unat v div 2 ^ n"
  by (subst unat_drop_bit_eq) (rule drop_bit_eq_div)

lemma tag_bytes:
  "list_all (\<lambda>k. unat (ucast (0x80 OR (of_nat k :: 32 word)) :: byte) = 0x80 + k) [0..<64]"
  "list_all (\<lambda>k. unat (ucast (0xc0 OR (of_nat k :: 32 word)) :: byte) = 0xc0 + k) [0..<32]"
  "list_all (\<lambda>k. unat (ucast (0xe0 OR (of_nat k :: 32 word)) :: byte) = 0xe0 + k) [0..<16]"
  "list_all (\<lambda>k. unat (ucast (0xf0 OR (of_nat k :: 32 word)) :: byte) = 0xf0 + k) [0..<8]"
  by code_simp+

lemma lead_byte:
  fixes v :: "32 word"
  shows "unat v < 32 \<Longrightarrow> unat (ucast (0xc0 OR v) :: byte) = 0xc0 + unat v"
    and "unat v < 16 \<Longrightarrow> unat (ucast (0xe0 OR v) :: byte) = 0xe0 + unat v"
    and "unat v < 8 \<Longrightarrow> unat (ucast (0xf0 OR v) :: byte) = 0xf0 + unat v"
    and "unat v < 64 \<Longrightarrow> unat (ucast (0x80 OR v) :: byte) = 0x80 + unat v"
  using bspec [OF tag_bytes(1) [unfolded list_all_iff], of "unat v"]
    bspec [OF tag_bytes(2) [unfolded list_all_iff], of "unat v"]
    bspec [OF tag_bytes(3) [unfolded list_all_iff], of "unat v"]
    bspec [OF tag_bytes(4) [unfolded list_all_iff], of "unat v"] by simp_all

lemma tail_byte:
  fixes v :: "32 word"
  shows "unat (ucast (0x80 OR (v AND 63)) :: byte) = 0x80 + unat v mod 64"
proof -
  have "v AND 63 = take_bit 6 v" by (simp add: take_bit_eq_mask mask_eq_exp_minus_1)
  then have "unat (v AND 63) = take_bit 6 (unat v)" by (simp only: unsigned_take_bit_eq)
  then have "unat (v AND 63) = unat v mod 64" by (simp add: take_bit_eq_mod)
  then show ?thesis using lead_byte(4) [of "v AND 63"] by simp
qed

lemma six_bit_digits:
  fixes n :: nat
  shows "n div 4096 * 4096 + n div 64 mod 64 * 64 + n mod 64 = n"
    and "n div 262144 * 262144 + n div 4096 mod 64 * 4096 + n div 64 mod 64 * 64 + n mod 64 = n"
proof -
  have d: "n div 4096 = n div 64 div 64" "n div 262144 = n div 4096 div 64"
    by (simp_all flip: div_mult2_eq)
  show "n div 4096 * 4096 + n div 64 mod 64 * 64 + n mod 64 = n"
    using div_mult_mod_eq [of n 64] div_mult_mod_eq [of "n div 64" 64] d(1) by linarith
  then show "n div 262144 * 262144 + n div 4096 mod 64 * 4096 + n div 64 mod 64 * 64 + n mod 64 = n"
    using div_mult_mod_eq [of "n div 4096" 64] d(2) by linarith
qed

lemma utf8_next_bytes:
  assumes "scalar v"
  shows "utf8_next (utf8_bytes v @ r) = Some (unat v, r)"
proof -
  let ?n = "unat v"
  have v: "?n \<le> 0x10ffff" "\<not> (0xd800 \<le> ?n \<and> ?n \<le> 0xdfff)"
    using assms by (auto simp: scalar_def word_le_nat_alt)
  note bytes = utf8_bytes_def word_less_nat_alt tail_byte lead_byte(1-3) unat_drop_div cont_def Let_def
  consider "?n < 0x80" | "0x80 \<le> ?n" "?n < 0x800" | "0x800 \<le> ?n" "?n < 0x10000" | "0x10000 \<le> ?n"
    by linarith
  then show ?thesis
  proof cases
    case 1
    then show ?thesis by (simp add: utf8_bytes_def word_less_nat_alt unsigned_ucast_eq take_bit_eq_mod)
  next
    case 2
    then have "?n div 64 < 32" by simp
    with 2 show ?thesis
      by (simp add: bytes)
  next
    case 3
    then have "?n div 4096 < 16" by simp
    then show ?thesis using 3 v six_bit_digits(1) [of ?n]
      by (simp add: bytes)
  next
    case 4
    then have "?n div 262144 < 8" using v by simp
    then show ?thesis using 4 v six_bit_digits(2) [of ?n]
      by (simp add: bytes)
  qed
qed

lemma utf8_chars_bytes:
  "\<forall>v \<in> set vs. scalar v \<Longrightarrow> utf8_chars (concat (map utf8_bytes vs)) = Some (map unat vs)"
  by (induction vs) (auto simp: utf8_chars_next [OF utf8_next_bytes])

lemma utf8_chars_append:
  "utf8_chars as = Some cs \<Longrightarrow> utf8_chars bs = Some ds \<Longrightarrow> utf8_chars (as @ bs) = Some (cs @ ds)"
proof (induction as arbitrary: cs rule: utf8_chars.induct)
  case (1 as)
  show ?case
  proof (cases "as = []")
    case True
    with 1 show ?thesis by simp
  next
    case False
    then obtain v r cs' where n: "utf8_next as = Some (v, r)" "utf8_chars r = Some cs'" "cs = v # cs'"
      using 1(2) by (subst (asm) utf8_chars.simps) (auto split: option.splits)
    have "utf8_next (as @ bs) = Some (v, r @ bs)"
      using n(1) False by (cases as) (auto simp: Let_def split: if_splits list.splits)
    then show ?thesis using 1(1) [OF False n(1) refl n(2) 1(3)] n(3) by (simp add: utf8_chars_next)
  qed
qed

end
