(* ===== verification/Worker_Frames.thy ===== *)
theory Worker_Frames
  imports Utf8
begin

text \<open>
  The two native hosts of the document engine: the Android library,
  \<^verbatim>\<open>android/app/src/main/cpp/document_worker_jni.cpp\<close>, and the Windows helper process,
  \<^verbatim>\<open>windows/document_worker/protocol.cpp\<close>. Both answer with frames: a big-endian length, 47 bytes
  of header and the text of a page. The Java virtual machine, the pipes and the files of the helper's
  directory are outside the repository: what they answer are arguments of the definitions.
\<close>

unbundle bit_operations_syntax

section \<open>Integers and frames\<close>

definition u32 :: "byte list \<Rightarrow> 32 word \<Rightarrow> byte list" where
  "u32 out v = out @ [ucast (drop_bit 24 v), ucast (drop_bit 16 v), ucast (drop_bit 8 v), ucast v]"

definition frame :: "byte list \<Rightarrow> byte list \<Rightarrow> byte \<Rightarrow> 32 word \<Rightarrow> 32 word \<Rightarrow> 32 word \<Rightarrow> byte \<Rightarrow>
    32 word \<Rightarrow> 32 word \<Rightarrow> byte list \<Rightarrow> byte list" where
  "frame out job kind index page offset status width height txt =
     (let out = u32 out (of_nat (47 + length txt));
          out = out @ [1] @ [kind] @ take 16 job;
          out = u32 (u32 (u32 out index) page) offset @ [status];
          out = u32 (u32 (u32 out 0) width) height;
          out = u32 out (of_nat (length txt))
      in out @ txt)"

section \<open>The Android library\<close>

text \<open>
  What the virtual machine answers: whether it gives the elements of a byte array, whether reading
  the limits raised, whether it can allocate the answer.
\<close>

record java_vm =
  vm_pins :: "byte list \<Rightarrow> bool"
  vm_exception :: bool
  vm_new_array :: "nat \<Rightarrow> bool"

definition byte_array :: "java_vm \<Rightarrow> byte list option \<Rightarrow> Bytes" where
  "byte_array vm value =
     (case value of
        None \<Rightarrow> \<lparr>by_null = True, by_bytes = []\<rparr>
      | Some bs \<Rightarrow> \<lparr>by_null = \<not> vm_pins vm bs, by_bytes = bs\<rparr>)"

definition operation_of :: "int \<Rightarrow> Operation" where
  "operation_of n = (if n = 0 then pdf_text else if n = 1 then pdf_ocr else if n = 2 then image_ocr
     else other_operation n)"

definition language_of :: "int \<Rightarrow> Language" where
  "language_of n = (if n = 0 then lang_eng else if n = 1 then lang_rus else if n = 2 then lang_eng_rus
     else other_language n)"

definition error_code :: "Error \<Rightarrow> string" where
  "error_code e =
     (if e = err_invalid_request then ''invalid_document_worker_request''
      else if e = err_unsupported then ''document_worker_unsupported''
      else if e = err_invalid_document then ''invalid_document''
      else if e = err_limit then ''document_limit''
      else ''document_worker_unavailable'')"

text \<open>The loop over the pages, with the offset in the text sent so far.\<close>

fun page_frames :: "byte list \<Rightarrow> byte list \<Rightarrow> int \<Rightarrow> 32 word \<Rightarrow> 32 word \<Rightarrow> Page list \<Rightarrow> byte list \<times> 32 word" where
  "page_frames out job operation index offset [] = (out, offset)"
| "page_frames out job operation index offset (p # ps) =
     page_frames
       (frame out job 0 index (word_of_int (pg_number p)) offset (if operation = 0 then 0 else 1)
          (word_of_int (pg_width p)) (word_of_int (pg_height p)) (pg_text p))
       job operation (index + 1) (offset + of_nat (length (pg_text p))) ps"

definition jni_response :: "byte list \<Rightarrow> int \<Rightarrow> Result \<Rightarrow> byte list" where
  "jni_response job operation result =
     (if rs_error result = err_none then
        (case page_frames [] job operation 0 0 (rs_pages result) of
           (out, offset) \<Rightarrow> frame out job 1 (of_nat (length (rs_pages result))) 0 offset 0 0 0 [])
      else frame [] job 2 0 0 0 0 0 0 (bytes_of (error_code (rs_error result))))"

definition jni_limits :: "int list \<Rightarrow> Limits" where
  "jni_limits raw =
     \<lparr>source_bytes = word_of_int (raw ! 0), pdf_pages = raw ! 1, selected_pages = raw ! 2,
      raster_dimension = raw ! 3, page_pixels = word_of_int (raw ! 4), total_pixels = word_of_int (raw ! 5),
      page_output_bytes = word_of_int (raw ! 6), output_bytes = word_of_int (raw ! 7)\<rparr>"

text \<open>
  \<open>jni_crash\<close>: the code dereferences the null pointer that a virtual machine without memory gives
  for the job identifier.
\<close>

datatype jni_answer = jni_null | jni_array "byte list" | jni_crash

definition native_process :: "libs \<Rightarrow> java_vm \<Rightarrow> byte list option \<Rightarrow> int \<Rightarrow> int \<Rightarrow> int \<Rightarrow> int \<Rightarrow> int list option
    \<Rightarrow> byte list option \<Rightarrow> byte list option \<Rightarrow> byte list option \<Rightarrow> jni_answer" where
  "native_process E vm job_array operation language first_page page_count limits_array src_array eng_array rus_array =
     (case (job_array, limits_array) of
        (Some job, Some raw) \<Rightarrow>
          if length job \<noteq> 16 \<or> length raw \<noteq> 10 then jni_null
          else if vm_exception vm \<or> operation < 0 \<or> operation > 2 \<or> language < 0 \<or> language > 2 \<or>
                  first_page < 1 \<or> page_count < 1 then jni_null
          else
            let rq = \<lparr>rqs_operation = operation_of operation, rqs_language = language_of language,
                      rqs_first_page = first_page, rqs_page_count = page_count, rqs_limits = jni_limits raw,
                      rqs_source = byte_array vm src_array\<rparr>;
                result = process E rq (byte_array vm eng_array) (byte_array vm rus_array);
                response = jni_response job operation result
            in if by_null (byte_array vm job_array) then jni_crash
               else if length response > 1048576 + 4096 \<or> length response > 2147483647 then jni_null
               else if vm_new_array vm (length response) then jni_array response
               else jni_null
      | _ \<Rightarrow> jni_null)"

section \<open>The Windows helper\<close>

definition kHeader :: nat where "kHeader = 108"
definition kMaxSource :: "32 word" where "kMaxSource = 10 * 1024 * 1024"
definition kMaxResponse :: nat where "kMaxResponse = 1024 * 1024"

definition U16 :: "byte list \<Rightarrow> 16 word" where
  "U16 p = push_bit 8 (ucast (p ! 0)) OR ucast (p ! 1)"

definition U32 :: "byte list \<Rightarrow> 32 word" where
  "U32 p = push_bit 24 (ucast (p ! 0)) OR push_bit 16 (ucast (p ! 1)) OR push_bit 8 (ucast (p ! 2)) OR ucast (p ! 3)"

text \<open>
  A pipe that is read: the writes that are still in it, none left when it is closed.
  \<^verbatim>\<open>ReadFile\<close> returns at most what is left of the next one; \<open>None\<close>: it fails.
\<close>

type_synonym pipe = "byte list list"

fun ReadFile :: "pipe \<Rightarrow> nat \<Rightarrow> (byte list \<times> pipe) option" where
  "ReadFile [] n = None"
| "ReadFile (c # cs) n = Some (take n c, if length c \<le> n then cs else drop n c # cs)"

function ReadExact_loop :: "pipe \<Rightarrow> byte list \<Rightarrow> nat \<Rightarrow> byte list option \<times> pipe" where
  "ReadExact_loop p got n =
     (if n = 0 then (Some got, p)
      else case ReadFile p (min n 65536) of
             None \<Rightarrow> (None, p)
           | Some (bs, p') \<Rightarrow> if bs = [] then (None, p') else ReadExact_loop p' (got @ bs) (n - length bs))"
  by pat_completeness auto
termination
  by (relation "measure (\<lambda>(p, got, n). n)") auto

declare ReadExact_loop.simps [simp del]

definition ReadExact :: "pipe \<Rightarrow> nat \<Rightarrow> byte list option \<times> pipe" where
  "ReadExact p n = ReadExact_loop p [] n"

text \<open>
  A pipe that is written to: what each of the next calls accepts (\<open>None\<close>: it fails), and what has
  been written.
\<close>

record sink =
  sk_accepts :: "nat option list"
  sk_written :: "byte list"

definition WriteFile :: "sink \<Rightarrow> byte list \<Rightarrow> nat option \<times> sink" where
  "WriteFile s bs =
     (case sk_accepts s of
        [] \<Rightarrow> (None, s)
      | a # as \<Rightarrow>
          (case a of
             None \<Rightarrow> (None, s\<lparr>sk_accepts := as\<rparr>)
           | Some k \<Rightarrow> (Some (min k (length bs)),
                        s\<lparr>sk_accepts := as, sk_written := sk_written s @ take k bs\<rparr>)))"

lemma WriteFile_le: "WriteFile s bs = (Some k, s') \<Longrightarrow> k \<le> length bs"
  by (auto simp: WriteFile_def split: list.splits option.splits)

function WriteExact_w :: "sink \<Rightarrow> byte list \<Rightarrow> bool \<times> sink" where
  "WriteExact_w s bs =
     (if bs = [] then (True, s)
      else case WriteFile s (take 65536 bs) of
             (None, s') \<Rightarrow> (False, s')
           | (Some k, s') \<Rightarrow> if k = 0 then (False, s') else WriteExact_w s' (drop k bs))"
  by pat_completeness auto
termination
  by (relation "measure (\<lambda>(s, bs). length bs)") auto

declare WriteExact_w.simps [simp del]

text \<open>The files beside the helper's executable: its directory (\<open>None\<close>: the name does not fit), contents, readability.\<close>

record helper_dir =
  hd_known :: bool
  hd_file :: "string \<Rightarrow> byte list option"
  hd_readable :: "string \<Rightarrow> bool"

definition ReadData :: "helper_dir \<Rightarrow> string \<Rightarrow> nat \<Rightarrow> byte list" where
  "ReadData h name most =
     (if \<not> hd_known h then []
      else case hd_file h name of
             None \<Rightarrow> []
           | Some bs \<Rightarrow>
               if length bs = 0 \<or> length bs > most then []
               else if \<not> hd_readable h name then []
               else bs)"

definition vector_bytes :: "byte list \<Rightarrow> Bytes" where
  "vector_bytes bs = \<lparr>by_null = (bs = []), by_bytes = bs\<rparr>"

definition Frame :: "byte list \<Rightarrow> byte list \<Rightarrow> byte \<Rightarrow> 32 word \<Rightarrow> 32 word \<Rightarrow> byte \<Rightarrow> 32 word \<Rightarrow> 32 word \<Rightarrow>
    byte list \<Rightarrow> byte list" where
  "Frame out job kind index page status width height txt =
     (let out = u32 out (of_nat (47 + length txt));
          out = out @ [1] @ [kind] @ take 16 job;
          out = u32 (u32 (u32 out index) page) 0 @ [status];
          out = u32 (u32 (u32 out 0) width) height;
          out = u32 out (of_nat (length txt))
      in out @ txt)"

definition worker_ceilings :: "32 word list" where
  "worker_ceilings = [10485760, 100, 25, 4096, 4000000, 20000000, 262144, 1048576, 120000, 65536]"

definition worker_limits :: "byte list \<Rightarrow> 32 word list" where
  "worker_limits header = map (\<lambda>i. U32 (drop (64 + i * 4) header)) [0..<10]"

definition limits_rejected :: "32 word list \<Rightarrow> bool" where
  "limits_rejected limits \<longleftrightarrow> list_ex (\<lambda>(l, c). l = 0 \<or> l > c) (zip limits worker_ceilings)"

definition worker_request :: "byte list \<Rightarrow> byte list \<Rightarrow> Request" where
  "worker_request header src =
     (let limits = worker_limits header in
      \<lparr>rqs_operation = operation_of (uint (header ! 52)), rqs_language = language_of (uint (header ! 53)),
       rqs_first_page = uint (U16 (drop 54 header)), rqs_page_count = uint (U16 (drop 56 header)),
       rqs_limits =
         \<lparr>source_bytes = ucast (limits ! 0), pdf_pages = sint (limits ! 1), selected_pages = sint (limits ! 2),
          raster_dimension = sint (limits ! 3), page_pixels = ucast (limits ! 4), total_pixels = ucast (limits ! 5),
          page_output_bytes = ucast (limits ! 6), output_bytes = ucast (limits ! 7)\<rparr>,
       rqs_source = vector_bytes src\<rparr>)"

definition error_number :: "Error \<Rightarrow> byte" where
  "error_number e = (case e of err_none \<Rightarrow> 0 | err_invalid_request \<Rightarrow> 1 | err_unsupported \<Rightarrow> 2
     | err_invalid_document \<Rightarrow> 3 | err_limit \<Rightarrow> 4 | err_unavailable \<Rightarrow> 5)"

text \<open>The loop over the pages: an exit code, or the response and the number of the next frame.\<close>

fun worker_pages :: "byte list \<Rightarrow> 32 word \<Rightarrow> byte list \<Rightarrow> 32 word \<Rightarrow> Page list \<Rightarrow> int + (byte list \<times> 32 word)" where
  "worker_pages job limit out index [] = Inr (out, index)"
| "worker_pages job limit out index (p # ps) =
     (if length (pg_text p) > unat limit then Inl 78
      else
        let out = Frame out job 1 index (word_of_int (pg_number p)) 0 (word_of_int (pg_width p))
                    (word_of_int (pg_height p)) (pg_text p)
        in if length out > kMaxResponse then Inl 79 else worker_pages job limit out (index + 1) ps)"

definition worker_respond :: "byte list \<Rightarrow> 32 word list \<Rightarrow> Result \<Rightarrow> sink \<Rightarrow> int \<times> sink" where
  "worker_respond job limits result s =
     (case worker_pages job (limits ! 6) [] 0 (rs_pages result) of
        Inl code \<Rightarrow> (code, s)
      | Inr (out, index) \<Rightarrow>
          let response = Frame out job 2 index 0 (error_number (rs_error result)) 0 0 []
          in if length response > unat (limits ! 7) \<or> length response > kMaxResponse then (80, s)
             else case WriteExact_w s response of (ok, s') \<Rightarrow> (if ok then 0 else 81, s'))"

text \<open>\<open>sha\<close>: the digest of the Windows provider, \<open>None\<close> when it cannot be computed.\<close>

definition RunDocumentWorker :: "libs \<Rightarrow> (byte list \<Rightarrow> byte list option) \<Rightarrow> helper_dir \<Rightarrow> pipe \<Rightarrow> sink \<Rightarrow> int \<times> sink" where
  "RunDocumentWorker E sha h inp out =
     (case ReadExact inp kHeader of
        (None, _) \<Rightarrow> (72, out)
      | (Some header, inp1) \<Rightarrow>
          if header ! 0 \<noteq> 0x4d \<or> header ! 1 \<noteq> 0x44 \<or> header ! 2 \<noteq> 0x57 \<or> header ! 3 \<noteq> 1 then (72, out)
          else
          let source_size = U32 (drop 60 header) in
          if source_size = 0 \<or> source_size > kMaxSource \<or> header ! 52 > 2 \<or> header ! 53 > 2 \<or>
             U16 (drop 58 header) \<noteq> 0 then (73, out)
          else
          let limits = worker_limits header in
          if limits_rejected limits then (74, out)
          else if source_size > limits ! 0 then (75, out)
          else case ReadExact inp1 (unat source_size) of
            (None, _) \<Rightarrow> (76, out)
          | (Some src, _) \<Rightarrow>
              (case sha src of
                 None \<Rightarrow> (77, out)
               | Some digest \<Rightarrow>
                   if digest \<noteq> take 32 (drop 20 header) then (77, out)
                   else
                   let eng = ReadData h ''eng.traineddata'' (32 * 1024 * 1024);
                       rus = ReadData h ''rus.traineddata'' (32 * 1024 * 1024);
                       result = process E (worker_request header src) (vector_bytes eng) (vector_bytes rus)
                   in worker_respond (drop 4 header) limits result out))"

text \<open>The token of the process (\<open>None\<close>: it cannot be opened) and what Windows says of it.\<close>

definition IsDocumentWorkerSandboxed :: "'t option \<Rightarrow> ('t \<Rightarrow> 32 word option) \<Rightarrow> bool" where
  "IsDocumentWorkerSandboxed token is_app_container =
     (case token of
        None \<Rightarrow> False
      | Some t \<Rightarrow> (case is_app_container t of None \<Rightarrow> False | Some app_container \<Rightarrow> app_container \<noteq> 0))"

text \<open>\<^verbatim>\<open>wWinMain\<close>: the sandbox check, the standard handles (\<open>None\<close>: not valid), the exchange.\<close>

definition wWinMain :: "bool \<Rightarrow> libs \<Rightarrow> (byte list \<Rightarrow> byte list option) \<Rightarrow> helper_dir \<Rightarrow> pipe option \<Rightarrow> sink \<Rightarrow> bool
    \<Rightarrow> int \<times> sink" where
  "wWinMain sandboxed E sha h inp out out_valid =
     (if \<not> sandboxed then (70, out)
      else case inp of
             None \<Rightarrow> (71, out)
           | Some p \<Rightarrow> if \<not> out_valid then (71, out) else RunDocumentWorker E sha h p out)"

end
