(* ===== verification/Response_Decoder.thy ===== *)
theory Response_Decoder
  imports Worker_Frames
begin

text \<open>
  The other end of the frames: the request of \<^verbatim>\<open>document_worker_supervisor.dart\<close>, its encoding and the
  incremental response decoder of \<^verbatim>\<open>document_worker_protocol.dart\<close>. A Dart integer is an \<open>int\<close> (every
  value here is far below 2^63), a string decoded from UTF-8 the list of its code points. A thrown
  object is a value of \<open>dart_exn\<close>, returned with the state the decoder is left in.
\<close>

section \<open>Requests\<close>

datatype DocumentWorkerOperation = pdfText | pdfOcr | imageOcr
datatype DocumentWorkerLanguage = dart_eng | dart_rus | dart_engRus

fun operation_index :: "DocumentWorkerOperation \<Rightarrow> int" where
  "operation_index pdfText = 0"
| "operation_index pdfOcr = 1"
| "operation_index imageOcr = 2"

fun language_index :: "DocumentWorkerLanguage \<Rightarrow> int" where
  "language_index dart_eng = 0"
| "language_index dart_rus = 1"
| "language_index dart_engRus = 2"

text \<open>Of the limits, those that reach the native worker; the others bound the parsers of other formats.\<close>

record DocumentLimits =
  dl_sourceBytes :: int
  dl_pdfPages :: int
  dl_selectedPages :: int
  dl_rasterDimension :: int
  dl_pagePixels :: int
  dl_totalPixels :: int
  dl_pageOutputBytes :: int
  dl_outputBytes :: int
  dl_wallMilliseconds :: int
  dl_nativeMemoryBytes :: int

definition default_limits :: DocumentLimits where
  "default_limits =
     \<lparr>dl_sourceBytes = 10 * 1024 * 1024, dl_pdfPages = 100, dl_selectedPages = 25, dl_rasterDimension = 4096,
      dl_pagePixels = 4000000, dl_totalPixels = 20000000, dl_pageOutputBytes = 262144,
      dl_outputBytes = 1024 * 1024, dl_wallMilliseconds = 30000, dl_nativeMemoryBytes = 256 * 1024 * 1024\<rparr>"

definition limit_fields :: "DocumentLimits \<Rightarrow> int list" where
  "limit_fields l =
     [dl_sourceBytes l, dl_pdfPages l, dl_selectedPages l, dl_rasterDimension l, dl_pagePixels l,
      dl_totalPixels l, dl_pageOutputBytes l, dl_outputBytes l, dl_wallMilliseconds l, dl_nativeMemoryBytes l]"

definition dart_ceilings :: "int list" where
  "dart_ceilings = [10485760, 100, 25, 4096, 4000000, 20000000, 262144, 1048576, 30000, 268435456]"

definition valid_dart_limits :: "DocumentLimits \<Rightarrow> bool" where
  "valid_dart_limits l \<longleftrightarrow> list_all2 (\<lambda>v c. 1 \<le> v \<and> v \<le> c) (limit_fields l) dart_ceilings"

record DocumentWorkerRequest =
  dr_job_id :: string
  dr_source :: "byte list"
  dr_source_hash :: string
  dr_operation :: DocumentWorkerOperation
  dr_language :: DocumentWorkerLanguage
  dr_first_page :: int
  dr_page_count :: int
  dr_limits :: DocumentLimits

definition is_job_id :: "string \<Rightarrow> bool" where
  "is_job_id s \<longleftrightarrow> length s = 32 \<and> list_all (\<lambda>c. c \<in> set ''0123456789abcdef'') s"

text \<open>What the constructors of the options, the limits and the request do not throw on; \<open>sha\<close> is SHA-256 in hexadecimal.\<close>

definition valid_request :: "(byte list \<Rightarrow> string) \<Rightarrow> DocumentWorkerRequest \<Rightarrow> bool" where
  "valid_request sha rq \<longleftrightarrow>
     \<not> (dr_first_page rq < 1 \<or> dr_first_page rq > 100 \<or> dr_page_count rq < 1 \<or> dr_page_count rq > 25 \<or>
        dr_first_page rq > 101 - dr_page_count rq \<or>
        (dr_operation rq = imageOcr \<and> (dr_first_page rq \<noteq> 1 \<or> dr_page_count rq \<noteq> 1))) \<and>
     valid_dart_limits (dr_limits rq) \<and>
     \<not> (dr_page_count rq > dl_selectedPages (dr_limits rq) \<or>
        dr_first_page rq > dl_pdfPages (dr_limits rq) - dr_page_count rq + 1) \<and>
     is_job_id (dr_job_id rq) \<and> int (length (dr_source rq)) \<le> dl_sourceBytes (dr_limits rq) \<and>
     dr_source_hash rq = sha (dr_source rq)"

definition hex_char :: "nat \<Rightarrow> char" where
  "hex_char n = ''0123456789abcdef'' ! n"

definition dart_hex :: "byte list \<Rightarrow> string" where
  "dart_hex bs = concat (map (\<lambda>b. [hex_char (unat b div 16), hex_char (unat b mod 16)]) bs)"

definition dart_digit :: "char \<Rightarrow> nat" where
  "dart_digit c = (if c \<in> set ''0123456789'' then of_char c - 48 else of_char c - 87)"

fun dart_unhex :: "string \<Rightarrow> byte list" where
  "dart_unhex (a # b # s) = of_nat (dart_digit a * 16 + dart_digit b) # dart_unhex s"
| "dart_unhex s = []"

definition be16 :: "int \<Rightarrow> byte list" where
  "be16 v = [word_of_int (v div 256), word_of_int v]"

definition be32 :: "int \<Rightarrow> byte list" where
  "be32 v = [word_of_int (v div 16777216), word_of_int (v div 65536), word_of_int (v div 256), word_of_int v]"

definition encodeRequest :: "DocumentWorkerRequest \<Rightarrow> byte list" where
  "encodeRequest rq =
     [0x4d, 0x44, 0x57, 1] @ dart_unhex (dr_job_id rq) @ dart_unhex (dr_source_hash rq) @
     [word_of_int (operation_index (dr_operation rq)), word_of_int (language_index (dr_language rq))] @
     be16 (dr_first_page rq) @ be16 (dr_page_count rq) @ be16 0 @
     be32 (int (length (dr_source rq))) @ concat (map be32 (limit_fields (dr_limits rq))) @ be32 0 @ dr_source rq"

section \<open>The decoder\<close>

record DocumentWorkerPage =
  dp_page :: int
  dp_ocr :: bool
  dp_text :: "nat list"
  dp_width :: int
  dp_height :: int

datatype dart_exn = DocumentException string | FormatException

text \<open>\<open>dc_frame\<close>: the length of the frame being read with the bytes of it that are there.\<close>

record decoder =
  dc_pages :: "DocumentWorkerPage list"
  dc_prefix :: "byte list"
  dc_frame :: "(nat \<times> byte list) option"
  dc_outputBytes :: int
  dc_pixels :: int
  dc_wireBytes :: int
  dc_terminal :: bool
  dc_failed :: bool

definition new_decoder :: decoder where
  "new_decoder = \<lparr>dc_pages = [], dc_prefix = [], dc_frame = None, dc_outputBytes = 0, dc_pixels = 0,
     dc_wireBytes = 0, dc_terminal = False, dc_failed = False\<rparr>"

definition get32 :: "byte list \<Rightarrow> nat \<Rightarrow> int" where
  "get32 bs i = uint (bs ! i) * 16777216 + uint (bs ! (i + 1)) * 65536 + uint (bs ! (i + 2)) * 256 + uint (bs ! (i + 3))"

definition invalid :: dart_exn where
  "invalid = DocumentException ''invalid_document_worker_protocol''"

definition checkedRasterPixels :: "DocumentLimits \<Rightarrow> int \<Rightarrow> int \<Rightarrow> int option" where
  "checkedRasterPixels l width height =
     (if width < 1 \<or> height < 1 \<or> width > dl_rasterDimension l \<or> height > dl_rasterDimension l \<or>
         width > dl_pagePixels l div height then None
      else Some (width * height))"

definition error_codes :: "string list" where
  "error_codes = [''invalid_document_worker_request'', ''document_worker_unsupported'', ''invalid_document'',
     ''document_limit'', ''document_worker_unavailable'']"

text \<open>The end of \<^verbatim>\<open>_consume\<close> for a page: its text is decoded and the page is kept.\<close>

definition keep_page :: "decoder \<Rightarrow> int \<Rightarrow> bool \<Rightarrow> int \<Rightarrow> int \<Rightarrow> byte list \<Rightarrow> dart_exn option \<times> decoder" where
  "keep_page d page ocr width height txt =
     (case dart_utf8_decode txt of
        None \<Rightarrow> (Some FormatException, d)
      | Some cs \<Rightarrow>
          (None, d\<lparr>dc_outputBytes := dc_outputBytes d + int (length txt),
                   dc_pages := dc_pages d @
                     [\<lparr>dp_page = page, dp_ocr = ocr, dp_text = cs, dp_width = width, dp_height = height\<rparr>]\<rparr>))"

definition consume :: "DocumentWorkerRequest \<Rightarrow> decoder \<Rightarrow> byte list \<Rightarrow> dart_exn option \<times> decoder" where
  "consume rq d fr =
     (let page = get32 fr 22; offset = get32 fr 26; status = fr ! 30; truncated = get32 fr 31;
          width = get32 fr 35; height = get32 fr 39; textLength = get32 fr 43 in
      if fr ! 0 \<noteq> 1 \<or> dart_hex (take 16 (drop 2 fr)) \<noteq> dr_job_id rq \<or> get32 fr 18 \<noteq> int (length (dc_pages d)) \<or>
         offset \<noteq> dc_outputBytes d \<or> truncated \<noteq> 0 \<or> textLength \<noteq> int (length fr) - 47 then (Some invalid, d)
      else if fr ! 1 = 1 then
        (if status \<noteq> 0 \<or> page \<noteq> 0 \<or> width \<noteq> 0 \<or> height \<noteq> 0 \<or> textLength \<noteq> 0 \<or>
            int (length (dc_pages d)) \<noteq> dr_page_count rq then (Some invalid, d)
         else (None, d\<lparr>dc_terminal := True\<rparr>))
      else if fr ! 1 = 2 then
        (if page \<noteq> 0 \<or> offset \<noteq> 0 \<or> width \<noteq> 0 \<or> height \<noteq> 0 \<or> textLength = 0 \<or> dc_pages d \<noteq> [] \<or> status \<noteq> 0
         then (Some invalid, d)
         else case dart_utf8_decode (drop 47 fr) of
                None \<Rightarrow> (Some FormatException, d)
              | Some cs \<Rightarrow>
                  if cs \<notin> (map of_char) ` set error_codes then (Some invalid, d)
                  else (Some (DocumentException (map char_of cs)), d))
      else if fr ! 1 \<noteq> 0 \<or> int (length (dc_pages d)) \<ge> dr_page_count rq \<or>
              page \<noteq> dr_first_page rq + int (length (dc_pages d)) then (Some invalid, d)
      else
        let ocr = (dr_operation rq \<noteq> pdfText) in
        if status \<noteq> (if ocr then 1 else 0) then (Some invalid, d)
        else if ocr then
          (case checkedRasterPixels (dr_limits rq) width height of
             None \<Rightarrow> (Some (DocumentException ''document_raster_limit''), d)
           | Some pixels \<Rightarrow>
               if pixels > dl_totalPixels (dr_limits rq) - dc_pixels d
               then (Some (DocumentException ''document_raster_limit''), d)
               else keep_page (d\<lparr>dc_pixels := dc_pixels d + pixels\<rparr>) page ocr width height (drop 47 fr))
        else if width \<noteq> 0 \<or> height \<noteq> 0 then (Some invalid, d)
        else keep_page d page ocr width height (drop 47 fr))"

text \<open>One byte of a chunk.\<close>

definition add_byte :: "DocumentWorkerRequest \<Rightarrow> decoder \<Rightarrow> int \<Rightarrow> dart_exn option \<times> decoder" where
  "add_byte rq d b =
     (let limits = dr_limits rq in
      if dc_terminal d \<or> b < 0 \<or> b > 255 then (Some invalid, d)
      else case dc_frame d of
        None \<Rightarrow>
          let prefix = dc_prefix d @ [word_of_int b] in
          if length prefix = 4 then
            let len = get32 prefix 0 in
            if len < 47 \<or> len > 47 + dl_pageOutputBytes limits \<or> len - 47 > dl_outputBytes limits - dc_outputBytes d
            then (Some (DocumentException ''document_worker_output_limit''), d\<lparr>dc_prefix := prefix\<rparr>)
            else (None, d\<lparr>dc_frame := Some (nat len, []), dc_prefix := []\<rparr>)
          else (None, d\<lparr>dc_prefix := prefix\<rparr>)
      | Some (len, used) \<Rightarrow>
          let used' = used @ [word_of_int b]; d' = d\<lparr>dc_frame := Some (len, used')\<rparr> in
          if length used' = len then
            (case consume rq d' used' of
               (Some e, d'') \<Rightarrow> (Some e, d'')
             | (None, d'') \<Rightarrow> (None, d''\<lparr>dc_frame := None\<rparr>))
          else (None, d'))"

fun add_bytes :: "DocumentWorkerRequest \<Rightarrow> decoder \<Rightarrow> int list \<Rightarrow> dart_exn option \<times> decoder" where
  "add_bytes rq d [] = (None, d)"
| "add_bytes rq d (b # bs) =
     (case add_byte rq d b of (Some e, d') \<Rightarrow> (Some e, d') | (None, d') \<Rightarrow> add_bytes rq d' bs)"

definition max_wire :: "DocumentWorkerRequest \<Rightarrow> int" where
  "max_wire rq = dl_outputBytes (dr_limits rq) + (dr_page_count rq + 1) * (4 + 47)"

definition add_chunk :: "DocumentWorkerRequest \<Rightarrow> decoder \<Rightarrow> int list \<Rightarrow> dart_exn option \<times> decoder" where
  "add_chunk rq d chunk =
     (if dc_failed d \<or> length chunk > 65536 \<or> int (length chunk) > max_wire rq - dc_wireBytes d
      then (Some (DocumentException ''document_worker_output_limit''), d)
      else add_bytes rq (d\<lparr>dc_wireBytes := dc_wireBytes d + int (length chunk)\<rparr>) chunk)"

definition add :: "DocumentWorkerRequest \<Rightarrow> decoder \<Rightarrow> int list \<Rightarrow> dart_exn option \<times> decoder" where
  "add rq d chunk =
     (case add_chunk rq d chunk of
        (Some e, d') \<Rightarrow> (Some e, d'\<lparr>dc_failed := True\<rparr>)
      | (None, d') \<Rightarrow> (None, d'))"

definition finish :: "decoder \<Rightarrow> dart_exn + DocumentWorkerPage list" where
  "finish d =
     (if dc_failed d \<or> \<not> dc_terminal d \<or> dc_prefix d \<noteq> [] \<or> dc_frame d \<noteq> None then Inl invalid
      else Inr (dc_pages d))"

text \<open>A whole response: the chunks in order until one throws, then \<^verbatim>\<open>finish\<close>.\<close>

fun decode_chunks :: "DocumentWorkerRequest \<Rightarrow> decoder \<Rightarrow> int list list \<Rightarrow> dart_exn + DocumentWorkerPage list" where
  "decode_chunks rq d [] = finish d"
| "decode_chunks rq d (c # cs) =
     (case add rq d c of (Some e, _) \<Rightarrow> Inl e | (None, d') \<Rightarrow> decode_chunks rq d' cs)"

end
