(* ===== verification/Response_Frames.thy ===== *)
theory Response_Frames
  imports Response_Decoder
begin

text \<open>
  Frames read back: the fields of a frame, the decoder on a whole frame, and the irrelevance of
  how the bytes of a response are cut into chunks.
\<close>

unbundle bit_operations_syntax

section \<open>Big-endian integers\<close>

definition w32 :: "32 word \<Rightarrow> byte list" where
  "w32 v = [ucast (drop_bit 24 v), ucast (drop_bit 16 v), ucast (drop_bit 8 v), ucast v]"

lemma length_w32 [simp]: "length (w32 v) = 4"
  by (simp add: w32_def)

lemma u32_w32: "u32 out v = out @ w32 v"
  by (simp add: u32_def w32_def)

lemma unat_byte_of: "unat (ucast (drop_bit n v) :: byte) = unat (v :: 32 word) div 2 ^ n mod 256"
proof -
  have "unat (ucast (drop_bit n v) :: byte) = take_bit 8 (unat (drop_bit n v))"
    by (simp only: unsigned_ucast_eq) simp
  then show ?thesis by (simp only: unat_drop_div take_bit_eq_mod) simp
qed

lemma byte_digits:
  fixes n :: nat
  assumes "n < 4294967296"
  shows "n div 16777216 mod 256 * 16777216 + n div 65536 mod 256 * 65536 + n div 256 mod 256 * 256 + n mod 256 = n"
proof -
  have d: "n div 65536 = n div 256 div 256" "n div 16777216 = n div 65536 div 256"
    by (simp_all flip: div_mult2_eq)
  have "n div 16777216 mod 256 = n div 16777216" using assms by simp
  then show ?thesis
    using div_mult_mod_eq [of n 256] div_mult_mod_eq [of "n div 256" 256]
      div_mult_mod_eq [of "n div 65536" 256] d by linarith
qed

lemma unat_w32: "unat (w32 v ! 0) * 16777216 + unat (w32 v ! 1) * 65536 + unat (w32 v ! 2) * 256 + unat (w32 v ! 3) = unat v"
proof -
  have "unat v < 4294967296" using unsigned_less [of v, where ?'a = nat] by simp
  then show ?thesis
    using byte_digits [of "unat v"] unat_byte_of [of 24 v] unat_byte_of [of 16 v] unat_byte_of [of 8 v]
      unat_byte_of [of 0 v]
    by (simp add: w32_def numeral_3_eq_3)
qed

lemma get32_w32:
  assumes "take 4 (drop i bs) = w32 v"
  shows "get32 bs i = uint v"
proof -
  have n: "w32 v ! k = bs ! (i + k)" if "k < 4" for k
  proof -
    have "k < length (take 4 (drop i bs))" using that assms by simp
    then show ?thesis using that by (simp flip: assms)
  qed
  have "int (unat (w32 v ! 0)) * 16777216 + int (unat (w32 v ! 1)) * 65536 + int (unat (w32 v ! 2)) * 256
      + int (unat (w32 v ! 3)) = int (unat v)"
    using unat_w32 [of v] by linarith
  then show ?thesis
    by (simp add: get32_def n [of 0] n [of "Suc 0"] n [of 2] n [of 3] flip: uint_nat)
qed

section \<open>The body of a frame\<close>

definition body :: "byte list \<Rightarrow> byte \<Rightarrow> 32 word \<Rightarrow> 32 word \<Rightarrow> 32 word \<Rightarrow> byte \<Rightarrow> 32 word \<Rightarrow> 32 word \<Rightarrow> byte list \<Rightarrow> byte list" where
  "body job kind index page offset status width height txt =
     [1, kind] @ job @ w32 index @ w32 page @ w32 offset @ [status] @ w32 0 @ w32 width @ w32 height @
     w32 (of_nat (length txt)) @ txt"

lemma frame_body:
  "frame out job kind index page offset status width height txt =
     out @ w32 (of_nat (47 + length txt)) @ body (take 16 job) kind index page offset status width height txt"
  by (simp add: frame_def body_def u32_w32 Let_def)

lemma Frame_body:
  "Frame out job kind index page status width height txt =
     out @ w32 (of_nat (47 + length txt)) @ body (take 16 job) kind index page 0 status width height txt"
  by (simp add: Frame_def body_def u32_w32 Let_def)

lemma body_fields:
  assumes "length job = 16"
  shows "body job kind index page offset status width height txt ! 0 = 1"
    "body job kind index page offset status width height txt ! Suc 0 = kind"
    "take 16 (drop 2 (body job kind index page offset status width height txt)) = job"
    "get32 (body job kind index page offset status width height txt) 18 = uint index"
    "get32 (body job kind index page offset status width height txt) 22 = uint page"
    "get32 (body job kind index page offset status width height txt) 26 = uint offset"
    "body job kind index page offset status width height txt ! 30 = status"
    "get32 (body job kind index page offset status width height txt) 31 = 0"
    "get32 (body job kind index page offset status width height txt) 35 = uint width"
    "get32 (body job kind index page offset status width height txt) 39 = uint height"
    "get32 (body job kind index page offset status width height txt) 43 = uint (of_nat (length txt) :: 32 word)"
    "drop 47 (body job kind index page offset status width height txt) = txt"
    "length (body job kind index page offset status width height txt) = 47 + length txt"
proof -
  let ?b = "body job kind index page offset status width height txt"
  note g = body_def assms take_append drop_append
  show "?b ! 0 = 1" "?b ! Suc 0 = kind" "take 16 (drop 2 ?b) = job" "drop 47 ?b = txt" "length ?b = 47 + length txt"
    by (simp_all add: g)
  show "?b ! 30 = status" by (simp add: g nth_append)
  show "get32 ?b 18 = uint index" "get32 ?b 22 = uint page" "get32 ?b 26 = uint offset"
    "get32 ?b 35 = uint width" "get32 ?b 39 = uint height"
    "get32 ?b 43 = uint (of_nat (length txt) :: 32 word)"
    by (rule get32_w32, simp add: g)+
  have "get32 ?b 31 = uint (0 :: 32 word)" by (rule get32_w32, simp add: g)
  then show "get32 ?b 31 = 0" by simp
qed

section \<open>The decoder on the bytes of a frame\<close>

lemma add_bytes_append:
  "add_bytes rq d (xs @ ys) =
     (case add_bytes rq d xs of (Some e, d') \<Rightarrow> (Some e, d') | (None, d') \<Rightarrow> add_bytes rq d' ys)"
  by (induction xs arbitrary: d) (auto split: prod.splits option.splits)

lemma uint_byte_bounds [simp]: "0 \<le> uint (b :: byte)" "uint (b :: byte) \<le> 255" "\<not> uint (b :: byte) < 0" "\<not> 255 < uint (b :: byte)"
  using uint_bounded [of b] by (auto simp: not_less)

lemma add_byte_in_frame:
  assumes "\<not> dc_terminal d" "dc_frame d = Some (len, used)" "length used + 1 \<noteq> len"
  shows "add_byte rq d (uint b) = (None, d\<lparr>dc_frame := Some (len, used @ [b])\<rparr>)"
  using assms by (simp add: add_byte_def Let_def)

definition close_frame :: "dart_exn option \<times> decoder \<Rightarrow> dart_exn option \<times> decoder" where
  "close_frame r = (case r of (Some e, d) \<Rightarrow> (Some e, d) | (None, d) \<Rightarrow> (None, d\<lparr>dc_frame := None\<rparr>))"

lemma add_bytes_in_frame:
  "\<not> dc_terminal d \<Longrightarrow> dc_frame d = Some (length used + length bs, used) \<Longrightarrow> bs \<noteq> [] \<Longrightarrow>
     add_bytes rq d (map uint bs) =
       close_frame (consume rq (d\<lparr>dc_frame := Some (length used + length bs, used @ bs)\<rparr>) (used @ bs))"
proof (induction bs arbitrary: d used)
  case (Cons b bs)
  show ?case
  proof (cases "bs = []")
    case True
    with Cons.prems show ?thesis
      by (auto simp: add_byte_def Let_def close_frame_def split: prod.splits option.splits)
  next
    case False
    let ?d = "d\<lparr>dc_frame := Some (length used + length (b # bs), used @ [b])\<rparr>"
    have "add_byte rq d (uint b) = (None, ?d)"
      using Cons.prems False by (intro add_byte_in_frame) auto
    moreover have "add_bytes rq ?d (map uint bs) =
        close_frame (consume rq (?d\<lparr>dc_frame := Some (length (used @ [b]) + length bs, (used @ [b]) @ bs)\<rparr>) ((used @ [b]) @ bs))"
      using Cons.prems False by (intro Cons.IH) auto
    ultimately show ?thesis by simp
  qed
qed simp

text \<open>An idle decoder: between two frames.\<close>

definition idle :: "decoder \<Rightarrow> bool" where
  "idle d \<longleftrightarrow> \<not> dc_terminal d \<and> dc_prefix d = [] \<and> dc_frame d = None"

lemma add_byte_early:
  assumes "\<not> dc_terminal d" "dc_frame d = None" "length (dc_prefix d) < 3"
  shows "add_byte rq d (uint b) = (None, d\<lparr>dc_prefix := dc_prefix d @ [b]\<rparr>)"
  using assms by (simp add: add_byte_def Let_def)

lemma add_byte_last:
  assumes "\<not> dc_terminal d" "dc_frame d = None" "length (dc_prefix d) = 3"
  shows "add_byte rq d (uint b) =
    (let prefix = dc_prefix d @ [b]; len = get32 prefix 0 in
     if len < 47 \<or> len > 47 + dl_pageOutputBytes (dr_limits rq) \<or>
        len - 47 > dl_outputBytes (dr_limits rq) - dc_outputBytes d
     then (Some (DocumentException ''document_worker_output_limit''), d\<lparr>dc_prefix := prefix\<rparr>)
     else (None, d\<lparr>dc_frame := Some (nat len, []), dc_prefix := []\<rparr>))"
  using assms by (simp add: add_byte_def Let_def)

lemma add_bytes_prefix:
  assumes "idle d" "uint len \<ge> 47"
  shows "add_bytes rq d (map uint (w32 len)) =
    (if uint len > 47 + dl_pageOutputBytes (dr_limits rq) \<or>
        uint len - 47 > dl_outputBytes (dr_limits rq) - dc_outputBytes d
     then (Some (DocumentException ''document_worker_output_limit''), d\<lparr>dc_prefix := w32 len\<rparr>)
     else (None, d\<lparr>dc_frame := Some (unat len, [])\<rparr>))"
proof -
  obtain a b c e where w: "w32 len = [a, b, c, e]" by (simp add: w32_def)
  have "get32 (w32 len) 0 = uint len" by (rule get32_w32) simp
  then have g: "get32 [a, b, c, e] 0 = uint len" by (simp only: w)
  have d: "\<not> dc_terminal d" "dc_frame d = None" "dc_prefix d = []" using assms(1) by (simp_all add: idle_def)
  have same: "d\<lparr>dc_frame := f, dc_prefix := []\<rparr> = d\<lparr>dc_frame := f\<rparr>" for f
    using d(3) by (cases d) simp
  have three: "add_bytes rq d (map uint [a, b, c]) = (None, d\<lparr>dc_prefix := [a, b, c]\<rparr>)"
    using d by (simp add: add_byte_early)
  have "add_byte rq (d\<lparr>dc_prefix := [a, b, c]\<rparr>) (uint e) =
    (if uint len > 47 + dl_pageOutputBytes (dr_limits rq) \<or>
        uint len - 47 > dl_outputBytes (dr_limits rq) - dc_outputBytes d
     then (Some (DocumentException ''document_worker_output_limit''), d\<lparr>dc_prefix := w32 len\<rparr>)
     else (None, d\<lparr>dc_frame := Some (unat len, [])\<rparr>))"
    using d assms(2) by (subst add_byte_last) (auto simp: w g same)
  moreover have "map uint (w32 len) = map uint [a, b, c] @ [uint e]" by (simp add: w)
  moreover have "add_bytes rq d (map uint [a, b, c] @ [uint e]) =
      add_bytes rq (d\<lparr>dc_prefix := [a, b, c]\<rparr>) [uint e]"
    by (simp only: add_bytes_append three prod.case option.case)
  ultimately show ?thesis by simp
qed

lemma add_bytes_frame:
  assumes "idle d" "length job = 16" "length txt < 2 ^ 31"
    and "int (length txt) \<le> dl_pageOutputBytes (dr_limits rq)"
    and "int (length txt) \<le> dl_outputBytes (dr_limits rq) - dc_outputBytes d"
    and b_def: "b = body job kind index page offset status width height txt"
  shows "add_bytes rq d (map uint (w32 (of_nat (47 + length txt)) @ b)) =
    close_frame (consume rq (d\<lparr>dc_frame := Some (length b, b)\<rparr>) b)"
proof -
  have l: "length b = 47 + length txt" unfolding b_def by (rule body_fields(13) [OF assms(2)])
  then have "b \<noteq> []" by auto
  have u: "unat (of_nat (47 + length txt) :: 32 word) = 47 + length txt" using assms(3) by (simp add: unat_of_nat del: of_nat_add)
  then have ui: "uint (of_nat (47 + length txt) :: 32 word) = 47 + int (length txt)" by (simp add: uint_nat)
  have "add_bytes rq d (map uint (w32 (of_nat (47 + length txt)))) =
      (None, d\<lparr>dc_frame := Some (unat (of_nat (47 + length txt) :: 32 word), [])\<rparr>)"
    using assms(1,4,5) by (subst add_bytes_prefix) (simp_all only: ui, simp_all)
  moreover have "add_bytes rq (d\<lparr>dc_frame := Some (length b, [])\<rparr>) (map uint b) =
      close_frame (consume rq (d\<lparr>dc_frame := Some (length b, b)\<rparr>) b)"
    using add_bytes_in_frame [of "d\<lparr>dc_frame := Some (length b, [])\<rparr>" "[]" b rq] assms(1) l \<open>b \<noteq> []\<close>
    by (auto simp: idle_def)
  ultimately show ?thesis by (simp only: map_append add_bytes_append u l) simp
qed

section \<open>Chunks\<close>

definition wire :: "int \<Rightarrow> decoder \<Rightarrow> decoder" where
  "wire n d = d\<lparr>dc_wireBytes := n\<rparr>"

lemma wire_simps [simp]:
  "dc_pages (wire n d) = dc_pages d" "dc_prefix (wire n d) = dc_prefix d" "dc_frame (wire n d) = dc_frame d"
  "dc_outputBytes (wire n d) = dc_outputBytes d" "dc_pixels (wire n d) = dc_pixels d"
  "dc_wireBytes (wire n d) = n" "dc_terminal (wire n d) = dc_terminal d" "dc_failed (wire n d) = dc_failed d"
  "(wire n d)\<lparr>dc_pages := ps\<rparr> = wire n (d\<lparr>dc_pages := ps\<rparr>)"
  "(wire n d)\<lparr>dc_prefix := bs\<rparr> = wire n (d\<lparr>dc_prefix := bs\<rparr>)"
  "(wire n d)\<lparr>dc_frame := f\<rparr> = wire n (d\<lparr>dc_frame := f\<rparr>)"
  "(wire n d)\<lparr>dc_outputBytes := i\<rparr> = wire n (d\<lparr>dc_outputBytes := i\<rparr>)"
  "(wire n d)\<lparr>dc_pixels := i\<rparr> = wire n (d\<lparr>dc_pixels := i\<rparr>)"
  "(wire n d)\<lparr>dc_terminal := t\<rparr> = wire n (d\<lparr>dc_terminal := t\<rparr>)"
  "d\<lparr>dc_wireBytes := n\<rparr> = wire n d" "wire n (wire m d) = wire n d"
  by (simp_all add: wire_def)

lemma keep_page_wire: "keep_page (wire n d) p ocr w h txt = map_prod id (wire n) (keep_page d p ocr w h txt)"
  by (auto simp: keep_page_def split: option.splits)

lemma consume_wire: "consume rq (wire n d) fr = map_prod id (wire n) (consume rq d fr)"
  by (simp add: consume_def Let_def keep_page_wire split: option.split)

lemma add_byte_wire: "add_byte rq (wire n d) b = map_prod id (wire n) (add_byte rq d b)"
  by (simp add: add_byte_def Let_def consume_wire split: option.split prod.split)

lemma add_bytes_wire: "add_bytes rq (wire n d) bs = map_prod id (wire n) (add_bytes rq d bs)"
  by (induction bs arbitrary: d) (auto simp: add_byte_wire map_prod_def split: prod.splits option.splits)

lemma keep_page_failed: "keep_page d p ocr w h txt = (e, d') \<Longrightarrow> dc_failed d' = dc_failed d"
  by (auto simp: keep_page_def split: option.splits)

lemma consume_failed: "consume rq d fr = (e, d') \<Longrightarrow> dc_failed d' = dc_failed d"
  by (auto simp: consume_def Let_def dest!: keep_page_failed split: if_splits option.splits)

lemma add_byte_failed: "add_byte rq d b = (e, d') \<Longrightarrow> dc_failed d' = dc_failed d"
  by (auto simp: add_byte_def Let_def dest!: consume_failed split: if_splits option.splits prod.splits)

lemma add_bytes_failed: "add_bytes rq d bs = (e, d') \<Longrightarrow> dc_failed d' = dc_failed d"
  by (induction bs arbitrary: d) (auto dest: add_byte_failed split: prod.splits option.splits)

text \<open>What a whole response is decoded to, read at once.\<close>

definition decode_whole :: "DocumentWorkerRequest \<Rightarrow> decoder \<Rightarrow> int list \<Rightarrow> dart_exn + DocumentWorkerPage list" where
  "decode_whole rq d bs =
     (case add_bytes rq d bs of (Some e, _) \<Rightarrow> Inl e | (None, d') \<Rightarrow> finish d')"

lemma decode_chunks_whole:
  "\<not> dc_failed d \<Longrightarrow> \<forall>c \<in> set cs. length c \<le> 65536 \<Longrightarrow>
     dc_wireBytes d + int (length (concat cs)) \<le> max_wire rq \<Longrightarrow>
     decode_chunks rq d cs = decode_whole rq d (concat cs)"
proof (induction cs arbitrary: d)
  case Nil
  then show ?case by (simp add: decode_whole_def)
next
  case (Cons c cs)
  let ?n = "dc_wireBytes d + int (length c)"
  obtain e d' where a: "add_bytes rq d c = (e, d')" by fastforce
  then have add: "add rq d c = (case e of Some x \<Rightarrow> (Some x, (wire ?n d')\<lparr>dc_failed := True\<rparr>) | None \<Rightarrow> (None, wire ?n d'))"
    using Cons.prems by (simp add: add_def add_chunk_def add_bytes_wire split: option.split)
  show ?case
  proof (cases e)
    case None
    have "\<not> dc_failed (wire ?n d')" using add_bytes_failed [OF a] Cons.prems(1) by simp
    then have "decode_chunks rq (wire ?n d') cs = decode_whole rq (wire ?n d') (concat cs)"
      using Cons.prems(2,3) by (intro Cons.IH) auto
    also have "\<dots> = decode_whole rq d' (concat cs)"
      by (auto simp: decode_whole_def add_bytes_wire finish_def map_prod_def split: prod.splits option.splits)
    finally show ?thesis using None by (simp add: add decode_whole_def add_bytes_append a)
  next
    case (Some x)
    then show ?thesis by (simp add: add decode_whole_def add_bytes_append a)
  qed
qed

end
