(* ===== verification/Worker_Refinement.thy ===== *)
theory Worker_Refinement
  imports Response_Frames
begin

text \<open>
  The Android host and the Dart decoder together: whatever the document, the libraries and the
  chunking of the answer, the decoder reconstructs the pages of the engine's result, or throws the
  code of its error.
\<close>

section \<open>The text of a result is UTF-8\<close>

definition well_formed :: "byte list \<Rightarrow> bool" where
  "well_formed bs \<longleftrightarrow> utf8_chars bs \<noteq> None"

lemma well_formed_append: "well_formed as \<Longrightarrow> well_formed bs \<Longrightarrow> well_formed (as @ bs)"
  by (auto simp: well_formed_def dest: utf8_chars_append)

lemma well_formed_Nil [simp]: "well_formed []"
  by (simp add: well_formed_def)

lemma well_formed_ascii: "unat b < 128 \<Longrightarrow> well_formed [b]"
  by (simp add: well_formed_def utf8_chars_next Let_def)

text \<open>Tesseract documents that the text of a symbol is UTF-8.\<close>

definition tess_utf8 :: "libs \<Rightarrow> bool" where
  "tess_utf8 E \<longleftrightarrow>
     (\<forall>pic name ss s t. tess_recognize E pic name = Some (Some ss) \<longrightarrow> s \<in> set ss \<longrightarrow> sym_text s = Some t \<longrightarrow> well_formed t)"

lemma append_bytes_InrD:
  "append_bytes acc bs limit = Inr t \<Longrightarrow> t = acc @ bs \<and> of_nat (length bs) \<le> limit - of_nat (length acc)"
  by (auto simp: append_bytes_def split: if_splits)

lemma symbol_size_stop: "\<not> (of_nat (symbol_size s r k) \<le> r \<and> symbol_size s r k < length s)"
proof (induction s r k rule: symbol_size.induct)
  case (1 s r k)
  show ?case
  proof (cases "of_nat k \<le> r \<and> k < length s")
    case True
    then have "symbol_size s r k = symbol_size s r (Suc k)" by (subst symbol_size.simps) simp
    with 1 True show ?thesis by simp
  next
    case False
    then have "symbol_size s r k = k" by (subst symbol_size.simps, subst if_not_P) simp_all
    with False show ?thesis by simp
  qed
qed

text \<open>A symbol is appended as a whole or not at all.\<close>

lemma append_symbol_whole:
  assumes "append_symbol s acc limit = Inr t" "sym_text s = Some symbol"
  shows "\<exists>sep. t = acc @ symbol @ sep \<and> sep \<in> {[], [10], [32]}"
proof -
  let ?r = "limit - of_nat (length acc) :: 64 word"
  let ?k = "symbol_size symbol ?r 0"
  obtain t1 where t1: "append_bytes acc (take ?k symbol) limit = Inr t1"
      "(if sym_ends_line s then append_bytes t1 [10] limit
        else if sym_ends_word s then append_bytes t1 [32] limit else Inr t1) = Inr t"
    using assms by (auto simp: append_symbol_def Let_def)
  have "of_nat (length (take ?k symbol)) \<le> ?r" using append_bytes_InrD [OF t1(1)] by simp
  then have "length symbol \<le> ?k" using symbol_size_stop [of symbol ?r 0] by (cases "?k < length symbol") auto
  then show ?thesis
    using append_bytes_InrD [OF t1(1)] t1(2) by (auto dest: append_bytes_InrD split: if_splits)
qed

lemma append_symbols_well_formed:
  "append_symbols ss acc limit = Inr t \<Longrightarrow> well_formed acc \<Longrightarrow>
     (\<And>s x. s \<in> set ss \<Longrightarrow> sym_text s = Some x \<Longrightarrow> well_formed x) \<Longrightarrow> well_formed t"
proof (induction ss arbitrary: acc)
  case (Cons s ss)
  then obtain t1 where t1: "append_symbol s acc limit = Inr t1" "append_symbols ss t1 limit = Inr t" by auto
  have "well_formed t1"
  proof (cases "sym_text s")
    case None
    with t1(1) Cons.prems(2) show ?thesis by (simp add: append_symbol_def)
  next
    case (Some symbol)
    have "well_formed symbol" by (rule Cons.prems(3) [OF _ Some]) simp
    then show ?thesis
      using append_symbol_whole [OF t1(1) Some] Cons.prems(2)
      by (auto intro!: well_formed_append well_formed_ascii)
  qed
  then show ?case by (rule Cons.IH [OF t1(2)]) (use Cons.prems(3) in auto)
qed simp

lemma recognize_well_formed: "recognize E p lang eng rus limit = Inr t \<Longrightarrow> tess_utf8 E \<Longrightarrow> well_formed t"
  by (auto simp: recognize_def tess_utf8_def split: option.splits if_splits intro: append_symbols_well_formed)

lemma page_text_well_formed:
  assumes "page_text E src i limit = Inr t"
  shows "well_formed t"
proof -
  from page_text_Inr [OF assms] obtain vs where
    "t = concat (map utf8_bytes (filter (\<lambda>v. v \<noteq> 0) vs))" "\<forall>v \<in> set vs. scalar v" by blast
  then show ?thesis using utf8_chars_bytes [of "filter (\<lambda>v. v \<noteq> 0) vs"] by (simp add: well_formed_def)
qed

lemma pdf_page_well_formed:
  assumes "pdf_page E rq eng rus number sofar pixels = Inr (t, w, h, used)" "tess_utf8 E"
  shows "well_formed t"
proof (cases "rqs_operation rq = pdf_text")
  case True
  with assms(1) show ?thesis by (auto simp: pdf_page_def Let_def split: if_splits dest: page_text_well_formed)
next
  case False
  then obtain p limit where "recognize E p (rqs_language rq) eng rus limit = Inr t"
    using assms(1) unfolding pdf_page_def page_raster_def Let_def by (auto split: option.splits if_splits)
  then show ?thesis using assms(2) by (rule recognize_well_formed)
qed

lemma pdf_pages_well_formed:
  "pdf_pages_from E rq eng rus k number sofar pixels = Inr ps \<Longrightarrow> tess_utf8 E \<Longrightarrow> p \<in> set ps \<Longrightarrow> well_formed (pg_text p)"
proof (induction k arbitrary: number sofar pixels ps)
  case (Suc k)
  then obtain t w h used qs where q: "pdf_page E rq eng rus number sofar pixels = Inr (t, w, h, used)"
      "pdf_pages_from E rq eng rus k (number + 1) (sofar + of_nat (length t)) used = Inr qs"
      "ps = \<lparr>pg_number = number, pg_text = t, pg_width = w, pg_height = h\<rparr> # qs"
    by auto
  from Suc.IH [OF q(2) Suc.prems(2)] pdf_page_well_formed [OF q(1) Suc.prems(2)] Suc.prems(3)
  show ?case by (auto simp: q(3))
qed simp

lemma process_well_formed:
  assumes "tess_utf8 E" "p \<in> set (rs_pages (process E rq eng rus))"
  shows "well_formed (pg_text p)"
proof (cases "process_body E rq eng rus")
  case (Inl e)
  with assms(2) show ?thesis by (cases e) (auto simp: process_def)
next
  case (Inr r)
  with assms(2) have p: "p \<in> set (rs_pages r)" by (simp add: process_def)
  have "process_pdf E rq eng rus = Inr r \<or> process_image E rq eng rus = Inr r"
    using Inr by (auto simp: process_body_def Let_def split: if_splits Operation.splits)
  then show ?thesis
  proof
    assume "process_pdf E rq eng rus = Inr r"
    then show ?thesis using p assms(1) by (auto simp: process_pdf_def split: option.splits if_splits intro: pdf_pages_well_formed)
  next
    assume "process_image E rq eng rus = Inr r"
    then obtain pic limit t where "recognize E pic (rqs_language rq) eng rus limit = Inr t"
        "map pg_text (rs_pages r) = [t]"
      unfolding process_image_def Let_def by (auto split: option.splits if_splits)
    then show ?thesis using recognize_well_formed [OF _ assms(1)] p by auto
  qed
qed

section \<open>One page\<close>

definition dart_page :: "DocumentWorkerRequest \<Rightarrow> Page \<Rightarrow> DocumentWorkerPage" where
  "dart_page rq p =
     \<lparr>dp_page = pg_number p, dp_ocr = (dr_operation rq \<noteq> pdfText),
      dp_text = the (dart_utf8_decode (pg_text p)), dp_width = pg_width p, dp_height = pg_height p\<rparr>"

definition area :: "Page \<Rightarrow> int" where
  "area p = pg_width p * pg_height p"

text \<open>A page the decoder accepts when its number is the next and the totals allow it.\<close>

definition page_fits :: "DocumentWorkerRequest \<Rightarrow> Page \<Rightarrow> bool" where
  "page_fits rq p \<longleftrightarrow>
     well_formed (pg_text p) \<and> int (length (pg_text p)) \<le> dl_pageOutputBytes (dr_limits rq) \<and>
     (if dr_operation rq = pdfText then pg_width p = 0 \<and> pg_height p = 0
      else 1 \<le> pg_width p \<and> pg_width p \<le> dl_rasterDimension (dr_limits rq) \<and> 1 \<le> pg_height p \<and>
           pg_height p \<le> dl_rasterDimension (dr_limits rq) \<and> area p \<le> dl_pagePixels (dr_limits rq))"

definition take_page :: "DocumentWorkerRequest \<Rightarrow> decoder \<Rightarrow> Page \<Rightarrow> decoder" where
  "take_page rq d p =
     d\<lparr>dc_pages := dc_pages d @ [dart_page rq p], dc_outputBytes := dc_outputBytes d + int (length (pg_text p)),
       dc_pixels := dc_pixels d + area p\<rparr>"

lemma uint_word_of_int32: "0 \<le> i \<Longrightarrow> i < 2 ^ 31 \<Longrightarrow> uint (word_of_int i :: 32 word) = i"
  unfolding uint_word_of_int_eq by (intro take_bit_int_eq_self) auto

lemma uint_of_nat32: "n < 2 ^ 31 \<Longrightarrow> uint (of_nat n :: 32 word) = int n"
  using uint_word_of_int32 [of "int n"] by simp

lemma valid_dart_limitsD:
  assumes "valid_dart_limits l"
  shows "dl_rasterDimension l \<le> 4096" "dl_pageOutputBytes l \<le> 262144" "dl_outputBytes l \<le> 1048576"
    "dl_totalPixels l \<le> 20000000" "dl_pagePixels l \<le> 4000000" "1 \<le> dl_pageOutputBytes l" "1 \<le> dl_outputBytes l"
    "1 \<le> dl_totalPixels l" "1 \<le> dl_pagePixels l" "1 \<le> dl_rasterDimension l" "1 \<le> dl_sourceBytes l"
    "dl_sourceBytes l \<le> 10485760"
  using assms by (simp_all add: valid_dart_limits_def limit_fields_def dart_ceilings_def)

lemma area_bound:
  assumes "0 < w" "0 < h" "w * h \<le> n"
  shows "w \<le> n div (h :: int)"
  using assms by (simp add: pos_le_divide_eq zdiv_mono1 int_div_pos_eq order.trans [OF _ zdiv_mono1, of w "w * h"])

lemma consume_page:
  assumes "length job = 16" "dart_hex job = dr_job_id rq" "valid_dart_limits (dr_limits rq)" "page_fits rq p"
    and "pg_number p = dr_first_page rq + int (length (dc_pages d))" "uint page = pg_number p"
    and "int (length (dc_pages d)) < dr_page_count rq" "length (dc_pages d) < 100"
    and "uint offset = dc_outputBytes d" "dc_pixels d + area p \<le> dl_totalPixels (dr_limits rq)"
    and "index = of_nat (length (dc_pages d))"
  shows "consume rq d (body job 0 index page offset
      (if dr_operation rq = pdfText then 0 else 1) (word_of_int (pg_width p)) (word_of_int (pg_height p)) (pg_text p))
    = (None, take_page rq d p)"
proof -
  note lim = valid_dart_limitsD [OF assms(3)]
  have len: "length (pg_text p) < 2 ^ 31" using assms(4) lim(2) by (simp add: page_fits_def)
  have i: "uint index = int (length (dc_pages d))" using assms(8,11) by (simp add: uint_of_nat32)
  note n = assms(6)
  obtain cs where cs: "dart_utf8_decode (pg_text p) = Some cs"
    using assms(4) by (auto simp: page_fits_def well_formed_def dart_utf8_decode_def)
  have wh: "uint (word_of_int (pg_width p) :: 32 word) = pg_width p"
      "uint (word_of_int (pg_height p) :: 32 word) = pg_height p"
    using assms(4) lim(1) by (auto simp: page_fits_def split: if_splits intro!: uint_word_of_int32)
  note fields = body_fields [OF assms(1)]
  show ?thesis
  proof (cases "dr_operation rq = pdfText")
    case True
    then have "pg_width p = 0" "pg_height p = 0" using assms(4) by (simp_all add: page_fits_def)
    then show ?thesis
      using True assms(2,5,7) by (simp add: consume_def Let_def fields i n uint_of_nat32 [OF len] assms(9)
          keep_page_def cs take_page_def dart_page_def area_def)
  next
    case False
    then have f: "1 \<le> pg_width p" "pg_width p \<le> dl_rasterDimension (dr_limits rq)" "1 \<le> pg_height p"
        "pg_height p \<le> dl_rasterDimension (dr_limits rq)" "area p \<le> dl_pagePixels (dr_limits rq)"
      using assms(4) by (simp_all add: page_fits_def)
    then have "checkedRasterPixels (dr_limits rq) (pg_width p) (pg_height p) = Some (area p)"
      using area_bound [of "pg_width p" "pg_height p" "dl_pagePixels (dr_limits rq)"]
      by (simp add: checkedRasterPixels_def area_def)
    then show ?thesis
      using False assms(2,5,7,10) by (simp add: consume_def Let_def fields i n wh uint_of_nat32 [OF len] assms(9)
          keep_page_def cs take_page_def dart_page_def)
  qed
qed

lemma take_page_simps [simp]:
  "dc_pages (take_page rq d p) = dc_pages d @ [dart_page rq p]"
  "dc_outputBytes (take_page rq d p) = dc_outputBytes d + int (length (pg_text p))"
  "dc_pixels (take_page rq d p) = dc_pixels d + area p" "dc_failed (take_page rq d p) = dc_failed d"
  "idle (take_page rq d p) \<longleftrightarrow> idle d"
  by (simp_all add: take_page_def idle_def)

lemma close_take_page: "idle d \<Longrightarrow> (take_page rq (d\<lparr>dc_frame := f\<rparr>) p)\<lparr>dc_frame := None\<rparr> = take_page rq d p"
  by (cases d) (simp add: take_page_def idle_def)

section \<open>The pages in order\<close>

definition text_size :: "Page list \<Rightarrow> int" where
  "text_size ps = sum_list (map (\<lambda>p. int (length (pg_text p))) ps)"

definition total_area :: "Page list \<Rightarrow> int" where
  "total_area ps = sum_list (map area ps)"

lemma sizes_simps [simp]:
  "text_size [] = 0" "text_size (p # ps) = int (length (pg_text p)) + text_size ps"
  "total_area [] = 0" "total_area (p # ps) = area p + total_area ps"
  by (simp_all add: text_size_def total_area_def)

lemma text_size_nonneg [simp]: "0 \<le> text_size ps"
  by (induction ps) auto

lemma total_area_nonneg: "list_all (page_fits rq) ps \<Longrightarrow> 0 \<le> total_area ps"
  by (induction ps) (auto simp: page_fits_def area_def split: if_splits)

lemma length_page_frames:
  "length job = 16 \<Longrightarrow> page_frames out job oper index offset ps = (out', offset') \<Longrightarrow>
     int (length out') = int (length out) + 51 * int (length ps) + text_size ps"
proof (induction ps arbitrary: out index offset)
  case (Cons p ps)
  from Cons.IH [OF Cons.prems(1) Cons.prems(2) [unfolded page_frames.simps]] Cons.prems(1)
  show ?case by (simp add: frame_body body_fields(13))
qed simp

lemma uint_add_bound: "uint (a :: 32 word) + int n < 2 ^ 31 \<Longrightarrow> uint (a + of_nat n) = uint a + int n"
proof -
  assume a: "uint a + int n < 2 ^ 31"
  have u: "0 \<le> uint a" by (rule uint_nonnegative)
  from a have "uint a + int n < 2147483648" by simp
  then have "int n < 2147483648" using u by linarith
  then have n: "uint (of_nat n :: 32 word) = int n" by (intro uint_of_nat32) simp
  show "uint (a + of_nat n) = uint a + int n"
    using a n by (subst uint_add_lem [THEN iffD1]) simp_all
qed

lemma decode_pages:
  assumes "length job = 16" "dart_hex job = dr_job_id rq" "valid_dart_limits (dr_limits rq)" "dr_page_count rq \<le> 25"
    and "0 \<le> dr_first_page rq" "dr_first_page rq \<le> 100"
  shows "page_frames out job (operation_index (dr_operation rq)) index offset ps = (out', offset') \<Longrightarrow> idle d \<Longrightarrow>
      list_all (page_fits rq) ps \<Longrightarrow>
      map pg_number ps = map (\<lambda>i. dr_first_page rq + int (length (dc_pages d)) + int i) [0..<length ps] \<Longrightarrow>
      int (length (dc_pages d)) + int (length ps) \<le> dr_page_count rq \<Longrightarrow>
      dc_outputBytes d + text_size ps \<le> dl_outputBytes (dr_limits rq) \<Longrightarrow>
      dc_pixels d + total_area ps \<le> dl_totalPixels (dr_limits rq) \<Longrightarrow>
      index = of_nat (length (dc_pages d)) \<Longrightarrow> uint offset = dc_outputBytes d \<Longrightarrow>
      (\<exists>bs. out' = out @ bs \<and> add_bytes rq d (map uint bs) = (None, foldl (take_page rq) d ps) \<and>
        uint offset' = dc_outputBytes d + text_size ps)"
proof (induction ps arbitrary: out index offset d)
  case (Cons p ps)
  let ?w = "\<lambda>i. word_of_int i :: 32 word"
  let ?st = "if dr_operation rq = pdfText then 0 else 1 :: byte"
  let ?b = "body job 0 index (?w (pg_number p)) offset ?st (?w (pg_width p)) (?w (pg_height p)) (pg_text p)"
  let ?f = "w32 (of_nat (47 + length (pg_text p))) @ ?b"
  let ?d = "take_page rq d p"
  note lim = valid_dart_limitsD [OF assms(3)]
  have st: "(if operation_index (dr_operation rq) = 0 then 0 else 1) = ?st" by (cases "dr_operation rq") simp_all
  have fits: "page_fits rq p" and rest: "list_all (page_fits rq) ps" using Cons.prems(3) by simp_all
  have len: "int (length (pg_text p)) \<le> dl_pageOutputBytes (dr_limits rq)" using fits by (simp add: page_fits_def)
  have upt: "[0..<length (p # ps)] = 0 # map Suc [0..<length ps]" by (simp add: upt_conv_Cons map_Suc_upt del: upt_Suc)
  have num: "pg_number p = dr_first_page rq + int (length (dc_pages d))"
      "map pg_number ps = map (\<lambda>i. dr_first_page rq + int (length (dc_pages ?d)) + int i) [0..<length ps]"
    using Cons.prems(4) unfolding upt by (simp_all add: algebra_simps)
  have small: "length (dc_pages d) < 100" using Cons.prems(5) assms(4) by simp
  have pn: "uint (?w (pg_number p)) = pg_number p"
    using num(1) assms(5,6) small by (intro uint_word_of_int32) auto
  have sum: "dc_pixels d + area p \<le> dl_totalPixels (dr_limits rq)"
    using Cons.prems(7) total_area_nonneg [OF rest] by simp
  have out: "int (length (pg_text p)) \<le> dl_outputBytes (dr_limits rq) - dc_outputBytes d"
    using Cons.prems(6) text_size_nonneg [of ps] unfolding sizes_simps by linarith
  have "consume rq (d\<lparr>dc_frame := Some (length ?b, ?b)\<rparr>) ?b = (None, take_page rq (d\<lparr>dc_frame := Some (length ?b, ?b)\<rparr>) p)"
    using assms fits num(1) pn sum small Cons.prems(5,8,9) by (intro consume_page) auto
  then have one: "add_bytes rq d (map uint ?f) = (None, ?d)"
    using add_bytes_frame [OF Cons.prems(2) assms(1) _ len out refl, of 0 index "?w (pg_number p)" offset ?st
        "?w (pg_width p)" "?w (pg_height p)"] len lim(2) close_take_page [OF Cons.prems(2)]
    by (simp add: close_frame_def)
  have off: "uint (offset + of_nat (length (pg_text p))) = dc_outputBytes ?d"
    using out lim(3) Cons.prems(9) by (subst uint_add_bound) auto
  have "\<exists>bs. out' = (out @ ?f) @ bs \<and> add_bytes rq ?d (map uint bs) = (None, foldl (take_page rq) ?d ps) \<and>
      uint offset' = dc_outputBytes ?d + text_size ps"
  proof (rule Cons.IH)
    show "page_frames (out @ ?f) job (operation_index (dr_operation rq)) (index + 1)
        (offset + of_nat (length (pg_text p))) ps = (out', offset')"
      using Cons.prems(1) assms(1) by (simp add: frame_body st)
    show "idle ?d" "list_all (page_fits rq) ps" using Cons.prems(2) rest by simp_all
    show "map pg_number ps = map (\<lambda>i. dr_first_page rq + int (length (dc_pages ?d)) + int i) [0..<length ps]"
      by (rule num(2))
    show "index + 1 = of_nat (length (dc_pages ?d))" using Cons.prems(8) by simp
    show "uint (offset + of_nat (length (pg_text p))) = dc_outputBytes ?d" by (rule off)
    show "int (length (dc_pages ?d)) + int (length ps) \<le> dr_page_count rq" using Cons.prems(5) by simp
    show "dc_outputBytes ?d + text_size ps \<le> dl_outputBytes (dr_limits rq)" using Cons.prems(6) by simp
    show "dc_pixels ?d + total_area ps \<le> dl_totalPixels (dr_limits rq)" using Cons.prems(7) by simp
  qed
  then obtain bs where bs: "out' = (out @ ?f) @ bs" "add_bytes rq ?d (map uint bs) = (None, foldl (take_page rq) ?d ps)"
      "uint offset' = dc_outputBytes ?d + text_size ps" by blast
  have "add_bytes rq d (map uint (?f @ bs)) = (None, foldl (take_page rq) ?d ps)"
    by (simp only: map_append [of uint ?f] add_bytes_append one prod.case option.case bs(2))
  then show ?case using bs(1,3) by (intro exI [of _ "?f @ bs"]) simp
qed simp

lemma foldl_take_page:
  "dc_pages (foldl (take_page rq) d ps) = dc_pages d @ map (dart_page rq) ps"
  "dc_outputBytes (foldl (take_page rq) d ps) = dc_outputBytes d + text_size ps"
  "dc_failed (foldl (take_page rq) d ps) = dc_failed d" "idle (foldl (take_page rq) d ps) = idle d"
  by (induction ps arbitrary: d) simp_all

section \<open>Failures have an error\<close>

lemma require_Inl: "require c e k = Inl x \<longleftrightarrow> (\<not> c \<and> x = Failure e) \<or> (c \<and> k () = Inl x)"
  by auto

lemma and_then_Inl: "and_then x k = Inl e \<longleftrightarrow> x = Inl e \<or> (\<exists>a. x = Inr a \<and> k a = Inl e)"
  by (cases x) auto

lemmas inl = require_Inl and_then_Inl

lemma append_bytes_error: "append_bytes t bs l \<noteq> Inl (Failure err_none)"
  by (simp add: append_bytes_def inl)

lemma append_chars_error: "append_chars vs t l \<noteq> Inl (Failure err_none)"
  by (induction vs arbitrary: t) (auto simp: append_unicode_def inl append_bytes_error simp del: require.simps)

lemma append_symbols_error: "append_symbols ss t l \<noteq> Inl (Failure err_none)"
  by (induction ss arbitrary: t)
     (auto simp: append_symbol_def inl append_bytes_error Let_def split: option.splits)

lemma recognize_error: "recognize E p lang eng rus l \<noteq> Inl (Failure err_none)"
  by (simp add: recognize_def inl append_symbols_error split: option.split)

lemma check_pixels_error: "check_pixels w h lm u \<noteq> Inl (Failure err_none)"
  by (simp add: check_pixels_def inl Let_def)

lemma pdf_page_error: "pdf_page E rq eng rus n sofar px \<noteq> Inl (Failure err_none)"
  by (auto simp: pdf_page_def page_text_def page_raster_def Let_def inl append_chars_error recognize_error check_pixels_error
      simp del: require.simps split: option.splits if_splits)

lemma pdf_pages_error: "pdf_pages_from E rq eng rus k n sofar px \<noteq> Inl (Failure err_none)"
  by (induction k arbitrary: n sofar px) (auto simp: inl pdf_page_error)

lemma process_body_error: "process_body E rq eng rus \<noteq> Inl (Failure err_none)"
  by (auto simp: process_body_def process_pdf_def process_image_def Let_def inl pdf_pages_error recognize_error
      check_pixels_error simp del: require.simps split: option.splits Operation.splits prod.splits)

lemma process_error_pages: "rs_error (process E rq eng rus) \<noteq> err_none \<Longrightarrow> rs_pages (process E rq eng rus) = []"
proof (cases "process_body E rq eng rus")
  case (Inl e)
  then show ?thesis by (cases e) (simp_all add: process_def)
next
  case (Inr r)
  then have v: "valid_limits (rqs_limits rq)" by (auto simp: process_body_def Let_def split: if_splits)
  have "process_pdf E rq eng rus = Inr r \<or> process_image E rq eng rus = Inr r \<and> rqs_operation rq = image_ocr"
    using Inr by (auto simp: process_body_def Let_def split: if_splits Operation.splits)
  then have "rs_error r = err_none" using process_pdf_within process_image_within v by blast
  moreover assume "rs_error (process E rq eng rus) \<noteq> err_none"
  ultimately show ?thesis using Inr by (simp add: process_def)
qed

section \<open>Requests\<close>

definition engine_request :: "DocumentWorkerRequest \<Rightarrow> Bytes \<Rightarrow> Request" where
  "engine_request rq src =
     \<lparr>rqs_operation = operation_of (operation_index (dr_operation rq)),
      rqs_language = language_of (language_index (dr_language rq)),
      rqs_first_page = dr_first_page rq, rqs_page_count = dr_page_count rq,
      rqs_limits = jni_limits (limit_fields (dr_limits rq)), rqs_source = src\<rparr>"

lemma unat_word_of_int64: "0 \<le> i \<Longrightarrow> i < 2 ^ 32 \<Longrightarrow> unat (word_of_int i :: 64 word) = nat i"
proof -
  assume "0 \<le> i" "i < 2 ^ 32"
  then have "uint (word_of_int i :: 64 word) = i"
    unfolding uint_word_of_int_eq by (intro take_bit_int_eq_self) auto
  then show ?thesis by (simp only: unat_eq_nat_uint)
qed

lemma jni_limits_simps:
  assumes "valid_dart_limits l"
  shows "raster_dimension (jni_limits (limit_fields l)) = dl_rasterDimension l"
    "unat (page_pixels (jni_limits (limit_fields l))) = nat (dl_pagePixels l)"
    "unat (total_pixels (jni_limits (limit_fields l))) = nat (dl_totalPixels l)"
    "unat (page_output_bytes (jni_limits (limit_fields l))) = nat (dl_pageOutputBytes l)"
    "unat (output_bytes (jni_limits (limit_fields l))) = nat (dl_outputBytes l)"
  using valid_dart_limitsD [OF assms] by (simp_all add: jni_limits_def limit_fields_def unat_word_of_int64)

lemma operation_text [simp]: "operation_of (operation_index oper) = pdf_text \<longleftrightarrow> oper = pdfText"
  by (cases oper) (simp_all add: operation_of_def)

lemma page_fits_within:
  assumes "valid_dart_limits (dr_limits rq)" "well_formed (pg_text p)"
    and "page_within (operation_of (operation_index (dr_operation rq))) (jni_limits (limit_fields (dr_limits rq))) p"
  shows "page_fits rq p"
  using assms(2,3) valid_dart_limitsD [OF assms(1)]
  by (auto simp: page_fits_def page_within_def jni_limits_simps [OF assms(1)] area_def split: if_splits)

lemma engine_result:
  assumes "rs_error r = err_none" "r = process E (engine_request rq src) eng rus" "tess_utf8 E"
    and "valid_dart_limits (dr_limits rq)"
  shows "list_all (page_fits rq) (rs_pages r)"
    "map pg_number (rs_pages r) = map (\<lambda>i. dr_first_page rq + int i) [0..<length (rs_pages r)]"
    "int (length (rs_pages r)) = dr_page_count rq"
    "text_size (rs_pages r) \<le> dl_outputBytes (dr_limits rq)" "total_area (rs_pages r) \<le> dl_totalPixels (dr_limits rq)"
proof -
  have w: "result_within (engine_request rq src) r" "0 < dr_page_count rq"
    using process_within [of E "engine_request rq src" eng rus] process_body_error assms(1,2)
    by (auto simp: engine_request_def)
  let ?ps = "rs_pages r"
  have r: "map pg_number ?ps = map (\<lambda>i. dr_first_page rq + int i) [0..<nat (dr_page_count rq)]"
      "list_all (page_within (operation_of (operation_index (dr_operation rq))) (jni_limits (limit_fields (dr_limits rq)))) ?ps"
      "sum_list (map (\<lambda>p. length (pg_text p)) ?ps) \<le> nat (dl_outputBytes (dr_limits rq))"
      "sum_list (map (\<lambda>p. nat (pg_width p * pg_height p)) ?ps) \<le> nat (dl_totalPixels (dr_limits rq))"
    using w(1) by (simp_all add: result_within_def Let_def engine_request_def jni_limits_simps [OF assms(4)])
  have l: "length ?ps = nat (dr_page_count rq)" using arg_cong [OF r(1), of length] by simp
  then show "map pg_number ?ps = map (\<lambda>i. dr_first_page rq + int i) [0..<length ?ps]" using r(1) by simp
  show "int (length ?ps) = dr_page_count rq" using l w(2) by simp
  have wf: "well_formed (pg_text p)" if "p \<in> set ?ps" for p
    using process_well_formed [OF assms(3), of p] that assms(2) by simp
  show fits: "list_all (page_fits rq) ?ps"
    using r(2) wf page_fits_within [OF assms(4)] by (auto simp: list_all_iff)
  have "text_size ps = int (sum_list (map (\<lambda>p. length (pg_text p)) ps))" for ps by (induction ps) simp_all
  then show "text_size ?ps \<le> dl_outputBytes (dr_limits rq)"
    using r(3) valid_dart_limitsD(7) [OF assms(4)] by simp
  have "list_all (page_fits rq) ps \<Longrightarrow> total_area ps = int (sum_list (map (\<lambda>p. nat (pg_width p * pg_height p)) ps))" for ps
    by (induction ps) (auto simp: page_fits_def area_def split: if_splits)
  then show "total_area ?ps \<le> dl_totalPixels (dr_limits rq)"
    using r(4) fits valid_dart_limitsD(8) [OF assms(4)] by simp
qed

section \<open>Job identifiers and error codes\<close>

lemma dart_digit_char: "list_all (\<lambda>c. dart_digit c < 16 \<and> hex_char (dart_digit c) = c) ''0123456789abcdef''"
  by code_simp

lemma dart_hex_unhex:
  "even (length s) \<Longrightarrow> list_all (\<lambda>c. c \<in> set ''0123456789abcdef'') s \<Longrightarrow>
     dart_hex (dart_unhex s) = s \<and> length (dart_unhex s) = length s div 2"
proof (induction s rule: dart_unhex.induct)
  case (1 a b s)
  have h: "dart_digit a < 16" "dart_digit b < 16" "hex_char (dart_digit a) = a" "hex_char (dart_digit b) = b"
    using 1(3) dart_digit_char unfolding list_all_iff by (simp_all only: list.set_intros ball_simps)
  then have u: "unat (of_nat (dart_digit a * 16 + dart_digit b) :: byte) = dart_digit a * 16 + dart_digit b"
    by (simp add: unat_of_nat del: of_nat_add of_nat_mult)
  have "even (length s)" "list_all (\<lambda>c. c \<in> set ''0123456789abcdef'') s" using 1(2,3) by simp_all
  from 1(1) [OF this] h show ?case by (simp add: dart_hex_def u del: of_nat_add of_nat_mult)
qed (simp_all add: dart_hex_def)

lemma job_id:
  assumes "is_job_id s"
  shows "dart_hex (dart_unhex s) = s" "length (dart_unhex s) = 16"
  using dart_hex_unhex [of s] assms by (simp_all add: is_job_id_def)

lemma ascii_code: "utf8_chars (bytes_of s) = Some (map of_char s)" if "list_all (\<lambda>c. of_char c < (128 :: nat)) s"
  using that
proof (induction s)
  case (Cons c s)
  have "utf8_next (bytes_of (c # s)) = Some (of_char c, bytes_of s)"
    using Cons.prems by (simp add: bytes_of_def Let_def)
  then show ?case using Cons by (simp add: utf8_chars_next)
qed (simp add: bytes_of_def)

lemma error_code_listed: "error_code e \<in> set error_codes" "list_all (\<lambda>c. of_char c < (128 :: nat)) (error_code e)"
  "0 < length (error_code e)" "length (error_code e) \<le> 31"
  by (simp_all add: error_code_def error_codes_def)

lemma error_code_decoded: "dart_utf8_decode (bytes_of (error_code e)) = Some (map of_char (error_code e))"
proof -
  have "drop_mark (map of_char (error_code e)) = map of_char (error_code e)"
    using error_code_listed(2) [of e] by (auto simp: drop_mark_def split: list.split)
  then show ?thesis by (simp add: dart_utf8_decode_def ascii_code [OF error_code_listed(2)])
qed

section \<open>The answer decoded\<close>

definition host_answer :: "libs \<Rightarrow> java_vm \<Rightarrow> DocumentWorkerRequest \<Rightarrow> byte list option \<Rightarrow> byte list option \<Rightarrow> jni_answer" where
  "host_answer E vm rq eng rus =
     native_process E vm (Some (dart_unhex (dr_job_id rq))) (operation_index (dr_operation rq))
       (language_index (dr_language rq)) (dr_first_page rq) (dr_page_count rq) (Some (limit_fields (dr_limits rq)))
       (Some (dr_source rq)) eng rus"

definition engine_answer :: "libs \<Rightarrow> java_vm \<Rightarrow> DocumentWorkerRequest \<Rightarrow> byte list option \<Rightarrow> byte list option \<Rightarrow> Result" where
  "engine_answer E vm rq eng rus =
     process E (engine_request rq (byte_array vm (Some (dr_source rq)))) (byte_array vm eng) (byte_array vm rus)"

text \<open>What the application should see of a result.\<close>

definition seen :: "DocumentWorkerRequest \<Rightarrow> Result \<Rightarrow> dart_exn + DocumentWorkerPage list" where
  "seen rq r =
     (if rs_error r = err_none then Inr (map (dart_page rq) (rs_pages r))
      else if int (length (error_code (rs_error r))) > min (dl_pageOutputBytes (dr_limits rq)) (dl_outputBytes (dr_limits rq))
      then Inl (DocumentException ''document_worker_output_limit'')
      else Inl (DocumentException (error_code (rs_error r))))"

lemma idle_new [simp]: "idle new_decoder" "dc_pages new_decoder = []" "dc_outputBytes new_decoder = 0"
  "dc_pixels new_decoder = 0" "\<not> dc_failed new_decoder" "dc_wireBytes new_decoder = 0"
  by (simp_all add: idle_def new_decoder_def)

lemma decode_error_response:
  assumes "is_job_id (dr_job_id rq)" "valid_dart_limits (dr_limits rq)" "rs_error r \<noteq> err_none"
  shows "decode_whole rq new_decoder (map uint (jni_response (dart_unhex (dr_job_id rq)) oper r)) = seen rq r"
    "length (jni_response (dart_unhex (dr_job_id rq)) oper r) = 51 + length (error_code (rs_error r))"
proof -
  let ?job = "dart_unhex (dr_job_id rq)"
  let ?c = "bytes_of (error_code (rs_error r))"
  let ?b = "body ?job 2 0 0 0 0 0 0 ?c"
  note job = job_id [OF assms(1)]
  note code = error_code_listed [of "rs_error r"]
  have f: "jni_response ?job oper r = w32 (of_nat (47 + length ?c)) @ ?b"
    using assms(3) job(2) by (simp add: jni_response_def frame_body)
  then show "length (jni_response ?job oper r) = 51 + length (error_code (rs_error r))"
    using body_fields(13) [OF job(2)] by simp
  have small: "length ?c < 2 ^ 31" using code(4) by simp
  have ui: "uint (of_nat (47 + length ?c) :: 32 word) = 47 + int (length ?c)"
    using uint_of_nat32 [of "47 + length ?c"] code(4) by simp
  show "decode_whole rq new_decoder (map uint (jni_response ?job oper r)) = seen rq r"
  proof (cases "int (length ?c) > min (dl_pageOutputBytes (dr_limits rq)) (dl_outputBytes (dr_limits rq))")
    case True
    then have "add_bytes rq new_decoder (map uint (w32 (of_nat (47 + length ?c)))) =
        (Some (DocumentException ''document_worker_output_limit''), new_decoder\<lparr>dc_prefix := w32 (of_nat (47 + length ?c))\<rparr>)"
      by (subst add_bytes_prefix) (simp_all only: idle_new ui, auto)
    then show ?thesis using True assms(3) unfolding f
      by (simp only: decode_whole_def map_append add_bytes_append prod.case option.case) (simp add: seen_def)
  next
    case False
    have "consume rq (new_decoder\<lparr>dc_frame := Some (length ?b, ?b)\<rparr>) ?b =
        (Some (DocumentException (error_code (rs_error r))), new_decoder\<lparr>dc_frame := Some (length ?b, ?b)\<rparr>)"
      using code(1,3) by (simp add: consume_def Let_def body_fields [OF job(2)] job(1) uint_of_nat32 [OF small, simplified]
          error_code_decoded comp_def map_idI)
    then have "add_bytes rq new_decoder (map uint (w32 (of_nat (47 + length ?c)) @ ?b)) =
        (Some (DocumentException (error_code (rs_error r))), new_decoder\<lparr>dc_frame := Some (length ?b, ?b)\<rparr>)"
      using False by (subst add_bytes_frame [OF _ job(2) small _ _ refl]) (simp_all add: close_frame_def)
    then show ?thesis using False assms(3) by (simp add: f decode_whole_def seen_def)
  qed
qed

lemma decode_page_response:
  assumes "is_job_id (dr_job_id rq)" "valid_dart_limits (dr_limits rq)" "rs_error r = err_none"
    and "r = process E (engine_request rq src) eng rus" "tess_utf8 E"
    and "dr_page_count rq \<le> 25" "0 \<le> dr_first_page rq" "dr_first_page rq \<le> 100"
  shows "decode_whole rq new_decoder (map uint (jni_response (dart_unhex (dr_job_id rq)) (operation_index (dr_operation rq)) r)) = seen rq r"
    "int (length (jni_response (dart_unhex (dr_job_id rq)) (operation_index (dr_operation rq)) r)) =
       51 * (dr_page_count rq + 1) + text_size (rs_pages r)"
proof -
  let ?job = "dart_unhex (dr_job_id rq)" and ?ps = "rs_pages r"
  note job = job_id [OF assms(1)]
  note lim = valid_dart_limitsD [OF assms(2)]
  note e = engine_result [OF assms(3,4,5,2)]
  obtain out offset where p: "page_frames [] ?job (operation_index (dr_operation rq)) 0 0 ?ps = (out, offset)" by fastforce
  have "\<exists>bs. out = [] @ bs \<and> add_bytes rq new_decoder (map uint bs) = (None, foldl (take_page rq) new_decoder ?ps) \<and>
        uint offset = dc_outputBytes new_decoder + text_size ?ps"
    using job assms(2,6-8) p e by (intro decode_pages [where index = 0 and offset = 0]) simp_all
  then have pages: "add_bytes rq new_decoder (map uint out) = (None, foldl (take_page rq) new_decoder ?ps)"
      "uint offset = text_size ?ps" by auto
  let ?d = "foldl (take_page rq) new_decoder ?ps"
  let ?b = "body ?job 1 (of_nat (length ?ps)) 0 offset 0 0 0 []"
  have f: "jni_response ?job (operation_index (dr_operation rq)) r = out @ (w32 (of_nat (47 + length ([] :: byte list))) @ ?b)"
    using assms(3) job(2) by (simp add: jni_response_def p frame_body)
  show "int (length (jni_response ?job (operation_index (dr_operation rq)) r)) = 51 * (dr_page_count rq + 1) + text_size ?ps"
    using length_page_frames [OF job(2) p] e(3) by (simp add: f body_fields(13) [OF job(2)])
  note d = foldl_take_page [of rq new_decoder ?ps]
  have idle: "idle ?d" by (simp only: d) simp
  have n: "uint (of_nat (length ?ps) :: 32 word) = int (length ?ps)" using e(3) assms(6) by (intro uint_of_nat32) simp
  have "consume rq (?d\<lparr>dc_frame := Some (length ?b, ?b)\<rparr>) ?b = (None, ?d\<lparr>dc_frame := Some (length ?b, ?b), dc_terminal := True\<rparr>)"
    using e(3) by (simp add: consume_def Let_def body_fields [OF job(2)] job(1) n d pages(2))
  then have "add_bytes rq ?d (map uint (w32 (of_nat (47 + length ([] :: byte list))) @ ?b)) =
      (None, ?d\<lparr>dc_frame := None, dc_terminal := True\<rparr>)"
    using e(4) lim(6) by (subst add_bytes_frame [OF idle job(2) _ _ _ refl]) (simp_all add: close_frame_def d)
  then have "add_bytes rq new_decoder (map uint (out @ (w32 (of_nat (47 + length ([] :: byte list))) @ ?b))) =
      (None, ?d\<lparr>dc_frame := None, dc_terminal := True\<rparr>)"
    by (simp only: map_append [of uint out] add_bytes_append pages(1) prod.case option.case)
  then show "decode_whole rq new_decoder (map uint (jni_response ?job (operation_index (dr_operation rq)) r)) = seen rq r"
    using idle assms(3) unfolding f by (simp only: decode_whole_def prod.case option.case) (simp add: finish_def d idle_def seen_def)
qed

lemma host_answer_decoded:
  assumes "valid_request sha rq" "tess_utf8 E" "vm_pins vm (dart_unhex (dr_job_id rq))" "\<not> vm_exception vm"
    and "\<And>n. vm_new_array vm n"
  shows "\<exists>bs. host_answer E vm rq eng rus = jni_array bs \<and>
    (\<forall>chunks. concat chunks = map uint bs \<longrightarrow> (\<forall>c \<in> set chunks. length c \<le> 65536) \<longrightarrow>
       decode_chunks rq new_decoder chunks = seen rq (engine_answer E vm rq eng rus))"
proof -
  let ?job = "dart_unhex (dr_job_id rq)" and ?oper = "operation_index (dr_operation rq)"
  let ?r = "engine_answer E vm rq eng rus"
  let ?bs = "jni_response ?job ?oper ?r"
  from assms(1) have v: "is_job_id (dr_job_id rq)" "valid_dart_limits (dr_limits rq)" "1 \<le> dr_page_count rq"
      "dr_page_count rq \<le> 25" "1 \<le> dr_first_page rq" "dr_first_page rq \<le> 100"
    by (auto simp: valid_request_def)
  note job = job_id [OF v(1)] and lim = valid_dart_limitsD [OF v(2)]
  have decoded: "decode_whole rq new_decoder (map uint ?bs) = seen rq ?r"
    and size: "int (length ?bs) \<le> max_wire rq"
  proof -
    show "decode_whole rq new_decoder (map uint ?bs) = seen rq ?r"
      using decode_error_response(1) [OF v(1,2)] decode_page_response(1) [OF v(1,2) _ _ assms(2) v(4)] v(5,6)
      by (cases "rs_error ?r = err_none") (simp_all add: engine_answer_def)
    show "int (length ?bs) \<le> max_wire rq"
    proof (cases "rs_error ?r = err_none")
      case True
      have "int (length ?bs) = 51 * (dr_page_count rq + 1) + text_size (rs_pages ?r)"
        using decode_page_response(2) [OF v(1,2) True _ assms(2) v(4)] v(5,6) by (simp add: engine_answer_def)
      moreover have "text_size (rs_pages ?r) \<le> dl_outputBytes (dr_limits rq)"
        using engine_result(4) [OF True _ assms(2) v(2)] by (simp add: engine_answer_def)
      ultimately show ?thesis by (simp add: max_wire_def)
    next
      case False
      from decode_error_response(2) [OF v(1,2) False] error_code_listed(4) [of "rs_error ?r"] lim(7) v(3)
      show ?thesis by (simp add: max_wire_def)
    qed
  qed
  have fits: "length ?bs \<le> 1048576 + 4096" using size lim(3) v(4) by (simp add: max_wire_def)
  have index: "\<not> (?oper < 0 \<or> ?oper > 2)" "\<not> (language_index (dr_language rq) < 0 \<or> language_index (dr_language rq) > 2)"
    by (cases "dr_operation rq"; simp) (cases "dr_language rq"; simp)
  have "length (limit_fields (dr_limits rq)) = 10" by (simp add: limit_fields_def)
  then have "host_answer E vm rq eng rus = jni_array ?bs"
    using job(2) assms(3-5) fits index v(3,5)
    by (simp add: host_answer_def native_process_def Let_def engine_answer_def engine_request_def byte_array_def)
  moreover have "decode_chunks rq new_decoder chunks = seen rq ?r"
    if "concat chunks = map uint ?bs" "\<forall>c \<in> set chunks. length c \<le> 65536" for chunks
    using decode_chunks_whole [of new_decoder chunks rq] that size decoded by simp
  ultimately show ?thesis by blast
qed

end
