(* ===== verification/Windows_Worker.thy ===== *)
theory Windows_Worker
  imports Worker_Refinement
begin

text \<open>
  The Windows helper process: what it reads and writes through its pipes, its exit codes, and how
  it fits the protocol of the application. It does not: it refuses every request with the
  application's memory limit, and numbers the kinds of frames differently.
\<close>

unbundle bit_operations_syntax

section \<open>Pipes\<close>

lemma ReadFile_Some:
  "ReadFile p n = Some (bs, p') \<Longrightarrow> concat p = bs @ concat p' \<and> length bs \<le> n"
  by (cases p) (auto split: if_splits)

lemma ReadExact_loop_Some:
  "ReadExact_loop p got n = (Some bs, p') \<Longrightarrow>
     \<exists>new. bs = got @ new \<and> length new = n \<and> concat p = new @ concat p'"
proof (induction p got n rule: ReadExact_loop.induct)
  case (1 p got n)
  show ?case
  proof (cases "n = 0")
    case True
    with 1(2) show ?thesis by (simp add: ReadExact_loop.simps)
  next
    case False
    then obtain c q where c: "ReadFile p (min n 65536) = Some (c, q)" "c \<noteq> []" "ReadExact_loop q (got @ c) (n - length c) = (Some bs, p')"
      using 1(2) by (subst (asm) ReadExact_loop.simps) (auto split: option.splits if_splits)
    from 1(1) [OF False c(1) refl c(2) c(3)] ReadFile_Some [OF c(1)] show ?thesis by auto
  qed
qed

lemma ReadExact_Some:
  "ReadExact p n = (Some bs, p') \<Longrightarrow> length bs = n \<and> concat p = bs @ concat p'"
  by (auto simp: ReadExact_def dest: ReadExact_loop_Some)

text \<open>A pipe without empty writes delivers what is in it.\<close>

definition flowing :: "pipe \<Rightarrow> bool" where
  "flowing p \<longleftrightarrow> [] \<notin> set p"

lemma ReadFile_flowing:
  assumes "flowing p" "0 < n" "n \<le> length (concat p)"
  shows "\<exists>bs p'. ReadFile p n = Some (bs, p') \<and> bs \<noteq> [] \<and> flowing p'"
  using assms by (cases p) (auto simp: flowing_def)

lemma ReadExact_loop_flowing:
  "flowing p \<Longrightarrow> n \<le> length (concat p) \<Longrightarrow>
     \<exists>p'. ReadExact_loop p got n = (Some (got @ take n (concat p)), p') \<and> concat p' = drop n (concat p) \<and> flowing p'"
proof (induction p got n rule: ReadExact_loop.induct)
  case (1 p got n)
  show ?case
  proof (cases "n = 0")
    case True
    with 1(2) show ?thesis by (simp add: ReadExact_loop.simps)
  next
    case False
    have "0 < min n 65536" "min n 65536 \<le> length (concat p)" using False 1(3) by linarith+
    then obtain c q where c: "ReadFile p (min n 65536) = Some (c, q)" "c \<noteq> []" "flowing q"
      using ReadFile_flowing [OF 1(2)] by blast
    note l = ReadFile_Some [OF c(1)]
    have "n - length c \<le> length (concat q)" using 1(3) l by simp
    from 1(1) [OF False c(1) refl c(2) c(3) this] obtain p' where
      "ReadExact_loop q (got @ c) (n - length c) = (Some ((got @ c) @ take (n - length c) (concat q)), p')"
      "concat p' = drop (n - length c) (concat q)" "flowing p'" by auto
    moreover have "ReadExact_loop p got n = ReadExact_loop q (got @ c) (n - length c)"
      using False c by (subst ReadExact_loop.simps) simp
    ultimately show ?thesis using l by simp
  qed
qed

lemma ReadExact_flowing:
  "flowing p \<Longrightarrow> n \<le> length (concat p) \<Longrightarrow>
     \<exists>p'. ReadExact p n = (Some (take n (concat p)), p') \<and> concat p' = drop n (concat p) \<and> flowing p'"
  using ReadExact_loop_flowing [of p n "[]"] by (simp add: ReadExact_def)

lemma WriteFile_Some:
  "WriteFile s bs = (Some k, s') \<Longrightarrow> k \<le> length bs \<and> sk_written s' = sk_written s @ take k bs"
  by (auto simp: WriteFile_def min_def split: list.splits option.splits)

lemma WriteFile_None: "WriteFile s bs = (None, s') \<Longrightarrow> sk_written s' = sk_written s"
  by (auto simp: WriteFile_def split: list.splits option.splits)

lemma WriteExact_written:
  "WriteExact_w s bs = (ok, s') \<Longrightarrow>
     \<exists>n. sk_written s' = sk_written s @ take n bs \<and> (ok \<longrightarrow> length bs \<le> n)"
proof (induction s bs rule: WriteExact_w.induct)
  case (1 s bs)
  show ?case
  proof (cases "bs = []")
    case True
    with 1(2) show ?thesis by (auto simp: WriteExact_w.simps)
  next
    case False
    obtain a s1 where w: "WriteFile s (take 65536 bs) = (a, s1)" by fastforce
    show ?thesis
    proof (cases "\<exists>k. a = Some k \<and> k \<noteq> 0")
      case False
      with 1(2) w \<open>bs \<noteq> []\<close> have "\<not> ok" "s' = s1"
        by (subst (asm) WriteExact_w.simps; auto split: option.splits if_splits)+
      moreover have "sk_written s1 = sk_written s"
        using w False WriteFile_None [of s "take 65536 bs" s1] WriteFile_Some [of s "take 65536 bs" 0 s1] by (cases a) auto
      ultimately show ?thesis by (intro exI [of _ 0]) simp
    next
      case True
      then obtain k where k: "a = Some k" "k \<noteq> 0" by blast
      have "WriteExact_w s1 (drop k bs) = (ok, s')" using 1(2) False w k by (subst (asm) WriteExact_w.simps) simp
      from 1(1) [OF False w [symmetric] k(1) k(2) this] obtain n where
        n: "sk_written s' = sk_written s1 @ take n (drop k bs)" "ok \<longrightarrow> length (drop k bs) \<le> n" by blast
      have "k \<le> 65536" "sk_written s1 = sk_written s @ take k bs"
        using WriteFile_Some [of s "take 65536 bs" k s1] w k by (auto simp: min_def split: if_splits)
      then show ?thesis using n by (intro exI [of _ "k + n"]) (auto simp: take_add)
    qed
  qed
qed

section \<open>The response\<close>

text \<open>The frames of a result, as the helper numbers them.\<close>

fun worker_frames :: "byte list \<Rightarrow> 32 word \<Rightarrow> Page list \<Rightarrow> byte list" where
  "worker_frames job index [] = []"
| "worker_frames job index (p # ps) =
     Frame [] job 1 index (word_of_int (pg_number p)) 0 (word_of_int (pg_width p)) (word_of_int (pg_height p)) (pg_text p)
     @ worker_frames job (index + 1) ps"

definition worker_response :: "byte list \<Rightarrow> Result \<Rightarrow> byte list" where
  "worker_response job r =
     worker_frames job 0 (rs_pages r) @
     Frame [] job 2 (of_nat (length (rs_pages r))) 0 (error_number (rs_error r)) 0 0 []"

lemma Frame_out: "Frame out job kind index page status w h txt = out @ Frame [] job kind index page status w h txt"
  by (simp add: Frame_body)

lemma worker_pages_cases:
  "worker_pages job limit out index ps = x \<Longrightarrow> (\<And>p. p \<in> set ps \<Longrightarrow> length (pg_text p) \<le> unat limit) \<Longrightarrow>
     x = Inl 79 \<or> x = Inr (out @ worker_frames job index ps, index + of_nat (length ps))"
proof (induction ps arbitrary: out index)
  case (Cons p ps)
  let ?out = "Frame out job 1 index (word_of_int (pg_number p)) 0 (word_of_int (pg_width p)) (word_of_int (pg_height p)) (pg_text p)"
  have "\<not> length (pg_text p) > unat limit" using Cons.prems(2) [of p] by simp
  then have x: "x = (if length ?out > kMaxResponse then Inl 79 else worker_pages job limit ?out (index + 1) ps)"
    using Cons.prems(1) by (simp add: Let_def)
  show ?case
  proof (cases "length ?out > kMaxResponse")
    case True
    with x show ?thesis by simp
  next
    case False
    have "x = Inl 79 \<or> x = Inr (?out @ worker_frames job (index + 1) ps, index + 1 + of_nat (length ps))"
      using x False Cons.prems(2) by (intro Cons.IH) auto
    then show ?thesis using Frame_out [of out] by (auto simp: add.assoc)
  qed
qed simp

lemma worker_respond_cases:
  assumes "worker_respond job limits r s = (code, s')" "\<And>p. p \<in> set (rs_pages r) \<Longrightarrow> length (pg_text p) \<le> unat (limits ! 6)"
  shows "(code \<in> {79, 80} \<and> s' = s) \<or>
    (length (worker_response job r) \<le> min (unat (limits ! 7)) kMaxResponse \<and>
     (\<exists>n. sk_written s' = sk_written s @ take n (worker_response job r) \<and>
       (code = 81 \<or> code = 0 \<and> length (worker_response job r) \<le> n)))"
proof -
  obtain x where x: "worker_pages job (limits ! 6) [] 0 (rs_pages r) = x" by blast
  from worker_pages_cases [OF x assms(2)] show ?thesis
  proof
    assume "x = Inl 79"
    with assms(1) x show ?thesis by (simp add: worker_respond_def)
  next
    assume "x = Inr ([] @ worker_frames job 0 (rs_pages r), 0 + of_nat (length (rs_pages r)))"
    with x have "worker_respond job limits r s =
        (if length (worker_response job r) > unat (limits ! 7) \<or> length (worker_response job r) > kMaxResponse then (80, s)
         else case WriteExact_w s (worker_response job r) of (ok, t) \<Rightarrow> (if ok then 0 else 81, t))"
      by (simp add: worker_respond_def worker_response_def Let_def Frame_out [of "worker_frames job 0 (rs_pages r)"])
    moreover obtain ok t where t: "WriteExact_w s (worker_response job r) = (ok, t)" by fastforce
    moreover obtain n where "sk_written t = sk_written s @ take n (worker_response job r)"
        "ok \<longrightarrow> length (worker_response job r) \<le> n"
      using WriteExact_written [OF t] by blast
    ultimately have "(code, s') = (if length (worker_response job r) > unat (limits ! 7) \<or>
        length (worker_response job r) > kMaxResponse then (80, s) else (if ok then 0 else 81, t)) \<and>
        sk_written t = sk_written s @ take n (worker_response job r) \<and> (ok \<longrightarrow> length (worker_response job r) \<le> n)"
      using assms(1) by simp
    then show ?thesis by (cases ok) (auto split: if_splits intro!: exI [of _ n])
  qed
qed

lemma worker_pages_fit:
  assumes "p \<in> set (rs_pages (process E (worker_request header src) eng rus))"
  shows "length (pg_text p) \<le> unat (worker_limits header ! 6)"
proof -
  let ?rq = "worker_request header src"
  let ?r = "process E ?rq eng rus"
  have "rs_error ?r = err_none"
  proof (rule ccontr)
    assume "rs_error ?r \<noteq> err_none"
    from process_error_pages [OF this] assms show False by simp
  qed
  then have "result_within ?rq ?r" using process_within process_body_error by blast
  then have "length (pg_text p) \<le> unat (page_output_bytes (rqs_limits ?rq))"
    using assms by (auto simp: result_within_def Let_def list_all_iff page_within_def)
  then show ?thesis by (simp add: worker_request_def Let_def unsigned_ucast_eq take_bit_eq_mod)
qed

section \<open>The exchange\<close>

text \<open>What must have been read for the helper to answer at all.\<close>

definition accepted :: "(byte list \<Rightarrow> byte list option) \<Rightarrow> byte list \<Rightarrow> byte list \<Rightarrow> bool" where
  "accepted sha header src \<longleftrightarrow>
     length header = 108 \<and> take 4 header = [0x4d, 0x44, 0x57, 1] \<and> \<not> limits_rejected (worker_limits header) \<and>
     length src = unat (U32 (drop 60 header)) \<and> 0 < length src \<and> length src \<le> unat (worker_limits header ! 0) \<and>
     sha src = Some (take 32 (drop 20 header))"

definition helper_result :: "libs \<Rightarrow> helper_dir \<Rightarrow> byte list \<Rightarrow> byte list \<Rightarrow> Result" where
  "helper_result E h header src =
     process E (worker_request header src) (vector_bytes (ReadData h ''eng.traineddata'' (32 * 1024 * 1024)))
       (vector_bytes (ReadData h ''rus.traineddata'' (32 * 1024 * 1024)))"

lemma take_4: "length h = 108 \<Longrightarrow> take 4 h = [h ! 0, h ! 1, h ! 2, h ! 3]"
  by (auto simp: list_eq_iff_nth_eq numeral_eq_Suc less_Suc_eq)

lemma RunDocumentWorker_cases:
  assumes "RunDocumentWorker E sha h p s = (code, s')"
  shows "(code \<in> {72, 73, 74, 75, 76, 77} \<and> s' = s) \<or>
    (\<exists>header src rest. concat p = header @ src @ rest \<and> accepted sha header src \<and>
       worker_respond (drop 4 header) (worker_limits header) (helper_result E h header src) s = (code, s'))"
proof -
  obtain a p1 where a: "ReadExact p kHeader = (a, p1)" by fastforce
  show ?thesis
  proof (cases a)
    case None
    with assms a show ?thesis by (simp add: RunDocumentWorker_def)
  next
    case (Some header)
    obtain c p2 where c: "ReadExact p1 (unat (U32 (drop 60 header))) = (c, p2)" by fastforce
    have l: "length header = 108" "concat p = header @ concat p1"
      using ReadExact_Some [of p kHeader header p1] a Some by (simp_all add: kHeader_def)
    have pos: "0 < unat (U32 (drop 60 header))" if "U32 (drop 60 header) \<noteq> 0" using that by (simp add: unat_gt_0)
    show ?thesis
    proof (cases "\<exists>src. c = Some src \<and> accepted sha header src")
      case True
      then obtain src where src: "c = Some src" "accepted sha header src" by blast
      have "concat p = header @ src @ concat p2" using ReadExact_Some [of p1 _ src p2] c src(1) l by simp
      moreover have "code \<in> {72, 73, 74, 75, 76, 77} \<and> s' = s \<or>
          worker_respond (drop 4 header) (worker_limits header) (helper_result E h header src) s = (code, s')"
        using assms a Some c src(1) by (auto simp: RunDocumentWorker_def helper_result_def Let_def split: if_splits option.splits)
      ultimately show ?thesis using src(2) by blast
    next
      case False
      then have "code \<in> {72, 73, 74, 75, 76, 77} \<and> s' = s"
        using assms a Some c ReadExact_Some [of p1 "unat (U32 (drop 60 header))"] pos l(1) take_4 [OF l(1)]
        by (auto simp: RunDocumentWorker_def accepted_def Let_def not_less word_le_nat_alt split: if_splits option.splits)
      then show ?thesis by blast
    qed
  qed
qed

section \<open>The application's request, as the helper reads it\<close>

lemma U32_w32: "U32 (w32 v @ r) = v"
proof (rule bit_word_eqI)
  fix n assume "n < LENGTH(32)"
  then consider "n < 8" | "8 \<le> n" "n < 16" | "16 \<le> n" "n < 24" | "24 \<le> n" "n < 32" by fastforce
  then show "bit (U32 (w32 v @ r)) n = bit v n" by cases (auto simp: U32_def w32_def bit_simps)
qed

lemma U32_at: "take 4 (drop i bs) = w32 v \<Longrightarrow> U32 (drop i bs) = v"
  by (metis U32_w32 append_take_drop_id)

lemma be32_w32:
  assumes "0 \<le> v" "v < 2 ^ 32"
  shows "be32 v = w32 (word_of_int v)"
proof -
  have u: "unat (word_of_int v :: 32 word) = nat v"
  proof -
    have "uint (word_of_int v :: 32 word) = v"
      unfolding uint_word_of_int_eq using assms by (intro take_bit_int_eq_self) auto
    then show ?thesis by (simp only: unat_eq_nat_uint)
  qed
  have "(word_of_int (v div 2 ^ n) :: byte) = ucast (drop_bit n (word_of_int v :: 32 word))" for n
  proof -
    have "v div 2 ^ n = int (nat v div 2 ^ n)" using assms(1) by (simp add: zdiv_int)
    then have "(word_of_int (v div 2 ^ n) :: byte) = of_nat (nat v div 2 ^ n)" by (simp only: of_int_of_nat_eq)
    also have "\<dots> = of_nat (unat (drop_bit n (word_of_int v :: 32 word)))" by (simp only: unat_drop_div u)
    also have "\<dots> = ucast (drop_bit n (word_of_int v :: 32 word))" by simp
    finally show ?thesis .
  qed
  from this [of 24] this [of 16] this [of 8] this [of 0] show ?thesis by (simp add: be32_def w32_def)
qed

definition request_header :: "DocumentWorkerRequest \<Rightarrow> byte list" where
  "request_header rq =
     [0x4d, 0x44, 0x57, 1] @ dart_unhex (dr_job_id rq) @ dart_unhex (dr_source_hash rq) @
     [word_of_int (operation_index (dr_operation rq)), word_of_int (language_index (dr_language rq))] @
     be16 (dr_first_page rq) @ be16 (dr_page_count rq) @ be16 0 @
     be32 (int (length (dr_source rq))) @ concat (map be32 (limit_fields (dr_limits rq))) @ be32 0"

lemma encodeRequest_header: "encodeRequest rq = request_header rq @ dr_source rq"
  by (simp add: encodeRequest_def request_header_def)

definition is_hash :: "string \<Rightarrow> bool" where
  "is_hash s \<longleftrightarrow> length s = 64 \<and> list_all (\<lambda>c. c \<in> set ''0123456789abcdef'') s"

lemma length_be [simp]: "length (be32 v) = 4" "length (be16 v) = 2"
  by (simp_all add: be32_def be16_def)

lemma request_header_fields:
  assumes "valid_request sha rq" "is_hash (dr_source_hash rq)"
  shows "length (request_header rq) = 108"
    "request_header rq ! 0 = 0x4d" "request_header rq ! Suc 0 = 0x44" "request_header rq ! 2 = 0x57" "request_header rq ! 3 = 1"
    "request_header rq ! 52 \<le> 2" "request_header rq ! 53 \<le> 2" "U16 (drop 58 (request_header rq)) = 0"
    "U32 (drop 60 (request_header rq)) = of_nat (length (dr_source rq))"
    "U32 (drop 100 (request_header rq)) = word_of_int (dl_nativeMemoryBytes (dr_limits rq))"
proof -
  have v: "is_job_id (dr_job_id rq)" "valid_dart_limits (dr_limits rq)" "int (length (dr_source rq)) \<le> dl_sourceBytes (dr_limits rq)"
    using assms(1) by (simp_all add: valid_request_def)
  have l: "length (dart_unhex (dr_job_id rq)) = 16" "length (dart_unhex (dr_source_hash rq)) = 32"
    using job_id(2) [OF v(1)] dart_hex_unhex [of "dr_source_hash rq"] assms(2) by (simp_all add: is_hash_def)
  note h = request_header_def limit_fields_def l
  show "length (request_header rq) = 108" by (simp add: h)
  show "request_header rq ! 0 = 0x4d" "request_header rq ! Suc 0 = 0x44" "request_header rq ! 2 = 0x57" "request_header rq ! 3 = 1"
    by (simp_all add: h)
  show "request_header rq ! 52 \<le> 2" by (cases "dr_operation rq") (simp_all add: h nth_append)
  show "request_header rq ! 53 \<le> 2" by (cases "dr_language rq") (simp_all add: h nth_append)
  show "U16 (drop 58 (request_header rq)) = 0" by (simp add: h U16_def be16_def)
  have "int (length (dr_source rq)) < 2 ^ 32" using v(3) valid_dart_limitsD(12) [OF v(2)] by simp
  then have "take 4 (drop 60 (request_header rq)) = w32 (of_nat (length (dr_source rq)))"
    using be32_w32 [of "int (length (dr_source rq))"] by (simp add: h)
  then show "U32 (drop 60 (request_header rq)) = of_nat (length (dr_source rq))" by (rule U32_at)
  have "0 \<le> dl_nativeMemoryBytes (dr_limits rq)" "dl_nativeMemoryBytes (dr_limits rq) < 2 ^ 32"
    using v(2) by (simp_all add: valid_dart_limits_def limit_fields_def dart_ceilings_def)
  from be32_w32 [OF this] have "take 4 (drop 100 (request_header rq)) = w32 (word_of_int (dl_nativeMemoryBytes (dr_limits rq)))"
    by (simp add: h)
  then show "U32 (drop 100 (request_header rq)) = word_of_int (dl_nativeMemoryBytes (dr_limits rq))" by (rule U32_at)
qed

lemma native_limit_rejected:
  assumes "worker_limits header ! 9 > 65536"
  shows "limits_rejected (worker_limits header)"
proof -
  have "(worker_limits header ! 9, worker_ceilings ! 9) \<in> set (zip (worker_limits header) worker_ceilings)"
    by (rule set_zip [THEN equalityD2, THEN subsetD]) (auto simp: worker_limits_def worker_ceilings_def intro!: exI [of _ 9])
  moreover have "worker_ceilings ! 9 = 65536" by (simp add: worker_ceilings_def)
  ultimately show ?thesis using assms unfolding limits_rejected_def list_ex_iff by fastforce
qed

lemma helper_refuses:
  assumes "valid_request sha rq" "is_hash (dr_source_hash rq)" "dr_source rq \<noteq> []"
    and "dl_nativeMemoryBytes (dr_limits rq) > 65536" "flowing p" "concat p = encodeRequest rq"
  shows "RunDocumentWorker E digest h p s = (74, s)"
proof -
  note f = request_header_fields [OF assms(1,2)]
  have v: "valid_dart_limits (dr_limits rq)" "int (length (dr_source rq)) \<le> dl_sourceBytes (dr_limits rq)"
    using assms(1) by (simp_all add: valid_request_def)
  obtain p1 where "ReadExact p kHeader = (Some (request_header rq), p1)"
    using ReadExact_flowing [OF assms(5), of kHeader] f(1) by (auto simp: assms(6) encodeRequest_header kHeader_def)
  moreover have "unat (of_nat (length (dr_source rq)) :: 32 word) = length (dr_source rq)"
    using v(2) valid_dart_limitsD(12) [OF v(1)] by (simp add: unat_of_nat)
  moreover from this have "\<not> (of_nat (length (dr_source rq)) :: 32 word) = 0 \<and> \<not> of_nat (length (dr_source rq)) > kMaxSource"
    using assms(3) v(2) valid_dart_limitsD(12) [OF v(1)]
    by (auto simp: kMaxSource_def word_less_nat_alt unat_eq_zero simp flip: unat_eq_0)
  moreover have "limits_rejected (worker_limits (request_header rq))"
  proof (rule native_limit_rejected)
    have n: "dl_nativeMemoryBytes (dr_limits rq) < 2 ^ 31"
      using v(1) by (simp add: valid_dart_limits_def limit_fields_def dart_ceilings_def)
    have "worker_limits (request_header rq) ! 9 = word_of_int (dl_nativeMemoryBytes (dr_limits rq))"
      by (simp add: worker_limits_def f(10))
    then show "worker_limits (request_header rq) ! 9 > 65536"
      using assms(4) uint_word_of_int32 [OF _ n] by (simp add: word_less_def)
  qed
  ultimately show ?thesis
    using f by (simp add: RunDocumentWorker_def Let_def not_less)
qed

section \<open>The helper's frames, as the application reads them\<close>

lemma helper_frame_refused:
  assumes "length job = 16" "length txt < 2 ^ 31" "kind = 1 \<and> 1 \<le> dr_page_count rq \<or> kind = 2 \<and> txt = []"
  shows "\<exists>e. decode_whole rq new_decoder (map uint (Frame [] job kind index page status w h txt @ rest)) = Inl e"
proof -
  let ?b = "body job kind index page 0 status w h txt"
  let ?f = "w32 (of_nat (47 + length txt)) @ ?b"
  have f: "Frame [] job kind index page status w h txt = ?f" using assms(1) by (simp add: Frame_body)
  have n: "uint (of_nat (length txt) :: 32 word) = int (length txt)" by (rule uint_of_nat32 [OF assms(2)])
  have refused: "\<exists>e d. add_bytes rq new_decoder (map uint ?f) = (Some e, d)"
  proof (cases "int (length txt) \<le> dl_pageOutputBytes (dr_limits rq) \<and> int (length txt) \<le> dl_outputBytes (dr_limits rq)")
    case True
    have "\<exists>e. consume rq (new_decoder\<lparr>dc_frame := Some (length ?b, ?b)\<rparr>) ?b = (Some e, new_decoder\<lparr>dc_frame := Some (length ?b, ?b)\<rparr>)"
      using assms(3) by (auto simp: consume_def Let_def body_fields [OF assms(1)] n)
    then show ?thesis using True
      by (subst add_bytes_frame [OF _ assms(1,2) _ _ refl]) (auto simp: close_frame_def)
  next
    case False
    have u: "unat (of_nat (47 + length txt) :: 32 word) = 47 + length txt"
      using assms(2) by (simp add: unat_of_nat del: of_nat_add)
    then have "uint (of_nat (47 + length txt) :: 32 word) = 47 + int (length txt)" by (simp add: uint_nat del: of_nat_add)
    then have "\<exists>d. add_bytes rq new_decoder (map uint (w32 (of_nat (47 + length txt)))) =
        (Some (DocumentException ''document_worker_output_limit''), d)"
      using False by (subst add_bytes_prefix) (auto simp del: of_nat_add)
    then show ?thesis unfolding map_append add_bytes_append by auto
  qed
  then show ?thesis unfolding f map_append [of uint "?f"] decode_whole_def add_bytes_append [of rq new_decoder "map uint ?f"] by auto
qed

lemma helper_response_refused:
  assumes "length (take 16 job) = 16" "\<And>p. p \<in> set (rs_pages r) \<Longrightarrow> length (pg_text p) < 2 ^ 31" "1 \<le> dr_page_count rq"
  shows "\<exists>e. decode_whole rq new_decoder (map uint (worker_response job r)) = Inl e"
proof -
  have job: "Frame [] job kind index page status w h bs = Frame [] (take 16 job) kind index page status w h bs"
    for kind index page status w h bs
    by (simp add: Frame_body)
  show ?thesis
  proof (cases "rs_pages r")
    case Nil
    then show ?thesis using helper_frame_refused [OF assms(1), of "[]" 2 rq _ _ _ _ _ "[]"]
      by (simp add: worker_response_def job)
  next
    case (Cons p ps)
    have "length (pg_text p) < 2 ^ 31" using assms(2) [of p] Cons by simp
    from helper_frame_refused [OF assms(1) this] assms(3) show ?thesis
      by (simp only: worker_response_def Cons worker_frames.simps append.assoc job) blast
  qed
qed

end
