(* ===== verification/Request_Decoder.thy ===== *)
theory Request_Decoder
  imports Windows_Worker
begin

text \<open>
  \<^verbatim>\<open>decodeRequest\<close> of \<^verbatim>\<open>document_worker_protocol.dart\<close> with the constructors it calls, and that it accepts
  exactly the encodings of valid requests. A request carries the ten limits that reach the native worker;
  the others keep their defaults when it is decoded.
\<close>

section \<open>The decoder\<close>

definition get16 :: "byte list \<Rightarrow> nat \<Rightarrow> int" where
  "get16 bs i = uint (bs ! i) * 256 + uint (bs ! (i + 1))"

definition operation_at :: "byte \<Rightarrow> DocumentWorkerOperation" where
  "operation_at b = (if b = 0 then pdfText else if b = 1 then pdfOcr else imageOcr)"

definition language_at :: "byte \<Rightarrow> DocumentWorkerLanguage" where
  "language_at b = (if b = 0 then dart_eng else if b = 1 then dart_rus else dart_engRus)"

definition options_refused :: "DocumentWorkerRequest \<Rightarrow> bool" where
  "options_refused rq \<longleftrightarrow>
     dr_first_page rq < 1 \<or> dr_first_page rq > 100 \<or> dr_page_count rq < 1 \<or> dr_page_count rq > 25 \<or>
     dr_first_page rq > 101 - dr_page_count rq \<or>
     (dr_operation rq = imageOcr \<and> (dr_first_page rq \<noteq> 1 \<or> dr_page_count rq \<noteq> 1))"

text \<open>The constructors of the options, the limits and the request, with the checks in the order they are made.\<close>

definition new_request :: "(byte list \<Rightarrow> string) \<Rightarrow> DocumentWorkerRequest \<Rightarrow> dart_exn + DocumentWorkerRequest" where
  "new_request sha rq =
     (if options_refused rq then Inl (DocumentException ''invalid_document_worker_options'')
      else if \<not> valid_dart_limits (dr_limits rq) then Inl (DocumentException ''invalid_document_limits'')
      else if dr_page_count rq > dl_selectedPages (dr_limits rq) \<or>
        dr_first_page rq > dl_pdfPages (dr_limits rq) - dr_page_count rq + 1 then Inl (DocumentException ''document_page_limit'')
      else if \<not> is_job_id (dr_job_id rq) \<or> int (length (dr_source rq)) > dl_sourceBytes (dr_limits rq) \<or>
        dr_source_hash rq \<noteq> sha (dr_source rq) then Inl (DocumentException ''invalid_document_worker_request'')
      else Inr rq)"

definition decoded_request :: "byte list \<Rightarrow> DocumentWorkerRequest" where
  "decoded_request bs =
     (let field = (\<lambda>i. get32 bs (60 + i * 4)) in
      \<lparr>dr_job_id = dart_hex (take 16 (drop 4 bs)), dr_source = drop 108 bs, dr_source_hash = dart_hex (take 32 (drop 20 bs)),
       dr_operation = operation_at (bs ! 52), dr_language = language_at (bs ! 53),
       dr_first_page = get16 bs 54, dr_page_count = get16 bs 56,
       dr_limits =
         \<lparr>dl_sourceBytes = field 1, dl_pdfPages = field 2, dl_selectedPages = field 3, dl_rasterDimension = field 4,
          dl_pagePixels = field 5, dl_totalPixels = field 6, dl_pageOutputBytes = field 7, dl_outputBytes = field 8,
          dl_wallMilliseconds = field 9, dl_nativeMemoryBytes = field 10\<rparr>\<rparr>)"

definition decodeRequest :: "(byte list \<Rightarrow> string) \<Rightarrow> byte list \<Rightarrow> dart_exn + DocumentWorkerRequest" where
  "decodeRequest sha bs =
     (if length bs < 108 \<or> length bs > 108 + 10485760 \<or>
         bs ! 0 \<noteq> 0x4d \<or> bs ! 1 \<noteq> 0x44 \<or> bs ! 2 \<noteq> 0x57 \<or> bs ! 3 \<noteq> 1 then Inl invalid
      else if unat (bs ! 52) \<ge> 3 \<or> unat (bs ! 53) \<ge> 3 \<or> get16 bs 58 \<noteq> 0 \<or> get32 bs 104 \<noteq> 0 \<or>
        get32 bs 60 \<noteq> int (length bs) - 108 then Inl invalid
      else new_request sha (decoded_request bs))"

lemma new_request_Inr: "new_request sha rq = Inr rq' \<longleftrightarrow> rq' = rq \<and> valid_request sha rq"
  by (auto simp: new_request_def valid_request_def options_refused_def)

section \<open>Pieces\<close>

text \<open>A number of two or four bytes is read as it was written, and written as it was read.\<close>

lemma uint_word_of_int_byte: "uint (word_of_int v :: byte) = v mod 256"
  by (simp add: uint_word_of_int)

lemma word_of_int_byte: "(word_of_int (k * 256 + uint b) :: byte) = b"
proof (rule word_uint_eqI)
  have "(k * 256 + uint b) mod 256 = uint b mod 256" by (rule mod_mult_self3)
  also have "\<dots> = uint b" using uint_byte_bounds(1,2) [of b] by (intro mod_pos_pos_trivial) linarith+
  finally have "(k * 256 + uint b) mod 256 = uint b" .
  then show "uint (word_of_int (k * 256 + uint b) :: byte) = uint b" by (simp only: uint_word_of_int_byte)
qed

lemma div_byte: "(k * 256 + uint (b :: byte)) div 256 = k"
proof -
  have "uint b div 256 = 0" using uint_byte_bounds(1,2) [of b] by (intro div_pos_pos_trivial) linarith+
  then show ?thesis by (simp only: div_mult_self3 add_0_right)
qed

lemma take_2: "i + 2 \<le> length bs \<Longrightarrow> take 2 (drop i bs) = [bs ! i, bs ! (i + 1)]"
  by (auto simp: list_eq_iff_nth_eq less_Suc_eq numeral_eq_Suc)

lemma take_4_at: "i + 4 \<le> length bs \<Longrightarrow> take 4 (drop i bs) = [bs ! i, bs ! (i + 1), bs ! (i + 2), bs ! (i + 3)]"
  by (auto simp: list_eq_iff_nth_eq less_Suc_eq numeral_eq_Suc)

lemma get16_be16:
  assumes "take 2 (drop i bs) = be16 v" "0 \<le> v" "v < 65536"
  shows "get16 bs i = v"
proof -
  have "length (take 2 (drop i bs)) = 2" using assms(1) by simp
  then have "i + 2 \<le> length bs" by simp
  from take_2 [OF this] have "bs ! i = word_of_int (v div 256)" "bs ! (i + 1) = word_of_int v"
    using assms(1) by (simp_all add: be16_def)
  moreover have "v div 256 mod 256 = v div 256" using assms(2,3) by simp
  ultimately show ?thesis by (simp add: get16_def uint_word_of_int_byte)
qed

lemma be16_get16:
  assumes "i + 2 \<le> length bs"
  shows "be16 (get16 bs i) = take 2 (drop i bs)"
  unfolding be16_def get16_def take_2 [OF assms] div_byte word_of_int_byte by simp

lemma get32_be32:
  assumes "take 4 (drop i bs) = be32 v" "0 \<le> v" "v < 2 ^ 32"
  shows "get32 bs i = v"
proof -
  have "get32 bs i = uint (word_of_int v :: 32 word)"
    using assms by (intro get32_w32) (simp add: be32_w32)
  then show ?thesis using assms(2,3) by (simp add: uint_word_of_int)
qed

lemma get32_horner:
  "get32 bs i = ((uint (bs ! i) * 256 + uint (bs ! (i + 1))) * 256 + uint (bs ! (i + 2))) * 256 + uint (bs ! (i + 3))"
  by (simp add: get32_def)

lemma be32_get32:
  assumes "i + 4 \<le> length bs"
  shows "be32 (get32 bs i) = take 4 (drop i bs)"
proof -
  have "x div 65536 = x div 256 div 256" "x div 16777216 = x div 256 div 256 div 256" for x :: int
    by (simp_all flip: div_mult2_eq)
  then show ?thesis
    unfolding be32_def get32_horner take_4_at [OF assms] by (simp only: div_byte word_of_int_byte word_of_int_uint)
qed

lemma dart_digit_hex: "n < 16 \<Longrightarrow> dart_digit (hex_char n) = n"
  by (auto simp: less_Suc_eq numeral_eq_Suc hex_char_def dart_digit_def)

lemma dart_unhex_hex: "dart_unhex (dart_hex bs) = bs"
proof (induction bs)
  case (Cons b bs)
  have "unat b < 256" by (rule order_less_le_trans [OF unsigned_less]) simp
  then have "dart_digit (hex_char (unat b div 16)) = unat b div 16" "dart_digit (hex_char (unat b mod 16)) = unat b mod 16"
    by (simp_all add: dart_digit_hex)
  then have "of_nat (dart_digit (hex_char (unat b div 16)) * 16 + dart_digit (hex_char (unat b mod 16))) = b"
    by (simp only: div_mult_mod_eq) simp
  with Cons show ?case by (simp add: dart_hex_def)
qed (simp add: dart_hex_def)

section \<open>There and back\<close>

lemma operation_at_index: "operation_at (word_of_int (operation_index oper)) = oper"
  by (cases oper) (simp_all add: operation_at_def)

lemma language_at_index: "language_at (word_of_int (language_index lang)) = lang"
  by (cases lang) (simp_all add: language_at_def)

lemma byte_below_3:
  fixes b :: byte
  assumes "unat b < 3"
  shows "b = 0 \<or> b = 1 \<or> b = 2"
proof -
  have "unat b = unat (0 :: byte) \<or> unat b = unat (1 :: byte) \<or> unat b = unat (2 :: byte)" using assms by simp linarith
  then show ?thesis unfolding word_unat_eq_iff .
qed

lemma index_operation_at: "unat b < 3 \<Longrightarrow> word_of_int (operation_index (operation_at b)) = b"
  using byte_below_3 [of b] by (auto simp: operation_at_def)

lemma index_language_at: "unat b < 3 \<Longrightarrow> word_of_int (language_index (language_at b)) = b"
  using byte_below_3 [of b] by (auto simp: language_at_def)

lemma chunk: "i + n = j \<Longrightarrow> take n (drop i bs) @ drop j bs = drop i bs"
  by (metis add.commute append_take_drop_id drop_drop)

lemma chunk_byte: "i < length bs \<Longrightarrow> Suc i = j \<Longrightarrow> bs ! i # drop j bs = drop i bs"
  using Cons_nth_drop_Suc by blast

text \<open>Encoding what has been read gives the bytes back.\<close>

lemma encode_decoded:
  assumes "108 \<le> length bs" "bs ! 0 = 0x4d" "bs ! 1 = 0x44" "bs ! 2 = 0x57" "bs ! 3 = 1"
    and "unat (bs ! 52) < 3" "unat (bs ! 53) < 3" "get16 bs 58 = 0" "get32 bs 104 = 0" "get32 bs 60 = int (length bs) - 108"
  shows "encodeRequest (decoded_request bs) = bs"
proof -
  have four: "[0x4d, 0x44, 0x57, 1] = take 4 (drop 0 bs)" using assms(1) by (simp only: take_4_at [of 0 bs] add_0 assms(2-5))
  have zeros: "be16 0 = be16 (get16 bs 58)" "be32 0 = be32 (get32 bs 104)" using assms(8,9) by simp_all
  have len: "int (length (drop 108 bs)) = get32 bs 60" using assms(1,10) by simp
  have "encodeRequest (decoded_request bs) =
      take 4 (drop 0 bs) @ take 16 (drop 4 bs) @ take 32 (drop 20 bs) @ [bs ! 52, bs ! 53] @
      take 2 (drop 54 bs) @ take 2 (drop 56 bs) @ take 2 (drop 58 bs) @ take 4 (drop 60 bs) @
      concat (map (\<lambda>i. take 4 (drop (60 + i * 4) bs)) [1, 2, 3, 4, 5, 6, 7, 8, 9, 10]) @ take 4 (drop 104 bs) @ drop 108 bs"
    unfolding encodeRequest_def four zeros
    using assms(1,6,7)
    by (simp add: decoded_request_def Let_def limit_fields_def len dart_unhex_hex be16_get16 be32_get32
        index_operation_at index_language_at del: length_drop)
  also have "\<dots> = bs" using assms(1) by (simp add: chunk chunk_byte)
  finally show ?thesis .
qed

lemma encoded_pieces:
  assumes "valid_request sha rq" "is_hash (dr_source_hash rq)"
  shows "take 16 (drop 4 (encodeRequest rq)) = dart_unhex (dr_job_id rq)"
    "take 32 (drop 20 (encodeRequest rq)) = dart_unhex (dr_source_hash rq)"
    "encodeRequest rq ! 52 = word_of_int (operation_index (dr_operation rq))"
    "encodeRequest rq ! 53 = word_of_int (language_index (dr_language rq))"
    "take 2 (drop 54 (encodeRequest rq)) = be16 (dr_first_page rq)"
    "take 2 (drop 56 (encodeRequest rq)) = be16 (dr_page_count rq)"
    "take 2 (drop 58 (encodeRequest rq)) = be16 0"
    "take 4 (drop 60 (encodeRequest rq)) = be32 (int (length (dr_source rq)))"
    "take 4 (drop 104 (encodeRequest rq)) = be32 0"
    "drop 108 (encodeRequest rq) = dr_source rq" "length (encodeRequest rq) = 108 + length (dr_source rq)"
    "encodeRequest rq ! 0 = 0x4d" "encodeRequest rq ! 1 = 0x44" "encodeRequest rq ! 2 = 0x57" "encodeRequest rq ! 3 = 1"
    "\<And>i. i < 10 \<Longrightarrow> take 4 (drop (60 + Suc i * 4) (encodeRequest rq)) = be32 (limit_fields (dr_limits rq) ! i)"
proof -
  have "is_job_id (dr_job_id rq)" using assms(1) by (simp add: valid_request_def)
  then have l: "length (dart_unhex (dr_job_id rq)) = 16" "length (dart_unhex (dr_source_hash rq)) = 32"
    using job_id(2) dart_hex_unhex [of "dr_source_hash rq"] assms(2) by (simp_all add: is_hash_def)
  note e = encodeRequest_def limit_fields_def l
  show "take 16 (drop 4 (encodeRequest rq)) = dart_unhex (dr_job_id rq)"
    "take 32 (drop 20 (encodeRequest rq)) = dart_unhex (dr_source_hash rq)"
    "take 2 (drop 54 (encodeRequest rq)) = be16 (dr_first_page rq)"
    "take 2 (drop 56 (encodeRequest rq)) = be16 (dr_page_count rq)"
    "take 2 (drop 58 (encodeRequest rq)) = be16 0"
    "take 4 (drop 60 (encodeRequest rq)) = be32 (int (length (dr_source rq)))"
    "take 4 (drop 104 (encodeRequest rq)) = be32 0"
    "drop 108 (encodeRequest rq) = dr_source rq" "length (encodeRequest rq) = 108 + length (dr_source rq)"
    "encodeRequest rq ! 0 = 0x4d" "encodeRequest rq ! 1 = 0x44" "encodeRequest rq ! 2 = 0x57" "encodeRequest rq ! 3 = 1"
    by (simp_all add: e)
  show "encodeRequest rq ! 52 = word_of_int (operation_index (dr_operation rq))"
    "encodeRequest rq ! 53 = word_of_int (language_index (dr_language rq))"
    by (simp_all add: e nth_append)
  show "take 4 (drop (60 + Suc i * 4) (encodeRequest rq)) = be32 (limit_fields (dr_limits rq) ! i)" if "i < 10" for i
    using that by (auto simp: e less_Suc_eq numeral_eq_Suc)
qed

lemma decoded_encoded:
  assumes "valid_request sha rq" "is_hash (dr_source_hash rq)"
  shows "decoded_request (encodeRequest rq) = rq"
proof -
  have v: "is_job_id (dr_job_id rq)" "valid_dart_limits (dr_limits rq)"
    and n: "0 \<le> dr_first_page rq" "dr_first_page rq < 65536" "0 \<le> dr_page_count rq" "dr_page_count rq < 65536"
    using assms(1) by (auto simp: valid_request_def)
  note pieces = encoded_pieces [OF assms]
  have hash: "dart_hex (dart_unhex (dr_source_hash rq)) = dr_source_hash rq"
    using dart_hex_unhex [of "dr_source_hash rq"] assms(2) by (simp add: is_hash_def)
  have field: "get32 (encodeRequest rq) (60 + Suc i * 4) = limit_fields (dr_limits rq) ! i" if "i < 10" for i
  proof (rule get32_be32 [OF pieces(16) [OF that]])
    have "1 \<le> limit_fields (dr_limits rq) ! i \<and> limit_fields (dr_limits rq) ! i \<le> dart_ceilings ! i"
      using v(2) that by (simp add: valid_dart_limits_def list_all2_conv_all_nth dart_ceilings_def)
    moreover have "dart_ceilings ! i < 2 ^ 32" using that by (auto simp: dart_ceilings_def less_Suc_eq numeral_eq_Suc)
    ultimately show "0 \<le> limit_fields (dr_limits rq) ! i" "limit_fields (dr_limits rq) ! i < 2 ^ 32" by linarith+
  qed
  note fields = field [of 0] field [of 1] field [of 2] field [of 3] field [of 4] field [of 5] field [of 6] field [of 7]
    field [of 8] field [of 9]
  show ?thesis
    using fields get16_be16 [OF pieces(5) n(1,2)] get16_be16 [OF pieces(6) n(3,4)]
    by (simp add: decoded_request_def pieces(1-4,10) job_id(1) [OF v(1)] hash operation_at_index language_at_index limit_fields_def)
qed

theorem decodeRequest_iff:
  assumes "\<And>x. is_hash (sha x)"
  shows "decodeRequest sha bs = Inr rq \<longleftrightarrow> valid_request sha rq \<and> encodeRequest rq = bs"
proof
  assume d: "decodeRequest sha bs = Inr rq"
  then have "\<not> length bs < 108" and b: "bs ! 0 = 0x4d" "bs ! 1 = 0x44" "bs ! 2 = 0x57" "bs ! 3 = 1"
    and i: "unat (bs ! 52) < 3" "unat (bs ! 53) < 3" "get16 bs 58 = 0" "get32 bs 104 = 0" "get32 bs 60 = int (length bs) - 108"
    and n: "new_request sha (decoded_request bs) = Inr rq"
    by (simp_all add: decodeRequest_def split: if_splits)
  then have "encodeRequest (decoded_request bs) = bs" by (intro encode_decoded) simp_all
  with n show "valid_request sha rq \<and> encodeRequest rq = bs" by (auto simp: new_request_Inr)
next
  assume v: "valid_request sha rq \<and> encodeRequest rq = bs"
  then have hash: "is_hash (dr_source_hash rq)" using assms by (auto simp: valid_request_def)
  note pieces = encoded_pieces [OF conjunct1 [OF v] hash, unfolded conjunct2 [OF v]]
  have "int (length (dr_source rq)) \<le> 10485760"
    using v valid_dart_limitsD(12) [of "dr_limits rq"] by (simp add: valid_request_def)
  moreover have "get32 bs 60 = int (length (dr_source rq))" "get32 bs 104 = 0" "get16 bs 58 = 0"
    using calculation by (intro get32_be32 [OF pieces(8)] get32_be32 [OF pieces(9)] get16_be16 [OF pieces(7)]; simp)+
  moreover have "unat (bs ! 52) < 3" "unat (bs ! 53) < 3"
    unfolding pieces(3,4) by (cases "dr_operation rq"; simp) (cases "dr_language rq"; simp)
  moreover have "decoded_request bs = rq" using decoded_encoded [OF conjunct1 [OF v] hash] v by simp
  ultimately show "decodeRequest sha bs = Inr rq"
    using v pieces(11-15) by (simp add: decodeRequest_def new_request_Inr)
qed

end
