(* ===== verification/Decoder_Safety.thy ===== *)
theory Decoder_Safety
  imports Response_Frames
begin

text \<open>
  What the response decoder guarantees against any sequence of bytes, also from a worker that is
  broken or hostile: the invariant of its state, kept by every byte, and what follows for the pages
  it hands out.
\<close>

lemma utf8_chars_length: "utf8_chars bs = Some cs \<Longrightarrow> length cs \<le> length bs"
proof (induction bs arbitrary: cs rule: utf8_chars.induct)
  case (1 bs)
  show ?case
  proof (cases "bs = []")
    case True
    with 1(2) show ?thesis by simp
  next
    case False
    then obtain v r cs' where n: "utf8_next bs = Some (v, r)" "utf8_chars r = Some cs'" "cs = v # cs'"
      using 1(2) by (subst (asm) utf8_chars.simps) (auto split: option.splits)
    from 1(1) [OF False n(1) refl n(2)] utf8_next_shorter [OF n(1)] n(3) show ?thesis by simp
  qed
qed

lemma dart_utf8_decode_length: "dart_utf8_decode bs = Some cs \<Longrightarrow> length cs \<le> length bs"
proof -
  have m: "length (drop_mark cs) \<le> length cs" for cs by (cases cs) (auto simp: drop_mark_def)
  assume "dart_utf8_decode bs = Some cs"
  then obtain cs' where "utf8_chars bs = Some cs'" "cs = drop_mark cs'" by (auto simp: dart_utf8_decode_def)
  then show ?thesis using utf8_chars_length [of bs cs'] m [of cs'] by simp
qed

section \<open>The invariant\<close>

definition pages_ok :: "DocumentWorkerRequest \<Rightarrow> DocumentWorkerPage list \<Rightarrow> bool" where
  "pages_ok rq ps \<longleftrightarrow>
     map dp_page ps = map (\<lambda>i. dr_first_page rq + int i) [0..<length ps] \<and>
     list_all (\<lambda>p. int (length (dp_text p)) \<le> dl_pageOutputBytes (dr_limits rq) \<and>
       dp_ocr p = (dr_operation rq \<noteq> pdfText) \<and>
       (if dp_ocr p then checkedRasterPixels (dr_limits rq) (dp_width p) (dp_height p) = Some (dp_width p * dp_height p)
        else dp_width p = 0 \<and> dp_height p = 0)) ps"

definition page_chars :: "DocumentWorkerPage list \<Rightarrow> int" where
  "page_chars ps = sum_list (map (\<lambda>p. int (length (dp_text p))) ps)"

definition page_pixels_sum :: "DocumentWorkerPage list \<Rightarrow> int" where
  "page_pixels_sum ps = sum_list (map (\<lambda>p. dp_width p * dp_height p) ps)"

definition frame_ok :: "DocumentWorkerRequest \<Rightarrow> decoder \<Rightarrow> bool" where
  "frame_ok rq d \<longleftrightarrow>
     (case dc_frame d of
        None \<Rightarrow> True
      | Some (len, used) \<Rightarrow> 47 \<le> len \<and> int len - 47 \<le> dl_pageOutputBytes (dr_limits rq) \<and>
          int len - 47 \<le> dl_outputBytes (dr_limits rq) - dc_outputBytes d)"

definition totals_ok :: "DocumentWorkerRequest \<Rightarrow> decoder \<Rightarrow> bool" where
  "totals_ok rq d \<longleftrightarrow>
     pages_ok rq (dc_pages d) \<and> int (length (dc_pages d)) \<le> dr_page_count rq \<and>
     page_chars (dc_pages d) \<le> dc_outputBytes d \<and> dc_outputBytes d \<le> dl_outputBytes (dr_limits rq) \<and>
     page_pixels_sum (dc_pages d) \<le> dc_pixels d \<and> dc_pixels d \<le> dl_totalPixels (dr_limits rq) \<and>
     (dc_terminal d \<longrightarrow> int (length (dc_pages d)) = dr_page_count rq)"

lemma pages_ok_append:
  "pages_ok rq (ps @ [p]) \<longleftrightarrow> pages_ok rq ps \<and> dp_page p = dr_first_page rq + int (length ps) \<and> pages_ok rq [p\<lparr>dp_page := dr_first_page rq\<rparr>]"
  by (auto simp: pages_ok_def)

lemma sums_append [simp]:
  "page_chars (ps @ [p]) = page_chars ps + int (length (dp_text p))"
  "page_pixels_sum (ps @ [p]) = page_pixels_sum ps + dp_width p * dp_height p"
  by (simp_all add: page_chars_def page_pixels_sum_def)

lemma totals_frame [simp]: "totals_ok rq (d\<lparr>dc_frame := f\<rparr>) = totals_ok rq d" "totals_ok rq (d\<lparr>dc_prefix := p\<rparr>) = totals_ok rq d"
  by (simp_all add: totals_ok_def)

lemma keep_page_totals:
  assumes "keep_page d page ocr w h txt = (None, d')" "totals_ok rq (d\<lparr>dc_pixels := px\<rparr>)"
    and "page = dr_first_page rq + int (length (dc_pages d))" "int (length (dc_pages d)) < dr_page_count rq"
    and "ocr = (dr_operation rq \<noteq> pdfText)" "\<not> dc_terminal d"
    and "if ocr then checkedRasterPixels (dr_limits rq) w h = Some (w * h) else w = 0 \<and> h = 0"
    and "dc_pixels d = px + w * h" "dc_pixels d \<le> dl_totalPixels (dr_limits rq)"
    and "int (length txt) \<le> dl_pageOutputBytes (dr_limits rq)"
    and "int (length txt) \<le> dl_outputBytes (dr_limits rq) - dc_outputBytes d"
  shows "totals_ok rq d'"
proof -
  from assms(1) obtain cs where cs: "dart_utf8_decode txt = Some cs"
      "d' = d\<lparr>dc_outputBytes := dc_outputBytes d + int (length txt),
        dc_pages := dc_pages d @ [\<lparr>dp_page = page, dp_ocr = ocr, dp_text = cs, dp_width = w, dp_height = h\<rparr>]\<rparr>"
    by (auto simp: keep_page_def split: option.splits)
  have "pages_ok rq [\<lparr>dp_page = dr_first_page rq, dp_ocr = ocr, dp_text = cs, dp_width = w, dp_height = h\<rparr>]"
    using assms(5,7,10) dart_utf8_decode_length [OF cs(1)] by (simp add: pages_ok_def)
  then show ?thesis
    using assms(2-4,6,8,9,11) dart_utf8_decode_length [OF cs(1)]
    by (auto simp: cs(2) totals_ok_def pages_ok_append)
qed

lemma raster_Some: "checkedRasterPixels l w h = Some n \<Longrightarrow> n = w * h"
  by (auto simp: checkedRasterPixels_def split: if_splits)

lemma consume_totals:
  assumes "consume rq d fr = (None, d')" "totals_ok rq d" "\<not> dc_terminal d"
    and "int (length fr) - 47 \<le> dl_pageOutputBytes (dr_limits rq)" "47 \<le> length fr"
    and "int (length fr) - 47 \<le> dl_outputBytes (dr_limits rq) - dc_outputBytes d"
  shows "totals_ok rq d'"
proof -
  have l: "int (length (drop 47 fr)) = int (length fr) - 47" using assms(5) by simp
  consider (final) "d' = d\<lparr>dc_terminal := True\<rparr>" "int (length (dc_pages d)) = dr_page_count rq"
    | (ocr) page w h px where "page = dr_first_page rq + int (length (dc_pages d))" "int (length (dc_pages d)) < dr_page_count rq"
        "dr_operation rq \<noteq> pdfText" "checkedRasterPixels (dr_limits rq) w h = Some px" "px \<le> dl_totalPixels (dr_limits rq) - dc_pixels d"
        "keep_page (d\<lparr>dc_pixels := dc_pixels d + px\<rparr>) page True w h (drop 47 fr) = (None, d')"
    | (plain) page where "page = dr_first_page rq + int (length (dc_pages d))" "int (length (dc_pages d)) < dr_page_count rq"
        "dr_operation rq = pdfText" "keep_page d page False 0 0 (drop 47 fr) = (None, d')"
    using assms(1) unfolding consume_def Let_def by (auto split: if_splits option.splits simp: not_le)
  then show ?thesis
  proof cases
    case final
    with assms(2) show ?thesis by (simp add: totals_ok_def)
  next
    case ocr
    note px = raster_Some [OF ocr(4)]
    show ?thesis
    proof (rule keep_page_totals [OF ocr(6), where px = "dc_pixels d"])
      show "totals_ok rq ((d\<lparr>dc_pixels := dc_pixels d + px\<rparr>)\<lparr>dc_pixels := dc_pixels d\<rparr>)"
        using assms(2) by (simp add: totals_ok_def)
    qed (use ocr px assms l in \<open>simp_all\<close>)
  next
    case plain
    show ?thesis
    proof (rule keep_page_totals [OF plain(4), where px = "dc_pixels d"])
      show "totals_ok rq (d\<lparr>dc_pixels := dc_pixels d\<rparr>)" using assms(2) by (simp add: totals_ok_def)
    qed (use plain assms l in \<open>simp_all add: totals_ok_def\<close>)
  qed
qed

definition decoder_ok :: "DocumentWorkerRequest \<Rightarrow> decoder \<Rightarrow> bool" where
  "decoder_ok rq d \<longleftrightarrow> totals_ok rq d \<and> frame_ok rq d"

lemma add_byte_ok:
  assumes "add_byte rq d b = (None, d')" "decoder_ok rq d"
  shows "decoder_ok rq d'"
proof (cases "dc_frame d")
  case None
  then show ?thesis using assms
    by (auto simp: add_byte_def Let_def decoder_ok_def frame_ok_def split: if_splits)
next
  case (Some f)
  obtain len used where f: "f = (len, used)" by fastforce
  let ?u = "used @ [word_of_int b]"
  let ?d = "d\<lparr>dc_frame := Some (len, ?u)\<rparr>"
  have t: "\<not> dc_terminal d" using assms(1) by (auto simp: add_byte_def Let_def split: if_splits)
  have ok: "decoder_ok rq ?d" using assms(2) by (simp add: decoder_ok_def frame_ok_def Some f)
  show ?thesis
  proof (cases "length ?u = len")
    case False
    then have "d' = ?d" using assms(1) by (simp add: add_byte_def Let_def Some f split: if_splits)
    with ok show ?thesis by simp
  next
    case True
    then obtain d1 where d1: "consume rq ?d ?u = (None, d1)" "d' = d1\<lparr>dc_frame := None\<rparr>"
      using assms(1) by (auto simp: add_byte_def Let_def Some f split: if_splits prod.splits option.splits)
    have "totals_ok rq d1"
      using ok t True by (intro consume_totals [OF d1(1)]) (auto simp: decoder_ok_def frame_ok_def)
    then show ?thesis by (simp add: d1(2) decoder_ok_def frame_ok_def)
  qed
qed

lemma add_bytes_ok: "add_bytes rq d bs = (None, d') \<Longrightarrow> decoder_ok rq d \<Longrightarrow> decoder_ok rq d'"
  by (induction bs arbitrary: d) (auto dest: add_byte_ok split: prod.splits option.splits)

lemma add_ok: "add rq d chunk = (None, d') \<Longrightarrow> decoder_ok rq d \<Longrightarrow> decoder_ok rq d'"
proof -
  assume a: "add rq d chunk = (None, d')" and ok: "decoder_ok rq d"
  have "decoder_ok rq (d\<lparr>dc_wireBytes := n\<rparr>)" for n
    using ok by (auto simp: decoder_ok_def totals_ok_def frame_ok_def split: option.splits)
  with a show "decoder_ok rq d'"
    by (auto simp: add_def add_chunk_def intro: add_bytes_ok split: prod.splits option.splits if_splits)
qed

section \<open>The pages that are handed out\<close>

lemma decode_chunks_ok:
  "decode_chunks rq d chunks = Inr ps \<Longrightarrow> decoder_ok rq d \<Longrightarrow>
     pages_ok rq ps \<and> int (length ps) = dr_page_count rq \<and> page_chars ps \<le> dl_outputBytes (dr_limits rq) \<and>
     page_pixels_sum ps \<le> dl_totalPixels (dr_limits rq)"
proof (induction chunks arbitrary: d)
  case Nil
  then show ?case by (auto simp: finish_def decoder_ok_def totals_ok_def split: if_splits)
next
  case (Cons c cs)
  then show ?case by (auto dest: add_ok split: prod.splits option.splits)
qed

lemma decoder_ok_new:
  assumes "valid_dart_limits (dr_limits rq)" "0 \<le> dr_page_count rq"
  shows "decoder_ok rq new_decoder"
  using assms by (simp add: decoder_ok_def totals_ok_def frame_ok_def new_decoder_def pages_ok_def page_chars_def
      page_pixels_sum_def valid_dart_limits_def limit_fields_def dart_ceilings_def)

end
