(* ===== verification/Document_Properties.thy ===== *)
theory Document_Properties
  imports Request_Decoder Decoder_Safety
begin

text \<open>
  The properties of the document workers, from the engine to the application's decoder, with a
  small concrete world in which their hypotheses hold.
\<close>

section \<open>A concrete world\<close>

text \<open>A document of one page with two characters, recognised as one symbol.\<close>

definition demo_pix :: Pix where
  "demo_pix = \<lparr>pix_width = 2, pix_height = 3, pix_data = replicate 6 0\<rparr>"

definition demo_libs :: libs where
  "demo_libs =
     \<lparr>pdf_count = (\<lambda>_. Some 1), pdf_page_loads = (\<lambda>_ _. True), pdf_char_count = (\<lambda>_ _. Some 2),
      pdf_unicode = (\<lambda>_ _ i. if i = 0 then 0x416 else 0x21), pdf_page_width = (\<lambda>_ _. None),
      pdf_page_height = (\<lambda>_ _. None), pdf_bitmap_ok = (\<lambda>_ _. True), pdf_render = (\<lambda>_ _ _ _. []),
      tess_init = (\<lambda>_ _. True), tess_recognize = (\<lambda>_ _. Some (Some [\<lparr>sym_text = Some [65], sym_ends_line = True, sym_ends_word = True\<rparr>])),
      lept_format = (\<lambda>_. Some IFF_PNG), lept_header = (\<lambda>_. Some (2, 3)), lept_read = (\<lambda>_. Some demo_pix),
      lept_create = (\<lambda>_ _. True), can_allocate = (\<lambda>_. True)\<rparr>"

definition demo_document :: Request where
  "demo_document =
     \<lparr>rqs_operation = pdf_text, rqs_language = lang_eng, rqs_first_page = 1, rqs_page_count = 1,
      rqs_limits = ceiling_limits, rqs_source = \<lparr>by_null = False, by_bytes = [1]\<rparr>\<rparr>"

definition no_bytes :: Bytes where
  "no_bytes = \<lparr>by_null = True, by_bytes = []\<rparr>"

lemma demo_page_text: "page_text demo_libs src i 262144 = Inr [0xd0, 0x96, 0x21]"
proof -
  have "append_chars [0x416, 0x21] [] 262144 = Inr [0xd0, 0x96, 0x21]" by code_simp
  moreover have "[0..<nat 2] = [0, 1]" by (simp add: upt_rec)
  ultimately show ?thesis by (simp add: page_text_def demo_libs_def)
qed

lemma demo_process:
  assumes "rqs_operation rq = pdf_text" "rqs_language rq = lang_eng" "rqs_first_page rq = 1" "rqs_page_count rq = 1"
    "rqs_limits rq = ceiling_limits" "rqs_source rq = \<lparr>by_null = False, by_bytes = [1]\<rparr>"
  shows "process demo_libs rq eng rus = \<lparr>rs_error = err_none, rs_page_count = 1,
    rs_pages = [\<lparr>pg_number = 1, pg_text = [0xd0, 0x96, 0x21], pg_width = 0, pg_height = 0\<rparr>]\<rparr>"
proof -
  have lib: "pdf_count demo_libs src = Some 1" "pdf_page_loads demo_libs src i" for src i
    by (simp_all add: demo_libs_def)
  have "nat 1 = Suc 0" by simp
  then show ?thesis using assms
    by (simp add: process_def process_body_def Let_def valid_limits_def ceiling_limits_def process_pdf_def lib pdf_page_def
        demo_page_text min_def)
qed

section \<open>The engine\<close>

text \<open>
  C19. The engine stays within the limits. Whatever the document is and whatever PDFium, Tesseract
  and Leptonica answer, a result without an error has exactly the pages that were asked for, in
  order; every text, every raster, the sum of the texts and the sum of the rasters are within the
  limits of the request, and those within the limits of the engine. No sum wraps around.
\<close>

theorem process_bounds:
  assumes "rs_error (process E rq eng rus) = err_none"
  shows "valid_limits (rqs_limits rq) \<and> 0 < rqs_first_page rq \<and> 0 < rqs_page_count rq \<and>
    rqs_page_count rq \<le> selected_pages (rqs_limits rq) \<and> result_within rq (process E rq eng rus)"
  using process_within [OF assms] process_body_error by blast

theorem process_bounds_witness:
  "result_within demo_document (process demo_libs demo_document no_bytes no_bytes)"
  using process_bounds [of demo_libs demo_document no_bytes no_bytes]
  by (simp add: demo_process demo_document_def)

text \<open>
  C20. The text of a PDF page is the UTF-8 of its characters. When the extraction of a page's text
  succeeds, a strict UTF-8 decoder reads back exactly the code points PDFium gave, in order and
  without the zeros, and the text is not longer than its limit.
\<close>

theorem pdf_text_utf8:
  assumes "page_text E src i limit = Inr t"
  shows "\<exists>count. pdf_char_count E src i = Some (int count) \<and>
    utf8_chars t = Some (filter (\<lambda>v. v \<noteq> 0) (map (\<lambda>k. unat (pdf_unicode E src i (int k))) [0..<count])) \<and>
    length t \<le> unat limit"
proof -
  from page_text_Inr [OF assms] obtain vs where vs: "length t \<le> unat limit"
      "t = concat (map utf8_bytes (filter (\<lambda>v. v \<noteq> 0) vs))" "\<forall>v \<in> set vs. scalar v"
      "pdf_char_count E src i = Some (int (length vs))" "vs = map (\<lambda>k. pdf_unicode E src i (int k)) [0..<length vs]"
    by blast
  have "utf8_chars t = Some (map unat (filter (\<lambda>v. v \<noteq> 0) vs))"
    unfolding vs(2) using vs(3) by (intro utf8_chars_bytes) simp
  also have "map unat (filter (\<lambda>v. v \<noteq> 0) vs) = filter (\<lambda>n. n \<noteq> 0) (map unat vs)"
    by (simp add: filter_map comp_def unat_gt_0)
  also have "map unat vs = map (\<lambda>k. unat (pdf_unicode E src i (int k))) [0..<length vs]"
    using arg_cong [OF vs(5), of "map unat"] by (simp add: comp_def)
  finally show ?thesis using vs(1,4) by blast
qed

theorem pdf_text_utf8_witness:
  "\<exists>count. pdf_char_count demo_libs [1] 0 = Some (int count) \<and>
    utf8_chars [0xd0, 0x96, 0x21] =
      Some (filter (\<lambda>v. v \<noteq> 0) (map (\<lambda>k. unat (pdf_unicode demo_libs [1] 0 (int k))) [0..<count])) \<and>
    length [0xd0, 0x96, 0x21 :: byte] \<le> unat (262144 :: 64 word)"
  by (rule pdf_text_utf8 [OF demo_page_text])

text \<open>
  The pixel budget is exact. \<^verbatim>\<open>check_pixels\<close> succeeds exactly when both sides are positive and
  within the dimension limit, the area is within the page limit and the area with what is used
  already within the total limit, counted in unbounded arithmetic; it then adds exactly the area.
\<close>

lemma pixel_budget:
  assumes "raster_dimension lm \<le> 4096"
  shows "check_pixels w h lm used = Inr u \<longleftrightarrow>
    0 < w \<and> 0 < h \<and> w \<le> raster_dimension lm \<and> h \<le> raster_dimension lm \<and>
    nat (w * h) \<le> unat (page_pixels lm) \<and> unat used + nat (w * h) \<le> unat (total_pixels lm) \<and>
    unat u = unat used + nat (w * h)"
  by (rule check_pixels_Inr [OF assms])

lemma pixel_budget_witness: "check_pixels 2000 2000 ceiling_limits 16000000 = Inr 20000000"
  by (subst pixel_budget) (simp_all add: ceiling_limits_def)

section \<open>Android\<close>

definition demo_sha :: "byte list \<Rightarrow> string" where
  "demo_sha bs = replicate 64 (CHR ''0'')"

definition demo_worker_request :: DocumentWorkerRequest where
  "demo_worker_request =
     \<lparr>dr_job_id = ''0123456789abcdef0123456789abcdef'', dr_source = [1], dr_source_hash = demo_sha [1],
      dr_operation = pdfText, dr_language = dart_eng, dr_first_page = 1, dr_page_count = 1,
      dr_limits = default_limits\<rparr>"

lemma demo_valid: "valid_request demo_sha demo_worker_request"
  by (simp add: valid_request_def demo_worker_request_def demo_sha_def is_job_id_def default_limits_def
      valid_dart_limits_def limit_fields_def dart_ceilings_def)

definition demo_vm :: java_vm where
  "demo_vm = \<lparr>vm_pins = (\<lambda>_. True), vm_exception = False, vm_new_array = (\<lambda>_. True)\<rparr>"

lemma demo_tess: "tess_utf8 demo_libs"
  by (auto simp: tess_utf8_def demo_libs_def intro: well_formed_ascii)

text \<open>
  C22. The Android worker and the application agree. For every valid request, whatever the document
  and the libraries are (Tesseract's symbols being UTF-8, as documented) and however the answer is
  cut into chunks, \<^verbatim>\<open>nativeProcess\<close> answers and the application's decoder reconstructs exactly the
  pages of the engine's result, or throws exactly the code of its error. (A page limit shorter than
  the code of the error is reported as an output limit.)
\<close>

theorem android_answer:
  assumes "valid_request sha rq" "tess_utf8 E" "vm_pins vm (dart_unhex (dr_job_id rq))" "\<not> vm_exception vm"
    and "\<And>n. vm_new_array vm n"
  shows "\<exists>bs. host_answer E vm rq eng rus = jni_array bs \<and>
    (\<forall>chunks. concat chunks = map uint bs \<longrightarrow> (\<forall>c \<in> set chunks. length c \<le> 65536) \<longrightarrow>
       decode_chunks rq new_decoder chunks = seen rq (engine_answer E vm rq eng rus))"
  by (rule host_answer_decoded [OF assms])

theorem android_answer_witness:
  "\<exists>bs. host_answer demo_libs demo_vm demo_worker_request None None = jni_array bs \<and>
    (\<forall>chunks. concat chunks = map uint bs \<longrightarrow> (\<forall>c \<in> set chunks. length c \<le> 65536) \<longrightarrow>
       decode_chunks demo_worker_request new_decoder chunks =
         seen demo_worker_request (engine_answer demo_libs demo_vm demo_worker_request None None))"
  by (rule android_answer [OF demo_valid demo_tess]) (simp_all add: demo_vm_def)

text \<open>
  C23. Chunks do not matter. Two ways to cut the same bytes of a response, within the sizes the
  decoder allows, are decoded to the same pages or the same error.
\<close>

theorem chunks_do_not_matter:
  assumes "concat cs = concat ds" "\<forall>c \<in> set cs \<union> set ds. length c \<le> 65536" "int (length (concat cs)) \<le> max_wire rq"
  shows "decode_chunks rq new_decoder cs = decode_chunks rq new_decoder ds"
  using decode_chunks_whole [of new_decoder cs rq] decode_chunks_whole [of new_decoder ds rq] assms by simp

theorem chunks_do_not_matter_witness:
  "decode_chunks demo_worker_request new_decoder [[0, 0], [0], [], [47, 1]] =
   decode_chunks demo_worker_request new_decoder [[0, 0, 0, 47], [1]]"
  by (rule chunks_do_not_matter) (simp_all add: max_wire_def demo_worker_request_def default_limits_def)

text \<open>
  C24. The decoder cannot be overrun. Whatever bytes a worker sends, broken or hostile, the pages the
  decoder hands out are exactly as many as were asked for, with consecutive numbers, rasters within
  the limits of a page and in total, and texts within the limits of a page and in total.
\<close>

theorem decoder_bounded:
  assumes "valid_request sha rq" "decode_chunks rq new_decoder chunks = Inr ps"
  shows "pages_ok rq ps \<and> int (length ps) = dr_page_count rq \<and> page_chars ps \<le> dl_outputBytes (dr_limits rq) \<and>
    page_pixels_sum ps \<le> dl_totalPixels (dr_limits rq)"
  using assms by (intro decode_chunks_ok [OF assms(2)] decoder_ok_new) (auto simp: valid_request_def)

lemma demo_seen:
  "seen demo_worker_request (engine_answer demo_libs demo_vm demo_worker_request None None) =
     Inr [\<lparr>dp_page = 1, dp_ocr = False, dp_text = [0x416, 0x21], dp_width = 0, dp_height = 0\<rparr>]"
proof -
  have "utf8_chars [0xd0, 0x96, 0x21] = Some [0x416, 0x21]"
    by (simp add: utf8_chars_next Let_def cont_def)
  then have u: "dart_utf8_decode [0xd0, 0x96, 0x21] = Some [0x416, 0x21]"
    by (simp add: dart_utf8_decode_def drop_mark_def)
  have "engine_answer demo_libs demo_vm demo_worker_request None None = \<lparr>rs_error = err_none, rs_page_count = 1,
      rs_pages = [\<lparr>pg_number = 1, pg_text = [0xd0, 0x96, 0x21], pg_width = 0, pg_height = 0\<rparr>]\<rparr>"
    unfolding engine_answer_def
    by (rule demo_process)
       (simp_all add: engine_request_def demo_worker_request_def operation_of_def language_of_def byte_array_def
          demo_vm_def jni_limits_def limit_fields_def default_limits_def ceiling_limits_def)
  then show ?thesis by (simp add: seen_def dart_page_def u demo_worker_request_def)
qed

theorem decoder_bounded_witness:
  "pages_ok demo_worker_request [\<lparr>dp_page = 1, dp_ocr = False, dp_text = [0x416, 0x21], dp_width = 0, dp_height = 0\<rparr>]"
proof -
  have vm: "vm_pins demo_vm (dart_unhex (dr_job_id demo_worker_request))" "\<not> vm_exception demo_vm"
      "\<And>n. vm_new_array demo_vm n" by (simp_all add: demo_vm_def)
  from host_answer_decoded [OF demo_valid demo_tess vm, of None None]
  obtain bs :: "byte list" where bs: "\<forall>chunks. concat chunks = map uint bs \<longrightarrow> (\<forall>c \<in> set chunks. length c \<le> 65536) \<longrightarrow>
       decode_chunks demo_worker_request new_decoder chunks =
         seen demo_worker_request (engine_answer demo_libs demo_vm demo_worker_request None None)"
    by (elim exE conjE)
  have cut: "concat (map (\<lambda>b. [uint b]) bs) = map uint bs" "\<forall>c \<in> set (map (\<lambda>b. [uint b]) bs). length c \<le> 65536"
    by auto
  have "decode_chunks demo_worker_request new_decoder (map (\<lambda>b. [uint b]) bs) =
      Inr [\<lparr>dp_page = 1, dp_ocr = False, dp_text = [0x416, 0x21], dp_width = 0, dp_height = 0\<rparr>]"
    using bs [THEN spec, THEN mp, OF cut(1), THEN mp, OF cut(2)] by (simp only: demo_seen)
  from decoder_bounded [OF demo_valid this] show ?thesis by blast
qed

text \<open>
  C26. Requests are read as they were written, and nothing else is read. With a digest of 64
  hexadecimal digits, the decoder of requests returns a request for some bytes exactly when the
  request is valid and those bytes are its encoding: so every valid request survives the trip with the
  ten limits that are sent, no two byte strings stand for the same request, and what is not an
  encoding is refused.
\<close>

theorem request_roundtrip:
  assumes "\<And>x. is_hash (sha x)"
  shows "decodeRequest sha bs = Inr rq \<longleftrightarrow> valid_request sha rq \<and> encodeRequest rq = bs"
  using assms by (rule decodeRequest_iff)

theorem request_roundtrip_witness:
  "decodeRequest demo_sha (encodeRequest demo_worker_request) = Inr demo_worker_request"
proof -
  have "is_hash (demo_sha x)" for x by (simp add: is_hash_def demo_sha_def list_all_iff)
  from request_roundtrip [of demo_sha, OF this] demo_valid show ?thesis by blast
qed

section \<open>Windows\<close>

text \<open>
  C25. The exchange of the Windows helper. It writes nothing at all unless its input starts with an
  acceptable header and the source of the announced length and digest; then what it writes is
  a prefix of the frames of the engine's result, within the limits, and all of them when it exits
  with 0. Its exit codes are those of the list, so a page is never larger than its limit (78).
\<close>

theorem helper_exchange:
  "case RunDocumentWorker E sha h p s of (code, s') \<Rightarrow>
     (code \<in> {72, 73, 74, 75, 76, 77, 79, 80} \<and> s' = s) \<or>
     (\<exists>header src rest n. concat p = header @ src @ rest \<and> accepted sha header src \<and>
        (let response = worker_response (drop 4 header) (helper_result E h header src) in
         length response \<le> min (unat (worker_limits header ! 7)) kMaxResponse \<and>
         sk_written s' = sk_written s @ take n response \<and> (code = 81 \<or> code = 0 \<and> length response \<le> n)))"
proof -
  obtain code s' where run: "RunDocumentWorker E sha h p s = (code, s')" by fastforce
  from RunDocumentWorker_cases [OF run] show ?thesis
  proof
    assume "code \<in> {72, 73, 74, 75, 76, 77} \<and> s' = s"
    then have "code \<in> {72, 73, 74, 75, 76, 77, 79, 80} \<and> s' = s" by auto
    then show ?thesis unfolding run prod.case by (rule disjI1)
  next
    assume "\<exists>header src rest. concat p = header @ src @ rest \<and> accepted sha header src \<and>
       worker_respond (drop 4 header) (worker_limits header) (helper_result E h header src) s = (code, s')"
    then obtain header src rest where c: "concat p = header @ src @ rest" "accepted sha header src"
        "worker_respond (drop 4 header) (worker_limits header) (helper_result E h header src) s = (code, s')" by blast
    have "length (pg_text q) \<le> unat (worker_limits header ! 6)" if "q \<in> set (rs_pages (helper_result E h header src))" for q
      using that unfolding helper_result_def by (rule worker_pages_fit)
    from worker_respond_cases [OF c(3) this] c(1,2) show ?thesis unfolding run prod.case Let_def by blast
  qed
qed

text \<open>
  C27. The application never accepts an answer of the Windows helper. When the helper exits with 0,
  what it has written makes the application's decoder throw, whatever the request was: the helper
  numbers pages as kind 1 and the end as kind 2, which the decoder reads as the end and as an error.
\<close>

theorem helper_never_understood:
  assumes "RunDocumentWorker E sha h p s = (0, s')" "1 \<le> dr_page_count rq"
  shows "\<exists>response. sk_written s' = sk_written s @ response \<and>
    (\<exists>e. decode_whole rq new_decoder (map uint response) = Inl e)"
proof -
  from RunDocumentWorker_cases [OF assms(1)] obtain header src rest where c: "accepted sha header src"
      "worker_respond (drop 4 header) (worker_limits header) (helper_result E h header src) s = (0, s')"
    by auto
  let ?r = "helper_result E h header src" and ?job = "drop 4 header"
  have fit: "length (pg_text q) \<le> unat (worker_limits header ! 6)" if "q \<in> set (rs_pages ?r)" for q
    using that unfolding helper_result_def by (rule worker_pages_fit)
  from worker_respond_cases [OF c(2) fit] obtain n where
    n: "length (worker_response ?job ?r) \<le> kMaxResponse" "sk_written s' = sk_written s @ take n (worker_response ?job ?r)"
      "length (worker_response ?job ?r) \<le> n" by auto
  have "unat (worker_limits header ! 6) \<le> 262144"
    using c(1) by (auto simp: accepted_def limits_rejected_def worker_ceilings_def worker_limits_def upt_rec word_le_nat_alt not_less)
  then have small: "length (pg_text q) < 2 ^ 31" if "q \<in> set (rs_pages ?r)" for q
    using fit [OF that] by simp
  have "length (take 16 ?job) = 16" using c(1) by (simp add: accepted_def)
  from helper_response_refused [OF this small assms(2)] n show ?thesis by auto
qed

definition demo_header :: "byte list" where
  "demo_header = [0x4d, 0x44, 0x57, 1] @ replicate 16 7 @ replicate 32 0 @ [0, 0, 0, 1, 0, 1, 0, 0] @ [0, 0, 0, 1] @
     concat (map (\<lambda>v. be32 (uint v)) worker_ceilings) @ [0, 0, 0, 0]"

lemma demo_header_fields:
  "length demo_header = 108" "worker_limits demo_header = worker_ceilings" "U32 (drop 60 demo_header) = 1"
  "limits_rejected (worker_limits demo_header) = False" "U16 (drop 58 demo_header) = 0"
  "demo_header ! 0 = 0x4d" "demo_header ! 1 = 0x44" "demo_header ! 2 = 0x57" "demo_header ! 3 = 1"
  "demo_header ! 52 = 0" "demo_header ! 53 = 0" "take 32 (drop 20 demo_header) = replicate 32 0"
  "U16 (drop 54 demo_header) = 1" "U16 (drop 56 demo_header) = 1"
  by code_simp+

lemma length_Frame:
  "length (take 16 job) = 16 \<Longrightarrow> length (Frame out job kind index page status w h bs) = length out + 51 + length bs"
  by (simp add: Frame_body body_fields(13))

lemma WriteExact_once:
  assumes "bs \<noteq> []" "length bs \<le> k" "k \<le> 65536" "sk_accepts s = Some k # as"
  shows "fst (WriteExact_w s bs)"
proof -
  have "WriteFile s (take 65536 bs) = (Some (length bs), s\<lparr>sk_accepts := as, sk_written := sk_written s @ bs\<rparr>)"
    using assms by (simp add: WriteFile_def)
  then show ?thesis using assms(1) by (simp add: WriteExact_w.simps [of s bs] WriteExact_w.simps [of _ "[]"])
qed

lemma demo_run:
  "\<exists>s'. RunDocumentWorker demo_libs (\<lambda>_. Some (replicate 32 0)) \<lparr>hd_known = False, hd_file = (\<lambda>_. None), hd_readable = (\<lambda>_. False)\<rparr>
     [demo_header, [1]] \<lparr>sk_accepts = [Some 65536], sk_written = []\<rparr> = (0, s')"
proof -
  let ?h = "\<lparr>hd_known = False, hd_file = (\<lambda>_. None), hd_readable = (\<lambda>_. False)\<rparr> :: helper_dir"
  let ?s = "\<lparr>sk_accepts = [Some 65536], sk_written = []\<rparr> :: sink"
  let ?w = "worker_request demo_header [1]"
  note f = demo_header_fields
  have nonempty: "demo_header \<noteq> []" using f(1) by auto
  have one: "ReadExact [demo_header, [1]] kHeader = (Some demo_header, [[1]])"
    using f(1) nonempty by (simp add: ReadExact_def kHeader_def ReadExact_loop.simps)
  have two: "ReadExact [[1]] (Suc 0) = (Some [1], [])"
    by (simp add: ReadExact_def ReadExact_loop.simps)
  have req: "?w = \<lparr>rqs_operation = pdf_text, rqs_language = lang_eng, rqs_first_page = 1, rqs_page_count = 1,
      rqs_limits = ceiling_limits, rqs_source = \<lparr>by_null = False, by_bytes = [1]\<rparr>\<rparr>"
    by (simp add: worker_request_def Let_def f operation_of_def language_of_def vector_bytes_def worker_ceilings_def
        ceiling_limits_def)
  have result: "process demo_libs ?w eng rus = \<lparr>rs_error = err_none, rs_page_count = 1,
      rs_pages = [\<lparr>pg_number = 1, pg_text = [0xd0, 0x96, 0x21], pg_width = 0, pg_height = 0\<rparr>]\<rparr>" for eng rus
    by (rule demo_process) (simp_all add: req)
  let ?r = "\<lparr>rs_error = err_none, rs_page_count = 1,
      rs_pages = [\<lparr>pg_number = 1, pg_text = [0xd0, 0x96, 0x21], pg_width = 0, pg_height = 0\<rparr>]\<rparr>"
  have "fst (worker_respond (drop 4 demo_header) worker_ceilings ?r ?s) = 0"
  proof -
    have job: "length (take 16 (drop 4 demo_header)) = 16" using f(1) by simp
    have "worker_ceilings ! 6 = 262144" "worker_ceilings ! 7 = 1048576" by code_simp+
    moreover have "fst (WriteExact_w ?s (Frame out (drop 4 demo_header) kind index page status w h bs))"
      if "length out + length bs \<le> 1000" for out kind index page status w h bs
      using length_Frame [OF job, of out kind index page status w h bs] that
      by (intro WriteExact_once [of _ 65536]) auto
    ultimately show ?thesis
      by (simp add: worker_respond_def Let_def length_Frame [OF job] kMaxResponse_def case_prod_beta)
  qed
  then obtain s' where "worker_respond (drop 4 demo_header) worker_ceilings ?r ?s = (0, s')" by (metis prod.collapse)
  moreover have "RunDocumentWorker demo_libs (\<lambda>_. Some (replicate 32 0)) ?h [demo_header, [1]] ?s =
      worker_respond (drop 4 demo_header) worker_ceilings ?r ?s"
  proof -
    have rej: "\<not> limits_rejected worker_ceilings" using f(4) by (simp add: f(2))
    have first: "worker_ceilings ! 0 = 10485760" by code_simp
    have second: "demo_header ! Suc 0 = 0x44" using f(7) by simp
    show ?thesis
      by (simp add: RunDocumentWorker_def Let_def one two result kMaxSource_def f(2,3,5,6,8-12) second rej first)
  qed
  ultimately show ?thesis by (intro exI [of _ s']) (simp only:)
qed

theorem helper_never_understood_witness:
  "\<exists>response :: byte list. \<exists>s'. sk_written s' = response \<and>
     RunDocumentWorker demo_libs (\<lambda>_. Some (replicate 32 0)) \<lparr>hd_known = False, hd_file = (\<lambda>_. None), hd_readable = (\<lambda>_. False)\<rparr>
       [demo_header, [1]] \<lparr>sk_accepts = [Some 65536], sk_written = []\<rparr> = (0, s') \<and>
     (\<exists>e. decode_whole demo_worker_request new_decoder (map uint response) = Inl e)"
proof -
  obtain s' where run: "RunDocumentWorker demo_libs (\<lambda>_. Some (replicate 32 0))
      \<lparr>hd_known = False, hd_file = (\<lambda>_. None), hd_readable = (\<lambda>_. False)\<rparr> [demo_header, [1]]
      \<lparr>sk_accepts = [Some 65536], sk_written = []\<rparr> = (0, s')" using demo_run by blast
  have "1 \<le> dr_page_count demo_worker_request" by (simp add: demo_worker_request_def)
  from helper_never_understood [OF run this] run show ?thesis by auto
qed

end
