(* ===== verification/Broker_Properties.thy ===== *)
theory Broker_Properties
  imports Broker_Liveness Document_Properties
begin

text \<open>The properties of the document worker's broker, and of the broker with the helper it starts.\<close>

section \<open>A run of the broker\<close>

definition helper_image :: seen_file where
  "helper_image = \<lparr>sf_attributes = Some (False, False), sf_identity = Some (7, 0, 5), sf_content = [1], sf_hashed = True\<rparr>"

definition demo_bundle :: wstring where
  "demo_bundle = wide [CHR ''C'', CHR '':'', CHR 0x5C, CHR ''p'', CHR 0x5C, CHR ''m'']"

definition demo_package :: broker_env where
  "demo_package = \<lparr>be_module = Some (child demo_bundle (wide ''m.exe'')),
     be_open = (\<lambda>p. if p = child demo_bundle (wide ''document_worker.exe'') then Some helper_image else None),
     be_entry = (\<lambda>_. Some (helper_image\<lparr>sf_attributes := Some (False, True)\<rparr>)),
     be_programs = Some (wide [CHR ''C'', CHR '':'', CHR 0x5C, CHR ''p'']), be_elevated = None, be_user = None, be_owner = (\<lambda>_. None),
     be_lower = (\<lambda>c. c), be_derive = 0, be_create = 0, be_sha = (\<lambda>bs. bs),
     be_manifest = [(wide ''document_worker.exe'', ''01'')]\<rparr>"

lemma demo_verified: "VerifyPackage demo_package = Some (child demo_bundle (wide ''document_worker.exe''), [helper_image], (7, 0, 5))"
  "AppContainerAvailable demo_package" "\<not> failed (be_derive demo_package)"
  by code_simp+

lemma demo_same_helper: "same_helper demo_package (child demo_bundle (wide ''document_worker.exe'')) (7, 0, 5)"
  by code_simp

definition demo_events :: "event list" where
  "demo_events =
     [Platform (CallRun demo_package (Some (EvBytes (replicate 108 0)))), Worker (Prepared demo_package (replicate 8 True)),
      Worker (AssignedToJob True False), Worker Locked, Worker (Resumed True), Worker (Wrote (Some 108) True),
      Worker (ReadSome (GotBytes [1]) True)]"

definition demo_rest :: "event list" where
  "demo_rest = [Exits 0 0, Worker (ReadSome PipeBroken True), Worker (Waited True True), Worker Cleaned]"

definition demo_running :: broker where
  "demo_running = the (broker_steps demo_events new_broker)"

definition demo_done :: broker where
  "demo_done = the (broker_steps (demo_events @ demo_rest) new_broker)"

lemmas broker_run_simps = new_broker_def Run_def kMaxRequest_def demo_verified worker_step_def prepare_process_def demo_same_helper
    assign_process_def publish_job_def resume_process_def feed_process_def collect_response_def kMaxBrokerResponse_def at_point_def
    process_exits_def await_process_def clean_up_def answer_request_def close_job_def kill_job_def exit_reply_def

lemma demo_runs: "broker_steps demo_events new_broker = Some demo_running"
    "bk_processes demo_running 0 = Some (InJob 0 True)" "bk_thread demo_running = Collecting 0 [1] 0"
  by (simp_all add: demo_running_def demo_events_def broker_run_simps)

lemma demo_ends: "broker_steps (demo_events @ demo_rest) new_broker = Some demo_done" "bk_thread demo_done = Finished"
    "bk_platform demo_done = Free" "bk_answers demo_done = [(0, BrokerSuccess (EvBytes [1]))]" "bk_requests demo_done = 1"
  by (simp_all add: demo_done_def demo_rest_def demo_events_def broker_run_simps)

lemma demo_reached: "broker_reach demo_running"
  by (rule steps_reach [OF broker_reach.start demo_runs(1)])

text \<open>
  Two interleavings of \<^verbatim>\<open>terminate\<close>: before the job is published it does nothing, and the request runs to
  its end; between its two halves the worker thread may close the job, whose handle is then used.
\<close>

lemma terminate_lost:
  "\<exists>b. broker_steps (take 1 demo_events @ [Platform CallTerminate, PlatformContinues True] @ drop 1 demo_events @ demo_rest) new_broker = Some b \<and>
     bk_answers b = [(0, BrokerSuccess (EvBytes [1]))]"
  by (simp add: demo_rest_def demo_events_def broker_run_simps platform_continues_def)

lemma terminate_stale:
  "\<exists>b. broker_steps (demo_events @ [Platform CallTerminate] @ demo_rest) new_broker = Some b \<and>
     bk_platform b = Terminating (Some 0) \<and> 0 \<notin> bk_open b"
  by (simp add: demo_rest_def demo_events_def broker_run_simps)

section \<open>Containment\<close>

lemma demo_abandoned:
  "\<exists>b. broker_steps (take 2 demo_events @ [Worker (AssignedToJob False False), Worker Cleaned]) new_broker = Some b \<and>
     bk_thread b = Finished \<and> bk_processes b 0 = Some (Outside False)"
  by (simp add: demo_events_def broker_run_simps)

text \<open>
  C35. The helper is contained. However the two threads, the helper and failures interleave, a process
  that runs is in a job: none ever runs outside; at most one process is in a job, that job is the one
  open job, and then the broker is serving a request. When the broker serves none, no job is open and
  every process it has made is over, except that one which could neither be assigned to its job nor
  terminated stays behind, suspended.
\<close>

theorem broker_contained:
  assumes "broker_steps es new_broker = Some b"
  shows "(\<forall>p. bk_processes b p \<noteq> Some (Outside True)) \<and>
    (\<forall>p i x. bk_processes b p = Some (InJob i x) \<longrightarrow>
      bk_running b \<and> bk_open b = {i} \<and> (\<forall>q j y. bk_processes b q = Some (InJob j y) \<longrightarrow> q = p)) \<and>
    (\<not> bk_running b \<longrightarrow> bk_open b = {} \<and> bk_job b = None \<and>
      (\<forall>p s. bk_processes b p = Some s \<longrightarrow>
        (\<exists>c. s = Gone c) \<or> s = Outside False \<and> Worker (AssignedToJob False False) \<in> set es))"
proof -
  have owned: "owned b" by (rule reach_owned [OF steps_reach [OF broker_reach.start assms]])
  have alive: "bk_processes b p = Some (InJob i x) \<longleftrightarrow> (p, i, x) \<in> alive b" for p i x by (simp add: alive_def)
  have idle: "\<not> bk_running b \<longrightarrow> owns_nothing b \<and> bk_thread b = Finished" using owned by (auto simp: owned_def serves_def split: point.splits)
  have one: "alive b = {} \<or> bk_running b \<and> (\<exists>j p. bk_open b = {j} \<and> alive b \<subseteq> {(p, j, False), (p, j, True)})"
    using owned by (auto simp: owned_def serves_def owns_def owns_nothing_def split: point.splits) blast
  have confined: "confined (Worker (AssignedToJob False False) \<in> set es) b" by (rule steps_confined [OF assms])
  have over: "(\<exists>c. s = Gone c) \<or> s = Outside False \<and> Worker (AssignedToJob False False) \<in> set es"
    if "\<not> bk_running b" "bk_processes b p = Some s" for p s
    using that idle confined alive by (cases s) (auto simp: confined_def owns_nothing_def outside_def)
  from one have "\<forall>p i x. bk_processes b p = Some (InJob i x) \<longrightarrow>
      bk_running b \<and> bk_open b = {i} \<and> (\<forall>q j y. bk_processes b q = Some (InJob j y) \<longrightarrow> q = p)" by (auto simp: alive)
  moreover have "\<forall>p. bk_processes b p \<noteq> Some (Outside True)" using confined by (simp add: confined_def)
  ultimately show ?thesis using idle over by (auto simp: owns_nothing_def)
qed

theorem broker_contained_witness: "bk_open demo_running = {0} \<and> bk_processes demo_done 0 \<noteq> Some (Outside True) \<and> bk_open demo_done = {}"
proof -
  have "\<not> bk_running demo_done" using reach_owned [OF steps_reach [OF broker_reach.start demo_ends(1)]] demo_ends(2) by (simp add: owned_def)
  then show ?thesis using broker_contained [OF demo_runs(1)] broker_contained [OF demo_ends(1)] demo_runs(2) by blast
qed

section \<open>Answers\<close>

text \<open>
  C36. Every request gets one answer, and only such as the code names: no request is answered twice,
  those not answered are at most the one the thread serves, a success is what the helper has written,
  not empty and at most 1 MiB.
\<close>

theorem answered_once:
  assumes "broker_reach b"
  shows "distinct (map fst (bk_answers b)) \<and> {..<bk_requests b} - answered b = set_option (served (bk_thread b)) \<and>
    (\<forall>(r, v) \<in> set (bk_answers b). case v of
        BrokerError e \<Rightarrow> e \<in> broker_errors
      | BrokerSuccess x \<Rightarrow> \<exists>bs. x = EvBytes bs \<and> bs \<noteq> [] \<and> length bs \<le> kMaxBrokerResponse)"
  using reach_accounted [OF assms] by (auto simp: accounted_def reply_ok_def)

theorem answered_once_witness: "{..<bk_requests demo_running} - answered demo_running = {0}"
  using answered_once [OF demo_reached] demo_runs(3) by simp

text \<open>
  C37. Every request is answered in the end. In every infinite run in which the calls of the worker
  thread return, each request that was made has an answer at some later time, and the broker is free
  again then.
\<close>

theorem answered_eventually:
  assumes "broker_run s e" "calls_return s e" "r < bk_requests (s n)"
  shows "\<exists>m\<ge>n. r \<in> answered (s m) \<and> \<not> bk_running (s m)"
  by (rule answered_in_the_end [OF assms])

text \<open>A run that follows a list of events and then only sees calls of unknown methods.\<close>

definition finite_run :: "event list \<Rightarrow> nat \<Rightarrow> broker" where
  "finite_run es n = the (broker_steps (take n es) new_broker)"

definition finite_events :: "event list \<Rightarrow> nat \<Rightarrow> event" where
  "finite_events es n = (if n < length es then es ! n else Platform CallOther)"

lemma finite_run_step:
  assumes "broker_steps es new_broker = Some b" "bk_platform b = Free"
  shows "broker_run (finite_run es) (finite_events es)"
proof -
  have "broker_step (finite_events es n) (finite_run es n) = Some (finite_run es (Suc n))" for n
  proof (cases "n < length es")
    case True
    then have split: "es = take n es @ es ! n # drop (Suc n) es" by (rule id_take_nth_drop)
    have "broker_steps (take n es @ es ! n # drop (Suc n) es) new_broker = Some b" using assms(1) split by simp
    then obtain x y where "broker_steps (take n es) new_broker = Some x" "broker_step (es ! n) x = Some y"
      by (auto simp: steps_append split: option.splits)
    with True show ?thesis by (simp add: finite_run_def finite_events_def take_Suc_conv_app_nth steps_append)
  next
    case False
    with assms show ?thesis by (simp add: finite_run_def finite_events_def)
  qed
  then show ?thesis by (simp add: broker_run_def finite_run_def)
qed

lemma finite_run_fair:
  assumes "broker_steps es new_broker = Some b" "bk_thread b = Finished" "es \<noteq> []" "\<exists>a. last es = Worker a"
  shows "calls_return (finite_run es) (finite_events es)"
proof -
  have "\<exists>m\<ge>n. \<exists>a. finite_events es m = Worker a" if "bk_thread (finite_run es n) \<noteq> Finished" for n
  proof -
    have "n < length es" using that assms(1,2) by (auto simp: finite_run_def not_less[symmetric] intro: ccontr)
    then show ?thesis
      using assms(3,4) by (auto simp: finite_events_def last_conv_nth intro!: exI [of _ "length es - 1"])
  qed
  then show ?thesis by (simp add: calls_return_def)
qed

theorem answered_eventually_witness:
  "\<exists>m\<ge>7. 0 \<in> answered (finite_run (demo_events @ demo_rest) m) \<and> \<not> bk_running (finite_run (demo_events @ demo_rest) m)"
proof (rule answered_eventually [OF finite_run_step [OF demo_ends(1,3)] finite_run_fair [OF demo_ends(1,2)]])
  have "take 7 (demo_events @ demo_rest) = demo_events" by (simp add: demo_events_def)
  then have "finite_run (demo_events @ demo_rest) 7 = demo_running" by (simp add: finite_run_def demo_runs)
  moreover have "0 < bk_requests demo_running" by (simp add: demo_running_def demo_events_def broker_run_simps)
  ultimately show "0 < bk_requests (finite_run (demo_events @ demo_rest) 7)" by simp
qed (simp_all add: demo_events_def demo_rest_def)

section \<open>What is started\<close>

text \<open>
  The request the thread is preparing: the event that made it, with its number and bytes, found the
  package verified and the container available, and gave what the thread was started with.
\<close>

definition taken_with :: "event list \<Rightarrow> broker_env \<Rightarrow> nat \<Rightarrow> byte list \<Rightarrow> wstring \<Rightarrow> HelperIdentity \<Rightarrow> bool" where
  "taken_with es E r bytes helper ident \<longleftrightarrow>
     (\<exists>before after b0 files. es = before @ Platform (CallRun E (Some (EvBytes bytes))) # after \<and>
        broker_steps before new_broker = Some b0 \<and> bk_requests b0 = r \<and>
        VerifyPackage E = Some (helper, files, ident) \<and> AppContainerAvailable E)"

definition prepared_ok :: "event list \<Rightarrow> broker \<Rightarrow> bool" where
  "prepared_ok es b \<longleftrightarrow>
     (case bk_thread b of
        Preparing r bytes helper ident \<Rightarrow> \<exists>E. taken_with es E r bytes helper ident
      | _ \<Rightarrow> True)"

lemma taken_later: "taken_with es E r bytes helper ident \<Longrightarrow> taken_with (es @ [e]) E r bytes helper ident"
  by (auto simp: taken_with_def) blast

lemma Run_takes:
  assumes "bk_thread (Run E arguments b) = Preparing r bytes helper ident" "bk_thread b = Finished"
  shows "arguments = Some (EvBytes bytes) \<and> r = bk_requests b \<and> (\<exists>files. VerifyPackage E = Some (helper, files, ident)) \<and>
    AppContainerAvailable E"
  using assms by (auto simp: Run_def Let_def split: if_splits option.splits EncodableValue.splits prod.splits)

lemma worker_not_preparing:
  assumes "worker_step a b = Some b'"
  shows "bk_thread b' \<noteq> Preparing r bytes helper ident"
  using assms
  by (auto simp: worker_step_def prepare_process_def assign_process_def publish_job_def resume_process_def
    feed_process_def collect_response_def await_process_def reap_process_def clean_up_def
    split: point.splits answer_event.splits option.splits read_answer.splits process_state.splits if_splits)

lemma steps_prepared: "broker_steps es new_broker = Some b \<Longrightarrow> prepared_ok es b"
proof (induction rule: steps_induct)
  case start
  show ?case by (simp add: prepared_ok_def new_broker_def)
next
  case (step es b e b')
  note b = step(1) and reach = step(2) and move = step(3) and IH = step(4)
  show ?case
  proof (cases "\<exists>r bytes helper ident. bk_thread b' = Preparing r bytes helper ident")
    case True
    then obtain r bytes helper ident where p: "bk_thread b' = Preparing r bytes helper ident" by blast
    have no_worker: "\<nexists>a. e = Worker a" using move p worker_not_preparing by (metis broker_step.simps(3))
    show ?thesis
    proof (cases "bk_thread b = Finished")
      case False
      from thread_moves [OF move reach_owned [OF reach] False no_worker] p
      have "bk_thread b = Preparing r bytes helper ident" by simp
      with IH obtain E where "taken_with es E r bytes helper ident" by (auto simp: prepared_ok_def)
      then have "taken_with (es @ [e]) E r bytes helper ident" by (rule taken_later)
      with p show ?thesis by (auto simp: prepared_ok_def)
    next
      case True
      have "\<exists>E arguments. e = Platform (CallRun E arguments) \<and> b' = Run E arguments b"
      proof (cases e)
        case (Platform c)
        with move p True show ?thesis by (cases c) (auto split: if_splits)
      qed (use move p True no_worker in \<open>auto simp: platform_continues_def process_exits_def
        split: platform.splits option.splits process_state.splits bool.splits if_splits\<close>)
      then obtain E arguments where e: "e = Platform (CallRun E arguments)" "b' = Run E arguments b" by blast
      with Run_takes [of E arguments b] p True b have "taken_with (es @ [e]) E r bytes helper ident"
        unfolding taken_with_def by blast
      with p show ?thesis by (auto simp: prepared_ok_def)
    qed
  qed (auto simp: prepared_ok_def split: point.split)
qed

text \<open>
  C38. What is started was verified. When the worker thread creates a process for a request, then in
  the run that led there that very request, with its number and bytes, was made when the package of the
  bundle verified: the bundle was at a trusted place, every file of the manifest was an ordinary direct child of
  it with the digest of the manifest, and the application container was available. The path that is
  started is that of the helper in that bundle; it names, when the process is created, an ordinary
  file with the identity the helper had when its digest was checked.
\<close>

theorem launched_verified:
  assumes "broker_steps es new_broker = Some b" "broker_step (Worker (Prepared E oks)) b = Some b'"
    and "bk_thread b' = Launched r bytes p j"
  shows "\<exists>helper ident before after E0 b0 files f.
    bk_thread b = Preparing r bytes helper ident \<and>
    es = before @ Platform (CallRun E0 (Some (EvBytes bytes))) # after \<and>
    broker_steps before new_broker = Some b0 \<and> bk_requests b0 = r \<and>
    TrustedBundleProvenance E0 (BundleDirectory E0) \<and> AppContainerAvailable E0 \<and>
    list_all2 (genuine E0 (BundleDirectory E0)) (be_manifest E0) files \<and>
    helper = append_path (BundleDirectory E0) (wide ''document_worker.exe'') \<and>
    OpenOrdinaryDirectFile E (BundleDirectory E) helper = Some f \<and> sf_identity f = Some ident \<and>
    ((\<exists>e \<in> set (be_manifest E0). filename (append_path (BundleDirectory E0) (fst e)) = wide ''document_worker.exe'') \<longrightarrow>
       (\<exists>e \<in> set (be_manifest E0). \<exists>g \<in> set files. genuine E0 (BundleDirectory E0) e g \<and>
          filename (append_path (BundleDirectory E0) (fst e)) = wide ''document_worker.exe'' \<and> sf_identity g = Some ident))"
proof -
  from assms(2,3) obtain helper ident where at: "bk_thread b = Preparing r bytes helper ident" "same_helper E helper ident"
    by (auto simp: worker_step_def prepare_process_def assign_process_def publish_job_def resume_process_def feed_process_def
      collect_response_def await_process_def reap_process_def clean_up_def
      split: point.splits answer_event.splits option.splits read_answer.splits process_state.splits if_splits)
  obtain before after E0 b0 files where t: "es = before @ Platform (CallRun E0 (Some (EvBytes bytes))) # after"
      "broker_steps before new_broker = Some b0" "bk_requests b0 = r" "AppContainerAvailable E0"
    and v: "VerifyPackage E0 = Some (helper, files, ident)"
    using steps_prepared [OF assms(1)] at(1) by (auto simp: prepared_ok_def taken_with_def)
  let ?rt = "BundleDirectory E0"
  from v have trusted: "TrustedBundleProvenance E0 ?rt" "helper = append_path ?rt (wide ''document_worker.exe'')"
    and entries: "verify_entries E0 ?rt (be_manifest E0) [] (0, 0, 0) = Some (files, ident)"
    by (auto simp: VerifyPackage_def Let_def split: if_splits option.splits prod.splits)
  have "list_all2 (genuine E0 ?rt) (be_manifest E0) files" using verify_entries_sound [OF entries] by auto
  moreover have "(\<exists>e \<in> set (be_manifest E0). filename (append_path ?rt (fst e)) = wide ''document_worker.exe'') \<longrightarrow>
       (\<exists>e \<in> set (be_manifest E0). \<exists>g \<in> set files. genuine E0 ?rt e g \<and>
          filename (append_path ?rt (fst e)) = wide ''document_worker.exe'' \<and> sf_identity g = Some ident)"
    using verify_entries_sound [OF entries] by (elim exE conjE disjE) (blast, simp only: append_Nil, blast)
  moreover obtain f where "OpenOrdinaryDirectFile E (BundleDirectory E) helper = Some f" "sf_identity f = Some ident"
    using at(2) by (auto simp: same_helper_def split: option.splits)
  ultimately show ?thesis using at(1) t trusted by blast
qed

definition demo_taken :: broker where
  "demo_taken = the (broker_steps (take 1 demo_events) new_broker)"

lemma demo_launch: "broker_steps (take 1 demo_events) new_broker = Some demo_taken"
    "broker_step (Worker (Prepared demo_package (replicate 8 True))) demo_taken =
       Some (the (broker_steps (take 2 demo_events) new_broker))"
    "bk_thread (the (broker_steps (take 2 demo_events) new_broker)) = Launched 0 (replicate 108 0) 0 0"
  by (simp_all add: demo_taken_def demo_events_def broker_run_simps)

theorem launched_verified_witness:
  "TrustedBundleProvenance demo_package (BundleDirectory demo_package) \<and>
   (\<exists>files. list_all2 (genuine demo_package (BundleDirectory demo_package)) (be_manifest demo_package) files)"
proof -
  from launched_verified [OF demo_launch] obtain before after E0 files where
    "take 1 demo_events = before @ Platform (CallRun E0 (Some (EvBytes (replicate 108 0)))) # after"
    "TrustedBundleProvenance E0 (BundleDirectory E0)" "list_all2 (genuine E0 (BundleDirectory E0)) (be_manifest E0) files" by blast
  moreover from this have "E0 = demo_package" by (cases before) (auto simp: demo_events_def)
  ultimately show ?thesis by blast
qed

section \<open>The broker and the helper\<close>

text \<open>When no process ends with code 0, nothing succeeds.\<close>

definition all_failed :: "broker \<Rightarrow> bool" where
  "all_failed b \<longleftrightarrow> (\<forall>p. bk_processes b p \<noteq> Some (Gone 0)) \<and> (\<forall>r x. (r, BrokerSuccess x) \<notin> set (bk_answers b))"

lemma gone_killed: "bk_processes (kill_process q b) p = Some (Gone 0) \<Longrightarrow> bk_processes b p = Some (Gone 0)"
    "bk_processes (kill_job j b) p = Some (Gone 0) \<Longrightarrow> bk_processes b p = Some (Gone 0)"
    "bk_processes (terminate_job ok j b) p = Some (Gone 0) \<Longrightarrow> bk_processes b p = Some (Gone 0)"
    "bk_processes (terminate_own ok b) p = Some (Gone 0) \<Longrightarrow> bk_processes b p = Some (Gone 0)"
    "bk_processes (close_job j b) p = Some (Gone 0) \<Longrightarrow> bk_processes b p = Some (Gone 0)"
  by (auto simp: kill_process_def kill_job_def terminate_job_def terminate_own_def close_job_def
    split: if_splits option.splits process_state.splits)

lemma all_failed_answer [simp]: "all_failed (answer_request r (BrokerError e) b) = all_failed b"
  by (auto simp: all_failed_def)

lemma all_failed_at [simp]: "all_failed (at_point pt b) = all_failed b"
  by (simp add: all_failed_def)

lemma all_failed_killed:
  assumes "all_failed b"
  shows "all_failed (kill_process p b)" "all_failed (terminate_own ok b)" "all_failed (terminate_job ok j b)" "all_failed (close_job j b)"
  using assms by (auto simp: all_failed_def dest: gone_killed)

lemma all_failed_worker:
  assumes "all_failed b" "worker_step a b = Some b'"
  shows "all_failed b'"
proof (cases "bk_thread b")
  case (Preparing r bytes helper ident)
  with assms show ?thesis
    by (auto simp: worker_step_def prepare_process_def split: answer_event.splits) (auto simp: all_failed_def split: if_splits)
next
  case (Launched r bytes p j)
  with assms show ?thesis
    by (auto simp: worker_step_def assign_process_def all_failed_killed split: answer_event.splits if_splits)
      (auto simp: all_failed_def split: if_splits)
next
  case (Assigned r bytes p j)
  with assms show ?thesis by (auto simp: worker_step_def publish_job_def all_failed_def split: answer_event.splits)
next
  case (Published r bytes p)
  with assms show ?thesis
    by (auto simp: worker_step_def resume_process_def all_failed_def
      split: answer_event.splits option.splits process_state.splits if_splits)
next
  case (Feeding r bytes sent p)
  with assms show ?thesis
    by (auto simp: worker_step_def feed_process_def all_failed_killed split: answer_event.splits option.splits if_splits)
next
  case (Collecting r response p)
  with assms show ?thesis
    by (auto simp: worker_step_def collect_response_def all_failed_killed split: answer_event.splits read_answer.splits if_splits)
next
  case (Waiting r response p)
  with assms show ?thesis
    by (auto simp: worker_step_def await_process_def all_failed_killed split: answer_event.splits option.splits process_state.splits if_splits)
      (auto simp: all_failed_def exit_reply_def split: if_splits)
next
  case (TimedOut r p)
  with assms show ?thesis
    by (auto simp: worker_step_def reap_process_def split: answer_event.splits option.splits process_state.splits)
next
  case Cleaning
  have finish: "all_failed (x\<lparr>bk_job := None, bk_running := False\<rparr>)" if "all_failed x" for x using that by (simp add: all_failed_def)
  from Cleaning assms show ?thesis
    by (auto simp: worker_step_def clean_up_def all_failed_killed intro!: finish split: answer_event.splits option.splits)
qed (use assms in \<open>simp add: worker_step_def\<close>)

lemma all_failed_step:
  assumes "all_failed b" "broker_step e b = Some b'" "\<And>p. e \<noteq> Exits p 0"
  shows "all_failed b'"
proof (cases e)
  case (Platform c)
  with assms show ?thesis
    by (cases c) (auto simp: all_failed_def Run_def Let_def split: if_splits option.splits EncodableValue.splits prod.splits)
next
  case (PlatformContinues ok)
  have free: "all_failed (x\<lparr>bk_platform := y\<rparr>)" if "all_failed x" for x y using that by (simp add: all_failed_def)
  from PlatformContinues assms show ?thesis
    by (auto simp: platform_continues_def all_failed_killed intro!: free split: platform.splits option.splits if_splits)
next
  case (Worker a)
  with assms all_failed_worker show ?thesis by simp
next
  case (Exits p code)
  with assms show ?thesis
    by (auto simp: process_exits_def all_failed_def split: option.splits process_state.splits bool.splits if_splits)
qed

lemma all_failed_steps:
  "all_failed b \<Longrightarrow> broker_steps es b = Some b' \<Longrightarrow> (\<And>p. Exits p 0 \<notin> set es) \<Longrightarrow> all_failed b'"
proof (induction es arbitrary: b)
  case (Cons e es)
  then obtain x where x: "broker_step e b = Some x" "broker_steps es x = Some b'" by (auto split: option.splits)
  have "all_failed x" by (rule all_failed_step [OF Cons.prems(1) x(1)]) (use Cons.prems(3) in auto)
  then show ?case by (rule Cons.IH [OF _ x(2)]) (use Cons.prems(3) in auto)
qed simp

text \<open>
  C39. The application gets no document on Windows. However the broker runs, if every process that ends
  by itself is the helper on the encoding of some valid request that keeps a memory limit above 65536
  bytes (the default is 256 MiB), then no request is ever answered with a success.
\<close>

theorem application_never_served:
  assumes "broker_steps es new_broker = Some b"
    and "\<And>p c. Exits p c \<in> set es \<Longrightarrow>
      \<exists>sha rq ps E digest h out. valid_request sha rq \<and> is_hash (dr_source_hash rq) \<and> dr_source rq \<noteq> [] \<and>
        dl_nativeMemoryBytes (dr_limits rq) > 65536 \<and> [] \<notin> set ps \<and> concat ps = encodeRequest rq \<and>
        c = fst (RunDocumentWorker E digest h ps out)"
    and "(r, v) \<in> set (bk_answers b)"
  shows "\<exists>e \<in> broker_errors. v = BrokerError e"
proof -
  have "Exits p 0 \<notin> set es" for p
  proof
    assume "Exits p 0 \<in> set es"
    from assms(2) [OF this] obtain sha rq ps E digest h out where "valid_request sha rq" "is_hash (dr_source_hash rq)" "dr_source rq \<noteq> []"
        "dl_nativeMemoryBytes (dr_limits rq) > 65536" "[] \<notin> set ps" "concat ps = encodeRequest rq"
        "0 = fst (RunDocumentWorker E digest h ps out)" by blast
    moreover from this have "RunDocumentWorker E digest h ps out = (74, out)"
      by (intro helper_refuses) (simp_all add: flowing_def)
    ultimately show False by simp
  qed
  then have "all_failed b"
    using all_failed_steps [OF _ assms(1)] by (auto simp: all_failed_def new_broker_def)
  then have "\<And>x. v \<noteq> BrokerSuccess x" using assms(3) by (auto simp: all_failed_def)
  moreover have "reply_ok v" using reach_accounted [OF steps_reach [OF broker_reach.start assms(1)]] assms(3) by (auto simp: accounted_def)
  ultimately show ?thesis by (cases v) (auto simp: reply_ok_def)
qed

definition helper_events :: "event list" where
  "helper_events = butlast demo_events @ [Exits 0 74, Worker (ReadSome PipeBroken True), Worker (Waited True True)]"

lemma helper_ends: "broker_steps helper_events new_broker = Some (the (broker_steps helper_events new_broker))"
    "(0, BrokerError ''document_worker_died'') \<in> set (bk_answers (the (broker_steps helper_events new_broker)))"
  by (simp_all add: helper_events_def demo_events_def broker_run_simps)

lemma demo_request_facts: "is_hash (dr_source_hash demo_worker_request)" "dr_source demo_worker_request \<noteq> []"
    "dl_nativeMemoryBytes (dr_limits demo_worker_request) > 65536" "[] \<notin> set [encodeRequest demo_worker_request]"
    "concat [encodeRequest demo_worker_request] = encodeRequest demo_worker_request"
  by (simp_all add: demo_worker_request_def demo_sha_def is_hash_def list_all_iff default_limits_def encodeRequest_def)

lemma helper_refuses_demo:
  "fst (RunDocumentWorker demo_libs (\<lambda>bs. Some bs) \<lparr>hd_known = False, hd_file = (\<lambda>_. None), hd_readable = (\<lambda>_. False)\<rparr>
     [encodeRequest demo_worker_request] \<lparr>sk_accepts = [], sk_written = []\<rparr>) = 74"
  by (subst helper_refuses [OF demo_valid demo_request_facts(1-3) _ demo_request_facts(5)])
    (use demo_request_facts(4) in \<open>simp_all add: flowing_def\<close>)

theorem application_never_served_witness:
  "\<exists>e \<in> broker_errors. BrokerError ''document_worker_died'' = BrokerError e"
proof (rule application_never_served [OF helper_ends(1) _ helper_ends(2)])
  fix p c assume "Exits p c \<in> set helper_events"
  then have "c = 74" by (simp add: helper_events_def demo_events_def)
  then show "\<exists>sha rq ps E digest h out. valid_request sha rq \<and> is_hash (dr_source_hash rq) \<and> dr_source rq \<noteq> [] \<and>
        dl_nativeMemoryBytes (dr_limits rq) > 65536 \<and> [] \<notin> set ps \<and> concat ps = encodeRequest rq \<and>
        c = fst (RunDocumentWorker E digest h ps out)"
    using demo_valid demo_request_facts helper_refuses_demo [symmetric] by blast
qed

end
