(* ===== verification/Updater_Safety.thy ===== *)
theory Updater_Safety
  imports Updater_Staging "HOL-Library.Sublist"
begin

text \<open>
  What the update staging guarantees under every schedule of failing calls: which answers are true
  of the files, what a call leaves unchanged, and the invariant of the download sessions.
\<close>

section \<open>Calls that change nothing\<close>

text \<open>The same files, names and sessions; the schedule of calls and the random bytes move on.\<close>

definition same :: "uworld \<Rightarrow> uworld \<Rightarrow> bool" where
  "same w w' \<longleftrightarrow> uw_entries w' = uw_entries w \<and> uw_files w' = uw_files w \<and> uw_sessions w' = uw_sessions w \<and>
     uw_next w' = uw_next w \<and> uw_clock w' = uw_clock w"

definition sees :: "uworld \<Rightarrow> 'a upd \<Rightarrow> ('a \<Rightarrow> bool) \<Rightarrow> bool" where
  "sees w m P \<longleftrightarrow> wp m (\<lambda>r w'. same w w' \<and> P r) w"

lemma same_refl [simp]: "same w w"
  by (simp add: same_def)

lemma same_trans: "same w w1 \<Longrightarrow> same w1 w2 \<Longrightarrow> same w w2"
  by (simp add: same_def)

lemma same_named: "same w w' \<Longrightarrow> named E w' = named E w"
  by (simp add: same_def named_def fun_eq_iff)

lemma same_openable: "same w w' \<Longrightarrow> openable E w' = openable E w"
proof -
  assume s: "same w w'"
  then have "uw_files w' = uw_files w" by (simp add: same_def)
  then show ?thesis by (intro ext) (simp only: openable_def same_named [OF s])
qed

lemma wp_get_world [simp]: "wp get_world Q w = Q w w"
  by (simp add: wp_def get_world_def)

lemma wp_change [simp]: "wp (change f) Q w = Q () (f w)"
  by (simp add: wp_def change_def)

lemma sees_next_call: "sees w next_call (\<lambda>_. True)"
  by (simp add: sees_def wp_def next_call_def same_def split: list.split)

lemma sees_call: "sees w call (\<lambda>_. True)"
  using sees_next_call [of w] by (simp add: sees_def call_def)

lemma sees_ret: "P a \<Longrightarrow> sees w (ret a) P"
  by (simp add: sees_def)

lemma sees_mono: "sees w m P \<Longrightarrow> (\<And>r. P r \<Longrightarrow> Q r) \<Longrightarrow> sees w m Q"
  by (auto simp: sees_def elim!: wp_mono)

lemma wp_sees:
  assumes "sees w m P" "\<And>r w'. same w w' \<Longrightarrow> P r \<Longrightarrow> wp (k r) Q w'"
  shows "wp (m \<bind> k) Q w"
  using assms by (auto simp: sees_def elim!: wp_mono)

lemma sees_bind:
  assumes "sees w m R" "\<And>r w'. same w w' \<Longrightarrow> R r \<Longrightarrow> sees w' (k r) P"
  shows "sees w (m \<bind> k) P"
  unfolding sees_def
proof (rule wp_sees [OF assms(1)])
  fix r w' assume "same w w'" "R r"
  from assms(2) [OF this] have "wp (k r) (\<lambda>r w1. same w' w1 \<and> P r) w'" by (simp only: sees_def)
  then show "wp (k r) (\<lambda>r w1. same w w1 \<and> P r) w'"
    by (rule wp_mono) (use \<open>same w w'\<close> same_trans in blast)
qed

lemma sees_if: "(c \<Longrightarrow> sees w m P) \<Longrightarrow> (\<not> c \<Longrightarrow> sees w n P) \<Longrightarrow> sees w (if c then m else n) P"
  by simp

lemma sees_option:
  "(r = None \<Longrightarrow> sees w m P) \<Longrightarrow> (\<And>x. r = Some x \<Longrightarrow> sees w (k x) P) \<Longrightarrow> sees w (case r of None \<Rightarrow> m | Some x \<Rightarrow> k x) P"
  by (cases r) simp_all

lemma sees_pair: "(\<And>a b. x = (a, b) \<Longrightarrow> sees w (k a b) P) \<Longrightarrow> sees w (case x of (a, b) \<Rightarrow> k a b) P"
  by (cases x) simp

lemma wp_cases:
  "(c \<Longrightarrow> wp m Q w) \<Longrightarrow> (\<not> c \<Longrightarrow> wp n Q w) \<Longrightarrow> wp (if c then m else n) Q w"
  "(r = None \<Longrightarrow> wp m Q w) \<Longrightarrow> (\<And>x. r = Some x \<Longrightarrow> wp (k x) Q w) \<Longrightarrow> wp (case r of None \<Rightarrow> m | Some x \<Rightarrow> k x) Q w"
  "(\<And>a b. y = (a, b) \<Longrightarrow> wp (l a b) Q w) \<Longrightarrow> wp (case y of (a, b) \<Rightarrow> l a b) Q w"
  by (simp_all split: option.split prod.split)

lemma sees_world: "sees w get_world (\<lambda>r. r = w)"
  by (simp add: sees_def)

lemma sees_andM: "sees w m (\<lambda>_. True) \<Longrightarrow> (\<And>w'. same w w' \<Longrightarrow> sees w' n (\<lambda>_. True)) \<Longrightarrow> sees w (andM m n) (\<lambda>_. True)"
  unfolding andM_def by (rule sees_bind [where R = "\<lambda>_. True"]) (auto intro: sees_ret)

lemma sees_OpenNoFollow: "sees w (OpenNoFollow E path directory) (\<lambda>r. r = None \<or> r = openable E w path directory)"
  unfolding OpenNoFollow_def
  by (rule sees_bind [OF sees_call], rule sees_bind [OF sees_world], rule sees_ret) (simp add: same_openable)

lemma sees_GetInfo: "sees w (GetInfo E h) (\<lambda>r. \<forall>i. r = Some i \<longrightarrow> (\<exists>f. uw_files w h = Some f \<and> i = info_of E h f))"
  unfolding GetInfo_def
  by (rule sees_bind [OF sees_call], rule sees_bind [OF sees_world], rule sees_ret) (auto simp: same_def)

definition plain :: "bool \<Rightarrow> winfile \<Rightarrow> bool" where
  "plain directory f \<longleftrightarrow> wf_directory f = directory \<and> \<not> wf_reparse f \<and> (directory \<or> wf_links f = 1)"

lemma sees_Stable: "sees w (Stable_w E h directory) (\<lambda>r. r \<longrightarrow> (\<exists>f. uw_files w h = Some f \<and> plain directory f))"
  unfolding Stable_w_def
  by (rule sees_bind [OF sees_GetInfo], rule sees_ret) (auto simp: info_of_def plain_def split: option.splits)

definition bytes_at :: "uworld \<Rightarrow> nat \<Rightarrow> byte list" where
  "bytes_at w h = (case uw_files w h of None \<Rightarrow> [] | Some f \<Rightarrow> wf_bytes f)"

lemma sees_hash_reads: "sees w (hash_reads bs) (\<lambda>_. True)"
proof (induction bs arbitrary: w rule: hash_reads.induct)
  case (1 bs)
  show ?case
  proof (cases "bs = []")
    case True
    then show ?thesis by (subst hash_reads.simps) (simp add: sees_call)
  next
    case False
    then show ?thesis by (subst hash_reads.simps) (auto intro!: sees_andM sees_call 1)
  qed
qed

lemma sees_HashHandle: "sees w (HashHandle E h) (\<lambda>r. r = [] \<or> r = hex_of (ue_sha E (bytes_at w h)))"
  unfolding HashHandle_def Let_def
  by (rule sees_bind [OF sees_world], rule sees_bind [where R = "\<lambda>_. True"])
     (auto simp: bytes_at_def same_def intro!: sees_andM sees_call sees_hash_reads sees_ret)

definition identity_value :: "updater_env \<Rightarrow> wstring \<Rightarrow> string \<Rightarrow> file_info \<Rightarrow> EncodableValue" where
  "identity_value E name hash i =
     EvMap [(EvString ''basename'', EvString (WideToUtf8 E name)), (EvString ''size'', EvInt64 (fi_size i)),
            (EvString ''modifiedMillis'', EvInt64 ((fi_time i - 116444736000000000) div 10000)),
            (EvString ''sha256'', EvString hash), (EvString ''identityToken'', EvString (Token_w i))]"

lemma sees_Identity_w:
  "sees w (Identity_w E h name hash)
     (\<lambda>v. v = identity_value E name hash no_info \<or>
       (\<exists>f. uw_files w h = Some f \<and> v = identity_value E name hash (info_of E h f)))"
  unfolding Identity_w_def Let_def
  by (rule sees_bind [OF sees_GetInfo], rule sees_ret) (auto simp: identity_value_def split: option.splits)

lemma sees_check_prefixes: "sees w (check_prefixes E ps) (\<lambda>_. True)"
  by (induction ps arbitrary: w)
     (auto intro!: sees_ret sees_bind [OF sees_OpenNoFollow] sees_bind [OF sees_GetInfo] split: option.split)

lemma sees_ValidateComponents: "sees w (ValidateComponents E path) (\<lambda>_. True)"
  by (simp add: ValidateComponents_def sees_check_prefixes sees_ret)

lemma sees_open_checked:
  "sees w (open_checked E path)
     (\<lambda>r. \<forall>h i. r = Some (h, i) \<longrightarrow> (\<exists>f. openable E w path False = Some h \<and> uw_files w h = Some f \<and> plain False f \<and> i = info_of E h f))"
  unfolding open_checked_def
proof (rule sees_bind [OF sees_OpenNoFollow])
  fix r w' assume s: "same w w'" and r: "r = None \<or> r = openable E w path False"
  show "sees w' (case r of None \<Rightarrow> ret None
      | Some h \<Rightarrow> Stable_w E h False \<bind> (\<lambda>stable. if \<not> stable then ret None
          else GetInfo E h \<bind> (\<lambda>i. ret (map_option (Pair h) i))))
     (\<lambda>r. \<forall>h i. r = Some (h, i) \<longrightarrow> (\<exists>f. openable E w path False = Some h \<and> uw_files w h = Some f \<and> plain False f \<and> i = info_of E h f))"
  proof (cases r)
    case None
    then show ?thesis by (auto intro: sees_ret)
  next
    case (Some h)
    with r have o: "openable E w path False = Some h" by simp
    show ?thesis unfolding Some option.case
    proof (rule sees_bind [OF sees_Stable])
      fix ok w1 assume s1: "same w' w1" and ok: "ok \<longrightarrow> (\<exists>f. uw_files w' h = Some f \<and> plain False f)"
      show "sees w1 (if \<not> ok then ret None else GetInfo E h \<bind> (\<lambda>i. ret (map_option (Pair h) i)))
        (\<lambda>r. \<forall>h i. r = Some (h, i) \<longrightarrow> (\<exists>f. openable E w path False = Some h \<and> uw_files w h = Some f \<and> plain False f \<and> i = info_of E h f))"
      proof (cases ok)
        case False
        then show ?thesis by (auto intro: sees_ret)
      next
        case True
        with ok obtain f where f: "uw_files w' h = Some f" "plain False f" by blast
        have "uw_files w h = Some f" "uw_files w1 h = Some f" using f(1) s s1 by (simp_all add: same_def)
        with True f(2) o show ?thesis
          by (auto intro!: sees_bind [OF sees_GetInfo] sees_ret)
      qed
    qed
  qed
qed

section \<open>Verifying\<close>

text \<open>The file a request describes: a regular file with one name, of the size and the digest given.\<close>

definition expected_hash :: "updater_env \<Rightarrow> (EncodableValue \<times> EncodableValue) list \<Rightarrow> string" where
  "expected_hash E args = WideToUtf8 E (StringArg_w E args ''expectedSha256'')"

definition described :: "updater_env \<Rightarrow> (EncodableValue \<times> EncodableValue) list \<Rightarrow> winfile \<Rightarrow> bool" where
  "described E args f \<longleftrightarrow> plain False f \<and> 0 \<le> IntArg_w args ''expectedSize'' \<and>
     of_nat (length (wf_bytes f)) = (word_of_int (IntArg_w args ''expectedSize'') :: 64 word) \<and>
     hex_of (ue_sha E (wf_bytes f)) = expected_hash E args"

lemma content_same: "same w w' \<Longrightarrow> bytes_at w' h = bytes_at w h"
  by (simp add: bytes_at_def same_def)

text \<open>The comparison of a file that has been opened and checked with what the request describes.\<close>

lemma described_by_hash:
  assumes "same w w1" "\<forall>h i. Some (h, i) = Some (h', i') \<longrightarrow> (\<exists>f. openable E w path False = Some h \<and> uw_files w h = Some f \<and> plain False f \<and> i = info_of E h f)"
    and "hash = [] \<or> hash = hex_of (ue_sha E (bytes_at w1 h'))" "length (expected_hash E args) = 64"
    and "\<not> IntArg_w args ''expectedSize'' < 0" "fi_size i' = word_of_int (IntArg_w args ''expectedSize'')" "hash = expected_hash E args"
  shows "\<exists>f. openable E w path False = Some h' \<and> uw_files w h' = Some f \<and> described E args f"
proof -
  from assms(2) obtain f where f: "openable E w path False = Some h'" "uw_files w h' = Some f" "plain False f" "i' = info_of E h' f"
    by blast
  have "hash \<noteq> []" using assms(4,7) by auto
  with assms(3) have "hash = hex_of (ue_sha E (wf_bytes f))"
    by (simp add: content_same [OF assms(1)]) (simp add: bytes_at_def f(2))
  with assms(5-7) f show ?thesis by (simp add: described_def info_of_def)
qed

lemma sees_verifyUpdate:
  "sees w (verifyUpdate E rt name args)
     (\<lambda>r. r = Answered EvNull \<or>
       (\<exists>h f v. openable E w (child rt name) False = Some h \<and> uw_files w h = Some f \<and> described E args f \<and>
          IsMsiName (ue_digit E) name True \<and> r = Answered v))"
  unfolding verifyUpdate_def Let_def expected_hash_def [symmetric]
  apply (rule sees_if, rule sees_ret, simp)
  apply (rule sees_bind [OF sees_open_checked], rule sees_option, rule sees_ret, simp)
  apply (rule sees_pair, rule sees_bind [OF sees_HashHandle], rule sees_if, rule sees_ret, simp)
  subgoal premises p for r w1 hi h i hash w2
    using described_by_hash [OF p(2), of h i E "child rt name" hash args] p
    by (intro sees_bind [OF sees_Identity_w]) (auto intro!: sees_ret)
  done

text \<open>What renaming the file \<open>h\<close> from one path to another does to the names.\<close>

definition after_rename :: "updater_env \<Rightarrow> uworld \<Rightarrow> nat \<Rightarrow> wstring \<Rightarrow> wstring \<Rightarrow> uworld" where
  "after_rename E w h from target =
     w\<lparr>uw_entries := map (\<lambda>(p, i). if i = h \<and> ue_canon E p = ue_canon E from then (target, i) else (p, i)) (uw_entries w)\<rparr>"

lemma same_renamed: "same w w' \<Longrightarrow> same (after_rename E w h from target) (after_rename E w' h from target)"
  by (simp add: same_def after_rename_def)

lemma wp_rename_to:
  "wp (rename_to E h from target)
     (\<lambda>r w'. if r then named E w target = None \<and> same (after_rename E w h from target) w' else same w w') w"
  unfolding rename_to_def
proof (rule wp_sees [OF sees_call])
  fix ok w1 assume s: "same w w1"
  then show "wp (get_world \<bind> (\<lambda>w. if ok \<and> named E w target = None then change (\<lambda>w. w\<lparr>uw_entries :=
      map (\<lambda>(p, i). if i = h \<and> ue_canon E p = ue_canon E from then (target, i) else (p, i)) (uw_entries w)\<rparr>) \<bind> (\<lambda>_. ret True) else ret False))
     (\<lambda>r w'. if r then named E w target = None \<and> same (after_rename E w h from target) w' else same w w') w1"
    using same_renamed [OF s] same_named [OF s] by (auto simp: after_rename_def)
qed

lemma wp_finalizeUpdate:
  "wp (finalizeUpdate E rt name args)
     (\<lambda>r w'. case r of
        Failed _ \<Rightarrow> same w w'
      | Answered v \<Rightarrow> \<exists>h f. IsMsiName (ue_digit E) name False \<and> openable E w (child rt (name @ wide ''.part'')) False = Some h \<and>
          uw_files w h = Some f \<and> described E args f \<and> named E w (child rt name) = None \<and>
          same (after_rename E w h (child rt (name @ wide ''.part'')) (child rt name)) w') w"
  unfolding finalizeUpdate_def Let_def expected_hash_def [symmetric]
  apply (rule wp_cases, simp)
  apply (rule wp_sees [OF sees_open_checked], rule wp_cases, simp)
  apply (rule wp_cases, rule wp_sees [OF sees_HashHandle], rule wp_cases, simp, blast intro: same_trans)
  subgoal premises p for r w1 hi h i hash w2
  proof -
    have s: "same w w2" using p by (blast intro: same_trans)
    have d: "\<exists>f. openable E w (child rt (name @ wide ''.part'')) False = Some h \<and> uw_files w h = Some f \<and> described E args f"
      using described_by_hash [OF p(2), of h i E "child rt (name @ wide ''.part'')" hash args] p by auto
    have n: "StringArg_w E args ''partialName'' = name @ wide ''.part''" "IsMsiName (ue_digit E) name False" using p(1) by auto
    show ?thesis unfolding n(1)
      apply (rule wp_bind [THEN fun_cong, THEN iffD2], rule wp_mono [OF wp_rename_to])
      subgoal premises q for ok w3
      proof (cases ok)
        case False
        with q s show ?thesis by (auto intro: same_trans)
      next
        case True
        with q have t: "named E w (child rt name) = None"
            "same (after_rename E w h (child rt (name @ wide ''.part'')) (child rt name)) w3"
          by (auto simp: same_named [OF s] intro: same_trans [OF same_renamed [OF s]])
        show ?thesis
          by (rule wp_cases, simp add: True, rule wp_sees [OF sees_Identity_w]) (use d n t in \<open>auto intro: same_trans\<close>)
      qed
      done
  qed
  done

section \<open>Deleting\<close>

text \<open>
  What a successful deletion leaves: the file is marked, and its names go unless a session has it
  open, which is when it goes later.
\<close>

definition deleted :: "uworld \<Rightarrow> nat \<Rightarrow> uworld" where
  "deleted w h =
     (let w1 = file_with w h (\<lambda>f. f\<lparr>wf_pending := True\<rparr>) in
      if \<exists>sid s. uw_sessions w sid = Some s \<and> ds_file s = h then w1 else remove_names h w1)"

lemma same_file_with: "same w w' \<Longrightarrow> same (file_with w h g) (file_with w' h g)"
  by (simp add: same_def file_with_def)

lemma same_remove_names: "same w w' \<Longrightarrow> same (remove_names h w) (remove_names h w')"
  by (simp add: same_def remove_names_def)

lemma same_deleted: "same w w' \<Longrightarrow> same (deleted w h) (deleted w' h)"
proof -
  assume s: "same w w'"
  then have "uw_sessions w' = uw_sessions w" by (simp add: same_def)
  then show ?thesis
    unfolding deleted_def Let_def using same_file_with [OF s] same_remove_names [OF same_file_with [OF s]] by auto
qed

lemma wp_mark_deleted:
  "wp (mark_deleted h) (\<lambda>r w'. if r then same (file_with w h (\<lambda>f. f\<lparr>wf_pending := True\<rparr>)) w' else same w w') w"
  unfolding mark_deleted_def
  by (rule wp_sees [OF sees_call]) (simp add: same_file_with)

lemma closing_marked:
  assumes "same (file_with w h (\<lambda>f. f\<lparr>wf_pending := True\<rparr>)) w1" "uw_files w h = Some f"
  shows "wp (closing h) (\<lambda>_ w'. same (deleted w h) w') w1"
proof -
  have p: "\<exists>f. uw_files w1 h = Some f \<and> wf_pending f" "uw_sessions w1 = uw_sessions w"
    using assms by (auto simp: same_def file_with_def)
  from same_remove_names [OF assms(1), of h] assms(1) p show ?thesis
    by (auto simp: closing_def deleted_def Let_def)
qed

text \<open>
  The staged file a deletion names: a regular file of one name, with the size, the token and the
  digest given. The code compares with what two calls return and does not look at whether they
  failed, so a request that names the size 0 with the token of nothing, or no digest, matches a failure.
\<close>

definition size_and_token :: "updater_env \<Rightarrow> (EncodableValue \<times> EncodableValue) list \<Rightarrow> file_info \<Rightarrow> bool" where
  "size_and_token E args i \<longleftrightarrow> IntArg_w args ''expectedSize'' = sint (fi_size i) \<and>
     WideToUtf8 E (StringArg_w E args ''identityToken'') = Token_w i"

definition named_for_deletion :: "updater_env \<Rightarrow> nat \<Rightarrow> (EncodableValue \<times> EncodableValue) list \<Rightarrow> winfile \<Rightarrow> bool" where
  "named_for_deletion E h args f \<longleftrightarrow> plain False f \<and>
     (size_and_token E args (info_of E h f) \<or> size_and_token E args no_info) \<and>
     (expected_hash E args = hex_of (ue_sha E (wf_bytes f)) \<or> expected_hash E args = [])"

text \<open>With no such request and no failure: the identity the request gives.\<close>

definition identified :: "updater_env \<Rightarrow> nat \<Rightarrow> (EncodableValue \<times> EncodableValue) list \<Rightarrow> winfile \<Rightarrow> bool" where
  "identified E h args f \<longleftrightarrow> plain False f \<and> size_and_token E args (info_of E h f) \<and>
     expected_hash E args = hex_of (ue_sha E (wf_bytes f))"

lemma wp_delete_staged:
  assumes "uw_files w h = Some f" "plain False f"
  shows "wp (delete_staged E h name args)
     (\<lambda>r w'. case r of
        Failed _ \<Rightarrow> same w w'
      | Answered v \<Rightarrow> IsMsiName (ue_digit E) name True \<and> named_for_deletion E h args f \<and> same (deleted w h) w') w"
  unfolding delete_staged_def Let_def expected_hash_def [symmetric]
  apply (rule wp_sees [OF sees_GetInfo])
  apply (rule wp_sees [where P = "\<lambda>same. same \<longrightarrow> IsMsiName (ue_digit E) name True \<and> named_for_deletion E h args f"])
  subgoal for found w1
    using assms
    by (cases found) (auto intro!: sees_if sees_ret sees_bind [OF sees_HashHandle]
      simp: named_for_deletion_def size_and_token_def bytes_at_def same_def)
  apply (rule wp_cases, simp, blast intro: same_trans)
  subgoal premises p for found w1 ok w2
  proof -
    have s: "same w w2" using p by (blast intro: same_trans)
    show ?thesis
      apply (rule wp_bind [THEN fun_cong, THEN iffD2], rule wp_mono [OF wp_mark_deleted])
      subgoal premises q for done_ok w3
      proof (cases done_ok)
        case False
        with q s show ?thesis by (auto intro: same_trans)
      next
        case True
        have m: "same (file_with w h (\<lambda>f. f\<lparr>wf_pending := True\<rparr>)) w3"
          using q True by (auto intro: same_trans [OF same_file_with [OF s]])
        have "wp (closing h \<bind> (\<lambda>_. ret (Answered EvNull)))
            (\<lambda>r w'. case r of Failed _ \<Rightarrow> same w w'
              | Answered v \<Rightarrow> IsMsiName (ue_digit E) name True \<and> named_for_deletion E h args f \<and> same (deleted w h) w') w3"
          using p by (auto intro!: wp_mono [OF closing_marked [OF m assms(1)]])
        with True show ?thesis by simp
      qed
      done
  qed
  done

lemma wp_delete:
  "wp (staged_child E rt name ''delete'' args)
     (\<lambda>r w'. case r of
        Failed _ \<Rightarrow> same w w'
      | Answered v \<Rightarrow> \<exists>h f. IsMsiName (ue_digit E) name True \<and> openable E w (child rt name) False = Some h \<and>
          uw_files w h = Some f \<and> named_for_deletion E h args f \<and> same (deleted w h) w') w"
  unfolding staged_child_def
  apply (rule wp_sees [OF sees_OpenNoFollow], rule wp_cases, simp)
  apply (rule wp_sees [OF sees_Stable], rule wp_cases, simp, blast intro: same_trans)
  subgoal premises p for r w1 h ok w2
  proof -
    have s: "same w w2" using p by (blast intro: same_trans)
    obtain f where f: "uw_files w2 h = Some f" "uw_files w h = Some f" "plain False f"
      using p by (auto simp: same_def)
    have o: "openable E w (child rt name) False = Some h" using p by auto
    show ?thesis
    proof (simp, rule wp_mono [OF wp_delete_staged [OF f(1,3)]])
      fix a w' assume q: "case a of Failed _ \<Rightarrow> same w2 w'
        | Answered v \<Rightarrow> IsMsiName (ue_digit E) name True \<and> named_for_deletion E h args f \<and> same (deleted w2 h) w'"
      show "case a of Failed x \<Rightarrow> same w w'
        | Answered v \<Rightarrow> \<exists>h f. IsMsiName (ue_digit E) name True \<and> openable E w (child rt name) False = Some h \<and>
            uw_files w h = Some f \<and> named_for_deletion E h args f \<and> same (deleted w h) w'"
      proof (cases a)
        case (Failed e)
        with q s show ?thesis by (auto intro: same_trans)
      next
        case (Answered v)
        with q same_trans [OF same_deleted [OF s]] have "same (deleted w h) w'" by simp
        with q o f(2) Answered show ?thesis by auto
      qed
    qed
  qed
  done

section \<open>Without failures\<close>

lemma quiet_call: "uw_calls w = [] \<Longrightarrow> run_state call w = (True, w)"
  by (simp add: call_def next_call_def)

lemma run_get_world: "run_state get_world w = (w, w)"
  by (simp add: get_world_def)

lemma run_change: "run_state (change f) w = ((), f w)"
  by (simp add: change_def)

lemmas quiet = quiet_call run_get_world run_change

lemma quiet_OpenNoFollow:
  "uw_calls w = [] \<Longrightarrow> run_state (OpenNoFollow E path directory) w = (openable E w path directory, w)"
  by (simp add: OpenNoFollow_def quiet)

lemma quiet_GetInfo: "uw_calls w = [] \<Longrightarrow> run_state (GetInfo E h) w = (map_option (info_of E h) (uw_files w h), w)"
  by (simp add: GetInfo_def quiet)

lemma quiet_Stable:
  "uw_calls w = [] \<Longrightarrow> run_state (Stable_w E h directory) w = (\<exists>f. uw_files w h = Some f \<and> plain directory f, w)"
  by (auto simp: Stable_w_def quiet_GetInfo plain_def info_of_def split: option.split)

lemma quiet_hash_reads: "uw_calls w = [] \<Longrightarrow> run_state (hash_reads bs) w = (True, w)"
proof (induction bs rule: hash_reads.induct)
  case (1 bs)
  then show ?case by (subst hash_reads.simps) (simp add: quiet andM_def)
qed

lemma quiet_HashHandle: "uw_calls w = [] \<Longrightarrow> run_state (HashHandle E h) w = (hex_of (ue_sha E (bytes_at w h)), w)"
  by (simp add: HashHandle_def Let_def quiet andM_def quiet_hash_reads bytes_at_def)

text \<open>Then the deletion succeeds exactly on the file the request identifies.\<close>

lemma quiet_delete:
  assumes "uw_calls w = []"
  shows "(\<exists>v. fst (run_state (staged_child E rt name ''delete'' args) w) = Answered v) \<longleftrightarrow>
    (\<exists>h f. IsMsiName (ue_digit E) name True \<and> openable E w (child rt name) False = Some h \<and>
       uw_files w h = Some f \<and> identified E h args f)"
proof (cases "openable E w (child rt name) False")
  case None
  with assms show ?thesis by (simp add: staged_child_def quiet_OpenNoFollow)
next
  case (Some h)
  obtain f where f: "uw_files w h = Some f" using Some by (auto simp: openable_def split: option.splits if_splits)
  have "fst (run_state (staged_child E rt name ''delete'' args) w) =
      (if \<not> plain False f then Failed ''unsafePath''
       else if IsMsiName (ue_digit E) name True \<and> identified E h args f then Answered EvNull else Failed ''identityChanged'')"
    using assms Some f
    by (auto simp: staged_child_def quiet_OpenNoFollow quiet_Stable delete_staged_def Let_def quiet_GetInfo quiet_HashHandle
      mark_deleted_def quiet identified_def size_and_token_def expected_hash_def bytes_at_def case_prod_unfold)
  with Some f show ?thesis by (auto simp: identified_def)
qed

end
