(* ===== verification/Updater_Sessions.thy ===== *)
theory Updater_Sessions
  imports Updater_Safety
begin

text \<open>
  The download sessions over any sequence of calls with any failures: the steps of the channel as a
  relation, and the invariant that what a session has hashed is, in order, part of what its file
  holds. Short and failed writes may leave more in the file; the sizes tell.
\<close>

section \<open>The invariant\<close>

definition session_ok :: "uworld \<Rightarrow> DownloadSession \<Rightarrow> bool" where
  "session_ok w s \<longleftrightarrow>
     (\<exists>f. uw_files w (ds_file s) = Some f \<and> subseq (ds_hashed s) (wf_bytes f)) \<and>
     ds_size s = of_nat (length (ds_hashed s))"

definition sessions_ok :: "uworld \<Rightarrow> bool" where
  "sessions_ok w \<longleftrightarrow>
     (\<forall>h f. uw_files w h = Some f \<longrightarrow> h < uw_next w) \<and>
     (\<forall>sid s. uw_sessions w sid = Some s \<longrightarrow> session_ok w s)"

definition keeps :: "'a upd \<Rightarrow> bool" where
  "keeps m \<longleftrightarrow> (\<forall>w. sessions_ok w \<longrightarrow> wp m (\<lambda>_. sessions_ok) w)"

named_theorems keeping \<open>operations that keep the sessions\<close>

lemma sessions_ok_same: "same w w' \<Longrightarrow> sessions_ok w \<Longrightarrow> sessions_ok w'"
  by (auto simp: sessions_ok_def session_ok_def same_def)

lemma keeps_sees: "(\<And>w. sees w m (P w)) \<Longrightarrow> keeps m"
proof -
  assume sees: "\<And>w. sees w m (P w)"
  have "wp m (\<lambda>_. sessions_ok) w" if "sessions_ok w" for w
    using sees [of w] unfolding sees_def by (rule wp_mono) (use that sessions_ok_same in blast)
  then show ?thesis by (simp add: keeps_def)
qed

lemmas keeps_seen [keeping] = keeps_sees [OF sees_call] keeps_sees [OF sees_world] keeps_sees [OF sees_OpenNoFollow]
  keeps_sees [OF sees_GetInfo] keeps_sees [OF sees_Stable] keeps_sees [OF sees_HashHandle] keeps_sees [OF sees_Identity_w]
  keeps_sees [OF sees_ValidateComponents] keeps_sees [OF sees_open_checked]

lemma keeps_ret [keeping]: "keeps (ret a)"
  by (simp add: keeps_def)

lemma keeps_bind [keeping]: "keeps m \<Longrightarrow> (\<And>a. keeps (k a)) \<Longrightarrow> keeps (m \<bind> k)"
  by (auto simp: keeps_def elim!: wp_mono)

lemma keeps_if [keeping]: "keeps m \<Longrightarrow> keeps n \<Longrightarrow> keeps (if c then m else n)"
  by simp

lemma keeps_option [keeping]: "keeps m \<Longrightarrow> (\<And>x. keeps (k x)) \<Longrightarrow> keeps (case r of None \<Rightarrow> m | Some x \<Rightarrow> k x)"
  by (cases r) simp_all

lemma keeps_pair [keeping]: "(\<And>a b. keeps (k a b)) \<Longrightarrow> keeps (case x of (a, b) \<Rightarrow> k a b)"
  by (cases x) simp

lemma keeps_andM [keeping]: "keeps m \<Longrightarrow> keeps n \<Longrightarrow> keeps (andM m n)"
  unfolding andM_def by (intro keeping)

lemma keeps_change: "(\<And>w. sessions_ok w \<Longrightarrow> sessions_ok (f w)) \<Longrightarrow> keeps (change f)"
  by (simp add: keeps_def)

section \<open>The changes\<close>

lemma sessions_ok_add: "sessions_ok w \<Longrightarrow> sessions_ok (add_file path directory w)"
  by (fastforce simp: sessions_ok_def session_ok_def add_file_def less_Suc_eq)

lemma sessions_ok_entries: "sessions_ok (w\<lparr>uw_entries := es\<rparr>) = sessions_ok w"
  by (simp add: sessions_ok_def session_ok_def)

text \<open>A file only grows.\<close>

lemma sessions_ok_grow:
  assumes "sessions_ok w" "\<And>f. \<exists>bs. wf_bytes (g f) = wf_bytes f @ bs"
  shows "sessions_ok (file_with w h g)"
proof -
  have "session_ok (file_with w h g) s" if "session_ok w s" for s
  proof -
    from that obtain f where f: "uw_files w (ds_file s) = Some f" "subseq (ds_hashed s) (wf_bytes f)"
        "ds_size s = of_nat (length (ds_hashed s))" by (auto simp: session_ok_def)
    obtain bs where "wf_bytes (g f) = wf_bytes f @ bs" using assms(2) by blast
    with f show ?thesis by (auto simp: session_ok_def file_with_def intro: list_emb_append2 subseq_order.trans)
  qed
  moreover have "uw_next (file_with w h g) = uw_next w" "uw_sessions (file_with w h g) = uw_sessions w"
    by (simp_all add: file_with_def)
  ultimately show ?thesis
    using assms(1) by (auto simp: sessions_ok_def) (auto simp: file_with_def split: if_splits)
qed

lemma keeps_closing [keeping]: "keeps (closing h)"
  unfolding closing_def
  by (rule keeps_change) (simp add: remove_names_def sessions_ok_entries)

lemma keeps_mark_deleted [keeping]: "keeps (mark_deleted h)"
  unfolding mark_deleted_def
  by (intro keeping keeps_change sessions_ok_grow) auto

lemma keeps_rename_to [keeping]: "keeps (rename_to E h from target)"
  unfolding rename_to_def
  by (intro keeping keeps_change) (simp add: sessions_ok_entries)

lemma keeps_CreateDirectory [keeping]: "keeps (CreateDirectory_w E path)"
  unfolding CreateDirectory_w_def
  by (intro keeping keeps_change sessions_ok_add)

lemma keeps_end_session [keeping]: "keeps (put_session sid None)"
  unfolding put_session_def
  by (rule keeps_change) (auto simp: sessions_ok_def session_ok_def split: if_splits)

lemma keeps_open_root [keeping]: "keeps (open_root E rt)"
  unfolding open_root_def by (intro keeping)

lemma keeps_list_found [keeping]: "keeps (list_found E rt ns)"
  by (induction ns) (simp_all only: list_found.simps, (intro keeping | assumption)+)

lemma keeps_files [keeping]:
  "keeps (safeList E rt)" "keeps (verifyUpdate E rt name args)" "keeps (finalizeUpdate E rt name args)"
  "keeps (staged_child E rt name method args)" "keeps (finishDownload E sid s)" "keeps (abortDownload sid s)"
  unfolding safeList_def verifyUpdate_def finalizeUpdate_def staged_child_def delete_staged_def finishDownload_def
    abortDownload_def Let_def
  by (intro keeping)+

section \<open>Beginning and writing\<close>

lemma wp_RandomId: "wp RandomId (\<lambda>_ w'. same w w') w"
  unfolding RandomId_def by (rule wp_sees [OF sees_call]) (simp add: same_def)

lemma keeps_RandomId [keeping]: "keeps RandomId"
  by (auto simp: keeps_def intro!: wp_mono [OF wp_RandomId] intro: sessions_ok_same)

lemma new_file: "uw_files (add_file path directory w) (uw_next w) = Some \<lparr>wf_directory = directory, wf_reparse = False,
    wf_links = 1, wf_bytes = [], wf_time = uw_clock w, wf_pending = False\<rparr>"
  by (simp add: add_file_def)

lemma keeps_beginDownload [keeping]: "keeps (beginDownload E rt name)"
proof -
  have init: "sees w InitHash (\<lambda>_. True)" for w
    unfolding InitHash_def by (intro sees_andM sees_call)
  have good: "wp (CreateNew E path) (\<lambda>r w'. sessions_ok w' \<and> (\<forall>h. r = Some h \<longrightarrow> (\<exists>f. uw_files w' h = Some f))) w"
    if "sessions_ok w" for path w
    unfolding CreateNew_def
    by (rule wp_sees [OF sees_call]) (use that in \<open>auto intro: sessions_ok_same sessions_ok_add simp: new_file\<close>)
  have begin_rest: "wp (RandomId \<bind> (\<lambda>sid. case r of None \<Rightarrow> ret (Failed ''createFailed'')
      | Some h \<Rightarrow> (if sid = [] then ret False else andM (Stable_w E h False) InitHash) \<bind> (\<lambda>ok.
          if \<not> ok then ret (Failed ''createFailed'')
          else put_session sid (Some \<lparr>ds_file = h, ds_path = child rt name, ds_hashed = [], ds_size = 0\<rparr>) \<bind>
            (\<lambda>_. ret (Answered (EvString sid)))))) (\<lambda>_. sessions_ok) w"
    if w: "sessions_ok w" "\<forall>h. r = Some h \<longrightarrow> (\<exists>f. uw_files w h = Some f)" for r w
  proof (rule wp_bind [THEN fun_cong, THEN iffD2], rule wp_mono [OF wp_RandomId], rule wp_cases(2))
    fix sid w1 assume "same w w1"
    then show "wp (ret (Failed ''createFailed'')) (\<lambda>_. sessions_ok) w1" using w(1) by (simp add: sessions_ok_same)
  next
    fix sid w1 h assume s: "same w w1" and r: "r = Some h"
    have ok1: "sessions_ok w1" by (rule sessions_ok_same [OF s w(1)])
    show "wp ((if sid = [] then ret False else andM (Stable_w E h False) InitHash) \<bind> (\<lambda>ok.
          if \<not> ok then ret (Failed ''createFailed'')
          else put_session sid (Some \<lparr>ds_file = h, ds_path = child rt name, ds_hashed = [], ds_size = 0\<rparr>) \<bind>
            (\<lambda>_. ret (Answered (EvString sid))))) (\<lambda>_. sessions_ok) w1"
    proof (rule wp_sees [where P = "\<lambda>_. True"])
      show "sees w1 (if sid = [] then ret False else andM (Stable_w E h False) InitHash) (\<lambda>_. True)"
        by (auto intro!: sees_if sees_ret sees_andM init sees_mono [OF sees_Stable])
      fix ok w2 assume s2: "same w1 w2"
      have ok2: "sessions_ok w2" by (rule sessions_ok_same [OF s2 ok1])
      have "\<exists>f. uw_files w2 h = Some f" using w(2) r s s2 by (simp add: same_def)
      with ok2 show "wp (if \<not> ok then ret (Failed ''createFailed'')
        else put_session sid (Some \<lparr>ds_file = h, ds_path = child rt name, ds_hashed = [], ds_size = 0\<rparr>) \<bind>
          (\<lambda>_. ret (Answered (EvString sid)))) (\<lambda>_. sessions_ok) w2"
        by (auto simp: put_session_def sessions_ok_def session_ok_def)
    qed
  qed
  show ?thesis
    unfolding keeps_def
  proof (intro allI impI)
    fix w assume w: "sessions_ok w"
    show "wp (beginDownload E rt name) (\<lambda>_. sessions_ok) w"
      unfolding beginDownload_def
    proof (rule wp_cases(1))
      show "wp (ret (Failed ''unsafePath'')) (\<lambda>_. sessions_ok) w" using w by simp
    qed (rule wp_bind [THEN fun_cong, THEN iffD2], rule wp_mono [OF good [OF w]], rule begin_rest, simp_all)
  qed
qed

text \<open>Some prefix of the bytes is written; how many, when the call succeeds.\<close>

definition appended :: "uworld \<Rightarrow> nat \<Rightarrow> byte list \<Rightarrow> uworld" where
  "appended w h bs = file_with w h (\<lambda>f. f\<lparr>wf_bytes := wf_bytes f @ bs, wf_time := uw_clock w\<rparr>)"

lemma wp_WriteFile_w:
  "wp (WriteFile_w h bs)
     (\<lambda>r w'. case r of None \<Rightarrow> same w w' | Some k \<Rightarrow> \<exists>n. same (appended w h (take n bs)) w' \<and> k = length (take n bs)) w"
  unfolding WriteFile_w_def
proof (rule wp_sees [OF sees_next_call])
  fix c w1 assume s: "same w w1"
  have clock: "uw_clock w1 = uw_clock w" using s by (simp add: same_def)
  have a: "same (appended w h xs) (file_with w1 h (\<lambda>f. f\<lparr>wf_bytes := wf_bytes f @ xs, wf_time := uw_clock w1\<rparr>))" for xs
    unfolding appended_def clock by (rule same_file_with [OF s])
  show "wp (case c of works \<Rightarrow> change (\<lambda>w. file_with w h (\<lambda>f. f\<lparr>wf_bytes := wf_bytes f @ bs, wf_time := uw_clock w\<rparr>)) \<bind> (\<lambda>_. ret (Some (length bs)))
      | fails \<Rightarrow> ret None
      | short n \<Rightarrow> change (\<lambda>w. file_with w h (\<lambda>f. f\<lparr>wf_bytes := wf_bytes f @ take n bs, wf_time := uw_clock w\<rparr>)) \<bind> (\<lambda>_. ret (Some (min n (length bs)))))
     (\<lambda>r w'. case r of None \<Rightarrow> same w w' | Some k \<Rightarrow> \<exists>n. same (appended w h (take n bs)) w' \<and> k = length (take n bs)) w1"
  proof (cases c)
    case works
    with a [of bs] show ?thesis by (auto intro!: exI [of _ "length bs"])
  next
    case fails
    with s show ?thesis by simp
  next
    case (short n)
    with a [of "take n bs"] show ?thesis by (auto intro!: exI [of _ n] simp: min.commute)
  qed
qed

lemma sessions_ok_appended: "sessions_ok w \<Longrightarrow> sessions_ok (appended w h bs)"
  unfolding appended_def by (rule sessions_ok_grow) auto

lemma sessions_ok_fed:
  assumes "sessions_ok w" "uw_sessions w sid = Some s" "same (appended w (ds_file s) chunk) w'"
  shows "sessions_ok (w'\<lparr>uw_sessions := (uw_sessions w')(sid \<mapsto>
    s\<lparr>ds_hashed := ds_hashed s @ chunk, ds_size := ds_size s + of_nat (length chunk)\<rparr>)\<rparr>)"
proof -
  have w': "sessions_ok w'" by (rule sessions_ok_same [OF assms(3) sessions_ok_appended [OF assms(1)]])
  have s: "session_ok w s" using assms(1,2) by (auto simp: sessions_ok_def)
  then obtain f where f: "uw_files w (ds_file s) = Some f" "subseq (ds_hashed s) (wf_bytes f)"
      "ds_size s = of_nat (length (ds_hashed s))" by (auto simp: session_ok_def)
  have "uw_files w' (ds_file s) = Some (f\<lparr>wf_bytes := wf_bytes f @ chunk, wf_time := uw_clock w\<rparr>)"
    using assms(3) f(1) by (simp add: same_def appended_def file_with_def)
  moreover have "subseq (ds_hashed s @ chunk) (wf_bytes f @ chunk)" by (rule list_emb_append_mono [OF f(2)]) simp
  ultimately show ?thesis using w' f(3) by (auto simp: sessions_ok_def session_ok_def)
qed

lemma wp_writeDownload:
  assumes "sessions_ok w" "uw_sessions w sid = Some s"
  shows "wp (writeDownload sid s args) (\<lambda>_. sessions_ok) w"
proof (cases "\<exists>chunk. map_of args (EvString ''chunk'') = Some (EvBytes chunk)")
  case False
  with assms(1) show ?thesis by (auto simp: writeDownload_def split: option.split EncodableValue.split)
next
  case True
  then obtain chunk where c: "map_of args (EvString ''chunk'') = Some (EvBytes chunk)" by blast
  show ?thesis unfolding writeDownload_def c option.case EncodableValue.case
  proof (rule wp_bind [THEN fun_cong, THEN iffD2], rule wp_mono [OF wp_WriteFile_w])
    fix written w1
    assume q: "case written of None \<Rightarrow> same w w1
      | Some k \<Rightarrow> \<exists>n. same (appended w (ds_file s) (take n (take (length chunk mod 2 ^ 32) chunk))) w1 \<and>
          k = length (take n (take (length chunk mod 2 ^ 32) chunk))"
    have w1: "sessions_ok w1"
      using q assms(1) by (auto split: option.splits intro: sessions_ok_same sessions_ok_same [OF _ sessions_ok_appended])
    have fed: "same (appended w (ds_file s) chunk) w1" if "written = Some (length chunk)"
      using q that by (auto simp: min_def split: if_splits)
    show "wp ((if written = Some (length chunk) then call else ret False) \<bind> (\<lambda>hashed.
        if hashed then put_session sid (Some (s\<lparr>ds_hashed := ds_hashed s @ chunk, ds_size := ds_size s + of_nat (length chunk)\<rparr>)) \<bind>
          (\<lambda>_. ret (Answered EvNull)) else ret (Failed ''writeFailed''))) (\<lambda>_. sessions_ok) w1"
    proof (rule wp_sees [where P = "\<lambda>hashed. hashed \<longrightarrow> written = Some (length chunk)"])
      show "sees w1 (if written = Some (length chunk) then call else ret False) (\<lambda>hashed. hashed \<longrightarrow> written = Some (length chunk))"
        by (auto intro!: sees_ret sees_mono [OF sees_call])
      fix hashed w2 assume s2: "same w1 w2" and h: "hashed \<longrightarrow> written = Some (length chunk)"
      show "wp (if hashed then put_session sid (Some (s\<lparr>ds_hashed := ds_hashed s @ chunk, ds_size := ds_size s + of_nat (length chunk)\<rparr>)) \<bind>
          (\<lambda>_. ret (Answered EvNull)) else ret (Failed ''writeFailed'')) (\<lambda>_. sessions_ok) w2"
        using sessions_ok_fed [OF assms same_trans [OF fed s2]] h sessions_ok_same [OF s2 w1] by (simp add: put_session_def)
    qed
  qed
qed

section \<open>Any sequence of calls\<close>

lemma keeps_updater_call: "keeps (updater_call E method arguments)"
proof -
  have session: "keeps (session_method E method args)" for args
    unfolding keeps_def
  proof (intro allI impI)
    fix w assume w: "sessions_ok w"
    let ?sid = "WideToUtf8 E (StringArg_w E args ''session'')"
    show "wp (session_method E method args) (\<lambda>_. sessions_ok) w"
    proof (cases "uw_sessions w ?sid")
      case None
      with w show ?thesis by (simp add: session_method_def Let_def)
    next
      case (Some s)
      have "wp (finishDownload E ?sid s) (\<lambda>_. sessions_ok) w" "wp (abortDownload ?sid s) (\<lambda>_. sessions_ok) w"
        using keeps_files(5,6) w by (simp_all add: keeps_def)
      with wp_writeDownload [OF w Some] show ?thesis by (simp add: session_method_def Let_def Some)
    qed
  qed
  have "keeps (root_method E method args)" for args
    unfolding root_method_def Let_def
    by (intro keeping)
  with session show ?thesis
    unfolding updater_call_def
    by (cases arguments) (simp_all add: keeps_ret keeps_option)
qed

text \<open>The states the channel can be in, from one without sessions: any calls, any failures.\<close>

inductive updater_reach :: "updater_env \<Rightarrow> uworld \<Rightarrow> bool" for E where
  start: "(\<And>sid. uw_sessions w sid = None) \<Longrightarrow> (\<And>h f. uw_files w h = Some f \<Longrightarrow> h < uw_next w) \<Longrightarrow> updater_reach E w"
| called: "updater_reach E w \<Longrightarrow> run_state (updater_call E method arguments) w = (r, w') \<Longrightarrow> updater_reach E w'"

inductive_cases updater_reachE: "updater_reach E w"

lemma reach_sessions_ok: "updater_reach E w \<Longrightarrow> sessions_ok w"
proof (induction rule: updater_reach.induct)
  case (start w)
  then show ?case by (simp add: sessions_ok_def)
next
  case (called w m a r w')
  then show ?case using keeps_updater_call [of E m a] wpD by (fastforce simp: keeps_def)
qed

text \<open>A session that has hashed as many bytes as its file holds has hashed exactly those.\<close>

lemma session_complete:
  assumes "session_ok w s" "uw_files w (ds_file s) = Some f" "length (wf_bytes f) = length (ds_hashed s)"
  shows "ds_hashed s = wf_bytes f"
  using assms subseq_same_length by (fastforce simp: session_ok_def)

end
