(* ===== verification/Updater_Properties.thy ===== *)
theory Updater_Properties
  imports Updater_Sessions
begin

text \<open>The properties of the update staging.\<close>

section \<open>Names\<close>

lemma last_part_child: "separator \<notin> set name \<Longrightarrow> last_part (child rt name) = name"
  by (auto simp: last_part_def child_def takeWhile_append)

lemma dir_part_child: "separator \<notin> set name \<Longrightarrow> dir_part (child rt name) = Some rt"
  by (simp add: dir_part_def last_part_child) (simp add: child_def)

text \<open>
  C28. A staged file lies in the updates root. A name that \<^verbatim>\<open>SafeName\<close> accepts is a single path
  component with one of four extensions, so the path that is built from it has the updates root as
  its directory and that name as its last part, whatever the digits of the locale are.
\<close>

theorem staged_in_root:
  assumes "SafeName digit name"
  shows "dir_part (child rt name) = Some rt \<and> last_part (child rt name) = name \<and>
    (\<exists>stem ext. name = wide ''mobilka-'' @ stem @ ext \<and>
       ext \<in> {wide ''.apk'', wide ''.msi'', wide ''.apk.part'', wide ''.msi.part''})"
proof -
  have "separator \<notin> set name" "regex_match name (kGenerated digit)" using assms by (simp_all add: SafeName_def)
  with kGenerated_shape [of name digit] show ?thesis by (auto simp: last_part_child dir_part_child)
qed

definition demo_name :: wstring where
  "demo_name = wide ''mobilka-1.2.3-windows-x-0.msi.part''"

definition ascii_digit :: "wchar \<Rightarrow> bool" where
  "ascii_digit = in_range CHR ''0'' CHR ''9''"

lemma demo_safe: "SafeName ascii_digit demo_name"
  by code_simp

theorem staged_in_root_witness: "dir_part (child (wide ''C:'') demo_name) = Some (wide ''C:'')"
  using staged_in_root [OF demo_safe] by blast

text \<open>
  \<^verbatim>\<open>IsMsiName\<close> decides the extension, and its positions are inside the name: it accepts exactly
  the generated names that end in \<^verbatim>\<open>.msi\<close> or, when that is allowed, in \<^verbatim>\<open>.msi.part\<close>.
\<close>

theorem msi_name:
  "IsMsiName digit name allow \<longleftrightarrow> regex_match name (kGenerated digit) \<and>
     (\<exists>stem. name = stem @ wide ''.msi'' \<or> allow \<and> name = stem @ wide ''.msi.part'')"
  by (rule IsMsiName_shape)

section \<open>An example\<close>

definition demo_env :: updater_env where
  "demo_env = \<lparr>ue_sha = (\<lambda>bs. replicate 32 (of_nat (length bs))), ue_wide = (\<lambda>s. Some (wide s)), ue_utf8 = (\<lambda>s. Some (map (\<lambda>c. char_of (unat c)) s)), ue_digit = ascii_digit,
     ue_system = None, ue_volume = 7, ue_canon = (\<lambda>p. p)\<rparr>"

definition demo_parent :: wstring where
  "demo_parent = wide [CHR ''C'', CHR '':'', CHR 0x5C, CHR ''a'']"

definition demo_root :: wstring where
  "demo_root = wide [CHR ''C'', CHR '':'', CHR 0x5C, CHR ''a'', CHR 0x5C, CHR ''u'']"

definition demo_dir :: winfile where
  "demo_dir = \<lparr>wf_directory = True, wf_reparse = False, wf_links = 1, wf_bytes = [], wf_time = 0, wf_pending = False\<rparr>"

definition demo_staged :: uworld where
  "demo_staged = \<lparr>uw_entries = [(child demo_root demo_name, 1), (demo_root, 0), (demo_parent, 0)],
     uw_files = [0 \<mapsto> demo_dir, 1 \<mapsto> demo_dir\<lparr>wf_directory := False\<rparr>], uw_sessions = Map.empty,
     uw_calls = [], uw_random = [], uw_next = 2, uw_clock = 9\<rparr>"

text \<open>The digest of an empty file in this example, and what Windows says of file 1.\<close>

definition demo_digest :: string where
  "demo_digest = replicate 64 CHR ''0''"

definition staged_args :: "(EncodableValue \<times> EncodableValue) list" where
  "staged_args = [(EvString ''partialName'', EvString ''mobilka-1.2.3-windows-x-0.msi.part''),
     (EvString ''expectedSize'', EvInt64 0), (EvString ''expectedSha256'', EvString demo_digest),
     (EvString ''identityToken'', EvString ''7:0:1'')]"

definition demo_final :: wstring where
  "demo_final = wide ''mobilka-1.2.3-windows-x-0.msi''"

lemma demo_checks: "StringArg_w demo_env staged_args ''identityToken'' = wide ''7:0:1''"
    "WideToUtf8 demo_env (wide ''7:0:1'') = ''7:0:1''" "IntArg_w staged_args ''expectedSize'' = 0"
    "WideToUtf8 demo_env (StringArg_w demo_env staged_args ''expectedSha256'') = demo_digest"
    "hex_of (ue_sha demo_env []) = demo_digest" "IsMsiName (ue_digit demo_env) demo_name True"
    "IsMsiName (ue_digit demo_env) demo_final False" "StringArg_w demo_env staged_args ''partialName'' = demo_name"
    "demo_final @ wide ''.part'' = demo_name" "length demo_digest = 64" "child demo_root demo_final \<noteq> child demo_root demo_name"
    "child demo_root demo_final \<noteq> demo_root" "child demo_root demo_final \<noteq> demo_parent"
    "Token_w (info_of demo_env 1 (demo_dir\<lparr>wf_directory := False\<rparr>)) = ''7:0:1''"
  by code_simp+

lemma demo_canon: "ue_canon demo_env p = p"
  by (simp add: demo_env_def)

lemma demo_opened: "run_state (OpenNoFollow demo_env (child demo_root demo_name) False) demo_staged = (Some 1, demo_staged)"
  by (simp add: OpenNoFollow_def quiet openable_def named_def demo_staged_def demo_env_def demo_dir_def)

lemma demo_info: "run_state (GetInfo demo_env 1) demo_staged = (Some (info_of demo_env 1 (demo_dir\<lparr>wf_directory := False\<rparr>)), demo_staged)"
  by (simp add: GetInfo_def quiet demo_staged_def)

lemma demo_stable: "run_state (Stable_w demo_env 1 False) demo_staged = (True, demo_staged)"
  by (simp add: Stable_w_def demo_info del: One_nat_def) (simp add: info_of_def demo_dir_def)

lemma demo_hash: "run_state (HashHandle demo_env 1) demo_staged = (demo_digest, demo_staged)"
  by (simp add: HashHandle_def quiet andM_def hash_reads.simps demo_staged_def demo_dir_def demo_checks)

lemmas demo_runs = demo_opened demo_info demo_stable demo_hash

section \<open>Files\<close>

text \<open>
  C30. Verifying changes nothing and tells the truth. \<^verbatim>\<open>verifyUpdate\<close> leaves files, names and
  sessions as they are under every failure; when it answers with an identity, the name is that of a
  Windows update and names a regular file with one link, of the size and the digest given.
\<close>

theorem verify_update:
  "wp (verifyUpdate E rt name args)
     (\<lambda>r w'. same w w' \<and>
       (r = Answered EvNull \<or>
        (\<exists>h f v. openable E w (child rt name) False = Some h \<and> uw_files w h = Some f \<and> described E args f \<and>
           IsMsiName (ue_digit E) name True \<and> r = Answered v))) w"
  using sees_verifyUpdate [of w E rt name args] by (simp only: sees_def)

fun renamed_entries :: "(wstring \<Rightarrow> wstring) \<Rightarrow> nat \<Rightarrow> wstring \<Rightarrow> wstring \<Rightarrow> (wstring \<times> nat) list \<Rightarrow> (wstring \<times> nat) list" where
  "renamed_entries c h old target [] = []"
| "renamed_entries c h old target ((q, i) # es) =
     (if i = h \<and> c q = c old then (target, i) else (q, i)) # renamed_entries c h old target es"

lemma renamed_entries_map:
  "map (\<lambda>(p, i). if i = h \<and> c p = c old then (target, i) else (p, i)) es = renamed_entries c h old target es"
  by (induction c h old target es rule: renamed_entries.induct) simp_all

abbreviation names_of :: "(wstring \<Rightarrow> wstring) \<Rightarrow> (wstring \<times> nat) list \<Rightarrow> wstring \<Rightarrow> nat option" where
  "names_of c es p \<equiv> map_of (map (\<lambda>(p, h). (c p, h)) es) (c p)"

lemma renamed_target:
  "names_of c es old = Some h \<Longrightarrow> names_of c es target = None \<Longrightarrow>
   names_of c (renamed_entries c h old target es) target = Some h"
proof (induction c h old target es rule: renamed_entries.induct)
  case (2 c h old target q i es)
  show ?case
  proof (cases "c q = c old")
    case True
    with "2.prems"(1) have "i = h" by simp
    with True show ?thesis by simp
  next
    case False
    with 2 have "names_of c (renamed_entries c h old target es) target = Some h" by (simp split: if_split_asm)
    moreover have "c q \<noteq> c target" using "2.prems"(2) by (simp split: if_split_asm)
    ultimately show ?thesis using False by simp
  qed
qed simp

lemma renamed_other:
  "c p \<noteq> c old \<Longrightarrow> c p \<noteq> c target \<Longrightarrow> names_of c (renamed_entries c h old target es) p = names_of c es p"
  by (induction c h old target es rule: renamed_entries.induct) auto

lemma named_after_rename:
  assumes "named E w from = Some h" "named E w target = None"
  shows "named E (after_rename E w h from target) target = Some h"
    and "ue_canon E p \<noteq> ue_canon E from \<Longrightarrow> ue_canon E p \<noteq> ue_canon E target \<Longrightarrow>
      named E (after_rename E w h from target) p = named E w p"
  using renamed_target [of "ue_canon E" _ "from" h target] renamed_other [of "ue_canon E" p "from" target h] assms
  by (simp_all add: named_def after_rename_def renamed_entries_map)

lemma openable_named: "openable E w path directory = Some h \<Longrightarrow> named E w path = Some h"
  by (auto simp: openable_def split: option.splits if_splits)

text \<open>
  C31. Making final is a checked, exclusive rename. When \<^verbatim>\<open>finalizeUpdate\<close> succeeds the partial file
  was a regular file with one link, of the size and the digest given, the final name was free, now
  names that same unchanged file, and every other name means what it did. When it fails, nothing
  has changed.
\<close>

theorem finalize_update:
  "wp (finalizeUpdate E rt name args)
     (\<lambda>r w'. case r of
        Failed _ \<Rightarrow> same w w'
      | Answered v \<Rightarrow> \<exists>h f. named E w (child rt (name @ wide ''.part'')) = Some h \<and> uw_files w h = Some f \<and>
          described E args f \<and> named E w (child rt name) = None \<and>
          named E w' (child rt name) = Some h \<and> uw_files w' = uw_files w \<and> uw_sessions w' = uw_sessions w \<and>
          (\<forall>p. ue_canon E p \<noteq> ue_canon E (child rt (name @ wide ''.part'')) \<longrightarrow> ue_canon E p \<noteq> ue_canon E (child rt name) \<longrightarrow>
             named E w' p = named E w p)) w"
proof (rule wp_mono [OF wp_finalizeUpdate])
  fix r w'
  let ?from = "child rt (name @ wide ''.part'')" and ?target = "child rt name"
  assume "case r of Failed _ \<Rightarrow> same w w'
      | Answered v \<Rightarrow> \<exists>h f. IsMsiName (ue_digit E) name False \<and> openable E w ?from False = Some h \<and>
          uw_files w h = Some f \<and> described E args f \<and> named E w ?target = None \<and> same (after_rename E w h ?from ?target) w'"
  then show "case r of Failed _ \<Rightarrow> same w w'
      | Answered v \<Rightarrow> \<exists>h f. named E w ?from = Some h \<and> uw_files w h = Some f \<and> described E args f \<and> named E w ?target = None \<and>
          named E w' ?target = Some h \<and> uw_files w' = uw_files w \<and> uw_sessions w' = uw_sessions w \<and>
          (\<forall>p. ue_canon E p \<noteq> ue_canon E ?from \<longrightarrow> ue_canon E p \<noteq> ue_canon E ?target \<longrightarrow> named E w' p = named E w p)"
  proof (cases r)
    case (Answered v)
    with \<open>case r of Failed _ \<Rightarrow> _ | Answered v \<Rightarrow> _\<close> obtain h f where f: "openable E w ?from False = Some h"
        "uw_files w h = Some f" "described E args f" "named E w ?target = None" "same (after_rename E w h ?from ?target) w'"
      by auto
    note n = named_after_rename [OF openable_named [OF f(1)] f(4)]
    have "uw_files w' = uw_files w" "uw_sessions w' = uw_sessions w"
      using f(5) by (simp_all add: same_def after_rename_def)
    then show ?thesis
      using Answered openable_named [OF f(1)] f(2-4) n by (auto simp: same_named [OF f(5)])
  qed simp
qed

lemma demo_finalized:
  "case fst (run_state (finalizeUpdate demo_env demo_root demo_final staged_args) demo_staged) of Failed _ \<Rightarrow> False | Answered _ \<Rightarrow> True"
  by (simp add: finalizeUpdate_def open_checked_def demo_runs Let_def demo_checks rename_to_def quiet del: One_nat_def)
    (simp add: demo_staged_def info_of_def demo_dir_def named_def quiet demo_canon demo_checks Identity_w_def GetInfo_def case_prod_unfold)

theorem finalize_update_witness:
  "named demo_env (snd (run_state (finalizeUpdate demo_env demo_root demo_final staged_args) demo_staged)) (child demo_root demo_final) \<noteq> None"
  using wpD [OF finalize_update [of demo_env demo_root demo_final staged_args demo_staged] prod.collapse [symmetric]] demo_finalized
  by (auto split: answer.splits)

lemma deleted_simps:
  "uw_sessions (deleted w h) = uw_sessions w"
  "uw_files (deleted w h) = (uw_files w)(h := map_option (\<lambda>f. f\<lparr>wf_pending := True\<rparr>) (uw_files w h))"
  by (simp_all add: deleted_def Let_def remove_names_def file_with_def)

lemma named_deleted:
  "named E w p = Some i \<Longrightarrow> i \<noteq> h \<Longrightarrow> named E (deleted w h) p = Some i"
  "\<forall>sid s. uw_sessions w sid = Some s \<longrightarrow> ds_file s \<noteq> h \<Longrightarrow> named E (deleted w h) p \<noteq> Some h"
proof -
  have keep: "map_of (map (\<lambda>(p, h). (ue_canon E p, h)) (filter (\<lambda>(p, j). j \<noteq> h) es)) c = Some i"
    if "map_of (map (\<lambda>(p, h). (ue_canon E p, h)) es) c = Some i" "i \<noteq> h" for es c i
    using that by (induction es) (auto split: if_splits)
  have gone: "map_of (map (\<lambda>(p, h). (ue_canon E p, h)) (filter (\<lambda>(p, j). j \<noteq> h) es)) c \<noteq> Some h" for es c
    by (induction es) (auto split: if_splits)
  show "named E w p = Some i \<Longrightarrow> i \<noteq> h \<Longrightarrow> named E (deleted w h) p = Some i"
    using keep by (auto simp: deleted_def Let_def named_def remove_names_def file_with_def)
  show "\<forall>sid s. uw_sessions w sid = Some s \<longrightarrow> ds_file s \<noteq> h \<Longrightarrow> named E (deleted w h) p \<noteq> Some h"
    using gone by (auto simp: deleted_def Let_def named_def remove_names_def file_with_def)
qed

text \<open>
  C32. A deletion takes only what it identifies. Whatever calls fail: when \<^verbatim>\<open>delete\<close> succeeds, the child
  of the updates root was a Windows update, a regular file with one link whose size, token and digest
  are those of the request (or the request named what the code sees after a failed call: size 0 with
  the token of nothing, or no digest); the file is deleted with all its names unless a download has it open, and no
  other file, name or session changes. When it fails, nothing has changed. And when no call fails, it
  succeeds exactly if the child is such a file with exactly the size, the token and the digest given.
\<close>

theorem delete_staged_file:
  "wp (staged_child E rt name ''delete'' args)
     (\<lambda>r w'. case r of
        Failed _ \<Rightarrow> same w w'
      | Answered v \<Rightarrow> \<exists>h f. IsMsiName (ue_digit E) name True \<and> named E w (child rt name) = Some h \<and> uw_files w h = Some f \<and>
          named_for_deletion E h args f \<and> uw_sessions w' = uw_sessions w \<and>
          uw_files w' = (uw_files w)(h \<mapsto> f\<lparr>wf_pending := True\<rparr>) \<and>
          ((\<forall>sid s. uw_sessions w sid = Some s \<longrightarrow> ds_file s \<noteq> h) \<longrightarrow> (\<forall>p. named E w' p \<noteq> Some h)) \<and>
          (\<forall>p i. named E w p = Some i \<longrightarrow> i \<noteq> h \<longrightarrow> named E w' p = Some i)) w \<and>
   (uw_calls w = [] \<longrightarrow>
      ((\<exists>v. fst (run_state (staged_child E rt name ''delete'' args) w) = Answered v) \<longleftrightarrow>
       (\<exists>h f. IsMsiName (ue_digit E) name True \<and> openable E w (child rt name) False = Some h \<and>
          uw_files w h = Some f \<and> identified E h args f)))"
proof (rule conjI, rule wp_mono [OF wp_delete])
  fix r w'
  assume a: "case r of Failed _ \<Rightarrow> same w w'
      | Answered v \<Rightarrow> \<exists>h f. IsMsiName (ue_digit E) name True \<and> openable E w (child rt name) False = Some h \<and>
          uw_files w h = Some f \<and> named_for_deletion E h args f \<and> same (deleted w h) w'"
  show "case r of Failed _ \<Rightarrow> same w w'
      | Answered v \<Rightarrow> \<exists>h f. IsMsiName (ue_digit E) name True \<and> named E w (child rt name) = Some h \<and> uw_files w h = Some f \<and>
          named_for_deletion E h args f \<and> uw_sessions w' = uw_sessions w \<and>
          uw_files w' = (uw_files w)(h \<mapsto> f\<lparr>wf_pending := True\<rparr>) \<and>
          ((\<forall>sid s. uw_sessions w sid = Some s \<longrightarrow> ds_file s \<noteq> h) \<longrightarrow> (\<forall>p. named E w' p \<noteq> Some h)) \<and>
          (\<forall>p i. named E w p = Some i \<longrightarrow> i \<noteq> h \<longrightarrow> named E w' p = Some i)"
  proof (cases r)
    case (Failed e)
    with a show ?thesis by simp
  next
    case (Answered v)
    with a obtain h f where f: "IsMsiName (ue_digit E) name True" "openable E w (child rt name) False = Some h"
        "uw_files w h = Some f" "named_for_deletion E h args f" "same (deleted w h) w'" by auto
    have "uw_files w' = (uw_files w)(h \<mapsto> f\<lparr>wf_pending := True\<rparr>)" "uw_sessions w' = uw_sessions w"
      using f(3,5) by (simp_all add: same_def deleted_simps)
    then show ?thesis
      using Answered f(1,3,4) openable_named [OF f(2)] named_deleted [where w = w and h = h] by (auto simp: same_named [OF f(5)])
  qed
qed (rule impI, erule quiet_delete)

lemma demo_deleted:
  "fst (run_state (staged_child demo_env demo_root demo_name ''delete'' staged_args) demo_staged) = Answered EvNull"
proof -
  show ?thesis
    by (simp add: staged_child_def demo_runs delete_staged_def Let_def demo_checks mark_deleted_def quiet
      del: One_nat_def) (simp add: info_of_def demo_dir_def demo_staged_def quiet case_prod_unfold)
qed

theorem delete_staged_file_witness:
  "identified demo_env 1 staged_args (demo_dir\<lparr>wf_directory := False\<rparr>) \<and>
   named demo_env (snd (run_state (staged_child demo_env demo_root demo_name ''delete'' staged_args) demo_staged)) (child demo_root demo_name) \<noteq> Some 1"
proof -
  let ?m = "staged_child demo_env demo_root demo_name ''delete'' staged_args"
  note d = delete_staged_file [of demo_env demo_root demo_name staged_args demo_staged]
  have files: "uw_files demo_staged 1 = Some (demo_dir\<lparr>wf_directory := False\<rparr>)" "uw_calls demo_staged = []" "uw_sessions demo_staged = Map.empty"
    by (simp_all add: demo_staged_def)
  have "openable demo_env demo_staged (child demo_root demo_name) False = Some 1"
    using demo_opened files(2) by (simp add: quiet_OpenNoFollow)
  moreover from this have "named demo_env demo_staged (child demo_root demo_name) = Some 1" by (rule openable_named)
  moreover have "\<exists>v. fst (run_state ?m demo_staged) = Answered v" using demo_deleted by blast
  ultimately show ?thesis
    using conjunct2 [OF d] files(1,2) wpD [OF conjunct1 [OF d] prod.collapse [symmetric]] demo_deleted files(3) by auto
qed

section \<open>Sessions\<close>

text \<open>
  C33. What a download reports is what it was fed. After any calls with any failures, an open session
  has hashed some of the bytes of its file, in their order, and counted them; when they are as many as
  the file holds they are its content; and the digest that \<^verbatim>\<open>finishDownload\<close> answers is that of these bytes.
\<close>

theorem session_digest:
  assumes "updater_reach E w" "uw_sessions w sid = Some s"
  shows "(\<exists>f. uw_files w (ds_file s) = Some f \<and> subseq (ds_hashed s) (wf_bytes f) \<and>
      (length (wf_bytes f) = length (ds_hashed s) \<longrightarrow> wf_bytes f = ds_hashed s)) \<and>
    ds_size s = of_nat (length (ds_hashed s)) \<and>
    wp (finishDownload E sid s)
      (\<lambda>r _. \<forall>v. r = Answered (EvMap v) \<longrightarrow> map_of v (EvString ''sha256'') = Some (EvString (hex_of (ue_sha E (ds_hashed s))))) w"
proof -
  have s: "session_ok w s" using reach_sessions_ok [OF assms(1)] assms(2) by (auto simp: sessions_ok_def)
  then obtain f where f: "uw_files w (ds_file s) = Some f" "subseq (ds_hashed s) (wf_bytes f)"
    and size: "ds_size s = of_nat (length (ds_hashed s))" by (auto simp: session_ok_def)
  have "length (wf_bytes f) = length (ds_hashed s) \<Longrightarrow> wf_bytes f = ds_hashed s"
    by (rule session_complete [OF s f(1), symmetric])
  with f size have "(\<exists>f. uw_files w (ds_file s) = Some f \<and> subseq (ds_hashed s) (wf_bytes f) \<and>
      (length (wf_bytes f) = length (ds_hashed s) \<longrightarrow> wf_bytes f = ds_hashed s))" "ds_size s = of_nat (length (ds_hashed s))"
    by blast+
  moreover have "wp (finishDownload E sid s)
      (\<lambda>r _. \<forall>v. r = Answered (EvMap v) \<longrightarrow> map_of v (EvString ''sha256'') = Some (EvString (hex_of (ue_sha E (ds_hashed s))))) w"
    unfolding finishDownload_def
    by (rule wp_sees [OF sees_andM [OF sees_call sees_call]])
      (auto simp: Identity_w_def GetInfo_def Let_def wp_def bind_def)
  ultimately show ?thesis by blast
qed

definition demo_updates :: uworld where
  "demo_updates = \<lparr>uw_entries = [(demo_root, 0), (demo_parent, 0)], uw_files = [0 \<mapsto> demo_dir], uw_sessions = Map.empty,
     uw_calls = [], uw_random = [[1, 2]], uw_next = 1, uw_clock = 9\<rparr>"

definition demo_begin_args :: "(EncodableValue \<times> EncodableValue) list" where
  "demo_begin_args = [(EvString ''updatesRoot'', EvString [CHR ''C'', CHR '':'', CHR 0x5C, CHR ''a'', CHR 0x5C, CHR ''u'']),
     (EvString ''basename'', EvString ''mobilka-1.2.3-windows-x-0.msi.part'')]"

lemma demo_paths: "prefixes demo_parent 3 = [demo_parent]" "prefixes demo_root 3 = [demo_parent, demo_root]"
    "dir_part demo_root = Some demo_parent"
    "length demo_parent = 4" "length demo_root = 6"
    "demo_parent ! Suc 0 = 58" "demo_parent ! 2 = separator" "demo_root ! Suc 0 = 58" "demo_root ! 2 = separator"
    "demo_root \<noteq> demo_parent" "demo_parent \<noteq> demo_root" "demo_root \<noteq> child demo_root demo_name" "demo_parent \<noteq> child demo_root demo_name"
    "child demo_root demo_name \<noteq> demo_root" "child demo_root demo_name \<noteq> demo_parent" "hex_of [1, 2] = ''0102''"
  by code_simp+

lemma demo_arguments: "StringArg_w demo_env demo_begin_args ''updatesRoot'' = demo_root"
    "StringArg_w demo_env demo_begin_args ''basename'' = demo_name"
  by code_simp+

lemma demo_open: "run_state (open_root demo_env demo_root) demo_updates = (None, demo_updates)"
  by (simp add: open_root_def ValidateComponents_def demo_paths OpenNoFollow_def quiet openable_def named_def
    demo_updates_def demo_env_def demo_dir_def GetInfo_def info_of_def Stable_w_def)

lemma demo_part: "drop (length demo_name - 5) demo_name = wide ''.part''" "5 \<le> length demo_name"
  by code_simp+

definition demo_session :: DownloadSession where
  "demo_session = \<lparr>ds_file = 1, ds_path = child demo_root demo_name, ds_hashed = [], ds_size = 0\<rparr>"

lemma demo_begin: "uw_sessions (snd (run_state (beginDownload demo_env demo_root demo_name) demo_updates)) ''0102'' = Some demo_session"
  using demo_part by (simp add: beginDownload_def CreateNew_def quiet demo_updates_def named_def demo_env_def demo_paths RandomId_def
    demo_session_def InitHash_def andM_def Stable_w_def GetInfo_def info_of_def add_file_def put_session_def)

lemma demo_called: "run_state (updater_call demo_env ''beginDownload'' (EvMap demo_begin_args)) demo_updates =
    run_state (beginDownload demo_env demo_root demo_name) demo_updates"
  using demo_safe by (simp add: updater_call_def root_method_def demo_arguments Let_def demo_open) (simp add: demo_env_def)

lemma demo_reach: "updater_reach demo_env (snd (run_state (beginDownload demo_env demo_root demo_name) demo_updates))"
proof (rule updater_reach.called)
  show "updater_reach demo_env demo_updates" by (rule updater_reach.start) (auto simp: demo_updates_def split: if_splits)
  show "run_state (updater_call demo_env ''beginDownload'' (EvMap demo_begin_args)) demo_updates =
    (fst (run_state (beginDownload demo_env demo_root demo_name) demo_updates),
     snd (run_state (beginDownload demo_env demo_root demo_name) demo_updates))"
    by (simp add: demo_called)
qed

theorem session_digest_witness: "ds_size demo_session = of_nat (length (ds_hashed demo_session))"
  using session_digest [OF demo_reach demo_begin] by blast

end
