(* ===== verification/Listing.thy ===== *)
theory Listing
  imports Workspace_Read
begin

text \<open>
  Directory listings in any world, also one in which other processes change the directories between
  the calls and calls fail: the limit of entries holds, and the recursion ends before its depth is
  used up.
\<close>

section \<open>Results\<close>

text \<open>An entry whose path lies under that of the listed directory (\<open>[]\<close> is the session's).\<close>

definition under :: "string \<Rightarrow> string \<Rightarrow> bool" where
  "under pre path \<longleftrightarrow> pre = [] \<or> (\<exists>rest. path = pre @ ''/'' @ rest)"

lemma under_trans: "under pre path \<Longrightarrow> under path path' \<Longrightarrow> under pre path'"
  by (auto simp: under_def)

definition entry_under :: "string \<Rightarrow> FlValue \<Rightarrow> bool" where
  "entry_under pre e \<longleftrightarrow> (\<exists>path child isdir. e = Entry path child isdir None \<and> under pre path)"

text \<open>The entries of \<open>out\<close> and more, within the limit and the directory, or one of the errors of the code.\<close>

definition lists :: "string \<Rightarrow> FlValue list \<Rightarrow> string + FlValue list \<Rightarrow> bool" where
  "lists pre out r \<longleftrightarrow> (case r of
       Inl e \<Rightarrow> e \<in> {''io_error'', ''too_many_entries'', ''unsafe_child'', ''metadata_changed''}
     | Inr out' \<Rightarrow> (\<exists>es. out' = out @ es \<and> (\<forall>e\<in>set es. entry_under pre e)) \<and> length out' \<le> kMaxListEntries)"

lemma lists_append: "lists pre (out @ es) r \<Longrightarrow> (\<And>e. e \<in> set es \<Longrightarrow> entry_under pre e) \<Longrightarrow> lists pre out r"
  by (force simp: lists_def split: sum.splits)

lemma lists_below: "lists path out r \<Longrightarrow> under pre path \<Longrightarrow> lists pre out r"
  by (force simp: lists_def entry_under_def split: sum.splits dest: under_trans)

lemma lists_Inl: "e \<in> {''io_error'', ''too_many_entries'', ''unsafe_child'', ''metadata_changed''} \<Longrightarrow> lists pre out (Inl e)"
  by (simp add: lists_def)

lemma wp_list_names:
  "wp (list_names L d es names) (\<lambda>r _. case r of Inl e \<Rightarrow> e \<in> {''too_many_entries'', ''unsafe_child''} | Inr _ \<Rightarrow> True) w"
proof (induction es arbitrary: names w)
  case Nil
  show ?case by (simp only: list_names.simps, rule wp_any) simp
next
  case (Cons n es)
  show ?case
    by (auto simp del: wp_bind intro!: wp_any wp_sum wp_option Cons.IH split: list.split option.split)
qed

text \<open>The loop over the names, when listing a directory below keeps the limit.\<close>

lemma wp_list_entries:
  assumes into: "\<And>child path out' w. length base < length out' \<Longrightarrow> length out' \<le> kMaxListEntries \<Longrightarrow>
      wp (into child path out') (\<lambda>r _. lists path out' r) w"
    and "length base \<le> length out" "length out \<le> kMaxListEntries"
  shows "wp (list_entries into d pre recursive ns out) (\<lambda>r _. lists pre out r) w"
  using assms(2,3)
proof (induction ns arbitrary: out w)
  case Nil
  then show ?case by (simp only: list_entries.simps, intro wp_any) (simp add: lists_def)
next
  case (Cons n ns)
  let ?path = "if pre = [] then n else pre @ ''/'' @ n"
  have path: "under pre ?path" by (simp add: under_def)
  have step: "wp ((if recursive \<and> isdir then into child ?path (out @ [Entry ?path child isdir None])
        else ret (Inr (out @ [Entry ?path child isdir None]))) \<bind>
      (\<lambda>r. case r of Inl e \<Rightarrow> ret (Inl e) | Inr out'' \<Rightarrow> list_entries into d pre recursive ns out'')) (\<lambda>r _. lists pre out r) w"
    if room: "length out < kMaxListEntries" for isdir child w
  proof -
    let ?e = "Entry ?path child isdir None"
    have e: "entry_under pre ?e" unfolding entry_under_def using path by blast
    have "wp (if recursive \<and> isdir then into child ?path (out @ [?e]) else ret (Inr (out @ [?e]))) (\<lambda>r _. lists ?path (out @ [?e]) r) w"
    proof (rule wp_branch)
      show "wp (into child ?path (out @ [?e])) (\<lambda>r _. lists ?path (out @ [?e]) r) w"
        by (rule into) (use room Cons.prems(1) in auto)
      show "wp (ret (Inr (out @ [?e]))) (\<lambda>r _. lists ?path (out @ [?e]) r) w" using room by (simp add: lists_def)
    qed
    then show ?thesis
      unfolding wp_bind
    proof (rule wp_mono)
      fix r w' assume "lists ?path (out @ [?e]) r"
      then have r: "lists pre (out @ [?e]) r" by (rule lists_below [OF _ path])
      show "wp (case r of Inl e \<Rightarrow> ret (Inl e) | Inr out'' \<Rightarrow> list_entries into d pre recursive ns out'') (\<lambda>r _. lists pre out r) w'"
      proof (rule wp_sum)
        fix err assume "r = Inl err"
        then show "wp (ret (Inl err)) (\<lambda>r _. lists pre out r) w'" using r by (simp add: lists_def)
      next
        fix out'' assume out'': "r = Inr out''"
        with r obtain es where es: "out'' = (out @ [?e]) @ es" "\<And>e. e \<in> set es \<Longrightarrow> entry_under pre e"
            "length out'' \<le> kMaxListEntries" by (auto simp: lists_def)
        have more: "entry_under pre x" if "x \<in> set (?e # es)" for x using that e es(2) by auto
        have "wp (list_entries into d pre recursive ns out'') (\<lambda>r _. lists pre out'' r) w'"
          by (rule Cons.IH) (use es Cons.prems(1) in auto)
        then show "wp (list_entries into d pre recursive ns out'') (\<lambda>r _. lists pre out r) w'"
          by (rule wp_mono) (use more es(1) in \<open>auto intro: lists_append [of pre out "?e # es"]\<close>)
      qed
    qed
  qed
  show ?case
  proof (cases "length out \<ge> kMaxListEntries")
    case True
    then show ?thesis by (simp add: lists_def)
  next
    case False
    then have room: "length out < kMaxListEntries" by simp
    show ?thesis
      by (simp only: list_entries.simps Let_def False if_False, rule wp_any, rule wp_sum, simp add: lists_Inl,
          rule wp_branch, simp add: lists_Inl, rule wp_any, rule wp_option,
          simp add: lists_Inl, rule step [OF room])
  qed
qed

text \<open>\<open>ListInto_enough\<close>: the depth given by \<^verbatim>\<open>HandleList\<close> is enough.\<close>

lemma ListInto_enough:
  assumes "kMaxListEntries < length out + k" "length out \<le> kMaxListEntries"
  shows "wp (ListInto L k d pre recursive out) (\<lambda>r _. lists pre out r) w"
  using assms
proof (induction k arbitrary: d pre recursive out w)
  case 0
  then show ?case by simp
next
  case (Suc k)
  let ?into = "\<lambda>child path out'. ListInto L k child path True out'"
  have below: "wp (?into child path out') (\<lambda>r _. lists path out' r) w"
    if "length out < length out'" "length out' \<le> kMaxListEntries" for child path out' w
    by (rule Suc.IH) (use that Suc.prems in auto)
  have entries: "wp (list_entries ?into d pre recursive ns out) (\<lambda>r _. lists pre out r) w" for ns w
    by (rule wp_list_entries [where base = out]) (use below Suc.prems in auto)
  have names: "wp (list_names L d es [] \<bind> (\<lambda>r. case r of Inl e \<Rightarrow> ret (Inl e)
      | Inr names \<Rightarrow> list_entries ?into d pre recursive (sort names) out)) (\<lambda>r _. lists pre out r) w" for es w
    unfolding wp_bind
    by (rule wp_mono [OF wp_list_names], rule wp_sum) (auto simp: lists_Inl entries)
  show ?case
    by (simp only: ListInto.simps, rule wp_any, rule wp_any, rule wp_sum, simp add: lists_Inl, rule names)
qed

section \<open>The handler\<close>

text \<open>The errors of opening what is to be listed.\<close>

definition listing_errors :: "string set" where
  "listing_errors = {''invalid_argument'', ''workspace_binding_changed'', ''not_found'', ''metadata_changed'', ''parent_missing'',
     ''io_error'', ''too_many_entries'', ''unsafe_child''}"

definition fine :: "string + 'a \<Rightarrow> bool" where
  "fine r \<longleftrightarrow> (case r of Inl e \<Rightarrow> e \<in> listing_errors | Inr _ \<Rightarrow> True)"

lemma fine_simps [simp]: "fine (Inr x)" "fine (Inl e) = (e \<in> listing_errors)"
  by (simp_all add: fine_def)

lemma fine_if [simp]: "fine (if b then r else s) \<longleftrightarrow> (b \<longrightarrow> fine r) \<and> (\<not> b \<longrightarrow> fine s)"
  by simp

lemma wp_OpenSessionDirs_read: "wp (OpenSessionDirs False rt key ps) (\<lambda>r _. fine r) w"
  unfolding OpenSessionDirs_def if_False bind_left_identity not_True_eq_False
  by (auto simp: listing_errors_def simp del: wp_bind intro!: wp_any wp_option wp_branch)

lemma wp_OpenContext_read: "wp (OpenContext L a False) (\<lambda>r _. fine r) w"
  unfolding OpenContext_def
  by (auto simp: listing_errors_def simp del: wp_bind
    intro!: wp_any wp_sum wp_option wp_branch wp_OpenSessionDirs_read split: prod.split)

lemma wp_list_target: "wp (list_target x) (\<lambda>r _. fine r) w"
proof -
  have parent: "wp (OpenParent x) (\<lambda>r _. fine r) w" for w
    unfolding OpenParent_def
    by (auto simp: listing_errors_def simp del: wp_bind intro!: wp_any wp_option wp_branch split: option.split)
  have open_dir: "wp (case pr of Inl e \<Rightarrow> ret (Inl e) | Inr (p, n) \<Rightarrow> OpenDirAt (nd_fd p) n \<bind>
      (\<lambda>d. ret (case d of None \<Rightarrow> Inl ''not_found'' | Some nd \<Rightarrow> Inr nd))) (\<lambda>r _. fine r) w" if "fine pr" for pr w
    using that
    by (auto simp: listing_errors_def simp del: wp_bind intro!: wp_any wp_sum split: option.split prod.split)
  show ?thesis
    unfolding list_target_def
    by (rule wp_branch, rule wp_any, simp add: listing_errors_def split: option.split, unfold wp_bind, rule wp_mono [OF parent], rule open_dir)
qed

text \<open>
  C34. A listing ends, is bounded and stays inside. In any world, also while other processes change
  the directories, \<^verbatim>\<open>HandleList\<close> replies with at most 500 entries whose paths all lie under the
  requested one, or with an error of the code: the recursion never reaches the depth the model gives it.
\<close>

theorem listing_bounded:
  "wp (HandleList L a)
     (\<lambda>r _. case r of
        Success v \<Rightarrow> \<exists>es. v = FlList es \<and> length es \<le> kMaxListEntries \<and> list_all (entry_under (path_arg a)) es
      | Error e \<Rightarrow> e \<in> listing_errors
      | NotImplemented \<Rightarrow> False) w"
proof -
  let ?Q = "\<lambda>r (_ :: world). case r of
        Success v \<Rightarrow> \<exists>es. v = FlList es \<and> length es \<le> kMaxListEntries \<and> list_all (entry_under (path_arg a)) es
      | Error e \<Rightarrow> e \<in> listing_errors
      | NotImplemented \<Rightarrow> False"
  have reply: "?Q (case r of Inl e \<Rightarrow> RespondError e | Inr out \<Rightarrow> RespondSuccess (Some (FlList out))) w" if "lists (path_arg a) [] r" for r w
    using that by (auto simp: lists_def listing_errors_def list_all_iff split: sum.splits)
  have enough: "wp (ListInto L (kMaxListEntries + 1) d (path_arg a) recursive []) (\<lambda>r _. lists (path_arg a) [] r) w" for d recursive w
    by (rule ListInto_enough) simp_all
  have list: "wp (case t of Inl e \<Rightarrow> ret (RespondError e)
      | Inr d \<Rightarrow> ListInto L (kMaxListEntries + 1) d (path_arg a) recursive [] \<bind>
          (\<lambda>r. ret (case r of Inl e \<Rightarrow> RespondError e | Inr out \<Rightarrow> RespondSuccess (Some (FlList out))))) ?Q w"
    if "fine t" for t recursive w
  proof (rule wp_sum)
    fix d show "wp (ListInto L (kMaxListEntries + 1) d (path_arg a) recursive [] \<bind>
          (\<lambda>r. ret (case r of Inl e \<Rightarrow> RespondError e | Inr out \<Rightarrow> RespondSuccess (Some (FlList out))))) ?Q w"
      unfolding wp_bind wp_return by (rule wp_mono [OF enough], rule reply)
  qed (use that in simp)
  have opened: "wp (case c of Inl e \<Rightarrow> ret (if e = ''not_found'' then RespondSuccess (Some (FlList [])) else RespondError e)
      | Inr x \<Rightarrow> list_target x \<bind> (\<lambda>t. case t of Inl e \<Rightarrow> ret (RespondError e)
          | Inr d \<Rightarrow> ListInto L (kMaxListEntries + 1) d (path_arg a) recursive [] \<bind>
              (\<lambda>r. ret (case r of Inl e \<Rightarrow> RespondError e | Inr out \<Rightarrow> RespondSuccess (Some (FlList out)))))) ?Q w"
    if "fine c" for c recursive w
  proof (rule wp_sum)
    fix x show "wp (list_target x \<bind> (\<lambda>t. case t of Inl e \<Rightarrow> ret (RespondError e)
          | Inr d \<Rightarrow> ListInto L (kMaxListEntries + 1) d (path_arg a) recursive [] \<bind>
              (\<lambda>r. ret (case r of Inl e \<Rightarrow> RespondError e | Inr out \<Rightarrow> RespondSuccess (Some (FlList out)))))) ?Q w"
      unfolding wp_bind [of "list_target x"] by (rule wp_mono [OF wp_list_target], rule list)
  qed (use that in simp)
  show ?thesis
    unfolding HandleList_def
    by (rule wp_option, simp add: listing_errors_def, unfold wp_bind [of "OpenContext L a False"],
        rule wp_mono [OF wp_OpenContext_read], rule opened)
qed

end
