(* ===== verification/Win32.thy ===== *)
theory Win32
  imports Updater_Staging
begin

text \<open>
  Windows as the workspace runner sees it: files and directories under their final paths, open
  handles with the access they have and the sharing they allow, the last error of the thread. It is no
  code of the repository but the documented behaviour of the calls that
  \<^verbatim>\<open>windows/runner/session_workspace_*.cpp\<close> makes, with the flags it gives them. Every call may fail
  with any code, and a read or write may be short (\<open>ww_outcomes\<close>). \<open>we_resolve\<close> gives the final path of
  a path (case, short names, links above the last part), \<open>we_matches\<close> says which names a pattern finds.
  Other processes are not modelled.
\<close>

section \<open>State\<close>

record win_object =
  ob_directory :: bool
  ob_reparse :: bool
  ob_links :: nat
  ob_bytes :: "byte list"
  ob_pending :: bool

record rights =
  ri_read :: bool
  ri_write :: bool
  ri_delete :: bool

record win_handle =
  ha_object :: nat
  ha_access :: rights
  ha_share :: rights
  ha_position :: nat

datatype outcome = Works | Fails "32 word" | ShortBy nat

record win =
  ww_names :: "(wstring \<times> nat) list"
  ww_objects :: "nat \<Rightarrow> win_object option"
  ww_handles :: "nat \<Rightarrow> win_handle option"
  ww_next_object :: nat
  ww_next_handle :: nat
  ww_outcomes :: "outcome list"
  ww_random :: "byte list list"
  ww_error :: "32 word"

record win_env =
  we_sha :: "byte list \<Rightarrow> byte list"
  we_wide :: "string \<Rightarrow> wstring option"
  we_utf8 :: "wstring \<Rightarrow> string option"
  we_towupper :: "wchar \<Rightarrow> wchar"
  we_upcase :: "wchar \<Rightarrow> wchar"
  we_resolve :: "wstring \<Rightarrow> wstring"
  we_volume :: "32 word"
  we_matches :: "wstring \<Rightarrow> wstring \<Rightarrow> bool"

type_synonym 'a wm = "(win, 'a) state"

text \<open>Error codes.\<close>

definition ERROR_FILE_NOT_FOUND :: "32 word" where "ERROR_FILE_NOT_FOUND = 2"
definition ERROR_PATH_NOT_FOUND :: "32 word" where "ERROR_PATH_NOT_FOUND = 3"
definition ERROR_ACCESS_DENIED :: "32 word" where "ERROR_ACCESS_DENIED = 5"
definition ERROR_NO_MORE_FILES :: "32 word" where "ERROR_NO_MORE_FILES = 18"
definition ERROR_SHARING_VIOLATION :: "32 word" where "ERROR_SHARING_VIOLATION = 32"
definition ERROR_FILE_EXISTS :: "32 word" where "ERROR_FILE_EXISTS = 80"
definition ERROR_DIR_NOT_EMPTY :: "32 word" where "ERROR_DIR_NOT_EMPTY = 145"
definition ERROR_ALREADY_EXISTS :: "32 word" where "ERROR_ALREADY_EXISTS = 183"
definition ERROR_UNABLE_TO_MOVE_REPLACEMENT :: "32 word" where "ERROR_UNABLE_TO_MOVE_REPLACEMENT = 1176"

section \<open>Calls\<close>

definition current_world :: "win wm" where
  "current_world = State (\<lambda>w. (w, w))"

definition update_world :: "(win \<Rightarrow> win) \<Rightarrow> unit wm" where
  "update_world f = State (\<lambda>w. ((), f w))"

definition next_outcome :: "outcome wm" where
  "next_outcome = State (\<lambda>w. case ww_outcomes w of [] \<Rightarrow> (Works, w) | c # cs \<Rightarrow> (c, w\<lparr>ww_outcomes := cs\<rparr>))"

definition GetLastError :: "32 word wm" where
  "GetLastError = State (\<lambda>w. (ww_error w, w))"

text \<open>A call that fails gives \<open>bad\<close> and sets the last error; one that works leaves it.\<close>

definition failing :: "'a \<Rightarrow> 32 word \<Rightarrow> win \<Rightarrow> 'a \<times> win" where
  "failing bad code w = (bad, w\<lparr>ww_error := code\<rparr>)"

definition win_call :: "'a \<Rightarrow> (win \<Rightarrow> 'a \<times> win) \<Rightarrow> 'a wm" where
  "win_call bad f = do { c \<leftarrow> next_outcome; State (case c of Fails code \<Rightarrow> failing bad code | _ \<Rightarrow> f) }"

section \<open>Names\<close>

definition object_at :: "win_env \<Rightarrow> win \<Rightarrow> wstring \<Rightarrow> nat option" where
  "object_at E w path = map_of (ww_names w) (we_resolve E path)"

definition path_of :: "win \<Rightarrow> nat \<Rightarrow> wstring option" where
  "path_of w i = map_option fst (find (\<lambda>(p, j). j = i) (ww_names w))"

text \<open>The directory a path is in, when it is there.\<close>

definition directory_there :: "win_env \<Rightarrow> win \<Rightarrow> wstring \<Rightarrow> bool" where
  "directory_there E w path =
     (case dir_part (we_resolve E path) of
        None \<Rightarrow> False
      | Some d \<Rightarrow>
          (case map_of (ww_names w) d of
             None \<Rightarrow> False
           | Some i \<Rightarrow> (case ww_objects w i of None \<Rightarrow> False | Some ob \<Rightarrow> ob_directory ob)))"

definition missing_code :: "win_env \<Rightarrow> win \<Rightarrow> wstring \<Rightarrow> 32 word" where
  "missing_code E w path = (if directory_there E w path then ERROR_FILE_NOT_FOUND else ERROR_PATH_NOT_FOUND)"

section \<open>Handles\<close>

definition any_right :: "rights \<Rightarrow> bool" where
  "any_right r \<longleftrightarrow> ri_read r \<or> ri_write r \<or> ri_delete r"

definition allows :: "rights \<Rightarrow> rights \<Rightarrow> bool" where
  "allows share access \<longleftrightarrow> (ri_read access \<longrightarrow> ri_read share) \<and> (ri_write access \<longrightarrow> ri_write share) \<and> (ri_delete access \<longrightarrow> ri_delete share)"

text \<open>Both ways: the open handle must share what is asked for, the new one what the open one has.\<close>

definition compatible :: "rights \<Rightarrow> rights \<Rightarrow> win_handle \<Rightarrow> bool" where
  "compatible access share h \<longleftrightarrow>
     \<not> any_right access \<or> \<not> any_right (ha_access h) \<or> (allows (ha_share h) access \<and> allows share (ha_access h))"

definition sharing_ok :: "win \<Rightarrow> nat \<Rightarrow> rights \<Rightarrow> rights \<Rightarrow> bool" where
  "sharing_ok w i access share =
     list_all (\<lambda>k. case ww_handles w k of None \<Rightarrow> True | Some h \<Rightarrow> ha_object h = i \<longrightarrow> compatible access share h)
       [0..<ww_next_handle w]"

definition new_handle :: "nat \<Rightarrow> rights \<Rightarrow> rights \<Rightarrow> win \<Rightarrow> nat option \<times> win" where
  "new_handle i access share w =
     (Some (ww_next_handle w),
      w\<lparr>ww_handles := (ww_handles w)(ww_next_handle w \<mapsto> \<lparr>ha_object = i, ha_access = access, ha_share = share, ha_position = 0\<rparr>),
        ww_next_handle := ww_next_handle w + 1\<rparr>)"

text \<open>\<open>backup\<close>: the flag \<^verbatim>\<open>FILE_FLAG_BACKUP_SEMANTICS\<close>, without which a directory cannot be opened.\<close>

definition open_existing :: "win_env \<Rightarrow> wstring \<Rightarrow> rights \<Rightarrow> rights \<Rightarrow> bool \<Rightarrow> win \<Rightarrow> nat option \<times> win" where
  "open_existing E path access share backup w =
     (case object_at E w path of
        None \<Rightarrow> failing None (missing_code E w path) w
      | Some i \<Rightarrow>
          (case ww_objects w i of
             None \<Rightarrow> failing None ERROR_FILE_NOT_FOUND w
           | Some ob \<Rightarrow>
               if ob_pending ob \<or> (ob_directory ob \<and> \<not> backup) then failing None ERROR_ACCESS_DENIED w
               else if \<not> sharing_ok w i access share then failing None ERROR_SHARING_VIOLATION w
               else new_handle i access share w))"

definition add_object :: "win_env \<Rightarrow> wstring \<Rightarrow> bool \<Rightarrow> win \<Rightarrow> win" where
  "add_object E path directory w =
     w\<lparr>ww_names := (we_resolve E path, ww_next_object w) # ww_names w,
       ww_objects := (ww_objects w)(ww_next_object w \<mapsto>
         \<lparr>ob_directory = directory, ob_reparse = False, ob_links = 1, ob_bytes = [], ob_pending = False\<rparr>),
       ww_next_object := ww_next_object w + 1\<rparr>"

definition create_new :: "win_env \<Rightarrow> wstring \<Rightarrow> rights \<Rightarrow> rights \<Rightarrow> win \<Rightarrow> nat option \<times> win" where
  "create_new E path access share w =
     (if object_at E w path \<noteq> None then failing None ERROR_FILE_EXISTS w
      else if \<not> directory_there E w path then failing None ERROR_PATH_NOT_FOUND w
      else new_handle (ww_next_object w) access share (add_object E path False w))"

definition CreateFileW :: "win_env \<Rightarrow> wstring \<Rightarrow> rights \<Rightarrow> rights \<Rightarrow> bool \<Rightarrow> bool \<Rightarrow> nat option wm" where
  "CreateFileW E path access share fresh backup =
     win_call None (if fresh then create_new E path access share else open_existing E path access share backup)"

text \<open>Closing the last handle of an object that is to be deleted removes its names.\<close>

definition drop_names :: "nat \<Rightarrow> win \<Rightarrow> win" where
  "drop_names i w = w\<lparr>ww_names := filter (\<lambda>(p, j). j \<noteq> i) (ww_names w)\<rparr>"

definition is_open :: "win \<Rightarrow> nat \<Rightarrow> bool" where
  "is_open w i = list_ex (\<lambda>k. case ww_handles w k of None \<Rightarrow> False | Some h \<Rightarrow> ha_object h = i) [0..<ww_next_handle w]"

definition pending :: "win \<Rightarrow> nat \<Rightarrow> bool" where
  "pending w i = (case ww_objects w i of None \<Rightarrow> False | Some ob \<Rightarrow> ob_pending ob)"

definition close_handle :: "nat \<Rightarrow> win \<Rightarrow> win" where
  "close_handle k w =
     (case ww_handles w k of
        None \<Rightarrow> w
      | Some h \<Rightarrow>
          let w' = w\<lparr>ww_handles := (ww_handles w)(k := None)\<rparr> in
          if pending w' (ha_object h) \<and> \<not> is_open w' (ha_object h) then drop_names (ha_object h) w' else w')"

definition CloseHandle :: "nat \<Rightarrow> unit wm" where
  "CloseHandle k = update_world (close_handle k)"

text \<open>The end of a function: the handles it has opened are closed, but for those it returns.\<close>

definition scoped :: "('a \<Rightarrow> nat list) \<Rightarrow> 'a wm \<Rightarrow> 'a wm" where
  "scoped keep m =
     do { before \<leftarrow> current_world;
          r \<leftarrow> m;
          update_world (\<lambda>w. fold close_handle (filter (\<lambda>k. k \<notin> set (keep r)) [ww_next_handle before..<ww_next_handle w]) w);
          ret r }"

section \<open>What a handle tells\<close>

record win_info =
  wi_volume :: "32 word"
  wi_index :: "64 word"
  wi_directory :: bool
  wi_reparse :: bool
  wi_links :: nat
  wi_size :: nat

definition info_of_object :: "win_env \<Rightarrow> nat \<Rightarrow> win_object \<Rightarrow> win_info" where
  "info_of_object E i ob =
     \<lparr>wi_volume = we_volume E, wi_index = of_nat i, wi_directory = ob_directory ob, wi_reparse = ob_reparse ob,
      wi_links = ob_links ob, wi_size = length (ob_bytes ob)\<rparr>"

definition handle_object :: "win \<Rightarrow> nat \<Rightarrow> (nat \<times> win_object) option" where
  "handle_object w k =
     (case ww_handles w k of
        None \<Rightarrow> None
      | Some h \<Rightarrow> map_option (Pair (ha_object h)) (ww_objects w (ha_object h)))"

definition GetFileInformationByHandle :: "win_env \<Rightarrow> nat \<Rightarrow> win_info option wm" where
  "GetFileInformationByHandle E k =
     win_call None (\<lambda>w. (map_option (\<lambda>(i, ob). info_of_object E i ob) (handle_object w k), w))"

text \<open>With the prefix of long paths; a share's path has another one.\<close>

definition final_name :: "wstring \<Rightarrow> wstring" where
  "final_name p =
     (if take 2 p = [separator, separator] then [separator, separator] @ wide ''?'' @ [separator] @ wide ''UNC'' @ drop 1 p
      else [separator, separator] @ wide ''?'' @ [separator] @ p)"

definition GetFinalPathNameByHandleW :: "nat \<Rightarrow> wstring option wm" where
  "GetFinalPathNameByHandleW k =
     win_call None (\<lambda>w. (case ww_handles w k of None \<Rightarrow> None | Some h \<Rightarrow> map_option final_name (path_of w (ha_object h)), w))"

definition GetFileAttributesW :: "win_env \<Rightarrow> wstring \<Rightarrow> win_object option wm" where
  "GetFileAttributesW E path =
     win_call None (\<lambda>w.
       case object_at E w path of
         None \<Rightarrow> failing None (missing_code E w path) w
       | Some i \<Rightarrow> (ww_objects w i, w))"

section \<open>Content\<close>

definition with_object :: "nat \<Rightarrow> (win_object \<Rightarrow> win_object) \<Rightarrow> win \<Rightarrow> win" where
  "with_object i f w = w\<lparr>ww_objects := (ww_objects w)(i := map_option f (ww_objects w i))\<rparr>"

definition with_position :: "nat \<Rightarrow> nat \<Rightarrow> win \<Rightarrow> win" where
  "with_position k n w = w\<lparr>ww_handles := (ww_handles w)(k := map_option (\<lambda>h. h\<lparr>ha_position := n\<rparr>) (ww_handles w k))\<rparr>"

definition SetFilePointerEx :: "nat \<Rightarrow> nat \<Rightarrow> bool wm" where
  "SetFilePointerEx k n = win_call False (\<lambda>w. (True, with_position k n w))"

definition ReadFile_W :: "nat \<Rightarrow> nat \<Rightarrow> byte list option wm" where
  "ReadFile_W k n =
     do { c \<leftarrow> next_outcome;
          State (\<lambda>w. case (c, ww_handles w k, handle_object w k) of
              (Fails code, _, _) \<Rightarrow> failing None code w
            | (_, Some h, Some (i, ob)) \<Rightarrow>
                if \<not> ri_read (ha_access h) then failing None ERROR_ACCESS_DENIED w
                else let got = take (case c of ShortBy d \<Rightarrow> n - d | _ \<Rightarrow> n) (drop (ha_position h) (ob_bytes ob))
                     in (Some got, with_position k (ha_position h + length got) w)
            | _ \<Rightarrow> failing None ERROR_ACCESS_DENIED w) }"

text \<open>Only at the end of a new file: the bytes written, how many.\<close>

definition WriteFile_W :: "nat \<Rightarrow> byte list \<Rightarrow> nat option wm" where
  "WriteFile_W k bs =
     do { c \<leftarrow> next_outcome;
          State (\<lambda>w. case (c, ww_handles w k) of
              (Fails code, _) \<Rightarrow> failing None code w
            | (_, Some h) \<Rightarrow>
                if \<not> ri_write (ha_access h) then failing None ERROR_ACCESS_DENIED w
                else let part = take (case c of ShortBy d \<Rightarrow> length bs - d | _ \<Rightarrow> length bs) bs
                     in (Some (length part), with_object (ha_object h) (\<lambda>ob. ob\<lparr>ob_bytes := ob_bytes ob @ part\<rparr>) w)
            | _ \<Rightarrow> failing None ERROR_ACCESS_DENIED w) }"

definition FlushFileBuffers :: "nat \<Rightarrow> bool wm" where
  "FlushFileBuffers k =
     win_call False (\<lambda>w. case ww_handles w k of
         Some h \<Rightarrow> if ri_write (ha_access h) then (True, w) else failing False ERROR_ACCESS_DENIED w
       | None \<Rightarrow> failing False ERROR_ACCESS_DENIED w)"

section \<open>Directories, deletion, renaming\<close>

definition CreateDirectoryW :: "win_env \<Rightarrow> wstring \<Rightarrow> bool wm" where
  "CreateDirectoryW E path =
     win_call False (\<lambda>w.
       if object_at E w path \<noteq> None then failing False ERROR_ALREADY_EXISTS w
       else if \<not> directory_there E w path then failing False ERROR_PATH_NOT_FOUND w
       else (True, add_object E path True w))"

text \<open>Is a path below another?\<close>

definition below :: "wstring \<Rightarrow> wstring \<Rightarrow> bool" where
  "below d p \<longleftrightarrow> length p > length d \<and> take (length d + 1) p = d @ [separator]"

definition SetDisposition :: "nat \<Rightarrow> bool wm" where
  "SetDisposition k =
     win_call False (\<lambda>w. case (ww_handles w k, handle_object w k) of
         (Some h, Some (i, ob)) \<Rightarrow>
           if \<not> ri_delete (ha_access h) then failing False ERROR_ACCESS_DENIED w
           else if ob_directory ob \<and> (case path_of w i of None \<Rightarrow> False | Some d \<Rightarrow> list_ex (\<lambda>(p, j). below d p) (ww_names w))
           then failing False ERROR_DIR_NOT_EMPTY w
           else (True, with_object i (\<lambda>ob. ob\<lparr>ob_pending := True\<rparr>) w)
       | _ \<Rightarrow> failing False ERROR_ACCESS_DENIED w)"

definition rename_object :: "nat \<Rightarrow> wstring \<Rightarrow> wstring \<Rightarrow> win \<Rightarrow> win" where
  "rename_object i old target w =
     w\<lparr>ww_names := map (\<lambda>(p, j). (if p = old then target else if below old p then target @ drop (length old) p else p, j)) (ww_names w)\<rparr>"

text \<open>\<^verbatim>\<open>FileRenameInfo\<close>: to a name in the directory of another handle.\<close>

definition SetRename :: "win_env \<Rightarrow> nat \<Rightarrow> nat \<Rightarrow> wstring \<Rightarrow> bool \<Rightarrow> bool wm" where
  "SetRename E k parent name replace =
     win_call False (\<lambda>w. case (ww_handles w k, handle_object w k, ww_handles w parent) of
         (Some h, Some (i, ob), Some d) \<Rightarrow>
           (case (path_of w i, path_of w (ha_object d)) of
              (Some old, Some dir) \<Rightarrow>
                let target = child dir name in
                if \<not> ri_delete (ha_access h) then failing False ERROR_ACCESS_DENIED w
                else (case object_at E w target of
                        None \<Rightarrow> (True, rename_object i old (we_resolve E target) w)
                      | Some j \<Rightarrow>
                          if \<not> replace then failing False ERROR_ALREADY_EXISTS w
                          else if is_open w j then failing False ERROR_ACCESS_DENIED w
                          else (True, rename_object i old (we_resolve E target) (drop_names j w)))
            | _ \<Rightarrow> failing False ERROR_ACCESS_DENIED w)
       | _ \<Rightarrow> failing False ERROR_ACCESS_DENIED w)"

definition full_share :: rights where
  "full_share = \<lparr>ri_read = True, ri_write = True, ri_delete = True\<rparr>"

definition delete_access :: rights where
  "delete_access = \<lparr>ri_read = False, ri_write = False, ri_delete = True\<rparr>"

definition DeleteFileW :: "win_env \<Rightarrow> wstring \<Rightarrow> bool wm" where
  "DeleteFileW E path =
     win_call False (\<lambda>w.
       case object_at E w path of
         None \<Rightarrow> failing False (missing_code E w path) w
       | Some i \<Rightarrow>
           (case ww_objects w i of
              None \<Rightarrow> failing False ERROR_FILE_NOT_FOUND w
            | Some ob \<Rightarrow>
                if ob_directory ob then failing False ERROR_ACCESS_DENIED w
                else if \<not> sharing_ok w i delete_access full_share then failing False ERROR_SHARING_VIOLATION w
                else let w' = with_object i (\<lambda>ob. ob\<lparr>ob_pending := True\<rparr>) w
                     in (True, if is_open w' i then w' else drop_names i w')))"

text \<open>
  Moving over a file, and \<^verbatim>\<open>ReplaceFileW\<close> without a backup, one of whose failures leaves the new file
  under its old name and the replaced one gone.
\<close>

definition move_over :: "win_env \<Rightarrow> wstring \<Rightarrow> wstring \<Rightarrow> win \<Rightarrow> bool \<times> win" where
  "move_over E old target w =
     (case object_at E w old of
        None \<Rightarrow> failing False (missing_code E w old) w
      | Some i \<Rightarrow>
          if is_open w i then failing False ERROR_SHARING_VIOLATION w
          else (case object_at E w target of
             None \<Rightarrow> (True, rename_object i (we_resolve E old) (we_resolve E target) w)
           | Some j \<Rightarrow>
               if is_open w j then failing False ERROR_ACCESS_DENIED w
               else (True, rename_object i (we_resolve E old) (we_resolve E target) (drop_names j w))))"

definition MoveFileExW :: "win_env \<Rightarrow> wstring \<Rightarrow> wstring \<Rightarrow> bool wm" where
  "MoveFileExW E old target = win_call False (move_over E old target)"

definition ReplaceFileW :: "win_env \<Rightarrow> wstring \<Rightarrow> wstring \<Rightarrow> bool wm" where
  "ReplaceFileW E replaced replacement =
     do { c \<leftarrow> next_outcome;
          State (\<lambda>w. case c of
              Fails code \<Rightarrow>
                failing False code
                  (case object_at E w replaced of
                     Some j \<Rightarrow> if code = ERROR_UNABLE_TO_MOVE_REPLACEMENT \<and> \<not> is_open w j then drop_names j w else w
                   | None \<Rightarrow> w)
            | _ \<Rightarrow>
                if object_at E w replaced = None then failing False ERROR_FILE_NOT_FOUND w
                else move_over E replacement replaced w) }"

text \<open>What a search of a directory finds: names, with whether they are directories.\<close>

definition found_in :: "win_env \<Rightarrow> win \<Rightarrow> wstring \<Rightarrow> (wstring \<times> bool) list" where
  "found_in E w d =
     map (\<lambda>(p, i). (last_part p, case ww_objects w i of None \<Rightarrow> False | Some ob \<Rightarrow> ob_directory ob))
       (filter (\<lambda>(p, i). dir_part p = Some (we_resolve E d)) (ww_names w))"

text \<open>The search for a pattern in a directory: what it found, of which the next call takes one.\<close>

definition FindFirstFileW :: "win_env \<Rightarrow> wstring \<Rightarrow> wstring \<Rightarrow> (wstring \<times> bool) list option wm" where
  "FindFirstFileW E d pattern =
     win_call None (\<lambda>w.
       let found = filter (\<lambda>(n, _). we_matches E pattern n) ((wide ''.'', True) # (wide ''..'', True) # found_in E w d) in
       if \<not> directory_there E w (child d pattern) then failing None ERROR_PATH_NOT_FOUND w
       else if found = [] then failing None ERROR_FILE_NOT_FOUND w
       else (Some found, w))"

definition FindNextFileW :: "(wstring \<times> bool) list \<Rightarrow> bool wm" where
  "FindNextFileW found = win_call False (\<lambda>w. if found = [] then failing False ERROR_NO_MORE_FILES w else (True, w))"

definition BCryptCall :: "bool wm" where
  "BCryptCall = win_call False (\<lambda>w. (True, w))"

definition BCryptGenRandom :: "nat \<Rightarrow> byte list option wm" where
  "BCryptGenRandom n =
     win_call None (\<lambda>w. (Some (case ww_random w of [] \<Rightarrow> replicate n 0 | r # _ \<Rightarrow> take n (r @ replicate n 0)), w\<lparr>ww_random := tl (ww_random w)\<rparr>))"

end
