(* ===== verification/Win_Nodes.thy ===== *)
theory Win_Nodes
  imports Win32
begin

text \<open>
  The Windows workspace, \<^verbatim>\<open>windows/runner/session_workspace_common.cpp\<close>: arguments, names, and the
  opening, checking, hashing, writing and deleting of nodes. The handles a function leaves open are
  those of its result; the others end with its scope. \<open>_W\<close> marks what has a twin on Linux.
\<close>

section \<open>Arguments\<close>

type_synonym args = "(EncodableValue \<times> EncodableValue) list"

definition Find_W :: "args \<Rightarrow> string \<Rightarrow> EncodableValue option" where
  "Find_W a key = map_of a (EvString key)"

definition StringArg_W :: "args \<Rightarrow> string \<Rightarrow> string option" where
  "StringArg_W a key = (case Find_W a key of Some (EvString s) \<Rightarrow> Some s | _ \<Rightarrow> None)"

definition BoolArg_W :: "args \<Rightarrow> string \<Rightarrow> bool option" where
  "BoolArg_W a key = (case Find_W a key of Some (EvBool b) \<Rightarrow> Some b | _ \<Rightarrow> None)"

text \<open>\<open>Some None\<close>: missing or null.\<close>

definition NullableStringArg_W :: "args \<Rightarrow> string \<Rightarrow> string option option" where
  "NullableStringArg_W a key =
     (case Find_W a key of None \<Rightarrow> Some None | Some EvNull \<Rightarrow> Some None | Some (EvString s) \<Rightarrow> Some (Some s) | _ \<Rightarrow> None)"

text \<open>\<^verbatim>\<open>m[key] = value\<close>; a map keeps its keys in order, strings by their bytes.\<close>

fun bytes_before :: "string \<Rightarrow> string \<Rightarrow> bool" where
  "bytes_before _ [] = False"
| "bytes_before [] (_ # _) = True"
| "bytes_before (a # as) (b # bs) =
     ((of_char a :: nat) < of_char b \<or> (a = b \<and> bytes_before as bs))"

fun key_before :: "EncodableValue \<Rightarrow> EncodableValue \<Rightarrow> bool" where
  "key_before (EvString a) (EvString b) = bytes_before a b"
| "key_before _ _ = False"

fun map_put :: "EncodableValue \<Rightarrow> EncodableValue \<Rightarrow> args \<Rightarrow> args" where
  "map_put k v [] = [(k, v)]"
| "map_put k v ((k', v') # m) =
     (if k' = k then (k, v) # m
      else if key_before k k' then (k, v) # (k', v') # m
      else (k', v') # map_put k v m)"

section \<open>Names\<close>

definition ToWide_W :: "win_env \<Rightarrow> string \<Rightarrow> wstring option" where
  "ToWide_W E s = (if s = [] then Some [] else we_wide E s)"

definition forbidden_unit :: "wchar \<Rightarrow> bool" where
  "forbidden_unit c \<longleftrightarrow> c < 32 \<or> c = 127 \<or> c = 47 \<or> c = separator \<or> c = 58"

definition reserved_name :: "wstring \<Rightarrow> bool" where
  "reserved_name stem \<longleftrightarrow>
     stem = wide ''CON'' \<or> stem = wide ''PRN'' \<or> stem = wide ''AUX'' \<or> stem = wide ''NUL'' \<or>
     (length stem = 4 \<and> (take 3 stem = wide ''COM'' \<or> take 3 stem = wide ''LPT'') \<and> in_range CHR ''1'' CHR ''9'' (stem ! 3))"

definition SafePart :: "win_env \<Rightarrow> string \<Rightarrow> wstring option" where
  "SafePart E s =
     (if s = [] \<or> length s > 128 \<or> hd s = CHR ''.'' \<or> s = ''..'' then None
      else case ToWide_W E s of
        None \<Rightarrow> None
      | Some w \<Rightarrow>
          if last w = 46 \<or> last w = 32 then None
          else if list_ex forbidden_unit w then None
          else if reserved_name (map (we_towupper E) (takeWhile (\<lambda>c. c \<noteq> 46) w)) then None
          else Some w)"

function parse_parts_W :: "win_env \<Rightarrow> string \<Rightarrow> wstring list \<Rightarrow> wstring list option" where
  "parse_parts_W E s out =
     (if s = [] then Some out
      else case split_at CHR ''/'' s of (x, r) \<Rightarrow>
        (case SafePart E x of
           None \<Rightarrow> None
         | Some w \<Rightarrow>
             if length (out @ [w]) > 16 then None
             else (case r of None \<Rightarrow> Some (out @ [w]) | Some q \<Rightarrow> parse_parts_W E q (out @ [w]))))"
  by pat_completeness auto
termination
  by (relation "measure (\<lambda>(E, s, out). length s)") (auto dest: split_at_shorter [OF sym])

declare parse_parts_W.simps [simp del]

definition ParseRelative_W :: "win_env \<Rightarrow> string \<Rightarrow> bool \<Rightarrow> wstring list option" where
  "ParseRelative_W E s at_root =
     (if s = [] then (if at_root then Some [] else None)
      else if length s > 1024 \<or> hd s = CHR ''/'' \<or> last s = CHR ''/'' \<or> CHR 0x5C \<in> set s \<or> CHR '':'' \<in> set s then None
      else parse_parts_W E s [])"

section \<open>Nodes\<close>

type_synonym Identity_W = "32 word \<times> 32 word \<times> 32 word"

record Node_W =
  nw_handle :: nat
  nw_info :: win_info
  nw_path :: wstring
  nw_id :: Identity_W

definition Id_W :: "win_info \<Rightarrow> Identity_W" where
  "Id_W i = (wi_volume i, ucast (drop_bit 32 (wi_index i)), ucast (take_bit 32 (wi_index i)))"

definition Token_W :: "Identity_W \<Rightarrow> string" where
  "Token_W i = (case i of (v, h, l) \<Rightarrow> decimal (unat v) @ '':'' @ decimal (unat h) @ '':'' @ decimal (unat l))"

definition Canonical :: "nat \<Rightarrow> wstring option wm" where
  "Canonical k =
     do { n \<leftarrow> GetFinalPathNameByHandleW k;
          case n of
            None \<Rightarrow> ret None
          | Some _ \<Rightarrow> do {
              got \<leftarrow> GetFinalPathNameByHandleW k;
              ret (case got of
                     None \<Rightarrow> None
                   | Some p \<Rightarrow>
                       let lead = [separator, separator] @ wide ''?'' @ [separator] in
                       Some (if take 8 p = lead @ wide ''UNC'' @ [separator] then [separator, separator] @ drop 8 p
                             else if take 4 p = lead then drop 4 p else p)) } }"

definition read_write :: rights where
  "read_write = \<lparr>ri_read = True, ri_write = True, ri_delete = False\<rparr>"

definition read_only :: rights where
  "read_only = \<lparr>ri_read = True, ri_write = False, ri_delete = False\<rparr>"

definition read_delete :: rights where
  "read_delete = \<lparr>ri_read = True, ri_write = False, ri_delete = True\<rparr>"

text \<open>What \<^verbatim>\<open>Open\<close> refuses: the wrong kind, a reparse point, a file with other links.\<close>

definition wrong_kind :: "win_info \<Rightarrow> bool \<Rightarrow> bool" where
  "wrong_kind i directory \<longleftrightarrow> wi_directory i \<noteq> directory \<or> wi_reparse i \<or> (\<not> directory \<and> wi_links i \<noteq> 1)"

definition node_handles :: "Node_W option \<Rightarrow> nat list" where
  "node_handles n = (case n of None \<Rightarrow> [] | Some n \<Rightarrow> [nw_handle n])"

definition opened_node :: "win_env \<Rightarrow> wstring \<Rightarrow> bool \<Rightarrow> nat \<Rightarrow> Node_W option wm" where
  "opened_node E p directory k =
     do { i \<leftarrow> GetFileInformationByHandle E k;
          case i of
            None \<Rightarrow> ret None
          | Some i \<Rightarrow>
              if wrong_kind i directory then ret None
              else do {
                actual \<leftarrow> Canonical k;
                case actual of
                  None \<Rightarrow> ret None
                | Some actual \<Rightarrow>
                    if map (we_upcase E) actual \<noteq> map (we_upcase E) p then ret None
                    else ret (Some \<lparr>nw_handle = k, nw_info = i, nw_path = p, nw_id = Id_W i\<rparr>) } }"

definition Open_W :: "win_env \<Rightarrow> wstring \<Rightarrow> rights \<Rightarrow> bool \<Rightarrow> bool \<Rightarrow> Node_W option wm" where
  "Open_W E p access directory fresh = scoped node_handles
     (do { h \<leftarrow> CreateFileW E p access read_write fresh directory;
           case h of None \<Rightarrow> ret None | Some k \<Rightarrow> opened_node E p directory k })"

definition OpenDirectoryForMutation :: "win_env \<Rightarrow> wstring \<Rightarrow> Node_W option wm" where
  "OpenDirectoryForMutation E p = Open_W E p full_share True False"

definition Stable_W :: "win_env \<Rightarrow> Node_W \<Rightarrow> bool \<Rightarrow> bool wm" where
  "Stable_W E n directory =
     do { i \<leftarrow> GetFileInformationByHandle E (nw_handle n);
          ret (case i of None \<Rightarrow> False | Some i \<Rightarrow> \<not> wrong_kind i directory \<and> Id_W i = nw_id n) }"

definition not_there :: "32 word \<Rightarrow> bool" where
  "not_there e \<longleftrightarrow> e = ERROR_FILE_NOT_FOUND \<or> e = ERROR_PATH_NOT_FOUND"

definition Missing_W :: "win_env \<Rightarrow> wstring \<Rightarrow> bool wm" where
  "Missing_W E p =
     do { a \<leftarrow> GetFileAttributesW E p; e \<leftarrow> GetLastError; ret (a = None \<and> not_there e) }"

section \<open>The root, the session\<close>

text \<open>Slashes become separators; separators at the end go, while more than three units are left.\<close>

function strip_separators :: "wstring \<Rightarrow> wstring" where
  "strip_separators p = (if length p > 3 \<and> last p = separator then strip_separators (butlast p) else p)"
  by pat_completeness auto
termination by (relation "measure length") auto

declare strip_separators.simps [simp del]

definition root_path :: "wstring \<Rightarrow> wstring" where
  "root_path p = strip_separators (map (\<lambda>c. if c = 47 then separator else c) p)"

text \<open>An opened root is known by its final path.\<close>

definition with_final_path :: "Node_W option \<Rightarrow> (string + Node_W) wm" where
  "with_final_path n =
     (case n of
        None \<Rightarrow> ret (Inl ''unsafe_root'')
      | Some n \<Rightarrow> do {
          p \<leftarrow> Canonical (nw_handle n);
          ret (case p of None \<Rightarrow> Inl ''unsafe_root'' | Some p \<Rightarrow> Inr (n\<lparr>nw_path := p\<rparr>)) })"

definition OpenRoot_W :: "win_env \<Rightarrow> args \<Rightarrow> (string + Node_W) wm" where
  "OpenRoot_W E a =
     (case StringArg_W a ''root'' of
        None \<Rightarrow> ret (Inl ''invalid_argument'')
      | Some v \<Rightarrow>
          (case ToWide_W E v of
             None \<Rightarrow> ret (Inl ''invalid_argument'')
           | Some path \<Rightarrow>
               if length path < 3 then ret (Inl ''invalid_argument'')
               else do { n \<leftarrow> Open_W E (root_path path) read_only True False; with_final_path n }))"

definition OpenRootForMutation :: "win_env \<Rightarrow> args \<Rightarrow> (string + Node_W) wm" where
  "OpenRootForMutation E a =
     (case StringArg_W a ''root'' of
        None \<Rightarrow> ret (Inl ''invalid_argument'')
      | Some v \<Rightarrow>
          (case ToWide_W E v of
             None \<Rightarrow> ret (Inl ''invalid_argument'')
           | Some path \<Rightarrow> do { n \<leftarrow> OpenDirectoryForMutation E (root_path path); with_final_path n }))"

record Context_W =
  cw_root :: Node_W
  cw_sessions :: Node_W
  cw_session :: Node_W
  cw_parts :: "wstring list"

definition context_args_W :: "win_env \<Rightarrow> args \<Rightarrow> (wstring \<times> wstring list \<times> string) option" where
  "context_args_W E a =
     (case (StringArg_W a ''sessionKey'', StringArg_W a ''path'', StringArg_W a ''rootIdentity'') of
        (Some key, Some path, Some bound) \<Rightarrow>
          (case (ParseRelative_W E key False, ParseRelative_W E path True) of
             (Some [k], Some ps) \<Rightarrow> Some (k, ps, bound)
           | _ \<Rightarrow> None)
      | _ \<Rightarrow> None)"

text \<open>A directory that is made if need be (\<open>create\<close>) and opened.\<close>

definition make_and_open :: "win_env \<Rightarrow> bool \<Rightarrow> wstring \<Rightarrow> (string + Node_W) wm" where
  "make_and_open E create p =
     do { made \<leftarrow> (if create then CreateDirectoryW E p else ret True);
          e \<leftarrow> GetLastError;
          if \<not> made \<and> e \<noteq> ERROR_ALREADY_EXISTS then ret (Inl ''mutation_indeterminate'')
          else do {
            n \<leftarrow> (if create then OpenDirectoryForMutation E p else Open_W E p read_only True False);
            ret (case n of None \<Rightarrow> Inl ''not_found'' | Some n \<Rightarrow> Inr n) } }"

definition OpenContext_W :: "win_env \<Rightarrow> args \<Rightarrow> bool \<Rightarrow> (string + Context_W) wm" where
  "OpenContext_W E a create =
     (case context_args_W E a of
        None \<Rightarrow> ret (Inl ''invalid_argument'')
      | Some (key, ps, bound) \<Rightarrow> do {
          r \<leftarrow> (if create then OpenRootForMutation E a else OpenRoot_W E a);
          case r of
            Inl e \<Rightarrow> ret (Inl e)
          | Inr rt \<Rightarrow>
              if Token_W (nw_id rt) \<noteq> bound then ret (Inl ''workspace_binding_changed'')
              else do {
                ss \<leftarrow> make_and_open E create (child (nw_path rt) (wide ''sessions''));
                case ss of
                  Inl e \<Rightarrow> ret (Inl e)
                | Inr dirs \<Rightarrow> do {
                    se \<leftarrow> make_and_open E create (child (child (nw_path rt) (wide ''sessions'')) key);
                    case se of
                      Inl e \<Rightarrow> ret (Inl e)
                    | Inr own \<Rightarrow> do {
                        ok \<leftarrow> andM (Stable_W E rt True) (Stable_W E dirs True);
                        ret (if ok then Inr \<lparr>cw_root = rt, cw_sessions = dirs, cw_session = own, cw_parts = ps\<rparr>
                             else Inl ''metadata_changed'') } } } })"

section \<open>Parents and children\<close>

text \<open>Moving the next node into the current one closes the latter's handle.\<close>

fun open_parents_W :: "win_env \<Rightarrow> Node_W \<Rightarrow> wstring list \<Rightarrow> Node_W option wm" where
  "open_parents_W E cur [] = ret (Some cur)"
| "open_parents_W E cur (n # ns) =
     do { nxt \<leftarrow> OpenDirectoryForMutation E (child (nw_path cur) n);
          case nxt of
            None \<Rightarrow> ret None
          | Some nxt \<Rightarrow> do {
              ok \<leftarrow> Stable_W E cur True;
              if \<not> ok then ret None
              else do { CloseHandle (nw_handle cur); open_parents_W E nxt ns } } }"

definition OpenParent_W :: "win_env \<Rightarrow> Context_W \<Rightarrow> (string + Node_W \<times> wstring) wm" where
  "OpenParent_W E c = scoped (\<lambda>r. case r of Inl _ \<Rightarrow> [] | Inr (p, _) \<Rightarrow> [nw_handle p])
     (if cw_parts c = [] then ret (Inl ''invalid_argument'')
      else do {
        cur \<leftarrow> OpenDirectoryForMutation E (nw_path (cw_session c));
        case cur of
          None \<Rightarrow> ret (Inl ''metadata_changed'')
        | Some cur \<Rightarrow>
            if nw_id cur \<noteq> nw_id (cw_session c) then ret (Inl ''metadata_changed'')
            else do {
              p \<leftarrow> open_parents_W E cur (butlast (cw_parts c));
              ret (case p of None \<Rightarrow> Inl ''parent_missing'' | Some p \<Rightarrow> Inr (p, last (cw_parts c))) } })"

text \<open>
  The result and the node the caller is left with, which on an error may be an open one; an error
  that was left over from an earlier call counts when the last call did not set it.
\<close>

definition OpenChild_W :: "win_env \<Rightarrow> Node_W \<Rightarrow> wstring \<Rightarrow> rights \<Rightarrow> bool \<Rightarrow> bool \<Rightarrow> ((string + unit) \<times> Node_W option) wm" where
  "OpenChild_W E p n access directory missing =
     do { r \<leftarrow> Open_W E (child (nw_path p) n) access directory False;
          ok \<leftarrow> (case r of None \<Rightarrow> ret False | Some _ \<Rightarrow> Stable_W E p True);
          if ok then ret (Inr (), r)
          else do {
            e \<leftarrow> GetLastError;
            if missing \<and> not_there e then do {
              (case r of None \<Rightarrow> ret () | Some nd \<Rightarrow> CloseHandle (nw_handle nd));
              ret (Inr (), None) }
            else ret (Inl (if not_there e then ''not_found'' else ''unsafe_path''), r) } }"

section \<open>Content\<close>

function hash_chunks :: "nat \<Rightarrow> nat \<Rightarrow> byte list \<Rightarrow> byte list option wm" where
  "hash_chunks k left acc =
     (if left > 0 then do {
        r \<leftarrow> ReadFile_W k (min 65536 left);
        case r of
          None \<Rightarrow> ret None
        | Some bs \<Rightarrow>
            if bs = [] then ret None
            else do { ok \<leftarrow> BCryptCall; if ok then hash_chunks k (left - length bs) (acc @ bs) else ret None } }
      else ret (Some acc))"
  by pat_completeness auto
termination
  by (relation "measure (\<lambda>(k, left, acc). left)") (auto intro!: diff_less)

declare hash_chunks.simps [simp del]

text \<open>The digest and the size. Three calls begin the hash, one ends it; a byte more must not be there.\<close>

definition HashExact_W :: "win_env \<Rightarrow> Node_W \<Rightarrow> (string \<times> nat) option wm" where
  "HashExact_W E f =
     do { before \<leftarrow> GetFileInformationByHandle E (nw_handle f);
          case before of
            None \<Rightarrow> ret None
          | Some i \<Rightarrow>
              if wi_size i > kMaxFileBytes then ret None
              else do {
                started \<leftarrow> andM (SetFilePointerEx (nw_handle f) 0) (andM BCryptCall (andM BCryptCall BCryptCall));
                if \<not> started then ret None
                else do {
                  content \<leftarrow> hash_chunks (nw_handle f) (wi_size i) [];
                  case content of
                    None \<Rightarrow> ret None
                  | Some bs \<Rightarrow> do {
                      extra \<leftarrow> ReadFile_W (nw_handle f) 1;
                      ended \<leftarrow> (if extra = Some [] then BCryptCall else ret False);
                      after \<leftarrow> (if ended then GetFileInformationByHandle E (nw_handle f) else ret None);
                      ret (case after of
                             None \<Rightarrow> None
                           | Some j \<Rightarrow> if Id_W i = Id_W j \<and> wi_size i = wi_size j then Some (hex_of (we_sha E bs), wi_size i) else None) } } } }"

definition VerifyFile :: "win_env \<Rightarrow> Node_W \<Rightarrow> string \<Rightarrow> string \<Rightarrow> bool wm" where
  "VerifyFile E f ident hash =
     (if Token_W (nw_id f) \<noteq> ident \<or> length hash \<noteq> 64 then ret False
      else do {
        actual \<leftarrow> HashExact_W E f;
        if map_option fst actual = Some hash then Stable_W E f False else ret False })"

definition EnsureHidden_W :: "win_env \<Rightarrow> Context_W \<Rightarrow> (string + Node_W) wm" where
  "EnsureHidden_W E c =
     (let p = child (nw_path (cw_session c)) (wide ''.mobilka-workspace'') in
      do { made \<leftarrow> CreateDirectoryW E p;
           e \<leftarrow> GetLastError;
           if \<not> made \<and> e \<noteq> ERROR_ALREADY_EXISTS then ret (Inl ''mutation_indeterminate'')
           else do {
             h \<leftarrow> OpenDirectoryForMutation E p;
             case h of
               None \<Rightarrow> ret (Inl ''unsafe_path'')
             | Some h \<Rightarrow> do { ok \<leftarrow> Stable_W E (cw_session c) True; ret (if ok then Inr h else Inl ''unsafe_path'') } } })"

text \<open>Whether it succeeded, the node that may be left open, the digest.\<close>

definition WriteFileExact :: "win_env \<Rightarrow> Node_W \<Rightarrow> wstring \<Rightarrow> byte list \<Rightarrow> (bool \<times> Node_W option \<times> string) wm" where
  "WriteFileExact E p n bs =
     (if length bs > kMaxFileBytes then ret (False, None, [])
      else do {
        r \<leftarrow> Open_W E (child (nw_path p) n) full_share False True;
        case r of
          None \<Rightarrow> ret (False, None, [])
        | Some f \<Rightarrow> do {
            wrote \<leftarrow> (if bs = [] then ret (Some 0) else WriteFile_W (nw_handle f) bs);
            flushed \<leftarrow> (if wrote = Some (length bs) then FlushFileBuffers (nw_handle f) else ret False);
            hash \<leftarrow> (if flushed then HashExact_W E f else ret None);
            ret (case hash of None \<Rightarrow> (False, Some f, []) | Some (h, _) \<Rightarrow> (True, Some f, h)) } })"

definition DeleteNode :: "win_env \<Rightarrow> Node_W \<Rightarrow> bool \<Rightarrow> bool wm" where
  "DeleteNode E n directory = andM (Stable_W E n directory) (SetDisposition (nw_handle n))"

definition Receipt_W :: "string \<Rightarrow> string \<Rightarrow> args" where
  "Receipt_W opid token = [(EvString ''operationId'', EvString opid), (EvString ''token'', EvString token)]"

text \<open>
  \<open>WCrash\<close>: the handler is left by an exception, or made one of a null pointer. The channel's \<^verbatim>\<open>catch\<close>
  then answers through a result that it has moved into the handler.
\<close>

datatype win_reply = WError string | WSuccess EncodableValue | WNotImplemented | WCrash

definition HandleRootIdentity_W :: "win_env \<Rightarrow> args \<Rightarrow> win_reply wm" where
  "HandleRootIdentity_W E a = scoped (\<lambda>_. [])
     (do { r \<leftarrow> OpenRoot_W E a;
           ret (case r of Inl e \<Rightarrow> WError e | Inr n \<Rightarrow> WSuccess (EvString (Token_W (nw_id n)))) })"

end
