(* ===== verification/Win_State.thy ===== *)
theory Win_State
  imports Win_Nodes
begin

text \<open>
  The operation records of the Windows workspace, \<^verbatim>\<open>windows/runner/session_workspace_state.cpp\<close>: their
  byte format, a save by a temporary file that replaces the old record, loading, deletion, random tokens,
  renaming below an open directory. A record holds the proof of its operation as a map whose values have a
  type byte. \<open>encode_decode_W\<close> says which records survive a save: the encoder does not bound the strings
  that the decoder bounds.
\<close>

section \<open>The record\<close>

record OperationState_W =
  ow_token :: string
  ow_root_identity :: string
  ow_session_identity :: string
  ow_session_key :: string
  ow_operation :: string
  ow_path :: string
  ow_destination :: string
  ow_has_destination :: bool
  ow_proof :: args
  ow_phase :: OperationPhase

definition kMagic_W :: "32 word" where "kMagic_W = 0x3153574d"
definition kVersion_W :: "32 word" where "kVersion_W = 2"
definition kMaxStateBytes_W :: nat where "kMaxStateBytes_W = 64 * 1024"

definition Append32_W :: "byte list \<Rightarrow> 32 word \<Rightarrow> byte list" where
  "Append32_W out v = out @ map (\<lambda>i. ucast (drop_bit (i * 8) v AND 0xff)) [0..<4]"

definition AppendString_W :: "byte list \<Rightarrow> string \<Rightarrow> byte list" where
  "AppendString_W out s = Append32_W out (of_nat (length s)) @ bytes_of s"

definition Read32_W :: "byte list \<Rightarrow> nat \<Rightarrow> (32 word \<times> nat) option" where
  "Read32_W bs at =
     (if at + 4 > length bs then None
      else Some (foldl (\<lambda>v i. v OR push_bit (i * 8) (ucast (bs ! (at + i)))) 0 [0..<4], at + 4))"

definition ReadString_W :: "byte list \<Rightarrow> nat \<Rightarrow> (string \<times> nat) option" where
  "ReadString_W bs at =
     (case Read32_W bs at of
        None \<Rightarrow> None
      | Some (n, at') \<Rightarrow>
          if unat n > 4096 \<or> at' + unat n > length bs then None
          else Some (string_of (take (unat n) (drop at' bs)), at' + unat n))"

text \<open>\<^verbatim>\<open>std::to_string\<close> and \<^verbatim>\<open>std::stoll\<close>, which throws without digits or out of range.\<close>

definition signed_decimal :: "int \<Rightarrow> string" where
  "signed_decimal i = (if i < 0 then CHR ''-'' # decimal (nat (- i)) else decimal (nat i))"

definition is_digit :: "char \<Rightarrow> bool" where
  "is_digit c \<longleftrightarrow> 48 \<le> (of_char c :: nat) \<and> (of_char c :: nat) \<le> 57"

definition is_space :: "char \<Rightarrow> bool" where
  "is_space c \<longleftrightarrow> (of_char c :: nat) = 32 \<or> (9 \<le> (of_char c :: nat) \<and> (of_char c :: nat) \<le> 13)"

definition take_sign :: "string \<Rightarrow> bool \<times> string" where
  "take_sign t =
     (case t of
        [] \<Rightarrow> (False, [])
      | c # cs \<Rightarrow> if c = CHR ''-'' then (True, cs) else if c = CHR ''+'' then (False, cs) else (False, t))"

definition stoll :: "string \<Rightarrow> int option" where
  "stoll s =
     (case take_sign (dropWhile is_space s) of (neg, t) \<Rightarrow>
        let digits = takeWhile is_digit t;
            i = (if neg then - int (undecimal digits) else int (undecimal digits)) in
        if digits = [] \<or> i < - (2 ^ 63) \<or> i \<ge> 2 ^ 63 then None else Some i)"

section \<open>Encoding\<close>

definition put_value :: "EncodableValue \<Rightarrow> byte list option" where
  "put_value v =
     (case v of
        EvString s \<Rightarrow> Some (1 # AppendString_W [] s)
      | EvBool b \<Rightarrow> Some [2, if b then 1 else 0]
      | EvInt64 i \<Rightarrow> Some (3 # AppendString_W [] (signed_decimal (sint i)))
      | EvNull \<Rightarrow> Some [0]
      | _ \<Rightarrow> None)"

fun put_proof :: "args \<Rightarrow> byte list option" where
  "put_proof [] = Some []"
| "put_proof ((k, v) # m) =
     (case k of
        EvString s \<Rightarrow>
          (case (put_value v, put_proof m) of (Some b, Some r) \<Rightarrow> Some (AppendString_W [] s @ b @ r) | _ \<Rightarrow> None)
      | _ \<Rightarrow> None)"

definition strings_W :: "OperationState_W \<Rightarrow> string list" where
  "strings_W s =
     [ow_token s, ow_root_identity s, ow_session_identity s, ow_session_key s, ow_operation s, ow_path s, ow_destination s]"

definition encode_state_W :: "OperationState_W \<Rightarrow> byte list option" where
  "encode_state_W s =
     (let head = Append32_W (Append32_W (Append32_W [] kMagic_W) kVersion_W) (phase_code (ow_phase s));
          fixed = foldl AppendString_W head (strings_W s) @ [if ow_has_destination s then 1 else 0];
          counted = Append32_W fixed (of_nat (length (ow_proof s))) in
      case put_proof (ow_proof s) of
        None \<Rightarrow> None
      | Some p \<Rightarrow> if length (counted @ p) > kMaxStateBytes_W then None else Some (counted @ p))"

section \<open>Decoding\<close>

datatype 'a loading = Loaded 'a | NotLoaded | Threw

text \<open>A value, after its type byte.\<close>

definition get_value :: "byte list \<Rightarrow> nat \<Rightarrow> (EncodableValue \<times> nat) loading" where
  "get_value bs at =
     (if at \<ge> length bs then NotLoaded
      else if bs ! at = 0 then Loaded (EvNull, at + 1)
      else if bs ! at = 1 then
        (case ReadString_W bs (at + 1) of None \<Rightarrow> NotLoaded | Some (s, at') \<Rightarrow> Loaded (EvString s, at'))
      else if bs ! at = 2 then
        (if at + 1 < length bs then Loaded (EvBool (bs ! (at + 1) \<noteq> 0), at + 2) else NotLoaded)
      else if bs ! at = 3 then
        (case ReadString_W bs (at + 1) of
           None \<Rightarrow> NotLoaded
         | Some (s, at') \<Rightarrow> (case stoll s of None \<Rightarrow> Threw | Some i \<Rightarrow> Loaded (EvInt64 (word_of_int i), at')))
      else NotLoaded)"

fun get_proof :: "nat \<Rightarrow> byte list \<Rightarrow> nat \<Rightarrow> args \<Rightarrow> (args \<times> nat) loading" where
  "get_proof 0 bs at m = Loaded (m, at)"
| "get_proof (Suc k) bs at m =
     (case ReadString_W bs at of
        None \<Rightarrow> NotLoaded
      | Some (key, at') \<Rightarrow>
          (case get_value bs at' of
             NotLoaded \<Rightarrow> NotLoaded
           | Threw \<Rightarrow> Threw
           | Loaded (v, at'') \<Rightarrow> get_proof k bs at'' (map_put (EvString key) v m)))"

definition read_head_W :: "byte list \<Rightarrow> (OperationPhase \<times> nat) option" where
  "read_head_W bs =
     (case Read32_W bs 0 of None \<Rightarrow> None | Some (magic, a1) \<Rightarrow>
      if magic \<noteq> kMagic_W then None else
      case Read32_W bs a1 of None \<Rightarrow> None | Some (version, a2) \<Rightarrow>
      if version \<noteq> kVersion_W then None else
      case Read32_W bs a2 of None \<Rightarrow> None | Some (code, a3) \<Rightarrow>
      case phase_of code of None \<Rightarrow> None | Some ph \<Rightarrow> Some (ph, a3))"

fun ReadStrings_W :: "nat \<Rightarrow> byte list \<Rightarrow> nat \<Rightarrow> (string list \<times> nat) option" where
  "ReadStrings_W 0 bs at = Some ([], at)"
| "ReadStrings_W (Suc k) bs at =
     (case ReadString_W bs at of None \<Rightarrow> None
      | Some (v, at') \<Rightarrow> (case ReadStrings_W k bs at' of None \<Rightarrow> None
                         | Some (vs, at'') \<Rightarrow> Some (v # vs, at'')))"

text \<open>The proof, its count before it; nothing may follow it.\<close>

definition read_proof :: "byte list \<Rightarrow> nat \<Rightarrow> args loading" where
  "read_proof bs at =
     (case Read32_W bs at of
        None \<Rightarrow> NotLoaded
      | Some (count, at') \<Rightarrow>
          if unat count > 32 then NotLoaded
          else (case get_proof (unat count) bs at' [] of
                  Loaded (m, at'') \<Rightarrow> if at'' \<noteq> length bs then NotLoaded else Loaded m
                | NotLoaded \<Rightarrow> NotLoaded
                | Threw \<Rightarrow> Threw))"

definition decode_state_W :: "string \<Rightarrow> byte list \<Rightarrow> OperationState_W loading" where
  "decode_state_W token bs =
     (case read_head_W bs of None \<Rightarrow> NotLoaded | Some (ph, a) \<Rightarrow>
      case ReadStrings_W 7 bs a of
        Some ([t, ri, si, sk, oper, p, d], at) \<Rightarrow>
          if t \<noteq> token \<or> at \<ge> length bs then NotLoaded
          else (case read_proof bs (at + 1) of
                  Loaded m \<Rightarrow>
                    Loaded \<lparr>ow_token = t, ow_root_identity = ri, ow_session_identity = si, ow_session_key = sk,
                            ow_operation = oper, ow_path = p, ow_destination = d,
                            ow_has_destination = (bs ! at = 1), ow_proof = m, ow_phase = ph\<rparr>
                | NotLoaded \<Rightarrow> NotLoaded
                | Threw \<Rightarrow> Threw)
      | _ \<Rightarrow> NotLoaded)"

section \<open>Temporary files\<close>

definition StateName_W :: "string \<Rightarrow> wstring" where
  "StateName_W opid = wide opid @ wide ''.state''"

text \<open>A plain file, by its attributes, that is deleted by its path.\<close>

definition delete_plain :: "win_env \<Rightarrow> wstring \<Rightarrow> bool wm" where
  "delete_plain E path =
     do { a \<leftarrow> GetFileAttributesW E path;
          case a of
            None \<Rightarrow> ret False
          | Some ob \<Rightarrow> if ob_directory ob \<or> ob_reparse ob then ret False else DeleteFileW E path }"

text \<open>
  The loop over the found temporaries. \<open>None\<close> is its \<^verbatim>\<open>break\<close>; otherwise the last error that the end of
  the search set.
\<close>

fun clean_temps :: "win_env \<Rightarrow> Node_W \<Rightarrow> wstring \<Rightarrow> nat \<Rightarrow> (wstring \<times> bool) list \<Rightarrow> 32 word option wm" where
  "clean_temps E hidden lead count [] = do { e \<leftarrow> GetLastError; ret (Some e) }"
| "clean_temps E hidden lead count ((name, d) # found) =
     (if count + 1 > 16 \<or> take (length lead) name \<noteq> lead \<or> length name < length lead + 4 \<or>
         drop (length name - 4) name \<noteq> wide ''.tmp'' then ret None
      else do {
        gone \<leftarrow> delete_plain E (child (nw_path hidden) name);
        if \<not> gone then ret None
        else do {
          more \<leftarrow> FindNextFileW found;
          if more then clean_temps E hidden lead (count + 1) found
          else do { e \<leftarrow> GetLastError; ret (Some e) } } })"

definition CleanupStateTemps :: "win_env \<Rightarrow> Node_W \<Rightarrow> string \<Rightarrow> bool wm" where
  "CleanupStateTemps E hidden opid =
     (let lead = StateName_W opid @ wide ''.'' in
      do { flushed \<leftarrow> FlushFileBuffers (nw_handle hidden);
           if \<not> flushed then ret False
           else do {
             found \<leftarrow> FindFirstFileW E (nw_path hidden) (lead @ wide ''*.tmp'');
             case found of
               None \<Rightarrow> ret True
             | Some fs \<Rightarrow> do {
                 ended \<leftarrow> clean_temps E hidden lead 0 fs;
                 if ended = Some ERROR_NO_MORE_FILES then FlushFileBuffers (nw_handle hidden) else ret False } } })"

definition DeleteTemporary :: "win_env \<Rightarrow> Node_W \<Rightarrow> wstring \<Rightarrow> bool wm" where
  "DeleteTemporary E hidden name =
     (let path = child (nw_path hidden) name in
      do { a \<leftarrow> GetFileAttributesW E path;
           case a of
             None \<Rightarrow> ret True
           | Some ob \<Rightarrow> if ob_directory ob \<or> ob_reparse ob then ret False else DeleteFileW E path })"

definition ReplaceStateFile :: "win_env \<Rightarrow> wstring \<Rightarrow> wstring \<Rightarrow> bool wm" where
  "ReplaceStateFile E state_path temporary_path =
     do { a \<leftarrow> GetFileAttributesW E state_path;
          replaced \<leftarrow> (case a of
                         None \<Rightarrow> ret False
                       | Some ob \<Rightarrow> if ob_directory ob then ret False else ReplaceFileW E state_path temporary_path);
          if replaced then ret True else MoveFileExW E temporary_path state_path }"

section \<open>Saving, loading, deleting\<close>

definition RandomToken_W :: "string option wm" where
  "RandomToken_W =
     do { r \<leftarrow> BCryptGenRandom 32;
          ret (case r of
                 None \<Rightarrow> None
               | Some bs \<Rightarrow> let t = encode_token 0 0 bs in if length t = 43 then Some t else None) }"

definition SaveOperationState_W :: "win_env \<Rightarrow> Node_W \<Rightarrow> string \<Rightarrow> OperationState_W \<Rightarrow> bool wm" where
  "SaveOperationState_W E hidden opid s = scoped (\<lambda>_. [])
     (do { clean \<leftarrow> CleanupStateTemps E hidden opid;
           if \<not> clean then ret False
           else case encode_state_W s of
             None \<Rightarrow> ret False
           | Some bytes \<Rightarrow> do {
               nonce \<leftarrow> RandomToken_W;
               case nonce of
                 None \<Rightarrow> ret False
               | Some nonce \<Rightarrow>
                   let temporary = StateName_W opid @ wide ''.'' @ wide nonce @ wide ''.tmp'' in
                   do { r \<leftarrow> WriteFileExact E hidden temporary bytes;
                        case r of
                          (True, Some f, _) \<Rightarrow> do {
                            CloseHandle (nw_handle f);
                            ok \<leftarrow> ReplaceStateFile E (child (nw_path hidden) (StateName_W opid)) (child (nw_path hidden) temporary);
                            if \<not> ok then do { _ \<leftarrow> DeleteTemporary E hidden temporary; ret False }
                            else FlushFileBuffers (nw_handle hidden) }
                        | _ \<Rightarrow> ret False } } })"

text \<open>The whole of a file, from its start, in one read.\<close>

definition read_whole :: "Node_W \<Rightarrow> nat \<Rightarrow> byte list option wm" where
  "read_whole f sz =
     do { ok \<leftarrow> SetFilePointerEx (nw_handle f) 0;
          if \<not> ok then ret None
          else if sz = 0 then ret (Some [])
          else do {
            r \<leftarrow> ReadFile_W (nw_handle f) sz;
            ret (case r of None \<Rightarrow> None | Some bs \<Rightarrow> if length bs = sz then Some bs else None) } }"

definition LoadOperationState_W :: "win_env \<Rightarrow> Node_W \<Rightarrow> string \<Rightarrow> string \<Rightarrow> OperationState_W loading wm" where
  "LoadOperationState_W E hidden opid token = scoped (\<lambda>_. [])
     (do { r \<leftarrow> OpenChild_W E hidden (StateName_W opid) read_only False False;
           case r of
             (Inr _, Some f) \<Rightarrow> do {
               h \<leftarrow> HashExact_W E f;
               case h of
                 None \<Rightarrow> ret NotLoaded
               | Some (_, sz) \<Rightarrow>
                   if sz > kMaxStateBytes_W then ret NotLoaded
                   else do {
                     bs \<leftarrow> read_whole f sz;
                     ret (case bs of None \<Rightarrow> NotLoaded | Some bs \<Rightarrow> decode_state_W token bs) } }
           | _ \<Rightarrow> ret NotLoaded })"

definition delete_only :: rights where
  "delete_only = \<lparr>ri_read = False, ri_write = False, ri_delete = True\<rparr>"

definition DeleteOperationState_W :: "win_env \<Rightarrow> Node_W \<Rightarrow> string \<Rightarrow> bool wm" where
  "DeleteOperationState_W E hidden opid = scoped (\<lambda>_. [])
     (do { r \<leftarrow> OpenChild_W E hidden (StateName_W opid) delete_only False True;
           case r of
             (Inl _, _) \<Rightarrow> ret False
           | (Inr _, None) \<Rightarrow> ret True
           | (Inr _, Some f) \<Rightarrow> DeleteNode E f False })"

definition RenameHandleRelative :: "win_env \<Rightarrow> Node_W \<Rightarrow> Node_W \<Rightarrow> wstring \<Rightarrow> bool \<Rightarrow> bool wm" where
  "RenameHandleRelative E source parent name replace = SetRename E (nw_handle source) (nw_handle parent) name replace"

end
