(* ===== verification/Win_Mutations.thy ===== *)
theory Win_Mutations
  imports Win_State Workspace_Paths
begin

text \<open>
  Preparing and committing an operation on Windows, \<^verbatim>\<open>windows/runner/session_workspace_prepare_commit.cpp\<close>,
  with \<^verbatim>\<open>Prepared\<close> of \<^verbatim>\<open>session_workspace_common.cpp\<close>. An error code \<open>None\<close> is the null pointer. A function's
  local nodes end with its \<open>scoped\<close> block, which keeps those that its caller goes on using.
\<close>

section \<open>The record of a receipt\<close>

definition SafeOperationId_W :: "string \<Rightarrow> bool" where
  "SafeOperationId_W s \<longleftrightarrow>
     length s = 32 \<and> list_all (\<lambda>c. ascii_isalnum c \<or> c = CHR ''_'' \<or> c = CHR ''-'') s"

text \<open>A receipt: exactly an operation and its token.\<close>

definition receipt_of :: "args \<Rightarrow> (string \<times> string) option" where
  "receipt_of a =
     (case Find_W a ''prepared'' of
        Some (EvMap m) \<Rightarrow>
          if length m \<noteq> 2 then None
          else (case (StringArg_W m ''operationId'', StringArg_W m ''token'') of
                  (Some opid, Some token) \<Rightarrow>
                    if \<not> SafeOperationId_W opid \<or> length token \<noteq> 43 then None else Some (opid, token)
                | _ \<Rightarrow> None)
      | _ \<Rightarrow> None)"

definition invalid_receipt :: win_reply where
  "invalid_receipt = WError ''invalid_prepared_receipt''"

definition Prepared_W :: "win_env \<Rightarrow> args \<Rightarrow> (win_reply + string \<times> OperationState_W) wm" where
  "Prepared_W E a = scoped (\<lambda>_. [])
     (case (receipt_of a, StringArg_W a ''sessionKey'', StringArg_W a ''rootIdentity'') of
        (Some (opid, token), Some key, Some bound) \<Rightarrow> do {
          c \<leftarrow> OpenContext_W E (map_put (EvString ''path'') (EvString []) a) False;
          case c of
            Inl e \<Rightarrow> ret (Inl (WError e))
          | Inr c \<Rightarrow> do {
              h \<leftarrow> EnsureHidden_W E c;
              case h of
                Inl e \<Rightarrow> ret (Inl (WError e))
              | Inr hidden \<Rightarrow> do {
                  l \<leftarrow> LoadOperationState_W E hidden opid token;
                  ret (case l of
                         Threw \<Rightarrow> Inl WCrash
                       | NotLoaded \<Rightarrow> Inl invalid_receipt
                       | Loaded s \<Rightarrow>
                           if ow_root_identity s \<noteq> bound \<or> ow_session_identity s \<noteq> Token_W (nw_id (cw_session c)) \<or>
                              ow_session_key s \<noteq> key
                           then Inl invalid_receipt else Inr (opid, s)) } } }
      | _ \<Rightarrow> ret (Inl invalid_receipt))"

definition GetPreparedContext :: "win_env \<Rightarrow> args \<Rightarrow> (win_reply + string \<times> OperationState_W \<times> Context_W) wm" where
  "GetPreparedContext E a =
     do { p \<leftarrow> Prepared_W E a;
          case p of
            Inl r \<Rightarrow> ret (Inl r)
          | Inr (opid, s) \<Rightarrow> do {
              c \<leftarrow> OpenContext_W E (map_put (EvString ''path'') (EvString (ow_path s)) a) False;
              ret (case c of Inl e \<Rightarrow> Inl (WError e) | Inr c \<Rightarrow> Inr (opid, s, c)) } }"

section \<open>Shared steps\<close>

definition IsWrite_W :: "string \<Rightarrow> bool" where
  "IsWrite_W operation \<longleftrightarrow> operation = ''write_file'' \<or> operation = ''apply_patch''"

text \<open>What stays empty, or false, when the proof has no such entry.\<close>

definition ProofString_W :: "args \<Rightarrow> string \<Rightarrow> string" where
  "ProofString_W m key = (case StringArg_W m key of None \<Rightarrow> [] | Some s \<Rightarrow> s)"

definition expect_missing_W :: "OperationState_W \<Rightarrow> bool" where
  "expect_missing_W s = (BoolArg_W (ow_proof s) ''expectMissing'' = Some True)"

definition OwnedName_W :: "string \<Rightarrow> string \<Rightarrow> wstring" where
  "OwnedName_W opid ending = wide opid @ wide ending"

definition OpenFileMaybe :: "win_env \<Rightarrow> Node_W \<Rightarrow> wstring \<Rightarrow> (bool \<times> Node_W option) wm" where
  "OpenFileMaybe E parent name =
     do { r \<leftarrow> OpenChild_W E parent name read_delete False True;
          ret (case r of (Inl _, n) \<Rightarrow> (False, n) | (Inr _, n) \<Rightarrow> (True, n)) }"

text \<open>A directory that may be there; what its opening says is not looked at.\<close>

definition open_directory_maybe :: "win_env \<Rightarrow> Node_W \<Rightarrow> wstring \<Rightarrow> (bool \<times> Node_W option) wm" where
  "open_directory_maybe E parent name =
     do { r \<leftarrow> OpenChild_W E parent name read_delete True True;
          ret (case r of (Inl _, n) \<Rightarrow> (False, n) | (Inr _, n) \<Rightarrow> (True, n)) }"

definition FileProof_W :: "win_env \<Rightarrow> Node_W option \<Rightarrow> string \<Rightarrow> string \<Rightarrow> bool wm" where
  "FileProof_W E f ident hash = (case f of None \<Rightarrow> ret False | Some n \<Rightarrow> VerifyFile E n ident hash)"

definition StageProof :: "win_env \<Rightarrow> Node_W option \<Rightarrow> string \<Rightarrow> string \<Rightarrow> bool wm" where
  "StageProof E f ident hash =
     (case f of
        None \<Rightarrow> ret False
      | Some n \<Rightarrow>
          if Token_W (nw_id n) \<noteq> ident then ret False
          else do { actual \<leftarrow> HashExact_W E n; ret (map_option fst actual = Some hash) })"

text \<open>The caller goes on with the record in its new phase.\<close>

definition Persist_W :: "win_env \<Rightarrow> Node_W \<Rightarrow> string \<Rightarrow> OperationState_W \<Rightarrow> OperationPhase \<Rightarrow> bool wm" where
  "Persist_W E hidden opid s ph = SaveOperationState_W E hidden opid (s\<lparr>ow_phase := ph\<rparr>)"

text \<open>Of the context only the session's path and identity are taken.\<close>

definition OpenDestination_W :: "win_env \<Rightarrow> Context_W \<Rightarrow> string \<Rightarrow> (string option + Node_W \<times> wstring) wm" where
  "OpenDestination_W E c destination =
     (case ParseRelative_W E destination False of
        None \<Rightarrow> ret (Inl None)
      | Some ps \<Rightarrow> do {
          r \<leftarrow> OpenParent_W E (c\<lparr>cw_parts := ps\<rparr>);
          ret (case r of Inl e \<Rightarrow> Inl (Some e) | Inr x \<Rightarrow> Inr x) })"

definition RenameDurable :: "win_env \<Rightarrow> Node_W \<Rightarrow> Node_W \<Rightarrow> Node_W \<Rightarrow> wstring \<Rightarrow> bool wm" where
  "RenameDurable E source source_parent destination_parent name =
     do { ok \<leftarrow> andM (RenameHandleRelative E source destination_parent name False) (FlushFileBuffers (nw_handle source_parent));
          if \<not> ok then ret False
          else if Token_W (nw_id source_parent) = Token_W (nw_id destination_parent) then ret True
          else FlushFileBuffers (nw_handle destination_parent) }"

text \<open>Of a node that a check before it has found open.\<close>

definition rename_open :: "win_env \<Rightarrow> Node_W option \<Rightarrow> Node_W \<Rightarrow> Node_W \<Rightarrow> wstring \<Rightarrow> bool wm" where
  "rename_open E source source_parent destination_parent name =
     (case source of None \<Rightarrow> ret False | Some n \<Rightarrow> RenameDurable E n source_parent destination_parent name)"

definition close_node :: "Node_W option \<Rightarrow> unit wm" where
  "close_node n = (case n of None \<Rightarrow> ret () | Some n \<Rightarrow> CloseHandle (nw_handle n))"

section \<open>Preparing\<close>

record request_W =
  rw_opid :: string
  rw_operation :: string
  rw_path :: string
  rw_destination :: "string option"
  rw_expect_missing :: bool
  rw_expected_id :: "string option"
  rw_expected_hash :: "string option"

definition prepare_args_W :: "args \<Rightarrow> request_W option" where
  "prepare_args_W a =
     (case (StringArg_W a ''operationId'', StringArg_W a ''operation'', StringArg_W a ''path'') of
        (Some opid, Some operation, Some p) \<Rightarrow>
          (case (NullableStringArg_W a ''destination'', BoolArg_W a ''expectMissing'',
                 NullableStringArg_W a ''expectedIdentity'', NullableStringArg_W a ''expectedHash'') of
             (Some dest, Some gone, Some ident, Some hash) \<Rightarrow>
               if \<not> SafeOperationId_W opid \<or> (operation = ''move_file'') \<noteq> (dest \<noteq> None) then None
               else Some \<lparr>rw_opid = opid, rw_operation = operation, rw_path = p, rw_destination = dest,
                          rw_expect_missing = gone, rw_expected_id = ident, rw_expected_hash = hash\<rparr>
           | _ \<Rightarrow> None)
      | _ \<Rightarrow> None)"

text \<open>The target: a file, else a directory, else nothing. The second opening replaces what the first left.\<close>

definition prepare_target_W :: "win_env \<Rightarrow> Node_W \<Rightarrow> wstring \<Rightarrow> (string + Node_W option \<times> bool) wm" where
  "prepare_target_W E parent name =
     do { r \<leftarrow> OpenChild_W E parent name read_delete False True;
          case r of
            (Inr _, n) \<Rightarrow> ret (Inr (n, False))
          | (Inl _, old) \<Rightarrow> do {
              r \<leftarrow> OpenChild_W E parent name read_delete True True;
              case r of
                (Inl e, _) \<Rightarrow> ret (Inl e)
              | (Inr _, n) \<Rightarrow> do { close_node old; ret (Inr (n, n \<noteq> None)) } } }"

definition as_expected :: "win_env \<Rightarrow> request_W \<Rightarrow> Node_W option \<Rightarrow> bool \<Rightarrow> bool wm" where
  "as_expected E q current directory =
     (if rw_expect_missing q then ret (current = None)
      else case (current, rw_expected_id q) of
        (Some n, Some ident) \<Rightarrow>
          if Token_W (nw_id n) \<noteq> ident then ret False
          else if directory then ret (rw_expected_hash q = None)
          else (case rw_expected_hash q of None \<Rightarrow> ret False | Some hash \<Rightarrow> VerifyFile E n ident hash)
      | _ \<Rightarrow> ret False)"

definition nullable :: "string option \<Rightarrow> EncodableValue" where
  "nullable s = (case s of None \<Rightarrow> EvNull | Some s \<Rightarrow> EvString s)"

definition first_proof :: "request_W \<Rightarrow> bool \<Rightarrow> args" where
  "first_proof q directory =
     map_put (EvString ''targetDirectory'') (EvBool directory)
       (map_put (EvString ''expectMissing'') (EvBool (rw_expect_missing q))
         (map_put (EvString ''expectedHash'') (nullable (rw_expected_hash q))
           (map_put (EvString ''expectedIdentity'') (nullable (rw_expected_id q)) [])))"

text \<open>A new file of the hidden directory; a failed one is deleted.\<close>

definition write_owned :: "win_env \<Rightarrow> Node_W \<Rightarrow> wstring \<Rightarrow> byte list \<Rightarrow> (Node_W \<times> string) option wm" where
  "write_owned E hidden name bs =
     do { r \<leftarrow> WriteFileExact E hidden name bs;
          case r of
            (True, Some f, hash) \<Rightarrow> ret (Some (f, hash))
          | (_, Some f, _) \<Rightarrow> do {
              _ \<leftarrow> DeleteNode E f False; _ \<leftarrow> FlushFileBuffers (nw_handle hidden); ret None }
          | (_, None, _) \<Rightarrow> ret None }"

definition stage_write :: "win_env \<Rightarrow> args \<Rightarrow> request_W \<Rightarrow> Node_W \<Rightarrow> args \<Rightarrow> (string + args) wm" where
  "stage_write E a q hidden prf =
     (case Find_W a ''bytes'' of
        Some (EvBytes bs) \<Rightarrow> do {
          r \<leftarrow> write_owned E hidden (OwnedName_W (rw_opid q) ''.stage'') bs;
          ret (case r of
                 None \<Rightarrow> Inl ''mutation_indeterminate''
               | Some (f, hash) \<Rightarrow>
                   Inr (map_put (EvString ''resultSize'') (EvInt64 (of_nat (length bs)))
                         (map_put (EvString ''resultHash'') (EvString hash)
                           (map_put (EvString ''stageIdentity'') (EvString (Token_W (nw_id f))) prf)))) }
      | _ \<Rightarrow> ret (Inl ''mutation_indeterminate''))"

definition stage_backup :: "win_env \<Rightarrow> request_W \<Rightarrow> Node_W \<Rightarrow> Node_W option \<Rightarrow> bool \<Rightarrow> args \<Rightarrow> (string + args) wm" where
  "stage_backup E q hidden current directory prf =
     (if directory then ret (Inl ''workspace_operation_unsupported'')
      else case current of
        None \<Rightarrow> ret (Inl ''stale_target'')
      | Some n \<Rightarrow> do {
          h \<leftarrow> HashExact_W E n;
          case h of
            None \<Rightarrow> ret (Inl ''stale_target'')
          | Some (_, sz) \<Rightarrow> do {
              content \<leftarrow> read_whole n sz;
              case content of
                None \<Rightarrow> ret (Inl ''metadata_changed'')
              | Some bs \<Rightarrow> do {
                  r \<leftarrow> write_owned E hidden (OwnedName_W (rw_opid q) ''.backup'') bs;
                  ret (case r of
                         None \<Rightarrow> Inl ''mutation_indeterminate''
                       | Some (f, hash) \<Rightarrow>
                           Inr (map_put (EvString ''backupHash'') (EvString hash)
                                 (map_put (EvString ''backupIdentity'') (EvString (Token_W (nw_id f))) prf))) } } })"

definition stage_directory :: "win_env \<Rightarrow> request_W \<Rightarrow> Node_W \<Rightarrow> args \<Rightarrow> (string + args) wm" where
  "stage_directory E q hidden prf =
     (let name = OwnedName_W (rw_opid q) ''.stage'' in
      do { made \<leftarrow> CreateDirectoryW E (child (nw_path hidden) name);
           if \<not> made then ret (Inl ''mutation_indeterminate'')
           else do {
             r \<leftarrow> OpenChild_W E hidden name read_delete True False;
             ret (case r of
                    (Inr _, Some n) \<Rightarrow> Inr (map_put (EvString ''stageIdentity'') (EvString (Token_W (nw_id n))) prf)
                  | _ \<Rightarrow> Inl ''mutation_indeterminate'') } })"

definition prepare_stage :: "win_env \<Rightarrow> args \<Rightarrow> request_W \<Rightarrow> Node_W \<Rightarrow> Node_W option \<Rightarrow> bool \<Rightarrow> (string + args) wm" where
  "prepare_stage E a q hidden current directory = scoped (\<lambda>_. [])
     (let prf = first_proof q directory; operation = rw_operation q in
      if IsWrite_W operation then stage_write E a q hidden prf
      else if operation = ''move_file'' \<or> operation = ''delete_file'' then stage_backup E q hidden current directory prf
      else if operation = ''make_directory'' then stage_directory E q hidden prf
      else ret (Inl ''invalid_argument''))"

text \<open>What a failed save leaves is deleted.\<close>

definition delete_owned :: "win_env \<Rightarrow> Node_W \<Rightarrow> wstring \<Rightarrow> bool \<Rightarrow> bool wm" where
  "delete_owned E hidden name directory = scoped (\<lambda>_. [])
     (do { r \<leftarrow> (if directory then open_directory_maybe E hidden name else OpenFileMaybe E hidden name);
           case snd r of None \<Rightarrow> ret True | Some n \<Rightarrow> DeleteNode E n directory })"

definition prepare_save :: "win_env \<Rightarrow> args \<Rightarrow> request_W \<Rightarrow> Context_W \<Rightarrow> Node_W \<Rightarrow> args \<Rightarrow> win_reply wm" where
  "prepare_save E a q c hidden prf =
     do { token \<leftarrow> RandomToken_W;
          case (token, StringArg_W a ''rootIdentity'', StringArg_W a ''sessionKey'') of
            (Some token, Some rt, Some key) \<Rightarrow> do {
              saved \<leftarrow> SaveOperationState_W E hidden (rw_opid q)
                \<lparr>ow_token = token, ow_root_identity = rt, ow_session_identity = Token_W (nw_id (cw_session c)),
                 ow_session_key = key, ow_operation = rw_operation q, ow_path = rw_path q,
                 ow_destination = (case rw_destination q of None \<Rightarrow> [] | Some d \<Rightarrow> d),
                 ow_has_destination = (rw_destination q \<noteq> None), ow_proof = prf, ow_phase = ph_prepared\<rparr>;
              if saved then ret (WSuccess (EvMap (Receipt_W (rw_opid q) token)))
              else do {
                _ \<leftarrow> delete_owned E hidden (OwnedName_W (rw_opid q) ''.stage'') (rw_operation q = ''make_directory'');
                _ \<leftarrow> delete_owned E hidden (OwnedName_W (rw_opid q) ''.backup'') False;
                _ \<leftarrow> FlushFileBuffers (nw_handle hidden);
                ret (WError ''mutation_indeterminate'') } }
          | _ \<Rightarrow> ret (WError ''mutation_indeterminate'') }"

definition prepare_in_parent :: "win_env \<Rightarrow> args \<Rightarrow> request_W \<Rightarrow> Context_W \<Rightarrow> Node_W \<Rightarrow> Node_W \<Rightarrow> wstring \<Rightarrow> win_reply wm" where
  "prepare_in_parent E a q c hidden parent name =
     do { t \<leftarrow> prepare_target_W E parent name;
          case t of
            Inl e \<Rightarrow> ret (WError e)
          | Inr (current, directory) \<Rightarrow> do {
              ok \<leftarrow> as_expected E q current directory;
              if \<not> ok then ret (WError ''stale_target'')
              else do {
                p \<leftarrow> prepare_stage E a q hidden current directory;
                case p of Inl e \<Rightarrow> ret (WError e) | Inr prf \<Rightarrow> prepare_save E a q c hidden prf } } }"

definition nothing_owned :: "win_env \<Rightarrow> Node_W \<Rightarrow> string \<Rightarrow> bool wm" where
  "nothing_owned E hidden opid =
     andM (Missing_W E (child (nw_path hidden) (OwnedName_W opid ''.stage'')))
       (andM (Missing_W E (child (nw_path hidden) (OwnedName_W opid ''.backup'')))
         (Missing_W E (child (nw_path hidden) (OwnedName_W opid ''.old''))))"

definition HandlePrepare_W :: "win_env \<Rightarrow> args \<Rightarrow> win_reply wm" where
  "HandlePrepare_W E a = scoped (\<lambda>_. [])
     (case prepare_args_W a of
        None \<Rightarrow> ret (WError ''invalid_argument'')
      | Some q \<Rightarrow> do {
          c \<leftarrow> OpenContext_W E a True;
          case c of
            Inl e \<Rightarrow> ret (WError e)
          | Inr c \<Rightarrow> do {
              h \<leftarrow> EnsureHidden_W E c;
              case h of
                Inl e \<Rightarrow> ret (WError e)
              | Inr hidden \<Rightarrow> do {
                  fresh \<leftarrow> nothing_owned E hidden (rw_opid q);
                  if \<not> fresh then ret (WError ''operation_exists'')
                  else do {
                    p \<leftarrow> OpenParent_W E c;
                    case p of
                      Inl e \<Rightarrow> ret (WError e)
                    | Inr (parent, name) \<Rightarrow> prepare_in_parent E a q c hidden parent name } } } })"

end
