(* ===== verification/Win_Commit.thy ===== *)
theory Win_Commit
  imports Win_Mutations
begin

text \<open>
  \<^verbatim>\<open>HandleCommit\<close> of \<^verbatim>\<open>windows/runner/session_workspace_prepare_commit.cpp\<close>: one function for each branch
  over the operation. A branch gives the error it ends with, or the record in the phase it has reached. When a branch goes on, the
  nodes it has declared itself are closed; the target of a write, a deletion and a move stays open until the
  handler returns, as all do after an error.
\<close>

definition indeterminate :: "string + 'a" where
  "indeterminate = Inl ''mutation_indeterminate''"

text \<open>The part of a replacement that moves the target away, and what is then open.\<close>

definition quarantine_target ::
    "win_env \<Rightarrow> string \<Rightarrow> OperationState_W \<Rightarrow> Node_W \<Rightarrow> Node_W \<Rightarrow> Node_W option \<Rightarrow> Node_W option
     \<Rightarrow> (string + OperationState_W \<times> Node_W option \<times> Node_W option) wm" where
  "quarantine_target E opid s hidden parent target old =
     (let ident = ProofString_W (ow_proof s) ''expectedIdentity''; hash = ProofString_W (ow_proof s) ''expectedHash'' in
      do { moved \<leftarrow> andM (FileProof_W E target ident hash)
             (andM (ret (old = None))
               (andM (Persist_W E hidden opid s ph_targetQuarantining)
                 (rename_open E target parent hidden (OwnedName_W opid ''.old''))));
           if \<not> moved then ret indeterminate
           else do {
             close_node target;
             r \<leftarrow> OpenFileMaybe E hidden (OwnedName_W opid ''.old'');
             kept \<leftarrow> andM (FileProof_W E (snd r) ident hash)
               (Persist_W E hidden opid (s\<lparr>ow_phase := ph_targetQuarantining\<rparr>) ph_targetQuarantined);
             ret (if kept then Inr (s\<lparr>ow_phase := ph_targetQuarantined\<rparr>, None, snd r) else indeterminate) } })"

text \<open>A first write must find nothing; a replacement that was interrupted goes on when its target is away.\<close>

definition resume_write ::
    "win_env \<Rightarrow> string \<Rightarrow> OperationState_W \<Rightarrow> Node_W \<Rightarrow> Node_W option \<Rightarrow> Node_W option \<Rightarrow> (string + OperationState_W) wm" where
  "resume_write E opid s hidden target old =
     (if expect_missing_W s \<and> ow_phase s = ph_prepared then
        ret (if target \<noteq> None then Inl ''stale_target'' else Inr s)
      else if \<not> expect_missing_W s \<and> ow_phase s = ph_targetQuarantining then do {
        away \<leftarrow> andM (ret (target = None))
          (FileProof_W E old (ProofString_W (ow_proof s) ''expectedIdentity'') (ProofString_W (ow_proof s) ''expectedHash''));
        kept \<leftarrow> (if away then Persist_W E hidden opid s ph_targetQuarantined else ret False);
        ret (if kept then Inr (s\<lparr>ow_phase := ph_targetQuarantined\<rparr>) else indeterminate) }
      else ret (Inr s))"

definition install_stage ::
    "win_env \<Rightarrow> string \<Rightarrow> OperationState_W \<Rightarrow> Node_W \<Rightarrow> Node_W \<Rightarrow> wstring \<Rightarrow> Node_W option \<Rightarrow> Node_W option
     \<Rightarrow> (string + OperationState_W) wm" where
  "install_stage E opid s hidden parent name stage target =
     (if ow_phase s = ph_prepared \<or> ow_phase s = ph_targetQuarantined then do {
        ok \<leftarrow> andM (StageProof E stage (ProofString_W (ow_proof s) ''stageIdentity'') (ProofString_W (ow_proof s) ''resultHash''))
          (andM (ret (target = None))
            (andM (Persist_W E hidden opid s ph_stageInstalling) (rename_open E stage hidden parent name)));
        ret (if ok then Inr (s\<lparr>ow_phase := ph_stageInstalling\<rparr>) else indeterminate) }
      else if ow_phase s \<noteq> ph_stageInstalling then ret (Inl ''invalid_prepared_receipt'')
      else ret (Inr s))"

definition commit_write_W ::
    "win_env \<Rightarrow> string \<Rightarrow> OperationState_W \<Rightarrow> Node_W \<Rightarrow> Node_W \<Rightarrow> wstring \<Rightarrow> (string + OperationState_W) wm" where
  "commit_write_W E opid s hidden parent name =
     do { st \<leftarrow> OpenFileMaybe E hidden (OwnedName_W opid ''.stage'');
          ol \<leftarrow> OpenFileMaybe E hidden (OwnedName_W opid ''.old'');
          tg \<leftarrow> OpenFileMaybe E parent name;
          q \<leftarrow> (if \<not> expect_missing_W s \<and> ow_phase s = ph_prepared
                then quarantine_target E opid s hidden parent (snd tg) (snd ol)
                else ret (Inr (s, snd tg, snd ol)));
          case q of
            Inl e \<Rightarrow> ret (Inl e)
          | Inr (s, target, old) \<Rightarrow> do {
              r \<leftarrow> resume_write E opid s hidden target old;
              case r of
                Inl e \<Rightarrow> ret (Inl e)
              | Inr s \<Rightarrow> do {
                  i \<leftarrow> install_stage E opid s hidden parent name (snd st) target;
                  close_node (snd st);
                  close_node old;
                  ret i } } }"

definition commit_delete_W ::
    "win_env \<Rightarrow> string \<Rightarrow> OperationState_W \<Rightarrow> Node_W \<Rightarrow> Node_W \<Rightarrow> wstring \<Rightarrow> (string + OperationState_W) wm" where
  "commit_delete_W E opid s hidden parent name =
     (if ow_phase s = ph_prepared then do {
        tg \<leftarrow> OpenFileMaybe E parent name;
        ok \<leftarrow> andM (ret (fst tg))
          (andM (FileProof_W E (snd tg) (ProofString_W (ow_proof s) ''expectedIdentity'') (ProofString_W (ow_proof s) ''expectedHash''))
            (andM (Missing_W E (child (nw_path hidden) (OwnedName_W opid ''.stage'')))
              (andM (Persist_W E hidden opid s ph_targetQuarantining)
                (andM (rename_open E (snd tg) parent hidden (OwnedName_W opid ''.stage''))
                  (Persist_W E hidden opid (s\<lparr>ow_phase := ph_targetQuarantining\<rparr>) ph_targetQuarantined)))));
        ret (if ok then Inr (s\<lparr>ow_phase := ph_targetQuarantined\<rparr>) else indeterminate) }
      else if ow_phase s \<noteq> ph_targetQuarantined then ret indeterminate
      else ret (Inr s))"

definition commit_move_W ::
    "win_env \<Rightarrow> string \<Rightarrow> OperationState_W \<Rightarrow> Context_W \<Rightarrow> Node_W \<Rightarrow> Node_W \<Rightarrow> wstring \<Rightarrow> (string + OperationState_W) wm" where
  "commit_move_W E opid s c hidden parent name =
     do { d \<leftarrow> (if \<not> ow_has_destination s then ret (Inl None) else OpenDestination_W E c (ow_destination s));
          case d of
            Inl _ \<Rightarrow> ret (Inl ''invalid_prepared_receipt'')
          | Inr (destination_parent, destination_name) \<Rightarrow>
              if ow_phase s = ph_prepared then do {
                tg \<leftarrow> OpenFileMaybe E parent name;
                ok \<leftarrow> andM (ret (fst tg))
                  (andM (FileProof_W E (snd tg) (ProofString_W (ow_proof s) ''expectedIdentity'') (ProofString_W (ow_proof s) ''expectedHash''))
                    (andM (Missing_W E (child (nw_path destination_parent) destination_name))
                      (andM (Persist_W E hidden opid s ph_stageInstalling)
                        (rename_open E (snd tg) parent destination_parent destination_name))));
                CloseHandle (nw_handle destination_parent);
                ret (if ok then Inr (s\<lparr>ow_phase := ph_stageInstalling\<rparr>) else indeterminate) }
              else do {
                CloseHandle (nw_handle destination_parent);
                ret (if ow_phase s \<noteq> ph_stageInstalling then indeterminate else Inr s) } }"

definition commit_directory ::
    "win_env \<Rightarrow> string \<Rightarrow> OperationState_W \<Rightarrow> Node_W \<Rightarrow> Node_W \<Rightarrow> wstring \<Rightarrow> (string + OperationState_W) wm" where
  "commit_directory E opid s hidden parent name =
     (if ow_phase s = ph_prepared then do {
        r \<leftarrow> OpenChild_W E hidden (OwnedName_W opid ''.stage'') read_delete True False;
        ok \<leftarrow> andM (ret (case r of
                            (Inr _, Some n) \<Rightarrow> Token_W (nw_id n) = ProofString_W (ow_proof s) ''stageIdentity''
                          | _ \<Rightarrow> False))
          (andM (Missing_W E (child (nw_path parent) name))
            (andM (Persist_W E hidden opid s ph_stageInstalling) (rename_open E (snd r) hidden parent name)));
        close_node (snd r);
        ret (if ok then Inr (s\<lparr>ow_phase := ph_stageInstalling\<rparr>) else indeterminate) }
      else if ow_phase s \<noteq> ph_stageInstalling then ret indeterminate
      else ret (Inr s))"

definition commit_operation_W ::
    "win_env \<Rightarrow> string \<Rightarrow> OperationState_W \<Rightarrow> Context_W \<Rightarrow> Node_W \<Rightarrow> Node_W \<Rightarrow> wstring \<Rightarrow> (string + OperationState_W) wm" where
  "commit_operation_W E opid s c hidden parent name =
     (if IsWrite_W (ow_operation s) then commit_write_W E opid s hidden parent name
      else if ow_operation s = ''delete_file'' then commit_delete_W E opid s hidden parent name
      else if ow_operation s = ''move_file'' then commit_move_W E opid s c hidden parent name
      else if ow_operation s = ''make_directory'' then commit_directory E opid s hidden parent name
      else ret (Inl ''invalid_prepared_receipt''))"

definition commit_in_parent ::
    "win_env \<Rightarrow> string \<Rightarrow> OperationState_W \<Rightarrow> Context_W \<Rightarrow> Node_W \<Rightarrow> Node_W \<Rightarrow> wstring \<Rightarrow> win_reply wm" where
  "commit_in_parent E opid s c hidden parent name =
     (if ow_phase s = ph_committed then ret (WSuccess EvNull)
      else do {
        r \<leftarrow> commit_operation_W E opid s c hidden parent name;
        case r of
          Inl e \<Rightarrow> ret (WError e)
        | Inr s \<Rightarrow> do {
            done' \<leftarrow> Persist_W E hidden opid s ph_committed;
            ret (if done' then WSuccess EvNull else WError ''mutation_indeterminate'') } })"

definition HandleCommit_W :: "win_env \<Rightarrow> args \<Rightarrow> win_reply wm" where
  "HandleCommit_W E a = scoped (\<lambda>_. [])
     (do { p \<leftarrow> GetPreparedContext E a;
           case p of
             Inl r \<Rightarrow> ret r
           | Inr (opid, s, c) \<Rightarrow> do {
               h \<leftarrow> EnsureHidden_W E c;
               case h of
                 Inl e \<Rightarrow> ret (WError e)
               | Inr hidden \<Rightarrow> do {
                   d \<leftarrow> OpenParent_W E c;
                   case d of
                     Inl e \<Rightarrow> ret (WError e)
                   | Inr (parent, name) \<Rightarrow> commit_in_parent E opid s c hidden parent name } } })"

end
