(* ===== verification/Win_Recovery.thy ===== *)
theory Win_Recovery
  imports Win_Commit
begin

text \<open>
  Reconciling, rolling back and cleaning up an operation on Windows,
  \<^verbatim>\<open>windows/runner/session_workspace_recovery.cpp\<close>.
\<close>

definition RecoverySetup_W ::
    "win_env \<Rightarrow> args \<Rightarrow> (win_reply + string \<times> OperationState_W \<times> Context_W \<times> Node_W) wm" where
  "RecoverySetup_W E a =
     do { p \<leftarrow> GetPreparedContext E a;
          case p of
            Inl r \<Rightarrow> ret (Inl r)
          | Inr (opid, s, c) \<Rightarrow> do {
              h \<leftarrow> EnsureHidden_W E c;
              ret (case h of Inl e \<Rightarrow> Inl (WError e) | Inr hidden \<Rightarrow> Inr (opid, s, c, hidden)) } }"

abbreviation expected_id_of :: "OperationState_W \<Rightarrow> string" where
  "expected_id_of s \<equiv> ProofString_W (ow_proof s) ''expectedIdentity''"

abbreviation expected_hash_of :: "OperationState_W \<Rightarrow> string" where
  "expected_hash_of s \<equiv> ProofString_W (ow_proof s) ''expectedHash''"

abbreviation stage_id_of :: "OperationState_W \<Rightarrow> string" where
  "stage_id_of s \<equiv> ProofString_W (ow_proof s) ''stageIdentity''"

abbreviation stage_hash_of :: "OperationState_W \<Rightarrow> string" where
  "stage_hash_of s \<equiv> ProofString_W (ow_proof s) ''resultHash''"

section \<open>Reconciling\<close>

text \<open>A quarantine that was interrupted: done, not begun, or neither.\<close>

definition reconcile_quarantine ::
    "win_env \<Rightarrow> string \<Rightarrow> OperationState_W \<Rightarrow> Context_W \<Rightarrow> Node_W \<Rightarrow> (string + OperationState_W) wm" where
  "reconcile_quarantine E opid s c hidden = scoped (\<lambda>_. [])
     (do { d \<leftarrow> OpenParent_W E c;
           case d of
             Inl e \<Rightarrow> ret (Inl e)
           | Inr (parent, name) \<Rightarrow> do {
               tg \<leftarrow> OpenFileMaybe E parent name;
               ol \<leftarrow> OpenFileMaybe E hidden (OwnedName_W opid ''.old'');
               away \<leftarrow> andM (ret (snd tg = None)) (FileProof_W E (snd ol) (expected_id_of s) (expected_hash_of s));
               if away then do {
                 kept \<leftarrow> Persist_W E hidden opid s ph_targetQuarantined;
                 ret (if kept then Inr (s\<lparr>ow_phase := ph_targetQuarantined\<rparr>) else indeterminate) }
               else do {
                 there \<leftarrow> FileProof_W E (snd tg) (expected_id_of s) (expected_hash_of s);
                 ret (if \<not> there \<or> snd ol \<noteq> None then indeterminate else Inr s) } } })"

text \<open>Whether the operation has taken effect, whether everything is as before.\<close>

definition evidence_write ::
    "win_env \<Rightarrow> OperationState_W \<Rightarrow> Node_W option \<Rightarrow> Node_W option \<Rightarrow> Node_W option \<Rightarrow> (bool \<times> bool) wm" where
  "evidence_write E s target stage old =
     do { committed \<leftarrow> andM (StageProof E target (stage_id_of s) (stage_hash_of s))
            (andM (ret (stage = None))
              (orM (ret (expect_missing_W s)) (FileProof_W E old (expected_id_of s) (expected_hash_of s))));
          before \<leftarrow> (if expect_missing_W s
                     then andM (ret (target = None)) (StageProof E stage (stage_id_of s) (stage_hash_of s))
                     else andM (FileProof_W E target (expected_id_of s) (expected_hash_of s))
                       (andM (StageProof E stage (stage_id_of s) (stage_hash_of s)) (ret (old = None))));
          away \<leftarrow> andM (ret (\<not> expect_missing_W s \<and> target = None))
            (andM (FileProof_W E old (expected_id_of s) (expected_hash_of s))
              (StageProof E stage (stage_id_of s) (stage_hash_of s)));
          ret (committed, before \<or> away) }"

definition evidence_delete :: "win_env \<Rightarrow> OperationState_W \<Rightarrow> Node_W option \<Rightarrow> Node_W option \<Rightarrow> (bool \<times> bool) wm" where
  "evidence_delete E s target stage =
     do { committed \<leftarrow> andM (ret (target = None)) (FileProof_W E stage (expected_id_of s) (expected_hash_of s));
          before \<leftarrow> andM (FileProof_W E target (expected_id_of s) (expected_hash_of s)) (ret (stage = None));
          ret (committed, before) }"

text \<open>\<open>None\<close>: the destination could not be opened.\<close>

definition evidence_move ::
    "win_env \<Rightarrow> OperationState_W \<Rightarrow> Context_W \<Rightarrow> Node_W option \<Rightarrow> (bool \<times> bool) option wm" where
  "evidence_move E s c target = scoped (\<lambda>_. [])
     (do { d \<leftarrow> OpenDestination_W E c (ow_destination s);
           case d of
             Inl _ \<Rightarrow> ret None
           | Inr (parent, name) \<Rightarrow> do {
               mv \<leftarrow> OpenFileMaybe E parent name;
               committed \<leftarrow> andM (ret (target = None)) (FileProof_W E (snd mv) (expected_id_of s) (expected_hash_of s));
               before \<leftarrow> andM (FileProof_W E target (expected_id_of s) (expected_hash_of s)) (ret (snd mv = None));
               ret (Some (committed, before)) } })"

definition has_identity :: "Node_W option \<Rightarrow> string \<Rightarrow> bool" where
  "has_identity n ident = (case n of None \<Rightarrow> False | Some n \<Rightarrow> Token_W (nw_id n) = ident)"

definition evidence_directory ::
    "win_env \<Rightarrow> string \<Rightarrow> OperationState_W \<Rightarrow> Node_W \<Rightarrow> Node_W \<Rightarrow> wstring \<Rightarrow> (bool \<times> bool) wm" where
  "evidence_directory E opid s hidden parent name = scoped (\<lambda>_. [])
     (do { d \<leftarrow> open_directory_maybe E parent name;
           st \<leftarrow> open_directory_maybe E hidden (OwnedName_W opid ''.stage'');
           ret (has_identity (snd d) (stage_id_of s) \<and> snd st = None,
                snd d = None \<and> has_identity (snd st) (stage_id_of s)) })"

definition evidence ::
    "win_env \<Rightarrow> string \<Rightarrow> OperationState_W \<Rightarrow> Context_W \<Rightarrow> Node_W \<Rightarrow> Node_W \<Rightarrow> wstring \<Rightarrow> (bool \<times> bool) option wm" where
  "evidence E opid s c hidden parent name =
     do { tg \<leftarrow> OpenFileMaybe E parent name;
          st \<leftarrow> OpenFileMaybe E hidden (OwnedName_W opid ''.stage'');
          ol \<leftarrow> OpenFileMaybe E hidden (OwnedName_W opid ''.old'');
          if IsWrite_W (ow_operation s) then do { r \<leftarrow> evidence_write E s (snd tg) (snd st) (snd ol); ret (Some r) }
          else if ow_operation s = ''delete_file'' then do { r \<leftarrow> evidence_delete E s (snd tg) (snd st); ret (Some r) }
          else if ow_operation s = ''move_file'' then evidence_move E s c (snd tg)
          else if ow_operation s = ''make_directory'' then do { r \<leftarrow> evidence_directory E opid s hidden parent name; ret (Some r) }
          else ret (Some (False, False)) }"

definition ReplyState_W :: "string \<Rightarrow> win_reply" where
  "ReplyState_W s = WSuccess (EvString s)"

definition reconcile_in_parent ::
    "win_env \<Rightarrow> string \<Rightarrow> OperationState_W \<Rightarrow> Context_W \<Rightarrow> Node_W \<Rightarrow> Node_W \<Rightarrow> wstring \<Rightarrow> win_reply wm" where
  "reconcile_in_parent E opid s c hidden parent name =
     do { e \<leftarrow> evidence E opid s c hidden parent name;
          case e of
            None \<Rightarrow> ret (ReplyState_W ''indeterminate'')
          | Some (committed, before) \<Rightarrow>
              if committed then do {
                kept \<leftarrow> (if ow_phase s = ph_committed then ret True else Persist_W E hidden opid s ph_committed);
                ret (if kept then ReplyState_W ''committed'' else WError ''mutation_indeterminate'') }
              else ret (ReplyState_W (if before then ''notCommitted'' else ''indeterminate'')) }"

definition settle_quarantine ::
    "win_env \<Rightarrow> string \<Rightarrow> OperationState_W \<Rightarrow> Context_W \<Rightarrow> Node_W \<Rightarrow> (string + OperationState_W) wm" where
  "settle_quarantine E opid s c hidden =
     (if ow_phase s = ph_targetQuarantining \<and> IsWrite_W (ow_operation s)
      then reconcile_quarantine E opid s c hidden else ret (Inr s))"

definition HandleReconcile_W :: "win_env \<Rightarrow> args \<Rightarrow> win_reply wm" where
  "HandleReconcile_W E a = scoped (\<lambda>_. [])
     (do { p \<leftarrow> RecoverySetup_W E a;
           case p of
             Inl r \<Rightarrow> ret r
           | Inr (opid, s, c, hidden) \<Rightarrow>
               if ow_phase s = ph_rolledBack then ret (ReplyState_W ''rolledBack'')
               else do {
                 q \<leftarrow> settle_quarantine E opid s c hidden;
                 case q of
                   Inl e \<Rightarrow> ret (WError e)
                 | Inr s \<Rightarrow> do {
                     d \<leftarrow> OpenParent_W E c;
                     case d of
                       Inl e \<Rightarrow> ret (WError e)
                     | Inr (parent, name) \<Rightarrow> reconcile_in_parent E opid s c hidden parent name } } })"

section \<open>Rolling back\<close>

text \<open>An opened file or directory is deleted and its directory flushed.\<close>

definition delete_durably :: "win_env \<Rightarrow> Node_W option \<Rightarrow> bool \<Rightarrow> Node_W \<Rightarrow> bool wm" where
  "delete_durably E n directory parent =
     (case n of
        None \<Rightarrow> ret False
      | Some n \<Rightarrow> andM (DeleteNode E n directory) (FlushFileBuffers (nw_handle parent)))"

definition rollback_write ::
    "win_env \<Rightarrow> string \<Rightarrow> OperationState_W \<Rightarrow> Node_W \<Rightarrow> Node_W \<Rightarrow> wstring \<Rightarrow> Node_W option \<Rightarrow> bool wm" where
  "rollback_write E opid s hidden parent name target = scoped (\<lambda>_. [])
     (do { st \<leftarrow> OpenFileMaybe E hidden (OwnedName_W opid ''.stage'');
           ol \<leftarrow> OpenFileMaybe E hidden (OwnedName_W opid ''.old'');
           if expect_missing_W s then do {
             ours \<leftarrow> StageProof E target (stage_id_of s) (stage_hash_of s);
             if ours then delete_durably E target False parent else ret (target = None) }
           else do {
             kept \<leftarrow> FileProof_W E (snd ol) (expected_id_of s) (expected_hash_of s);
             if kept then do {
               ours \<leftarrow> andM (ret (target \<noteq> None)) (StageProof E target (stage_id_of s) (stage_hash_of s));
               free \<leftarrow> (if ours then delete_durably E target False parent else ret (target = None));
               if free then rename_open E (snd ol) hidden parent name else ret False }
             else FileProof_W E target (expected_id_of s) (expected_hash_of s) } })"

text \<open>A file that was moved away comes back, if its place is free; what is in its place must be the old file.\<close>

definition bring_back ::
    "win_env \<Rightarrow> OperationState_W \<Rightarrow> Node_W option \<Rightarrow> Node_W \<Rightarrow> Node_W \<Rightarrow> wstring \<Rightarrow> Node_W option \<Rightarrow> bool wm" where
  "bring_back E s moved source_parent parent name target =
     do { back' \<leftarrow> andM (ret (target = None)) (FileProof_W E moved (expected_id_of s) (expected_hash_of s));
          ok \<leftarrow> (if back' then rename_open E moved source_parent parent name else ret True);
          if \<not> ok then ret False
          else if target = None then ret True
          else FileProof_W E target (expected_id_of s) (expected_hash_of s) }"

definition rollback_delete ::
    "win_env \<Rightarrow> string \<Rightarrow> OperationState_W \<Rightarrow> Node_W \<Rightarrow> Node_W \<Rightarrow> wstring \<Rightarrow> Node_W option \<Rightarrow> bool wm" where
  "rollback_delete E opid s hidden parent name target = scoped (\<lambda>_. [])
     (do { qu \<leftarrow> OpenFileMaybe E hidden (OwnedName_W opid ''.stage'');
           bring_back E s (snd qu) hidden parent name target })"

definition reply_code :: "string option \<Rightarrow> win_reply" where
  "reply_code e = (case e of None \<Rightarrow> WCrash | Some e \<Rightarrow> WError e)"

definition ok_or_indeterminate :: "bool \<Rightarrow> win_reply + unit" where
  "ok_or_indeterminate ok = (if ok then Inr () else Inl (WError ''mutation_indeterminate''))"

definition rollback_move ::
    "win_env \<Rightarrow> OperationState_W \<Rightarrow> Context_W \<Rightarrow> Node_W \<Rightarrow> wstring \<Rightarrow> Node_W option \<Rightarrow> (win_reply + unit) wm" where
  "rollback_move E s c parent name target = scoped (\<lambda>_. [])
     (do { d \<leftarrow> OpenDestination_W E c (ow_destination s);
           case d of
             Inl e \<Rightarrow> ret (Inl (reply_code e))
           | Inr (destination_parent, destination_name) \<Rightarrow> do {
               mv \<leftarrow> OpenFileMaybe E destination_parent destination_name;
               ok \<leftarrow> bring_back E s (snd mv) destination_parent parent name target;
               ret (ok_or_indeterminate ok) } })"

definition rollback_directory ::
    "win_env \<Rightarrow> OperationState_W \<Rightarrow> Node_W \<Rightarrow> wstring \<Rightarrow> bool wm" where
  "rollback_directory E s parent name = scoped (\<lambda>_. [])
     (do { d \<leftarrow> open_directory_maybe E parent name;
           case d of
             (True, Some n) \<Rightarrow>
               if Token_W (nw_id n) \<noteq> stage_id_of s then ret False else delete_durably E (Some n) True parent
           | _ \<Rightarrow> ret True })"

definition rollback_operation ::
    "win_env \<Rightarrow> string \<Rightarrow> OperationState_W \<Rightarrow> Context_W \<Rightarrow> Node_W \<Rightarrow> Node_W \<Rightarrow> wstring \<Rightarrow> (win_reply + unit) wm" where
  "rollback_operation E opid s c hidden parent name =
     do { tg \<leftarrow> OpenFileMaybe E parent name;
          if IsWrite_W (ow_operation s) then do {
            ok \<leftarrow> rollback_write E opid s hidden parent name (snd tg); ret (ok_or_indeterminate ok) }
          else if ow_operation s = ''delete_file'' then do {
            ok \<leftarrow> rollback_delete E opid s hidden parent name (snd tg); ret (ok_or_indeterminate ok) }
          else if ow_operation s = ''move_file'' then rollback_move E s c parent name (snd tg)
          else if ow_operation s = ''make_directory'' then do {
            ok \<leftarrow> rollback_directory E s parent name; ret (ok_or_indeterminate ok) }
          else ret (Inr ()) }"

definition HandleRollback_W :: "win_env \<Rightarrow> args \<Rightarrow> win_reply wm" where
  "HandleRollback_W E a = scoped (\<lambda>_. [])
     (do { p \<leftarrow> RecoverySetup_W E a;
           case p of
             Inl r \<Rightarrow> ret r
           | Inr (opid, s, c, hidden) \<Rightarrow>
               if ow_phase s = ph_rolledBack then ret (WSuccess EvNull)
               else if ow_phase s = ph_committed then ret (WError ''already_committed'')
               else do {
                 d \<leftarrow> OpenParent_W E c;
                 case d of
                   Inl e \<Rightarrow> ret (WError e)
                 | Inr (parent, name) \<Rightarrow> do {
                     r \<leftarrow> rollback_operation E opid s c hidden parent name;
                     case r of
                       Inl e \<Rightarrow> ret e
                     | Inr _ \<Rightarrow> do {
                         kept \<leftarrow> Persist_W E hidden opid s ph_rolledBack;
                         ret (if kept then WSuccess EvNull else WError ''mutation_indeterminate'') } } } })"

section \<open>Cleaning up\<close>

definition cleanup_files :: "win_env \<Rightarrow> string \<Rightarrow> OperationState_W \<Rightarrow> Node_W \<Rightarrow> win_reply wm" where
  "cleanup_files E opid s hidden =
     do { ok \<leftarrow> andM (delete_owned E hidden (OwnedName_W opid ''.stage'') (ow_operation s = ''make_directory''))
            (andM (delete_owned E hidden (OwnedName_W opid ''.backup'') False)
              (andM (delete_owned E hidden (OwnedName_W opid ''.old'') False)
                (DeleteOperationState_W E hidden opid)));
          ret (if ok then WSuccess EvNull else WError ''mutation_indeterminate'') }"

definition nothing_left :: "win_env \<Rightarrow> Node_W \<Rightarrow> string \<Rightarrow> bool wm" where
  "nothing_left E hidden opid =
     andM (Missing_W E (child (nw_path hidden) (OwnedName_W opid ''.state''))) (nothing_owned E hidden opid)"

definition HandleCleanup_W :: "win_env \<Rightarrow> args \<Rightarrow> win_reply wm" where
  "HandleCleanup_W E a = scoped (\<lambda>_. [])
     (case receipt_of a of
        None \<Rightarrow> ret invalid_receipt
      | Some (opid, token) \<Rightarrow> do {
          c \<leftarrow> OpenContext_W E (map_put (EvString ''path'') (EvString []) a) False;
          case c of
            Inl e \<Rightarrow> ret (if e = ''not_found'' then WSuccess EvNull else WError e)
          | Inr c \<Rightarrow> do {
              h \<leftarrow> EnsureHidden_W E c;
              case h of
                Inl e \<Rightarrow> ret (WError e)
              | Inr hidden \<Rightarrow> do {
                  l \<leftarrow> LoadOperationState_W E hidden opid token;
                  case l of
                    Threw \<Rightarrow> ret WCrash
                  | NotLoaded \<Rightarrow> do { gone \<leftarrow> nothing_left E hidden opid; ret (if gone then WSuccess EvNull else invalid_receipt) }
                  | Loaded s \<Rightarrow>
                      if ow_root_identity s \<noteq> Token_W (nw_id (cw_root c)) \<or>
                         ow_session_identity s \<noteq> Token_W (nw_id (cw_session c))
                      then ret invalid_receipt else cleanup_files E opid s hidden } } })"

end
