(* ===== verification/Win_Read.thy ===== *)
theory Win_Read
  imports Win_Recovery
begin

text \<open>
  The reading handlers on Windows, \<^verbatim>\<open>windows/runner/session_workspace_read.cpp\<close>, and the dispatch of
  \<^verbatim>\<open>session_workspace_channel.cpp\<close>.
\<close>

section \<open>Metadata\<close>

definition Entry_W :: "string \<Rightarrow> Node_W \<Rightarrow> bool \<Rightarrow> string option \<Rightarrow> args" where
  "Entry_W p n directory hash =
     (let m = map_put (EvString ''path'') (EvString p)
                (map_put (EvString ''type'') (EvString (if directory then ''directory'' else ''file''))
                  (map_put (EvString ''size'') (EvInt64 (if directory then 0 else of_nat (wi_size (nw_info n))))
                    (map_put (EvString ''identity'') (EvString (Token_W (nw_id n))) [])))
      in case hash of None \<Rightarrow> m | Some h \<Rightarrow> map_put (EvString ''sha256'') (EvString h) m)"

definition path_arg_W :: "args \<Rightarrow> string" where
  "path_arg_W a = (case StringArg_W a ''path'' of None \<Rightarrow> [] | Some p \<Rightarrow> p)"

text \<open>A directory, else a file, else nothing.\<close>

definition metadata_target :: "win_env \<Rightarrow> Node_W \<Rightarrow> wstring \<Rightarrow> (string + Node_W option) wm" where
  "metadata_target E parent name =
     do { r \<leftarrow> OpenChild_W E parent name read_only True True;
          case r of
            (Inr _, n) \<Rightarrow> ret (Inr n)
          | (Inl _, old) \<Rightarrow> do {
              r \<leftarrow> OpenChild_W E parent name read_only False True;
              case r of
                (Inl e, _) \<Rightarrow> ret (Inl e)
              | (Inr _, n) \<Rightarrow> do { close_node old; ret (Inr n) } } }"

definition metadata_reply :: "win_env \<Rightarrow> args \<Rightarrow> Node_W option \<Rightarrow> win_reply wm" where
  "metadata_reply E a n =
     (case n of
        None \<Rightarrow> ret (WSuccess EvNull)
      | Some n \<Rightarrow>
          if wi_directory (nw_info n) then ret (WSuccess (EvMap (Entry_W (path_arg_W a) n True None)))
          else do {
            h \<leftarrow> HashExact_W E n;
            ret (case h of
                   None \<Rightarrow> WError ''workspace_file_too_large''
                 | Some (hash, _) \<Rightarrow> WSuccess (EvMap (Entry_W (path_arg_W a) n False (Some hash)))) })"

definition HandleMetadata_W :: "win_env \<Rightarrow> args \<Rightarrow> win_reply wm" where
  "HandleMetadata_W E a = scoped (\<lambda>_. [])
     (do { c \<leftarrow> OpenContext_W E a False;
           case c of
             Inl e \<Rightarrow> ret (if e = ''not_found'' then WSuccess EvNull else WError e)
           | Inr c \<Rightarrow> do {
               d \<leftarrow> OpenParent_W E c;
               case d of
                 Inl e \<Rightarrow> ret (if e = ''parent_missing'' then WSuccess EvNull else WError e)
               | Inr (parent, name) \<Rightarrow> do {
                   t \<leftarrow> metadata_target E parent name;
                   case t of Inl e \<Rightarrow> ret (WError e) | Inr n \<Rightarrow> metadata_reply E a n } } })"

section \<open>Listings\<close>

text \<open>The name of an entry as it is sent, when it is one that a path may have.\<close>

definition child_name :: "win_env \<Rightarrow> wstring \<Rightarrow> string option" where
  "child_name E name =
     (case we_utf8 E name of
        None \<Rightarrow> None
      | Some s \<Rightarrow> (case ParseRelative_W E s False of Some [_] \<Rightarrow> Some s | _ \<Rightarrow> None))"

text \<open>One entry that was found; \<open>into\<close> lists a directory below. \<^verbatim>\<open>child\<close> is closed at the end.\<close>

definition list_one ::
    "(Node_W \<Rightarrow> string \<Rightarrow> EncodableValue list \<Rightarrow> (string + EncodableValue list) wm) \<Rightarrow> win_env \<Rightarrow> Node_W \<Rightarrow> string
     \<Rightarrow> bool \<Rightarrow> wstring \<Rightarrow> bool \<Rightarrow> EncodableValue list \<Rightarrow> (string + EncodableValue list) wm" where
  "list_one into E d pre recursive name directory out =
     (if name \<noteq> [] \<and> hd name = 46 then ret (Inr out)
      else if length out \<ge> kMaxListEntries then ret (Inl ''listing_limit_exceeded'')
      else case child_name E name of
        None \<Rightarrow> ret (Inl ''unsafe_child'')
      | Some s \<Rightarrow> do {
          r \<leftarrow> OpenChild_W E d name read_only directory False;
          case r of
            (Inr _, Some n) \<Rightarrow>
              let path = (if pre = [] then s else pre @ ''/'' @ s);
                  out' = out @ [EvMap (Entry_W path n directory None)] in
              do { l \<leftarrow> (if recursive \<and> directory then into n path out' else ret (Inr out'));
                   CloseHandle (nw_handle n);
                   ret l }
          | (Inl e, _) \<Rightarrow> ret (Inl e)
          | (Inr _, None) \<Rightarrow> ret (Inl ''not_found'') })"

text \<open>The loop ends when no next entry is given, for whatever reason; the directory must then be the same.\<close>

fun list_found_W ::
    "(Node_W \<Rightarrow> string \<Rightarrow> EncodableValue list \<Rightarrow> (string + EncodableValue list) wm) \<Rightarrow> win_env \<Rightarrow> Node_W \<Rightarrow> string
     \<Rightarrow> bool \<Rightarrow> (wstring \<times> bool) list \<Rightarrow> EncodableValue list \<Rightarrow> (string + EncodableValue list) wm" where
  "list_found_W into E d pre recursive [] out =
     do { ok \<leftarrow> Stable_W E d True; ret (if ok then Inr out else Inl ''metadata_changed'') }"
| "list_found_W into E d pre recursive ((name, directory) # found) out =
     do { l \<leftarrow> list_one into E d pre recursive name directory out;
          case l of
            Inl e \<Rightarrow> ret (Inl e)
          | Inr out' \<Rightarrow> do {
              more \<leftarrow> FindNextFileW found;
              list_found_W into E d pre recursive (if more then found else []) out' } }"

text \<open>
  The first argument bounds the depth: every level has added an entry to \<open>out\<close>, so \<open>kMaxListEntries + 1\<close>
  levels are enough (\<open>ListInto_W_enough\<close>).
\<close>

fun ListInto_W ::
    "nat \<Rightarrow> win_env \<Rightarrow> Node_W \<Rightarrow> string \<Rightarrow> bool \<Rightarrow> EncodableValue list \<Rightarrow> (string + EncodableValue list) wm" where
  "ListInto_W 0 E d pre recursive out = ret (Inl ''depth_exhausted'')"
| "ListInto_W (Suc k) E d pre recursive out =
     do { found \<leftarrow> FindFirstFileW E (nw_path d) (wide ''*'');
          case found of
            None \<Rightarrow> do { e \<leftarrow> GetLastError; ret (if e = ERROR_FILE_NOT_FOUND then Inr out else Inl ''metadata_changed'') }
          | Some fs \<Rightarrow> list_found_W (\<lambda>n path out'. ListInto_W k E n path True out') E d pre recursive fs out }"

definition list_target_W :: "win_env \<Rightarrow> Context_W \<Rightarrow> (string + Node_W) wm" where
  "list_target_W E c =
     (let open_in = (\<lambda>p n. do {
            r \<leftarrow> OpenChild_W E p n read_only True False;
            ret (case r of (Inr _, Some d) \<Rightarrow> Inr d | (Inl e, _) \<Rightarrow> Inl e | (Inr _, None) \<Rightarrow> Inl ''not_found'') }) in
      if cw_parts c = [] then open_in (cw_sessions c) (last_part (nw_path (cw_session c)))
      else do {
        p \<leftarrow> OpenParent_W E c;
        case p of Inl e \<Rightarrow> ret (Inl e) | Inr (parent, name) \<Rightarrow> open_in parent name })"

definition HandleList_W :: "win_env \<Rightarrow> args \<Rightarrow> win_reply wm" where
  "HandleList_W E a = scoped (\<lambda>_. [])
     (case BoolArg_W a ''recursive'' of
        None \<Rightarrow> ret (WError ''invalid_argument'')
      | Some recursive \<Rightarrow> do {
          c \<leftarrow> OpenContext_W E a False;
          case c of
            Inl e \<Rightarrow> ret (if e = ''not_found'' then WSuccess (EvList []) else WError e)
          | Inr c \<Rightarrow> do {
              t \<leftarrow> list_target_W E c;
              case t of
                Inl e \<Rightarrow> ret (WError e)
              | Inr d \<Rightarrow> do {
                  l \<leftarrow> ListInto_W (kMaxListEntries + 1) E d (path_arg_W a) recursive [];
                  ret (case l of Inl e \<Rightarrow> WError e | Inr out \<Rightarrow> WSuccess (EvList out)) } } })"

section \<open>Reading\<close>

definition Int64Arg :: "args \<Rightarrow> string \<Rightarrow> int option" where
  "Int64Arg a key = (case Find_W a key of Some (EvInt64 i) \<Rightarrow> Some (sint i) | _ \<Rightarrow> None)"

definition read_args_W :: "args \<Rightarrow> (nat \<times> nat) option" where
  "read_args_W a =
     (case (Int64Arg a ''offset'', Int64Arg a ''maxBytes'') of
        (Some off, Some mx) \<Rightarrow>
          if off < 0 \<or> mx < 0 \<or> mx > 256 * 1024 then None else Some (nat off, nat mx)
      | _ \<Rightarrow> None)"

definition boundary_W :: "byte list \<Rightarrow> nat \<Rightarrow> bool" where
  "boundary_W bs i \<longleftrightarrow> i = 0 \<or> i = length bs \<or> and (bs ! i) 0xc0 \<noteq> 0x80"

fun chunk_end :: "byte list \<Rightarrow> nat \<Rightarrow> nat \<Rightarrow> nat" where
  "chunk_end bs lo e = (if lo < e \<and> \<not> boundary_W bs e then chunk_end bs lo (e - 1) else e)"

declare chunk_end.simps [simp del]

definition chunk_reply :: "win_env \<Rightarrow> Node_W \<Rightarrow> string \<Rightarrow> byte list \<Rightarrow> nat \<Rightarrow> nat \<Rightarrow> win_reply" where
  "chunk_reply E f hash bs off mx =
     (if bs \<noteq> [] \<and> we_wide E (string_of bs) = None then WError ''unsupported_text''
      else if \<not> boundary_W bs off then WError ''invalid_utf8_offset''
      else let e = chunk_end bs off (min (length bs) (off + mx)) in
        WSuccess (EvMap
          [(EvString ''bytes'', EvBytes (take (e - off) (drop off bs))),
           (EvString ''identity'', EvString (Token_W (nw_id f))),
           (EvString ''nextOffset'', EvInt64 (of_nat e)),
           (EvString ''sha256'', EvString hash),
           (EvString ''size'', EvInt64 (of_nat (length bs))),
           (EvString ''truncated'', EvBool (e < length bs))]))"

text \<open>The file of a path, opened for reading.\<close>

definition open_for_read_W :: "win_env \<Rightarrow> args \<Rightarrow> (string + Node_W) wm" where
  "open_for_read_W E a =
     do { c \<leftarrow> OpenContext_W E a False;
          case c of
            Inl e \<Rightarrow> ret (Inl e)
          | Inr c \<Rightarrow> do {
              d \<leftarrow> OpenParent_W E c;
              case d of
                Inl e \<Rightarrow> ret (Inl e)
              | Inr (parent, name) \<Rightarrow> do {
                  r \<leftarrow> OpenChild_W E parent name read_only False False;
                  ret (case r of (Inr _, Some f) \<Rightarrow> Inr f | (Inl e, _) \<Rightarrow> Inl e | (Inr _, None) \<Rightarrow> Inl ''not_found'') } } }"

definition read_text :: "win_env \<Rightarrow> Node_W \<Rightarrow> nat \<Rightarrow> nat \<Rightarrow> win_reply wm" where
  "read_text E f off mx =
     do { h \<leftarrow> HashExact_W E f;
          case h of
            None \<Rightarrow> ret (WError ''workspace_file_too_large'')
          | Some (hash, sz) \<Rightarrow>
              if off > sz then ret (WError ''invalid_utf8_offset'')
              else do {
                _ \<leftarrow> SetFilePointerEx (nw_handle f) 0;
                r \<leftarrow> (if sz = 0 then ret (Some []) else ReadFile_W (nw_handle f) sz);
                ret (case r of
                       None \<Rightarrow> WError ''metadata_changed''
                     | Some bs \<Rightarrow> if length bs \<noteq> sz then WError ''metadata_changed'' else chunk_reply E f hash bs off mx) } }"

definition HandleRead_W :: "win_env \<Rightarrow> args \<Rightarrow> win_reply wm" where
  "HandleRead_W E a = scoped (\<lambda>_. [])
     (case read_args_W a of
        None \<Rightarrow> ret (WError ''invalid_argument'')
      | Some (off, mx) \<Rightarrow> do {
          t \<leftarrow> open_for_read_W E a;
          case t of Inl e \<Rightarrow> ret (WError e) | Inr f \<Rightarrow> read_text E f off mx })"

definition kMaxBinaryFileBytes_W :: nat where "kMaxBinaryFileBytes_W = 10 * 1024 * 1024"

definition binary_args_W :: "args \<Rightarrow> nat option" where
  "binary_args_W a =
     (case Int64Arg a ''maxBytes'' of
        None \<Rightarrow> None
      | Some mx \<Rightarrow> if mx < 0 \<or> nat mx > kMaxBinaryFileBytes_W then None else Some (nat mx))"

definition same_file :: "win_info \<Rightarrow> win_info \<Rightarrow> bool" where
  "same_file i j \<longleftrightarrow> wi_size i = wi_size j \<and> wi_volume i = wi_volume j \<and> wi_index i = wi_index j"

definition read_bytes :: "win_env \<Rightarrow> Node_W \<Rightarrow> win_reply wm" where
  "read_bytes E f =
     (let sz = wi_size (nw_info f) in
      do { r \<leftarrow> (if sz = 0 then ret (Some []) else ReadFile_W (nw_handle f) sz);
           case r of
             None \<Rightarrow> ret (WError ''metadata_changed'')
           | Some bs \<Rightarrow>
               if length bs \<noteq> sz then ret (WError ''metadata_changed'')
               else do {
                 i \<leftarrow> GetFileInformationByHandle E (nw_handle f);
                 extra \<leftarrow> (case i of
                             None \<Rightarrow> ret None
                           | Some i \<Rightarrow> if same_file i (nw_info f) then ReadFile_W (nw_handle f) 1 else ret None);
                 if extra \<noteq> Some [] then ret (WError ''metadata_changed'')
                 else do {
                   hashed \<leftarrow> andM BCryptCall (andM BCryptCall (andM BCryptCall (andM BCryptCall BCryptCall)));
                   ret (if \<not> hashed then WError ''metadata_changed''
                        else WSuccess (EvMap
                          [(EvString ''bytes'', EvBytes bs),
                           (EvString ''identity'', EvString (Token_W (nw_id f))),
                           (EvString ''sha256'', EvString (hex_of (we_sha E bs))),
                           (EvString ''size'', EvInt64 (of_nat sz))])) } } })"

definition HandleReadBinary_W :: "win_env \<Rightarrow> args \<Rightarrow> win_reply wm" where
  "HandleReadBinary_W E a = scoped (\<lambda>_. [])
     (case binary_args_W a of
        None \<Rightarrow> ret (WError ''invalid_argument'')
      | Some mx \<Rightarrow> do {
          t \<leftarrow> open_for_read_W E a;
          case t of
            Inl e \<Rightarrow> ret (WError e)
          | Inr f \<Rightarrow> if wi_size (nw_info f) > mx then ret (WError ''workspace_file_too_large'') else read_bytes E f })"

section \<open>The channel\<close>

definition MethodCall_W :: "win_env \<Rightarrow> string \<Rightarrow> EncodableValue option \<Rightarrow> win_reply wm" where
  "MethodCall_W E name v =
     (case v of
        Some (EvMap a) \<Rightarrow>
          if name = ''rootIdentity'' then HandleRootIdentity_W E a
          else if name = ''metadata'' then HandleMetadata_W E a
          else if name = ''list'' then HandleList_W E a
          else if name = ''read'' then HandleRead_W E a
          else if name = ''readBinary'' then HandleReadBinary_W E a
          else if name = ''prepareMutation'' then HandlePrepare_W E a
          else if name = ''commitPrepared'' then HandleCommit_W E a
          else if name = ''reconcilePrepared'' then HandleReconcile_W E a
          else if name = ''rollbackPrepared'' then HandleRollback_W E a
          else if name = ''cleanupPrepared'' then HandleCleanup_W E a
          else ret WNotImplemented
      | _ \<Rightarrow> ret (WError ''invalid_argument''))"

end
