(* ===== verification/Win_Sharing.thy ===== *)
theory Win_Sharing
  imports Win_Read
begin

text \<open>
  Sharing modes in the Windows workspace. Every node is opened without \<^verbatim>\<open>FILE_SHARE_DELETE\<close>, the session
  directory of a context among them, and that handle stays open while \<^verbatim>\<open>OpenParent\<close> asks for \<^verbatim>\<open>DELETE\<close> access
  to the same directory. \<open>locked\<close> is the state of a path that is open in this way; \<open>holds\<close> says that a
  program keeps it.
\<close>

section \<open>A path that is open and not shared for deletion\<close>

definition locked :: "win_env \<Rightarrow> wstring \<Rightarrow> nat \<Rightarrow> win \<Rightarrow> bool" where
  "locked E p k w \<longleftrightarrow>
     k < ww_next_handle w \<and>
     (\<exists>h. ww_handles w k = Some h \<and> object_at E w p = Some (ha_object h) \<and> any_right (ha_access h) \<and> \<not> ri_delete (ha_share h))"

definition holds :: "win_env \<Rightarrow> wstring \<Rightarrow> nat \<Rightarrow> 'a wm \<Rightarrow> bool" where
  "holds E p k m \<longleftrightarrow> (\<forall>w. locked E p k w \<longrightarrow> wp m (\<lambda>_. locked E p k) w)"

named_theorems holding \<open>programs that leave a locked path locked\<close>

lemma locked_simps [simp]:
  "locked E p k (w\<lparr>ww_outcomes := cs\<rparr>) = locked E p k w"
  "locked E p k (w\<lparr>ww_error := e\<rparr>) = locked E p k w"
  by (simp_all add: locked_def object_at_def)

lemma failing_locked [simp]: "locked E p k (snd (failing b e w)) = locked E p k w"
  by (simp add: failing_def)

lemma holds_ret [holding]: "holds E p k (ret a)"
  by (simp add: holds_def)

lemma holds_bind [holding]: "holds E p k m \<Longrightarrow> (\<And>a. holds E p k (f a)) \<Longrightarrow> holds E p k (m \<bind> f)"
  by (auto simp: holds_def elim!: wp_mono)

lemma holds_if [holding]: "holds E p k m \<Longrightarrow> holds E p k n \<Longrightarrow> holds E p k (if c then m else n)"
  by simp

lemma holds_option [holding]:
  "holds E p k m \<Longrightarrow> (\<And>x. holds E p k (f x)) \<Longrightarrow> holds E p k (case r of None \<Rightarrow> m | Some x \<Rightarrow> f x)"
  by (cases r) simp_all

lemma holds_andM [holding]: "holds E p k m \<Longrightarrow> holds E p k n \<Longrightarrow> holds E p k (andM m n)"
  unfolding andM_def by (intro holding)

lemma holds_State: "(\<And>w. locked E p k w \<Longrightarrow> locked E p k (snd (f w))) \<Longrightarrow> holds E p k (State f)"
  unfolding holds_def wp_def by (auto split: prod.split) (metis snd_conv)

lemma holds_next_outcome [holding]: "holds E p k next_outcome"
  unfolding next_outcome_def by (rule holds_State) (auto split: list.split)

lemma holds_win_call:
  assumes "\<And>w. locked E p k w \<Longrightarrow> locked E p k (snd (f w))"
  shows "holds E p k (win_call b f)"
proof -
  have "holds E p k (State (case c of Fails code \<Rightarrow> failing b code | _ \<Rightarrow> f))" for c
    by (rule holds_State) (cases c, simp_all add: assms)
  then show ?thesis unfolding win_call_def by (intro holding)
qed

section \<open>The calls keep it\<close>

lemma locked_add_object:
  "locked E p k w \<Longrightarrow> object_at E w q = None \<Longrightarrow> locked E p k (add_object E q d w)"
  by (auto simp: locked_def object_at_def add_object_def)

lemma locked_new_handle: "locked E p k w \<Longrightarrow> locked E p k (snd (new_handle i a s w))"
  by (auto simp: locked_def object_at_def new_handle_def)

lemma locked_open_existing: "locked E p k w \<Longrightarrow> locked E p k (snd (open_existing E q a s d w))"
  by (auto simp: open_existing_def locked_new_handle split: option.split)

lemma locked_create_new: "locked E p k w \<Longrightarrow> locked E p k (snd (create_new E q a s w))"
  by (auto simp: create_new_def locked_new_handle locked_add_object)

lemma map_of_without:
  "map_of xs x = Some i \<Longrightarrow> i \<noteq> j \<Longrightarrow> map_of (filter (\<lambda>(p, l). l \<noteq> j) xs) x = Some i"
  by (induction xs) auto

lemma locked_close_handle:
  assumes "locked E p k w" "j \<noteq> k"
  shows "locked E p k (close_handle j w)"
proof (cases "ww_handles w j")
  case None
  with assms show ?thesis by (simp add: close_handle_def)
next
  case (Some h)
  let ?w = "w\<lparr>ww_handles := (ww_handles w)(j := None)\<rparr>"
  have l: "locked E p k ?w" using assms by (auto simp: locked_def object_at_def)
  have "locked E p k (drop_names (ha_object h) ?w)" if "\<not> is_open ?w (ha_object h)"
  proof -
    from l obtain g where g: "ww_handles ?w k = Some g" "object_at E ?w p = Some (ha_object g)" "k < ww_next_handle ?w"
        "any_right (ha_access g)" "\<not> ri_delete (ha_share g)" unfolding locked_def by blast
    have "ha_object g \<noteq> ha_object h"
      using that g(1,3) unfolding is_open_def list_ex_iff by force
    with g show ?thesis by (auto simp: locked_def object_at_def drop_names_def intro: map_of_without)
  qed
  with Some l show ?thesis by (simp add: close_handle_def Let_def)
qed

lemma locked_close_all: "locked E p k w \<Longrightarrow> k \<notin> set js \<Longrightarrow> locked E p k (fold close_handle js w)"
  by (induction js arbitrary: w) (simp_all add: locked_close_handle)

lemma wp_scoped: "wp (scoped keep m) Q w =
   wp m (\<lambda>r w'. Q r (fold close_handle (filter (\<lambda>j. j \<notin> set (keep r)) [ww_next_handle w..<ww_next_handle w']) w')) w"
  by (simp add: scoped_def wp_def current_world_def update_world_def split: prod.split)

lemma locked_lt: "locked E p k w \<Longrightarrow> k < ww_next_handle w"
  by (simp add: locked_def)

lemma holds_scoped [holding]:
  assumes "holds E p k m"
  shows "holds E p k (scoped keep m)"
proof -
  have "wp (scoped keep m) (\<lambda>_. locked E p k) w" if l: "locked E p k w" for w
  proof -
    have "wp m (\<lambda>_. locked E p k) w" using assms l by (simp add: holds_def)
    then show ?thesis
      unfolding wp_scoped by (rule wp_mono) (rule locked_close_all, assumption, use locked_lt [OF l] in simp)
  qed
  then show ?thesis by (simp add: holds_def)
qed

lemma holds_calls [holding]:
  "holds E p k GetLastError"
  "holds E p k (GetFileInformationByHandle E' j)"
  "holds E p k (GetFinalPathNameByHandleW j)"
  "holds E p k (GetFileAttributesW E' q)"
  unfolding GetLastError_def GetFileInformationByHandle_def GetFinalPathNameByHandleW_def GetFileAttributesW_def
  by (rule holds_State, simp) (rule holds_win_call, simp split: option.split)+

lemma holds_CreateFileW [holding]: "holds E p k (CreateFileW E q a s fresh d)"
  unfolding CreateFileW_def by (rule holds_win_call) (simp add: locked_create_new locked_open_existing)

lemma holds_CreateDirectoryW [holding]: "holds E p k (CreateDirectoryW E q)"
  unfolding CreateDirectoryW_def by (rule holds_win_call) (simp add: locked_add_object)

lemma holds_Open_W [holding]: "holds E p k (Open_W E q a d fresh)"
  unfolding Open_W_def opened_node_def Canonical_def by (intro holding)

lemma holds_checks [holding]:
  "holds E p k (Stable_W E n d)"
  "holds E p k (Missing_W E q)"
  "holds E p k (OpenDirectoryForMutation E q)"
  unfolding Stable_W_def Missing_W_def OpenDirectoryForMutation_def by (intro holding)+

lemma holds_EnsureHidden [holding]: "holds E p k (EnsureHidden_W E c)"
  unfolding EnsureHidden_W_def Let_def by (intro holding)

section \<open>Opening a node locks its path\<close>

lemma open_existing_locks:
  "open_existing E p access share d w = (Some k, w') \<Longrightarrow> any_right access \<Longrightarrow> \<not> ri_delete share \<Longrightarrow> locked E p k w'"
  by (auto simp: open_existing_def failing_def new_handle_def locked_def object_at_def split: option.splits if_splits)

lemma create_new_locks:
  "create_new E p access share w = (Some k, w') \<Longrightarrow> any_right access \<Longrightarrow> \<not> ri_delete share \<Longrightarrow> locked E p k w'"
  by (auto simp: create_new_def failing_def new_handle_def add_object_def locked_def object_at_def split: if_splits)

lemma CreateFileW_locks:
  assumes "any_right access" "\<not> ri_delete share"
  shows "wp (CreateFileW E p access share fresh d) (\<lambda>r w'. \<forall>k. r = Some k \<longrightarrow> locked E p k w') w"
proof (rule wpI, intro allI impI)
  fix r w' k assume "run_state (CreateFileW E p access share fresh d) w = (r, w')" "r = Some k"
  then obtain w0 where "(if fresh then create_new E p access share else open_existing E p access share d) w0 = (Some k, w')"
    by (auto simp: CreateFileW_def win_call_def failing_def split: prod.splits outcome.splits)
  with assms show "locked E p k w'"
    by (auto split: if_splits intro: open_existing_locks create_new_locks)
qed

lemma opened_node_locks:
  assumes "locked E p k w"
  shows "wp (opened_node E p d k) (\<lambda>r w'. (\<forall>n. r = Some n \<longrightarrow> nw_path n = p \<and> nw_handle n = k) \<and> locked E p k w') w"
proof (rule wp_conj)
  show "wp (opened_node E p d k) (\<lambda>r _. \<forall>n. r = Some n \<longrightarrow> nw_path n = p \<and> nw_handle n = k) w"
    unfolding opened_node_def
    by (rule wp_any, rule wp_option, simp, rule wp_branch, simp, rule wp_any, rule wp_option, simp, rule wp_branch) simp_all
  have "holds E p k (opened_node E p d k)" unfolding opened_node_def Canonical_def by (intro holding)
  with assms show "wp (opened_node E p d k) (\<lambda>_. locked E p k) w" by (simp add: holds_def)
qed

lemma Open_W_locks:
  assumes "any_right access"
  shows "wp (Open_W E p access d fresh) (\<lambda>r w'. \<forall>n. r = Some n \<longrightarrow> nw_path n = p \<and> locked E p (nw_handle n) w') w"
    (is "wp _ ?Q _")
proof -
  have "wp (CreateFileW E p access read_write fresh d) (\<lambda>r w'. \<forall>k. r = Some k \<longrightarrow> locked E p k w') w"
    using assms by (rule CreateFileW_locks) (simp add: read_write_def)
  then show ?thesis
    unfolding Open_W_def wp_scoped wp_bind
  proof (rule wp_mono)
    fix r w1 assume l: "\<forall>k. r = Some k \<longrightarrow> locked E p k w1"
    show "wp (case r of None \<Rightarrow> ret None | Some k \<Rightarrow> opened_node E p d k)
      (\<lambda>r w'. ?Q r (fold close_handle (filter (\<lambda>j. j \<notin> set (node_handles r)) [ww_next_handle w..<ww_next_handle w']) w')) w1"
    proof (rule wp_option)
      fix k assume "r = Some k"
      with l have "locked E p k w1" by simp
      then show "wp (opened_node E p d k)
          (\<lambda>r w'. ?Q r (fold close_handle (filter (\<lambda>j. j \<notin> set (node_handles r)) [ww_next_handle w..<ww_next_handle w']) w')) w1"
        by (rule wp_mono [OF opened_node_locks]) (auto simp: node_handles_def intro: locked_close_all)
    qed simp
  qed
qed

section \<open>A locked path is not opened for mutation\<close>

lemma open_locked_fails:
  assumes "locked E p k w" "ri_delete access"
  shows "fst (open_existing E p access share d w) = None"
proof -
  from assms(1) obtain h where h: "ww_handles w k = Some h" "object_at E w p = Some (ha_object h)" "k < ww_next_handle w"
      "any_right (ha_access h)" "\<not> ri_delete (ha_share h)" unfolding locked_def by blast
  then have "\<not> compatible access share h" using assms(2) by (auto simp: compatible_def any_right_def allows_def)
  with h(1,3) have "\<not> sharing_ok w (ha_object h) access share" by (force simp: sharing_ok_def list_all_iff)
  with h(2) show ?thesis by (simp add: open_existing_def failing_def split: option.split)
qed

lemma OpenDirectoryForMutation_locked:
  assumes "locked E p k w"
  shows "wp (OpenDirectoryForMutation E p) (\<lambda>r _. r = None) w"
proof -
  have "wp (CreateFileW E p full_share read_write False True) (\<lambda>r _. r = None) w"
    using assms open_locked_fails [of E p k _ full_share]
    by (auto simp: CreateFileW_def win_call_def next_outcome_def wp_def failing_def full_share_def
        split: list.splits prod.splits outcome.splits dest: arg_cong [of _ _ fst])
  then show ?thesis
    unfolding OpenDirectoryForMutation_def Open_W_def wp_scoped wp_bind by (rule wp_mono) simp
qed

lemma OpenParent_locked:
  assumes "locked E (nw_path (cw_session c)) k w"
  shows "wp (OpenParent_W E c) (\<lambda>r _. r = Inl ''invalid_argument'' \<or> r = Inl ''metadata_changed'') w"
  unfolding OpenParent_W_def wp_scoped
  by (rule wp_branch, simp, unfold wp_bind, rule wp_mono [OF OpenDirectoryForMutation_locked [OF assms]]) simp

section \<open>Contexts\<close>

definition session_locked :: "win_env \<Rightarrow> Context_W \<Rightarrow> win \<Rightarrow> bool" where
  "session_locked E c w = locked E (nw_path (cw_session c)) (nw_handle (cw_session c)) w"

lemma make_and_open_locks:
  "wp (make_and_open E create p) (\<lambda>r w'. \<forall>n. r = Inr n \<longrightarrow> locked E (nw_path n) (nw_handle n) w') w"
  unfolding make_and_open_def
  by (rule wp_any, rule wp_any, rule wp_branch, simp, unfold wp_bind wp_if OpenDirectoryForMutation_def,
      cases create, simp_all, (rule wp_mono [OF Open_W_locks], simp_all add: full_share_def read_only_def any_right_def split: option.split)+)

lemma OpenContext_locks:
  "wp (OpenContext_W E a create) (\<lambda>r w'. \<forall>c. r = Inr c \<longrightarrow> session_locked E c w') w"
proof -
  have stable: "wp (andM (Stable_W E rt True) (Stable_W E dirs True) \<bind> (\<lambda>ok. ret (if ok
        then Inr \<lparr>cw_root = rt, cw_sessions = dirs, cw_session = own, cw_parts = ps\<rparr> else Inl ''metadata_changed'')))
      (\<lambda>r w'. \<forall>c. r = Inr c \<longrightarrow> session_locked E c w') w" if "locked E (nw_path own) (nw_handle own) w" for rt dirs own ps w
  proof -
    have "holds E (nw_path own) (nw_handle own) (andM (Stable_W E rt True) (Stable_W E dirs True))" by (intro holding)
    with that have "wp (andM (Stable_W E rt True) (Stable_W E dirs True)) (\<lambda>_. locked E (nw_path own) (nw_handle own)) w"
      by (simp add: holds_def)
    then show ?thesis unfolding wp_bind by (rule wp_mono) (simp add: session_locked_def)
  qed
  show ?thesis
    unfolding OpenContext_W_def
    apply (rule wp_option, simp)
    apply (simp only: split_paired_all prod.case)
    apply (rule wp_any, rule wp_sum, simp, rule wp_branch, simp, rule wp_any, rule wp_sum, simp)
    apply (unfold wp_bind [of "make_and_open _ _ _"])
    apply (rule wp_mono [OF make_and_open_locks], rule wp_sum, simp, rule stable, simp)
    done
qed

end
