(* ===== verification/Win_Records.thy ===== *)
theory Win_Records
  imports Win_Read
begin

text \<open>
  The records of the Windows workspace, encoded and decoded. The fields are those of the Linux format, whose
  laws (the locale \<open>codec\<close>) are used for them; a proof is an ordered map, which decoding builds by insertion.
  \<open>decode_encode_W\<close>: a record that is \<open>well_typed\<close> is found again; \<open>decode_typed\<close>: nothing else is.
\<close>

section \<open>Ordered maps\<close>

lemma bytes_before_irrefl [simp]: "\<not> bytes_before a a"
  by (induction a) auto

lemma bytes_before_trans: "bytes_before a b \<Longrightarrow> bytes_before b c \<Longrightarrow> bytes_before a c"
proof (induction a b arbitrary: c rule: bytes_before.induct)
  case (2 b bs)
  then show ?case by (cases c) auto
next
  case (3 a as b bs)
  then show ?case by (cases c) auto
qed simp

lemma bytes_before_total: "a \<noteq> b \<Longrightarrow> \<not> bytes_before a b \<Longrightarrow> bytes_before b a"
proof (induction a b rule: bytes_before.induct)
  case (1 a)
  then show ?case by (cases a) auto
next
  case (3 a as b bs)
  have "(of_char a :: nat) = of_char b \<longleftrightarrow> a = b" by simp
  with 3 show ?case by (auto simp: not_less)
qed simp

fun string_key :: "EncodableValue \<Rightarrow> bool" where
  "string_key (EvString _) = True"
| "string_key _ = False"

definition ordered :: "args \<Rightarrow> bool" where
  "ordered m \<longleftrightarrow> sorted_wrt key_before (map fst m) \<and> list_all string_key (map fst m)"

lemma key_before_trans: "key_before a b \<Longrightarrow> key_before b c \<Longrightarrow> key_before a c"
  by (cases a; cases b; cases c) (auto intro: bytes_before_trans)

lemma map_put_set: "set (map_put k v m) \<subseteq> insert (k, v) (set m)"
  by (induction m) (auto split: if_splits)

lemma map_put_keys: "fst ` set (map_put k v m) \<subseteq> insert k (fst ` set m)"
  using image_mono [OF map_put_set, of fst k v m] by simp

lemma ordered_map_put:
  assumes "ordered m"
  shows "ordered (map_put (EvString k) v m)"
  using assms
proof (induction m)
  case (Cons e m)
  obtain q u where e: "e = (q, u)" by (cases e)
  from Cons.prems obtain s where s: "q = EvString s" and below: "\<And>x. x \<in> fst ` set m \<Longrightarrow> key_before q x"
      and m: "ordered m" by (cases q) (auto simp: ordered_def e)
  then have below': "\<And>a b. (a, b) \<in> set m \<Longrightarrow> key_before q a" by force
  have "key_before q x" if "x \<in> fst ` set (map_put (EvString k) v m)" "s \<noteq> k" "\<not> key_before (EvString k) q" for x
    using that(1) subsetD [OF map_put_keys that(1)] below that(2,3) bytes_before_total [of k s] by (auto simp: s)
  moreover have "key_before (EvString k) x" if "key_before (EvString k) q" "x \<in> fst ` set m" for x
    using key_before_trans that below by blast
  ultimately show ?case
    using Cons.IH [OF m] m below below' by (auto simp: ordered_def e s)
qed (simp add: ordered_def)

lemma map_put_last:
  assumes "ordered (m @ [(EvString k, v)])"
  shows "map_put (EvString k) v m = m @ [(EvString k, v)]"
  using assms
proof (induction m)
  case (Cons e m)
  obtain q u where e: "e = (q, u)" by (cases e)
  from Cons.prems have "key_before q (EvString k)" "ordered (m @ [(EvString k, v)])"
    by (auto simp: ordered_def e sorted_wrt_append)
  moreover from this have "q \<noteq> EvString k" "\<not> key_before (EvString k) q"
    using key_before_trans [of q "EvString k" q] by (cases q; auto)+
  ultimately show ?case using Cons.IH by (simp add: e)
qed simp

section \<open>Numbers\<close>

lemma length_decimal: "n < 10 ^ k \<Longrightarrow> 0 < k \<Longrightarrow> length (decimal n) \<le> k"
proof (induction n arbitrary: k rule: decimal.induct)
  case (1 n)
  show ?case
  proof (cases "n < 10")
    case True
    then show ?thesis using "1.prems"(2) by (simp add: decimal.simps [of n])
  next
    case False
    then obtain j where k: "k = Suc j" "0 < j"
      using "1.prems" by (cases k; cases "k - 1") auto
    then have "n div 10 < 10 ^ j" using "1.prems"(1) by (simp add: div_less_iff_less_mult mult.commute)
    with 1(1) [OF False _ k(2)] show ?thesis using False by (simp add: decimal.simps [of n] k)
  qed
qed

lemma decimal_all: "list_all is_digit (decimal n)"
  by (auto simp: list_all_iff is_digit_def dest: decimal_digits)

lemma decimal_not_Nil: "decimal n \<noteq> []"
  by (simp add: decimal.simps [of n])

lemma decimal_taken: "takeWhile is_digit (decimal n) = decimal n"
  using decimal_all [of n] by (simp add: takeWhile_eq_all_conv list_all_iff)

lemma stoll_signed_decimal:
  assumes "- (2 ^ 63) \<le> i" "i < 2 ^ 63"
  shows "stoll (signed_decimal i) = Some i"
proof -
  obtain c cs where d: "decimal (nat \<bar>i\<bar>) = c # cs" using decimal_not_Nil by (cases "decimal (nat \<bar>i\<bar>)") auto
  then have "is_digit c" using decimal_all [of "nat \<bar>i\<bar>"] by simp
  then have c: "\<not> is_space c" "c \<noteq> CHR ''-''" "c \<noteq> CHR ''+''" by (auto simp: is_digit_def is_space_def)
  have "undecimal (c # cs) = nat \<bar>i\<bar>" unfolding d [symmetric] by (rule undecimal_decimal)
  moreover have "takeWhile is_digit (c # cs) = c # cs" unfolding d [symmetric] by (rule decimal_taken)
  ultimately show ?thesis
    using assms c d
    by (cases "i < 0") (auto simp: stoll_def signed_decimal_def take_sign_def is_space_def Let_def)
qed

lemma length_signed_decimal:
  assumes "- (2 ^ 63) \<le> i" "i < 2 ^ 63"
  shows "length (signed_decimal i) \<le> 4096"
proof -
  have "length (decimal (nat \<bar>i\<bar>)) \<le> 19" by (rule length_decimal) (use assms in auto)
  then show ?thesis by (auto simp: signed_decimal_def abs_if split: if_splits)
qed

section \<open>Fields\<close>

lemma same_codecs: "Append32_W = Append32" "AppendString_W = AppendString" "Read32_W = Read32" "ReadString_W = ReadString"
proof -
  show a: "Append32_W = Append32" by (intro ext) (simp add: Append32_W_def Append32_def)
  show r: "Read32_W = Read32" by (intro ext) (simp add: Read32_W_def Read32_def)
  show "AppendString_W = AppendString" by (intro ext) (simp add: AppendString_W_def AppendString_def a)
  show "ReadString_W = ReadString" by (intro ext) (simp only: ReadString_W_def ReadString_def r kMaxStringBytes_def)
qed

lemma read_string_here:
  "length s \<le> 4096 \<Longrightarrow> at = length pre \<Longrightarrow> bs = pre @ AppendString_W [] s @ post \<Longrightarrow>
   ReadString_W bs at = Some (s, at + length (AppendString_W [] s))"
  unfolding same_codecs by (rule str.get_put_here) (simp_all add: kMaxStringBytes_def)

lemma read_string_short: "ReadString_W bs at = Some (s, at') \<Longrightarrow> length s \<le> 4096"
  unfolding same_codecs by (drule str.put_get) (simp add: kMaxStringBytes_def)

fun value_fits :: "EncodableValue \<Rightarrow> bool" where
  "value_fits (EvString s) = (length s \<le> 4096)"
| "value_fits (EvBool _) = True"
| "value_fits (EvInt64 _) = True"
| "value_fits EvNull = True"
| "value_fits _ = False"

fun key_fits :: "EncodableValue \<Rightarrow> bool" where
  "key_fits (EvString s) = (length s \<le> 4096)"
| "key_fits _ = False"

definition entry_fits :: "EncodableValue \<times> EncodableValue \<Rightarrow> bool" where
  "entry_fits e \<longleftrightarrow> key_fits (fst e) \<and> value_fits (snd e)"

lemma get_put_value:
  assumes "put_value v = Some b" "value_fits v"
  shows "get_value (pre @ b @ post) (length pre) = Loaded (v, length pre + length b)"
proof (cases v)
  case (EvInt64 i)
  let ?s = "signed_decimal (sint i)"
  have r: "- (2 ^ 63) \<le> sint i" "sint i < 2 ^ 63" using sint_ge [of i] sint_lt [of i] by simp_all
  have "ReadString_W (pre @ b @ post) (length pre + 1) = Some (?s, length pre + 1 + length (AppendString_W [] ?s))"
    by (rule read_string_here [where pre = "pre @ [3]" and post = post])
      (use assms EvInt64 length_signed_decimal [OF r] in \<open>auto simp: put_value_def\<close>)
  then show ?thesis
    using assms EvInt64 stoll_signed_decimal [OF r] by (auto simp: get_value_def put_value_def)
next
  case (EvBool y)
  then show ?thesis using assms by (cases y) (auto simp: get_value_def put_value_def nth_append)
next
  case (EvString s)
  have "ReadString_W (pre @ b @ post) (length pre + 1) = Some (s, length pre + 1 + length (AppendString_W [] s))"
    by (rule read_string_here [where pre = "pre @ [1]" and post = post]) (use assms EvString in \<open>auto simp: put_value_def\<close>)
  then show ?thesis using assms EvString by (auto simp: get_value_def put_value_def)
qed (use assms in \<open>auto simp: get_value_def put_value_def nth_append\<close>)

lemma get_put_proof:
  assumes "put_proof m = Some b" "list_all entry_fits m" "ordered (acc @ m)"
  shows "get_proof (length m) (pre @ b @ post) (length pre) acc = Loaded (acc @ m, length pre + length b)"
  using assms
proof (induction m arbitrary: b acc pre)
  case (Cons e m)
  obtain k v where e: "e = (k, v)" by (cases e)
  from Cons.prems(1) obtain s bv br where s: "k = EvString s" and v: "put_value v = Some bv" and m: "put_proof m = Some br"
      and b: "b = AppendString_W [] s @ bv @ br"
    by (auto simp: e split: EncodableValue.splits option.splits)
  let ?bs = "pre @ b @ post" and ?k = "AppendString_W [] s"
  have "ReadString_W ?bs (length pre) = Some (s, length (pre @ ?k))"
    using read_string_here [of s "length pre" pre ?bs "bv @ br @ post"] Cons.prems(2) by (simp add: b e s entry_fits_def)
  moreover have "get_value ?bs (length (pre @ ?k)) = Loaded (v, length (pre @ ?k @ bv))"
    using get_put_value [OF v, of "pre @ ?k" "br @ post"] Cons.prems(2) by (simp add: b e entry_fits_def)
  moreover have "map_put (EvString s) v acc = acc @ [(EvString s, v)]"
    by (rule map_put_last) (use Cons.prems(3) in \<open>auto simp: ordered_def e s sorted_wrt_append\<close>)
  moreover have "get_proof (length m) ?bs (length (pre @ ?k @ bv)) (acc @ [(EvString s, v)])
      = Loaded ((acc @ [(EvString s, v)]) @ m, length (pre @ ?k @ bv) + length br)"
    using Cons.IH [OF m, of "acc @ [(EvString s, v)]" "pre @ ?k @ bv"] Cons.prems(2,3) by (simp add: b e s)
  ultimately show ?case by (simp add: b e s)
qed simp

lemma map_put_length: "length (map_put k v m) \<le> Suc (length m)"
  by (induction m) (auto split: if_splits)

lemma get_value_fits: "get_value bs at = Loaded (v, at') \<Longrightarrow> value_fits v"
  by (auto simp: get_value_def dest: read_string_short split: if_splits option.splits)

lemma get_proof_typed:
  "get_proof n bs at acc = Loaded (m, at') \<Longrightarrow> list_all entry_fits acc \<Longrightarrow> ordered acc \<Longrightarrow>
   list_all entry_fits m \<and> ordered m \<and> length m \<le> length acc + n"
proof (induction n arbitrary: at acc)
  case (Suc n)
  then obtain k at1 v at2 where r: "ReadString_W bs at = Some (k, at1)" "get_value bs at1 = Loaded (v, at2)"
      "get_proof n bs at2 (map_put (EvString k) v acc) = Loaded (m, at')"
    by (auto split: option.splits loading.splits)
  have "entry_fits (EvString k, v)" using read_string_short [OF r(1)] get_value_fits [OF r(2)] by (simp add: entry_fits_def)
  then have "list_all entry_fits (map_put (EvString k) v acc)"
    using Suc.prems(2) map_put_set [of "EvString k" v acc] by (auto simp: list_all_iff)
  from Suc.IH [OF r(3) this ordered_map_put [OF Suc.prems(3)]] show ?case
    using map_put_length [of "EvString k" v acc] by auto
qed simp

section \<open>Records\<close>

definition strings_fit :: "OperationState_W \<Rightarrow> bool" where
  "strings_fit s \<longleftrightarrow> list_all (\<lambda>t. length t \<le> 4096) (strings_W s)"

definition proof_fits :: "OperationState_W \<Rightarrow> bool" where
  "proof_fits s \<longleftrightarrow> length (ow_proof s) \<le> 32 \<and> list_all entry_fits (ow_proof s)"

definition well_typed :: "OperationState_W \<Rightarrow> bool" where
  "well_typed s \<longleftrightarrow> strings_fit s \<and> proof_fits s \<and> ordered (ow_proof s)"

lemma ReadStrings_W_get_all: "ReadStrings_W k bs at = str.get_all k bs at"
  by (induction k arbitrary: at) (auto simp: same_codecs split: option.splits prod.splits)

lemma foldl_AppendString_W: "foldl AppendString_W out vs = out @ str.put_all vs"
  unfolding same_codecs by (rule foldl_AppendString)

lemma length_strings_W [simp]: "length (strings_W s) = 7"
  by (simp add: strings_W_def)

lemma seven: "length vs = 7 \<Longrightarrow> \<exists>t ri si sk oper p d. vs = [t, ri, si, sk, oper, p, d]"
  by (simp add: numeral_eq_Suc length_Suc_conv) blast

definition head_W :: "OperationState_W \<Rightarrow> byte list" where
  "head_W s = Append32 [] kMagic_W @ Append32 [] kVersion_W @ Append32 [] (phase_code (ow_phase s))"

lemma length_head_W [simp]: "length (head_W s) = 12"
  by (simp add: head_W_def)

lemma encode_state_W_eq:
  "encode_state_W s = (case put_proof (ow_proof s) of
       None \<Rightarrow> None
     | Some p \<Rightarrow>
         let bs = head_W s @ str.put_all (strings_W s) @ [if ow_has_destination s then 1 else 0]
               @ Append32 [] (of_nat (length (ow_proof s))) @ p
         in if length bs > kMaxStateBytes_W then None else Some bs)"
proof -
  have head: "Append32 (Append32 (Append32 [] kMagic_W) kVersion_W) (phase_code (ow_phase s)) = head_W s"
    unfolding head_W_def by (subst (3) Append32_app, subst (2) Append32_app) simp
  show ?thesis
    unfolding encode_state_W_def Let_def foldl_AppendString_W same_codecs(1) head
    by (subst (1 2) Append32_app) (simp split: option.split)
qed

lemma read_head_W_head: "read_head_W (head_W s @ rest) = Some (ow_phase s, 12)"
proof -
  let ?m = "Append32 [] kMagic_W" and ?v = "Append32 [] kVersion_W" and ?p = "Append32 [] (phase_code (ow_phase s))"
  have e: "head_W s @ rest = ?m @ ?v @ ?p @ rest" by (simp add: head_W_def)
  have "Read32 (head_W s @ rest) 0 = Some (kMagic_W, 4)"
    using u32.get_put_here [where pre = "[]" and x = kMagic_W and post = "?v @ ?p @ rest"] by (simp add: e)
  moreover have "Read32 (head_W s @ rest) 4 = Some (kVersion_W, 8)"
    using u32.get_put_here [where pre = ?m and x = kVersion_W and post = "?p @ rest"] by (simp add: e)
  moreover have "Read32 (head_W s @ rest) 8 = Some (phase_code (ow_phase s), 12)"
    using u32.get_put_here [where pre = "?m @ ?v" and x = "phase_code (ow_phase s)" and post = rest] by (simp add: e)
  ultimately show ?thesis by (simp add: read_head_W_def same_codecs)
qed

lemma decode_encode_W:
  assumes "encode_state_W s = Some bs" "well_typed s"
  shows "decode_state_W (ow_token s) bs = Loaded s"
proof -
  let ?s = "str.put_all (strings_W s)" and ?f = "if ow_has_destination s then 1 else 0 :: byte"
    and ?c = "Append32 [] (of_nat (length (ow_proof s)))"
  from assms(1) obtain p where p: "put_proof (ow_proof s) = Some p" and bs: "bs = head_W s @ ?s @ [?f] @ ?c @ p"
    by (auto simp: encode_state_W_eq Let_def split: option.splits if_splits)
  have fits: "length (ow_proof s) \<le> 32" "list_all entry_fits (ow_proof s)" "ordered (ow_proof s)"
    using assms(2) by (auto simp: well_typed_def proof_fits_def)
  have strings: "ReadStrings_W 7 bs 12 = Some (strings_W s, 12 + length ?s)"
    using str.get_all_put_all [of "strings_W s" "head_W s" "[?f] @ ?c @ p"] assms(2)
    by (simp add: ReadStrings_W_get_all bs well_typed_def strings_fit_def list_all_iff kMaxStringBytes_def)
  have n: "unat (of_nat (length (ow_proof s)) :: 32 word) = length (ow_proof s)"
    using fits(1) by (simp add: unat_of_nat)
  have "Read32 bs (12 + length ?s + 1) = Some (of_nat (length (ow_proof s)), 12 + length ?s + 1 + 4)"
    using u32.get_put_here [where pre = "head_W s @ ?s @ [?f]" and x = "of_nat (length (ow_proof s))" and post = p] by (simp add: bs)
  moreover have "get_proof (length (ow_proof s)) bs (12 + length ?s + 1 + 4) [] = Loaded (ow_proof s, length bs)"
    using get_put_proof [OF p fits(2), of "[]" "head_W s @ ?s @ [?f] @ ?c" "[]"] fits(3) by (simp add: bs add.assoc)
  ultimately have pf: "read_proof bs (12 + length ?s + 1) = Loaded (ow_proof s)"
    using fits(1) by (simp add: read_proof_def same_codecs n)
  have flag: "bs ! (12 + length ?s) = ?f" by (simp add: bs nth_append)
  have "12 + length ?s < length bs" by (simp add: bs)
  then show ?thesis
    using pf flag strings
    by (simp add: decode_state_W_def bs [symmetric] read_head_W_head [of s "?s @ [?f] @ ?c @ p", folded bs])
      (simp add: strings_W_def)
qed

lemma decode_typed:
  assumes "decode_state_W t bs = Loaded s"
  shows "well_typed s \<and> ow_token s = t"
proof -
  obtain ph a where h: "read_head_W bs = Some (ph, a)" using assms by (auto simp: decode_state_W_def split: option.splits)
  obtain vs at where v: "ReadStrings_W 7 bs a = Some (vs, at)"
    using assms h by (auto simp: decode_state_W_def split: option.splits)
  note vs = str.put_all_get_all [OF v [unfolded ReadStrings_W_get_all]]
  then obtain tk ri si sk oper p d where l: "vs = [tk, ri, si, sk, oper, p, d]" using seven [of vs] by auto
  have s: "tk = t \<and> (\<exists>m. read_proof bs (at + 1) = Loaded m \<and> ow_proof s = m) \<and> strings_W s = vs"
    using assms unfolding decode_state_W_def h option.case prod.case v l list.case
    by (auto simp: strings_W_def split: if_splits loading.splits)
  then obtain n at1 at2 where "unat (n :: 32 word) \<le> 32" "get_proof (unat n) bs at1 [] = Loaded (ow_proof s, at2)"
    by (auto simp: read_proof_def split: option.splits if_splits loading.splits) (metis not_less)
  then have "proof_fits s \<and> ordered (ow_proof s)"
    using get_proof_typed [of "unat n" bs at1 "[]"] by (auto simp: proof_fits_def ordered_def)
  moreover have "strings_fit s" using s vs by (auto simp: strings_fit_def list_all_iff kMaxStringBytes_def)
  moreover have "ow_token s = t" using s l by (simp add: strings_W_def)
  ultimately show ?thesis by (simp add: well_typed_def)
qed

end
