(* ===== verification/Win_Listing.thy ===== *)
theory Win_Listing
  imports Win_Read
begin

text \<open>
  Listings of the Windows workspace end before their depth is used up (\<open>ListInto_W_enough\<close>), with at most
  \<open>kMaxListEntries\<close> entries.
\<close>

text \<open>Entries were only added, within the limit, or the code gave an error.\<close>

definition extends :: "EncodableValue list \<Rightarrow> string + EncodableValue list \<Rightarrow> bool" where
  "extends out r \<longleftrightarrow> (case r of
       Inl e \<Rightarrow> e \<noteq> ''depth_exhausted''
     | Inr out' \<Rightarrow> length out \<le> length out' \<and> length out' \<le> kMaxListEntries)"

lemma extends_more: "extends out' r \<Longrightarrow> length out \<le> length out' \<Longrightarrow> extends out r"
  by (cases r) (auto simp: extends_def)

lemma OpenChild_W_error:
  "wp (OpenChild_W E p n access d missing) (\<lambda>r _. \<forall>e. fst r = Inl e \<longrightarrow> e \<noteq> ''depth_exhausted'') w"
  unfolding OpenChild_W_def
  by (rule wp_any, rule wp_any, rule wp_branch, simp, rule wp_any, rule wp_branch, rule wp_any, simp, simp)

lemma wp_list_one:
  assumes into: "\<And>n path out' w. length out < length out' \<Longrightarrow> length out' \<le> kMaxListEntries \<Longrightarrow>
      wp (into n path out') (\<lambda>r _. extends out' r) w"
    and fits: "length out \<le> kMaxListEntries"
  shows "wp (list_one into E d pre recursive name directory out) (\<lambda>r _. extends out r) w"
proof -
  have descend: "wp (do { l \<leftarrow> (if b then into n path (out @ [x]) else ret (Inr (out @ [x]))); CloseHandle k; ret l })
      (\<lambda>r _. extends out r) w" if "length out < kMaxListEntries" for b n path x k w
  proof -
    have "wp (if b then into n path (out @ [x]) else ret (Inr (out @ [x]))) (\<lambda>r _. extends (out @ [x]) r) w"
      using that into [of "out @ [x]"] by (simp add: extends_def)
    then show ?thesis
      unfolding wp_bind CloseHandle_def update_world_def
      by (rule wp_mono) (simp add: wp_def, erule extends_more, simp)
  qed
  show ?thesis
    unfolding list_one_def
  proof (rule wp_branch)
    show "wp (ret (Inr out)) (\<lambda>r _. extends out r) w" using fits by (simp add: extends_def)
    show "wp (if length out \<ge> kMaxListEntries then ret (Inl ''listing_limit_exceeded'')
        else case child_name E name of
          None \<Rightarrow> ret (Inl ''unsafe_child'')
        | Some s \<Rightarrow> do {
            r \<leftarrow> OpenChild_W E d name read_only directory False;
            case r of
              (Inr _, Some n) \<Rightarrow>
                let path = (if pre = [] then s else pre @ ''/'' @ s);
                    out' = out @ [EvMap (Entry_W path n directory None)] in
                do { l \<leftarrow> (if recursive \<and> directory then into n path out' else ret (Inr out'));
                     CloseHandle (nw_handle n);
                     ret l }
            | (Inl e, _) \<Rightarrow> ret (Inl e)
            | (Inr _, None) \<Rightarrow> ret (Inl ''not_found'') }) (\<lambda>r _. extends out r) w"
      apply (rule wp_branch, simp add: extends_def)
      apply (rule wp_option, simp add: extends_def)
      apply (unfold wp_bind [of "OpenChild_W _ _ _ _ _ _"], rule wp_mono [OF OpenChild_W_error])
      apply (auto simp del: wp_bind simp: extends_def [of _ "Inl _"] Let_def split del: if_split split: sum.split option.split intro!: descend)
      done
  qed
qed

lemma wp_list_found_W:
  assumes into: "\<And>n path out' w. length base < length out' \<Longrightarrow> length out' \<le> kMaxListEntries \<Longrightarrow>
      wp (into n path out') (\<lambda>r _. extends out' r) w"
    and "length base \<le> length out" "length out \<le> kMaxListEntries"
  shows "wp (list_found_W into E d pre recursive found out) (\<lambda>r _. extends out r) w"
  using assms(2,3)
proof (induction found arbitrary: out w)
  case Nil
  then show ?case by (simp only: list_found_W.simps, intro wp_any) (simp add: extends_def)
next
  case (Cons f found out w)
  obtain name directory where f: "f = (name, directory)" by (cases f)
  have one: "wp (list_one into E d pre recursive name directory out) (\<lambda>r _. extends out r) w" for w
    by (rule wp_list_one) (use Cons.prems into in auto)
  have last: "wp (list_found_W into E d pre recursive [] out') (\<lambda>r _. extends out' r) w"
    if "length out' \<le> kMaxListEntries" for out' w
    using that by (simp only: list_found_W.simps, intro wp_any) (simp add: extends_def)
  show ?case
    unfolding f list_found_W.simps wp_bind [of "list_one _ _ _ _ _ _ _ _"]
  proof (rule wp_mono [OF one])
    fix r w1 assume r: "extends out r"
    show "wp (case r of
          Inl e \<Rightarrow> ret (Inl e)
        | Inr out' \<Rightarrow> do {
            more \<leftarrow> FindNextFileW found;
            list_found_W into E d pre recursive (if more then found else []) out' }) (\<lambda>r _. extends out r) w1"
    proof (rule wp_sum)
      fix out' assume "r = Inr out'"
      with r have o: "length out \<le> length out'" "length out' \<le> kMaxListEntries" by (auto simp: extends_def)
      have "wp (list_found_W into E d pre recursive (if more then found else []) out') (\<lambda>r _. extends out' r) w" for more w
        using Cons.IH [of out' w] last [of out' w] o Cons.prems(1) by simp
      then have any: "wp (list_found_W into E d pre recursive (if more then found else []) out') (\<lambda>r _. extends out r) w" for more w
        by (rule wp_mono) (rule extends_more [OF _ o(1)])
      show "wp (do {
            more \<leftarrow> FindNextFileW found;
            list_found_W into E d pre recursive (if more then found else []) out' }) (\<lambda>r _. extends out r) w1"
        by (intro wp_any any)
    qed (use r in \<open>simp add: extends_def\<close>)
  qed
qed

lemma ListInto_W_enough:
  assumes "kMaxListEntries < length out + k" "length out \<le> kMaxListEntries"
  shows "wp (ListInto_W k E d pre recursive out) (\<lambda>r _. extends out r) w"
  using assms
proof (induction k arbitrary: d pre recursive out w)
  case (Suc k)
  have below: "wp (ListInto_W k E n path True out') (\<lambda>r _. extends out' r) w"
    if "length out < length out'" "length out' \<le> kMaxListEntries" for n path out' w
    by (rule Suc.IH) (use that Suc.prems in auto)
  have "wp (list_found_W (\<lambda>n path out'. ListInto_W k E n path True out') E d pre recursive fs out) (\<lambda>r _. extends out r) w" for fs w
    by (rule wp_list_found_W [where base = out]) (use below Suc.prems in auto)
  moreover have "wp (do { e \<leftarrow> GetLastError; ret (if e = ERROR_FILE_NOT_FOUND then Inr out else Inl ''metadata_changed'') })
      (\<lambda>r _. extends out r) w" for w
    using Suc.prems by (intro wp_any) (simp add: extends_def)
  ultimately show ?case by (simp only: ListInto_W.simps) (rule wp_any, rule wp_option)
qed simp

end
