(* ===== verification/Win_Example.thy ===== *)
theory Win_Example
  imports Win_Read
begin

text \<open>
  A small world for the Windows workspace, the first write to a new session in it, and two operation records: one that
  is within all limits and one whose destination is too long to be loaded.
\<close>

definition demo_win_env :: win_env where
  "demo_win_env =
     \<lparr>we_sha = (\<lambda>bs. []), we_wide = (\<lambda>s. Some (wide s)), we_utf8 = (\<lambda>w. Some (map (\<lambda>c. char_of (unat c)) w)),
      we_towupper = (\<lambda>c. c), we_upcase = (\<lambda>c. c), we_resolve = (\<lambda>p. p), we_volume = 7, we_matches = (\<lambda>_ _. True)\<rparr>"

definition demo_directory :: win_object where
  "demo_directory = \<lparr>ob_directory = True, ob_reparse = False, ob_links = 1, ob_bytes = [], ob_pending = False\<rparr>"

definition demo_win :: win where
  "demo_win =
     \<lparr>ww_names = [(wide ''C:'', 0), (child (wide ''C:'') (wide ''w''), 1)],
      ww_objects = (\<lambda>_. None)(0 \<mapsto> demo_directory, 1 \<mapsto> demo_directory),
      ww_handles = (\<lambda>_. None), ww_next_object = 2, ww_next_handle = 0, ww_outcomes = [], ww_random = [], ww_error = 0\<rparr>"

definition demo_request_W :: args where
  "demo_request_W =
     [(EvString ''bytes'', EvBytes [1, 2]), (EvString ''expectMissing'', EvBool True), (EvString ''operation'', EvString ''write_file''),
      (EvString ''operationId'', EvString (replicate 32 CHR ''a'')), (EvString ''path'', EvString ''a.txt''),
      (EvString ''root'', EvString ''C:/w''), (EvString ''rootIdentity'', EvString ''7:0:1''), (EvString ''sessionKey'', EvString ''s'')]"

text \<open>
  The first write comes as far as the parent directory: the session is there afterwards, and can be listed.
\<close>

lemma demo_win_run:
  "fst (run_state (do {
       r \<leftarrow> HandlePrepare_W demo_win_env demo_request_W;
       l \<leftarrow> HandleList_W demo_win_env
         ((EvString ''recursive'', EvBool True) # map_put (EvString ''path'') (EvString []) demo_request_W);
       ret (r, l) }) demo_win)
   = (WError ''metadata_changed'', WSuccess (EvList []))"
  by code_simp

section \<open>Records\<close>

definition demo_record_W :: OperationState_W where
  "demo_record_W =
     \<lparr>ow_token = ''token'', ow_root_identity = ''7:0:1'', ow_session_identity = ''7:0:3'', ow_session_key = ''s'',
      ow_operation = ''write_file'', ow_path = ''a.txt'', ow_destination = [], ow_has_destination = False,
      ow_proof = [(EvString ''expectMissing'', EvBool True), (EvString ''expectedHash'', EvNull),
                  (EvString ''resultSize'', EvInt64 (- 3)), (EvString ''stageIdentity'', EvString ''7:0:4'')],
      ow_phase = ph_prepared\<rparr>"

definition long_record_W :: OperationState_W where
  "long_record_W = demo_record_W\<lparr>ow_operation := ''move_file'', ow_destination := replicate 5000 CHR ''d'', ow_has_destination := True\<rparr>"

end
