(* ===== verification/Win_Properties.thy ===== *)
theory Win_Properties
  imports Win_Sharing Win_Records Win_Listing Win_Example
begin

text \<open>
  Properties of the Windows workspace. Its handlers are refused by their own handles: the session directory
  that \<^verbatim>\<open>OpenContext\<close> has opened cannot be opened again by \<^verbatim>\<open>OpenParent\<close>. Reading is refused even earlier, on
  every number that the application's codec can send. Operation records that were saved can be loaded exactly when their
  strings and their proof are within the limits of the decoder.
\<close>

section \<open>The way to the refusal\<close>

definition answer_W :: "'a wm \<Rightarrow> win \<Rightarrow> 'a" where
  "answer_W m w = fst (run_state m w)"

definition only_succeeds :: "(EncodableValue \<Rightarrow> bool) \<Rightarrow> win_reply \<Rightarrow> bool" where
  "only_succeeds P r = (case r of WSuccess v \<Rightarrow> P v | _ \<Rightarrow> True)"

lemma only_succeeds_simps [simp]:
  "only_succeeds P (WSuccess v) = P v" "only_succeeds P (WError e)" "only_succeeds P WCrash"
  "only_succeeds P WNotImplemented" "only_succeeds P invalid_receipt"
  by (simp_all add: only_succeeds_def invalid_receipt_def)

lemma only_succeeds_none: "only_succeeds (\<lambda>_. False) r \<Longrightarrow> only_succeeds P r"
  by (cases r) simp_all

lemma answerI: "wp m (\<lambda>r _. P r) w \<Longrightarrow> P (answer_W m w)"
  by (simp add: wp_def answer_W_def split: prod.splits)

lemma wp_scoped_result: "wp m (\<lambda>r _. P r) w \<Longrightarrow> wp (scoped keep m) (\<lambda>r _. P r) w"
  by (simp add: wp_scoped)

lemma wp_context:
  assumes "\<And>e w'. wp (f e) Q w'" "\<And>c w'. session_locked E c w' \<Longrightarrow> wp (g c) Q w'"
  shows "wp (OpenContext_W E a create \<bind> (\<lambda>c. case c of Inl e \<Rightarrow> f e | Inr c \<Rightarrow> g c)) Q w"
  unfolding wp_bind by (rule wp_mono [OF OpenContext_locks], rule wp_sum) (auto intro: assms)

lemma wp_while_locked:
  assumes "session_locked E c w" "holds E (nw_path (cw_session c)) (nw_handle (cw_session c)) m"
    "\<And>r w'. session_locked E c w' \<Longrightarrow> wp (k r) Q w'"
  shows "wp (m \<bind> k) Q w"
proof -
  have "wp m (\<lambda>_. session_locked E c) w" using assms(1,2) unfolding holds_def session_locked_def by blast
  then show ?thesis unfolding wp_bind by (rule wp_mono) (rule assms(3))
qed

lemma wp_parent:
  assumes "session_locked E c w" "\<And>e w'. e \<in> {''invalid_argument'', ''metadata_changed''} \<Longrightarrow> wp (f e) Q w'"
  shows "wp (OpenParent_W E c \<bind> (\<lambda>d. case d of Inl e \<Rightarrow> f e | Inr x \<Rightarrow> g x)) Q w"
  unfolding wp_bind
  by (rule wp_mono [OF OpenParent_locked [OF assms(1) [unfolded session_locked_def]]]) (auto intro: assms(2))

lemma holds_nothing_owned [holding]: "holds E p k (nothing_owned E hidden opid)"
  unfolding nothing_owned_def by (intro holding)

section \<open>Each handler\<close>

lemma prepare_refused: "wp (HandlePrepare_W E a) (\<lambda>r _. only_succeeds (\<lambda>_. False) r) w"
  unfolding HandlePrepare_W_def
  by (rule wp_scoped_result, rule wp_option, simp, rule wp_context, simp,
      erule wp_while_locked, intro holding, rule wp_sum, simp,
      erule wp_while_locked, intro holding, rule wp_branch, simp,
      erule wp_parent, simp)

lemma wp_GetPreparedContext:
  "wp (GetPreparedContext E a) (\<lambda>r w'. case r of Inl x \<Rightarrow> only_succeeds (\<lambda>_. False) x | Inr (opid, s, c) \<Rightarrow> session_locked E c w') w"
proof -
  have prep: "wp (Prepared_W E a) (\<lambda>r _. \<forall>x. r = Inl x \<longrightarrow> only_succeeds (\<lambda>_. False) x) w"
    unfolding Prepared_W_def
    by (rule wp_scoped_result)
      (auto simp del: wp_bind simp: only_succeeds_def invalid_receipt_def split: option.split prod.split loading.split intro!: wp_any wp_sum)
  show ?thesis
    unfolding GetPreparedContext_def
    apply (unfold wp_bind [of "Prepared_W E a"], rule wp_mono [OF prep], rule wp_sum, simp)
    apply (clarsimp simp del: wp_bind)
    apply (unfold wp_bind, rule wp_mono [OF OpenContext_locks], simp split: sum.split)
    done
qed

lemma commit_refused: "wp (HandleCommit_W E a) (\<lambda>r _. only_succeeds (\<lambda>_. False) r) w"
  unfolding HandleCommit_W_def
  apply (rule wp_scoped_result, unfold wp_bind [of "GetPreparedContext E a"], rule wp_mono [OF wp_GetPreparedContext])
  apply (rule wp_sum, simp)
  apply (clarsimp simp del: wp_bind)
  apply (erule wp_while_locked, intro holding, rule wp_sum, simp)
  apply (erule wp_parent, simp)
  done

lemma wp_RecoverySetup:
  "wp (RecoverySetup_W E a) (\<lambda>r w'. case r of Inl x \<Rightarrow> only_succeeds (\<lambda>_. False) x | Inr (opid, s, c, hidden) \<Rightarrow> session_locked E c w') w"
  unfolding RecoverySetup_W_def
  apply (unfold wp_bind [of "GetPreparedContext E a"], rule wp_mono [OF wp_GetPreparedContext])
  apply (rule wp_sum, simp)
  apply (clarsimp simp del: wp_bind)
  apply (erule wp_while_locked, intro holding)
  apply (simp split: sum.split)
  done

lemma wp_settle_quarantine:
  assumes "session_locked E c w"
  shows "wp (settle_quarantine E opid s c hidden) (\<lambda>r w'. \<forall>s. r = Inr s \<longrightarrow> session_locked E c w') w"
proof -
  have "wp (reconcile_quarantine E opid s c hidden) (\<lambda>r _. \<exists>e. r = Inl e) w"
    unfolding reconcile_quarantine_def by (rule wp_scoped_result, rule wp_parent [OF assms]) simp
  then have "wp (reconcile_quarantine E opid s c hidden) (\<lambda>r w'. \<forall>s. r = Inr s \<longrightarrow> session_locked E c w') w"
    by (rule wp_mono) auto
  then show ?thesis using assms unfolding settle_quarantine_def by simp
qed

lemma reconcile_refused: "wp (HandleReconcile_W E a) (\<lambda>r _. only_succeeds (\<lambda>v. v = EvString ''rolledBack'') r) w"
  unfolding HandleReconcile_W_def
  apply (rule wp_scoped_result, unfold wp_bind [of "RecoverySetup_W E a"], rule wp_mono [OF wp_RecoverySetup])
  apply (rule wp_sum, simp add: only_succeeds_def split: win_reply.splits)
  apply (clarsimp simp del: wp_bind)
  apply (intro conjI impI, simp add: ReplyState_W_def)
  apply (unfold wp_bind [of "settle_quarantine _ _ _ _ _"], erule wp_mono [OF wp_settle_quarantine], rule wp_sum, simp)
  apply (rule wp_parent, blast, simp)
  done

lemma rollback_refused: "wp (HandleRollback_W E a) (\<lambda>r _. only_succeeds (\<lambda>v. v = EvNull) r) w"
  unfolding HandleRollback_W_def
  apply (rule wp_scoped_result, unfold wp_bind [of "RecoverySetup_W E a"], rule wp_mono [OF wp_RecoverySetup])
  apply (rule wp_sum, simp add: only_succeeds_def split: win_reply.splits)
  apply (clarsimp simp del: wp_bind)
  apply (erule wp_parent, simp)
  done

lemma metadata_refused: "wp (HandleMetadata_W E a) (\<lambda>r _. only_succeeds (\<lambda>v. v = EvNull) r) w"
  unfolding HandleMetadata_W_def
  by (rule wp_scoped_result, rule wp_context, simp, erule wp_parent, auto)

lemma open_for_read_refused: "wp (open_for_read_W E a) (\<lambda>r _. \<exists>e. r = Inl e) w"
  unfolding open_for_read_W_def by (rule wp_context, simp, erule wp_parent, auto)

lemma read_refused: "wp (HandleRead_W E a) (\<lambda>r _. only_succeeds (\<lambda>_. False) r) w"
  unfolding HandleRead_W_def
  by (rule wp_scoped_result, rule wp_option, simp, clarsimp, rule wp_mono [OF open_for_read_refused], auto)

lemma binary_refused: "wp (HandleReadBinary_W E a) (\<lambda>r _. only_succeeds (\<lambda>_. False) r) w"
  unfolding HandleReadBinary_W_def
  by (rule wp_scoped_result, rule wp_option, simp, simp, rule wp_mono [OF open_for_read_refused], auto)

text \<open>
  Numbers from the application: its codec sends those of 32 bits as such, and the handlers look for 64 bits.
\<close>

definition codec_int :: "int \<Rightarrow> EncodableValue" where
  "codec_int i = (if - (2 ^ 31) \<le> i \<and> i < 2 ^ 31 then EvInt32 (word_of_int i) else EvInt64 (word_of_int i))"

lemma read_args_codec:
  assumes "Find_W a ''maxBytes'' = Some (codec_int mx)" "- (2 ^ 63) \<le> mx" "mx < 2 ^ 63"
  shows "read_args_W a = None \<and> binary_args_W a = None"
proof (cases "- (2 ^ 31) \<le> mx \<and> mx < 2 ^ 31")
  case True
  then show ?thesis using assms(1) by (simp add: read_args_W_def binary_args_W_def Int64Arg_def codec_int_def split: option.split)
next
  case False
  have "sint (word_of_int mx :: 64 word) = mx" using assms(2,3) by (simp add: signed_of_int signed_take_bit_int_eq_self)
  then have "Int64Arg a ''maxBytes'' = Some mx" using assms(1) False by (simp add: Int64Arg_def codec_int_def)
  with False show ?thesis
    by (auto simp: read_args_W_def binary_args_W_def kMaxBinaryFileBytes_W_def split: option.split)
qed

text \<open>A read that the application asks for is refused before anything is opened.\<close>

lemma read_codec_refused:
  assumes "Find_W a ''maxBytes'' = Some (codec_int mx)" "- (2 ^ 63) \<le> mx" "mx < 2 ^ 63"
  shows "answer_W (HandleRead_W E a) w = WError ''invalid_argument''"
    and "answer_W (HandleReadBinary_W E a) w = WError ''invalid_argument''"
  using read_args_codec [OF assms]
  by (simp_all add: answer_W_def HandleRead_W_def HandleReadBinary_W_def scoped_def current_world_def update_world_def)

section \<open>The properties\<close>

definition windows_answers :: "string \<Rightarrow> EncodableValue \<Rightarrow> bool" where
  "windows_answers name v =
     (if name \<in> {''prepareMutation'', ''commitPrepared'', ''read'', ''readBinary''} then False
      else if name \<in> {''metadata'', ''rollbackPrepared''} then v = EvNull
      else if name = ''reconcilePrepared'' then v = EvString ''rolledBack''
      else True)"

text \<open>
  C40. On Windows no mutation and no read of the workspace ever succeeds, whatever the arguments, the state and
  the failures of calls: preparing, committing, reading and reading a binary file give no success, metadata and
  rolling back none but null, reconciling none but \<^verbatim>\<open>rolledBack\<close>. The handle on the session that a context
  holds keeps \<^verbatim>\<open>OpenParent\<close> from opening it.
\<close>

theorem windows_refused: "only_succeeds (windows_answers name) (answer_W (MethodCall_W E name v) w)"
proof -
  have refused: "only_succeeds P (answer_W (HandlePrepare_W E a) w)" "only_succeeds P (answer_W (HandleCommit_W E a) w)"
      "only_succeeds P (answer_W (HandleRead_W E a) w)" "only_succeeds P (answer_W (HandleReadBinary_W E a) w)" for P a
    by (rule only_succeeds_none, rule answerI, rule prepare_refused, rule only_succeeds_none, rule answerI, rule commit_refused,
        rule only_succeeds_none, rule answerI, rule read_refused, rule only_succeeds_none, rule answerI, rule binary_refused)
  have null: "only_succeeds (\<lambda>v. v = EvNull) (answer_W (HandleMetadata_W E a) w)"
      "only_succeeds (\<lambda>v. v = EvNull) (answer_W (HandleRollback_W E a) w)"
      "only_succeeds (\<lambda>v. v = EvString ''rolledBack'') (answer_W (HandleReconcile_W E a) w)" for a
    by (rule answerI, rule metadata_refused, rule answerI, rule rollback_refused, rule answerI, rule reconcile_refused)
  have other: "only_succeeds (windows_answers name) r"
    if "name \<notin> {''prepareMutation'', ''commitPrepared'', ''read'', ''readBinary'', ''metadata'', ''rollbackPrepared'', ''reconcilePrepared''}"
    for r using that by (cases r) (simp_all add: windows_answers_def)
  have none: "only_succeeds P (answer_W (ret (WError e)) w)" "only_succeeds P (answer_W (ret WNotImplemented) w)" for P e
    by (simp_all add: answer_W_def)
  have table: "windows_answers ''metadata'' = (\<lambda>v. v = EvNull)" "windows_answers ''rollbackPrepared'' = (\<lambda>v. v = EvNull)"
      "windows_answers ''reconcilePrepared'' = (\<lambda>v. v = EvString ''rolledBack'')"
    by (simp_all add: windows_answers_def fun_eq_iff)
  have branch: "only_succeeds P (answer_W (if c then m else n) w)"
    if "c \<Longrightarrow> only_succeeds P (answer_W m w)" "only_succeeds P (answer_W n w)" for P c m n
    using that by simp
  have call: "only_succeeds (windows_answers name) (answer_W (MethodCall_W E name (Some (EvMap a))) w)" for a
    unfolding MethodCall_W_def option.case EncodableValue.case
    by (rule branch, rule other, simp, rule branch, simp only: table null, rule branch, rule other, simp,
        rule branch, rule refused, rule branch, rule refused, rule branch, rule refused, rule branch, rule refused,
        rule branch, simp only: table null, rule branch, simp only: table null, rule branch, rule other, simp, rule none)
  show ?thesis
  proof (cases "\<exists>a. v = Some (EvMap a)")
    case True
    then show ?thesis using call by auto
  next
    case False
    then have "MethodCall_W E name v = ret (WError ''invalid_argument'')"
      unfolding MethodCall_W_def by (simp split: option.split EncodableValue.split)
    then show ?thesis by (simp only: none)
  qed
qed

text \<open>
  C29. A record that was encoded, its proof an ordered map, is decoded to itself exactly when its strings, its proof's
  entries and their number are within the decoder's limits. The encoder does not ask for the first two: such a record is
  saved and never loaded.
\<close>

theorem record_roundtrip_W:
  assumes "encode_state_W s = Some bs" "ordered (ow_proof s)"
  shows "decode_state_W (ow_token s) bs = Loaded s \<longleftrightarrow> strings_fit s \<and> proof_fits s"
  using decode_encode_W [OF assms(1)] decode_typed [of "ow_token s" bs s] assms(2)
  unfolding well_typed_def by blast

lemma long_record_encoded: "\<exists>bs. encode_state_W long_record_W = Some bs"
  by (simp add: encode_state_W_eq long_record_W_def demo_record_W_def put_value_def strings_W_def kMaxStateBytes_W_def
      AppendString_W_def Append32_W_def signed_decimal_def decimal.simps Let_def)

theorem record_roundtrip_W_witness:
  "\<exists>bs. encode_state_W long_record_W = Some bs \<and> decode_state_W (ow_token long_record_W) bs \<noteq> Loaded long_record_W"
proof -
  obtain bs where bs: "encode_state_W long_record_W = Some bs" using long_record_encoded ..
  moreover have "ordered (ow_proof long_record_W)" by (simp add: long_record_W_def demo_record_W_def ordered_def)
  moreover have "\<not> strings_fit long_record_W"
    by (simp add: strings_fit_def strings_W_def long_record_W_def demo_record_W_def)
  ultimately show ?thesis using record_roundtrip_W [of long_record_W bs] by blast
qed

text \<open>
  C21. Whatever bytes a record's file holds, what is decoded from them is well typed: its token is the one asked for, its
  seven strings and the strings of its proof have at most 4096 bytes, the proof has at most 32 entries, its keys are
  strings in strictly ascending order and its values null, booleans, 64-bit integers or strings.
\<close>

theorem loaded_well_typed:
  assumes "decode_state_W token bs = Loaded s"
  shows "well_typed s \<and> ow_token s = token"
  using assms by (rule decode_typed)

theorem loaded_well_typed_witness:
  "\<exists>bs. decode_state_W ''token'' bs = Loaded demo_record_W \<and> well_typed demo_record_W"
proof -
  have "encode_state_W demo_record_W \<noteq> None"
    by (simp add: encode_state_W_eq demo_record_W_def put_value_def strings_W_def kMaxStateBytes_W_def
        AppendString_W_def Append32_W_def signed_decimal_def decimal.simps Let_def)
  then obtain bs where bs: "encode_state_W demo_record_W = Some bs" by auto
  have "well_typed demo_record_W"
    by (simp add: well_typed_def strings_fit_def proof_fits_def ordered_def strings_W_def demo_record_W_def entry_fits_def)
  with bs have "decode_state_W ''token'' bs = Loaded demo_record_W"
    using decode_encode_W [of demo_record_W bs] by (simp add: demo_record_W_def)
  with loaded_well_typed [OF this] show ?thesis by blast
qed

end
