(* ===== verification/Spec2Isabelle.thy ===== *)
theory Spec2Isabelle
  imports Example_World Broker_Properties Updater_Properties Listing Win_Properties
begin

text \<open>
  Mobilka is an application whose assistant edits files of a workspace and reads documents, and which
  updates itself. This library verifies its native C++ code, \<^verbatim>\<open>src/linux/runner\<close>,
  \<^verbatim>\<open>src/windows/runner\<close>, \<^verbatim>\<open>src/windows/document_worker\<close>, \<^verbatim>\<open>src/native/documents\<close> and
  \<^verbatim>\<open>src/android/app/src/main/cpp\<close>, and the codec of the worker's requests and answers in Dart. Paths below are
  relative to \<^verbatim>\<open>src/\<close>. Each theory translates the code named in its first block, function by function
  and under the names the code has; what is not code of the repository (the kernel, Win32, PDFium,
  Tesseract, SHA-256, the Java VM) is the state of a model or a parameter.

  \<^bold>\<open>Shared.\<close> \<open>Prelude\<close> holds bytes, strings, the state monad and its weakest preconditions \<open>wp\<close>.

  \<^bold>\<open>The Linux workspace\<close> (\<^verbatim>\<open>linux/runner/session_workspace_*.cc\<close>) changes files in two steps, each a call
  of a method channel: \<^verbatim>\<open>prepareMutation\<close> checks the request, stages what is needed in a hidden
  directory and writes a durable record under a secret token; \<^verbatim>\<open>commitPrepared\<close> performs it and moves the
  record's phase forward; \<^verbatim>\<open>reconcilePrepared\<close>, \<^verbatim>\<open>rollbackPrepared\<close> and \<^verbatim>\<open>cleanupPrepared\<close> find out what
  became of it after a crash, undo it, and remove its traces.
  \<^item> \<open>Posix\<close>, \<open>Syscalls\<close>: the kernel as explicit state, a map of inodes, open handles being inode numbers;
    every system call is a step of the state monad, may fail or be short (\<open>sched\<close>) and may see other
    processes act before it (\<open>env\<close>).
  \<^item> \<open>Fl_Args\<close>, \<open>Channel\<close>: the values of the channel, \<^verbatim>\<open>_common.cc\<close> lines 32 to 78 and \<^verbatim>\<open>_channel.cc\<close>.
  \<^item> \<open>Workspace_Paths\<close>, \<open>Workspace_Nodes\<close>: validation of names, and opening, checking, hashing and
    writing of nodes (\<^verbatim>\<open>_common.cc\<close>).
  \<^item> \<open>State_Codec\<close>, \<open>State_Store\<close>: the record, its format and its atomic replacement (\<^verbatim>\<open>_state.cc\<close>).
  \<^item> \<open>Prepare_Commit\<close>, \<open>Recovery\<close>, \<open>Workspace_Read\<close>: the handlers (\<^verbatim>\<open>_prepare_commit.cc\<close>,
    \<^verbatim>\<open>_recovery.cc\<close>, \<^verbatim>\<open>_read.cc\<close>).
  The proofs have three layers. \<open>Node_Specs\<close> and \<open>Context_Specs\<close> say what the operations that only read
  compute, as functions \<open>fs_...\<close> of the file system (\<open>reads\<close>, \<open>reads_at\<close>). \<open>Outcomes\<close> is the logic
  \<open>outcomes\<close> in which a property holds after any run, whatever calls fail, and more when none does.
  \<open>Frames\<close>, \<open>Prepare_Safety\<close> and \<open>Prepare_Handler\<close> show what operations keep; \<open>Replace\<close> and \<open>Relocate\<close>
  give the protocol of a replacement and of a deletion or move as an invariant over the three places a
  file can be and the phase of the record; \<open>Prepare_Receipt\<close> connects what \<^verbatim>\<open>prepareMutation\<close> replies
  with these invariants. \<open>Example_World\<close> is a workspace in which all hypotheses hold. \<open>Listing\<close>: bounds and place of listings, in
  any world. C1 to C18 below and C34 in \<open>Listing\<close> are the properties; but for C34 they are about worlds in
  which no other process interferes with a handler.

  \<^bold>\<open>The Windows workspace\<close> (\<^verbatim>\<open>windows/runner/session_workspace_*.cpp\<close>) is its twin over Win32 handles, with
  code of its own throughout.
  \<^item> \<open>Win32\<close>: the calls as a state with names, objects and open handles, the access each has and the
    sharing it allows; every call may fail with any code. The end of a C++ scope, which closes what the
    scope has opened, is \<open>scoped\<close>.
  \<^item> \<open>Win_Nodes\<close> (\<^verbatim>\<open>_common.cpp\<close>), \<open>Win_State\<close> (\<^verbatim>\<open>_state.cpp\<close>), \<open>Win_Mutations\<close> and \<open>Win_Commit\<close>
    (\<^verbatim>\<open>_prepare_commit.cpp\<close>), \<open>Win_Recovery\<close> (\<^verbatim>\<open>_recovery.cpp\<close>), \<open>Win_Read\<close> (\<^verbatim>\<open>_read.cpp\<close>, \<^verbatim>\<open>_channel.cpp\<close>).
    An exception that leaves a handler, or a null pointer it would follow, is the reply \<open>WCrash\<close>.
  \<open>Win_Records\<close>: the records, which are typed (C21) and come back when they are within the limits of the
  decoder (C29). \<open>Win_Sharing\<close>: a path that is open without being shared for deletion stays so (\<open>locked\<close>,
  \<open>holds\<close>) and cannot be opened for mutation; hence no mutation and no read ever succeeds (C40), though the
  operations are written to. \<open>Win_Listing\<close>: listings end. \<open>Win_Example\<close>: a first write in a concrete world,
  which comes as far as \<^verbatim>\<open>OpenParent\<close>. C21, C29 and C40 are in \<open>Win_Properties\<close>.

  \<^bold>\<open>Documents.\<close> \<open>Document_Engine\<close> is \<^verbatim>\<open>native/documents\<close>: the text of PDF pages, their rasters and
  recognised images under the limits of a request. \<open>Worker_Frames\<close> holds its two hosts, the Android
  library (\<^verbatim>\<open>document_worker_jni.cpp\<close>) and the Windows helper process (\<^verbatim>\<open>protocol.cpp\<close>, \<^verbatim>\<open>main.cpp\<close>,
  \<^verbatim>\<open>sandbox.cpp\<close>); \<open>Request_Decoder\<close> and \<open>Response_Decoder\<close> the codec of the application
  (\<^verbatim>\<open>lib/features/documents\<close>), requests there and back (C26). \<open>Engine_Bounds\<close>, \<open>Utf8\<close>: arithmetic, limits and encoding of the results;
  \<open>Response_Frames\<close>, \<open>Worker_Refinement\<close>: frames written by the host are read back by the decoder;
  \<open>Decoder_Safety\<close>: what holds for any bytes; \<open>Windows_Worker\<close>: the helper's exchange, and why the
  application can neither be served nor be understood by it. C19 to C27 but for C21, in
  \<open>Document_Properties\<close>.

  \<^bold>\<open>Updates.\<close> \<open>Updater_Names\<close>, \<open>Updater_Staging\<close>: the channel of \<^verbatim>\<open>windows/runner/updater_staging.cpp\<close>, its
  regular expression of names, its download sessions, and the checks under which staged files are
  listed, verified, made final and deleted. \<open>Updater_Safety\<close>: what the calls see and change under any
  failures; \<open>Updater_Sessions\<close>: the invariant of the sessions over all sequences of calls. C28 and C30 to
  C33, in \<open>Updater_Properties\<close>.

  \<^bold>\<open>The broker.\<close> \<^verbatim>\<open>windows/runner/document_worker_broker.cpp\<close> starts the helper. \<open>Broker_Package\<close> holds the
  checks of the bundle and the manifest, with the paths of \<^verbatim>\<open>std::filesystem\<close>; \<open>Worker_Broker\<close> the platform
  thread, the worker thread, the helper process and its job as interleaving steps (\<open>broker_step\<close>).
  \<open>Broker_Safety\<close>: runs as lists of events, who owns the job and the process, and that nothing runs outside a job; \<open>Broker_Liveness\<close>: every request is answered once and
  in the end. C35 to C39, in \<open>Broker_Properties\<close>; C39 puts broker and helper together.

  \<^bold>\<open>Bounds and fuel.\<close> \<open>RandomToken\<close> retries an interrupted \<^verbatim>\<open>getrandom\<close>; its fuel is the number of
  interruptions left plus 33, and C17 shows that it never runs out. \<open>ListInto\<close> descends with the fuel
  \<open>kMaxListEntries + 1\<close>: every level adds an entry, so the limit of entries ends it first; \<open>ListInto_W\<close> likewise (\<open>ListInto_W_enough\<close>). All other
  loops are structural or have a measure.

  \<^bold>\<open>Not modelled.\<close> The start-up glue of the runners (windows,
  plugin registration), the tests, the licence text of the engine. Other processes beside the Windows
  workspace, and what other threads of its own do between its calls. What the application does in Dart and
  Kotlin beyond the codec. Timing.
\<close>

section \<open>Preparing\<close>

text \<open>
  C1. Preparing a mutation only adds. Whatever calls fail, whatever the arguments, after
  \<^verbatim>\<open>HandlePrepare\<close> every entry that was in a directory is still there and names the same file,
  every file has the content and the number of links it had, and every directory is still one.
\<close>

theorem prepare_only_adds:
  "outcomes b f (HandlePrepare L a)
     (\<lambda>_ g. (\<forall>d n i. lookup f d n = Some i \<longrightarrow> lookup g d n = Some i) \<and>
        (\<forall>i. in_use f i \<longrightarrow> in_use g i \<and> is_dir g i = is_dir f i \<and> file_of g i = file_of f i))"
  by (rule outcomes_mono [OF outcomes_HandlePrepare]) (auto simp: prepare_post_def grows_def)

theorem prepare_only_adds_witness:
  "outcomes True (demo_fs ''write_file'') (HandlePrepare demo_lib demo_args)
     (\<lambda>_ g. (\<forall>d n i. lookup (demo_fs ''write_file'') d n = Some i \<longrightarrow> lookup g d n = Some i) \<and>
        (\<forall>i. in_use (demo_fs ''write_file'') i \<longrightarrow> in_use g i \<and>
           is_dir g i = is_dir (demo_fs ''write_file'') i \<and> file_of g i = file_of (demo_fs ''write_file'') i))"
  by (rule prepare_only_adds)

text \<open>
  C2. A receipt for the replacement of a file is good. If preparing a write to a file that is there
  replies a receipt, then whatever calls failed, the record is stored where that receipt, sent back
  in a later call, finds it; the old file of the hash the caller gave is in place, the bytes the
  caller gave are staged, and the invariant \<open>replace_inv\<close> under which the later handlers are
  safe (C4 to C6) holds. (SHA-256 in hexadecimal has 64 digits.)
\<close>

theorem prepare_replacement:
  assumes "sound_entries f" "\<And>bs. length (sha256 L bs) = 64"
    and "prepare_args a = Some rq" "IsWrite (rq_operation rq)" "\<not> rq_expect_missing rq"
  shows "outcomes b f (HandlePrepare L a)
     (\<lambda>r g. is_success r \<longrightarrow>
        (\<exists>v x. r = Success v \<and> replaces L g (receipt_call a v) x \<and> replace_inv x g g \<and> old_in_place x g \<and>
           rq_hash rq = Some (sha256 L (rp_old x)) \<and> Lookup a ''bytes'' = Some (FlUint8List (rp_new x))))"
  by (rule outcomes_mono [OF outcomes_HandlePrepare])
     (use prepared_replacement [OF _ assms(3,5,4,1,2)] in \<open>auto simp: prepare_post_def\<close>)

theorem prepare_replacement_witness:
  "outcomes True (demo_fs ''write_file'') (HandlePrepare demo_lib demo_prepare_write)
     (\<lambda>r g. is_success r \<longrightarrow>
        (\<exists>v x. r = Success v \<and> replaces demo_lib g (receipt_call demo_prepare_write v) x \<and> replace_inv x g g \<and>
           old_in_place x g \<and> rq_hash (demo_request ''write_file'') = Some (sha256 demo_lib (rp_old x)) \<and>
           Lookup demo_prepare_write ''bytes'' = Some (FlUint8List (rp_new x))))"
  by (rule prepare_replacement [OF demo_sound demo_sha demo_prepare_write_args])
     (simp_all add: demo_request_def IsWrite_def)

text \<open>
  C3. A receipt for the deletion of a file is good: the file is in place, the record is found by
  the receipt, and the invariant of a deletion (C7 to C9) holds, whatever calls failed.
\<close>

theorem prepare_deletion:
  assumes "sound_entries f"
    and "prepare_args a = Some rq" "rq_operation rq = ''delete_file''" "\<not> rq_expect_missing rq"
  shows "outcomes b f (HandlePrepare L a)
     (\<lambda>r g. is_success r \<longrightarrow>
        (\<exists>v x. r = Success v \<and> relocates L g (receipt_call a v) x \<and> relocate_inv False x g g \<and> here x g \<and>
           rq_hash rq = Some (sha256 L (rl_content x))))"
  by (rule outcomes_mono [OF outcomes_HandlePrepare])
     (use prepared_deletion [OF _ assms(2,4,3,1)] in \<open>auto simp: prepare_post_def\<close>)

theorem prepare_deletion_witness:
  "outcomes True (demo_fs ''delete_file'') (HandlePrepare demo_lib demo_prepare_delete)
     (\<lambda>r g. is_success r \<longrightarrow>
        (\<exists>v x. r = Success v \<and> relocates demo_lib g (receipt_call demo_prepare_delete v) x \<and>
           relocate_inv False x g g \<and> here x g \<and>
           rq_hash (demo_request ''delete_file'') = Some (sha256 demo_lib (rl_content x))))"
  by (rule prepare_deletion [OF demo_sound demo_prepare_delete_args]) (simp_all add: demo_request_def)

section \<open>Replacing a file\<close>

text \<open>
  C4. Committing a replacement is atomic and its answer is true. From every state of the invariant,
  whatever calls fail, \<^verbatim>\<open>HandleCommit\<close> ends in a state of the invariant: the target holds the
  whole old content or the whole new content, the other one is kept as the stage. When it replies
  success, the new content is in place and the stored phase is \<^verbatim>\<open>committed\<close>.
\<close>

theorem commit_replacement:
  assumes "replaces L f0 a x" "replace_inv x f0 f"
  shows "outcomes b f (HandleCommit L a)
           (\<lambda>r g. replace_inv x f0 g \<and> (is_success r \<longrightarrow> new_in_place x g \<and> phase_is x ph_committed g))"
  by (rule outcomes_mono [OF replace_commit [OF assms]]) (simp add: replace_committed_def)

theorem commit_replacement_witness:
  "outcomes True (demo_fs ''write_file'') (HandleCommit demo_lib demo_args)
     (\<lambda>r g. replace_inv demo_replacement (demo_fs ''write_file'') g \<and>
        (is_success r \<longrightarrow> new_in_place demo_replacement g \<and> phase_is demo_replacement ph_committed g))"
  by (rule commit_replacement [OF demo_replaces demo_replace_inv])

text \<open>
  C5. Reconciling a replacement tells the truth, whatever calls fail: it keeps the invariant;
  \<^verbatim>\<open>committed\<close> is answered only with the new content in place and the phase stored,
  \<^verbatim>\<open>notCommitted\<close> only with the old content in place, \<^verbatim>\<open>rolledBack\<close> only with the old content in
  place and that phase stored.
\<close>

theorem reconcile_replacement:
  assumes "replaces L f0 a x" "replace_inv x f0 f"
  shows "outcomes b f (HandleReconcile L a)
           (\<lambda>r g. replace_inv x f0 g \<and>
              (r = ReplyState ''committed'' \<longrightarrow> new_in_place x g \<and> phase_is x ph_committed g) \<and>
              (r = ReplyState ''notCommitted'' \<longrightarrow> old_in_place x g) \<and>
              (r = ReplyState ''rolledBack'' \<longrightarrow> old_in_place x g \<and> phase_is x ph_rolledBack g))"
  by (rule outcomes_mono [OF replace_reconcile [OF assms]]) (simp add: replace_answer_def replace_committed_def)

theorem reconcile_replacement_witness:
  "outcomes True (demo_fs ''write_file'') (HandleReconcile demo_lib demo_args)
     (\<lambda>r g. replace_inv demo_replacement (demo_fs ''write_file'') g \<and>
        (r = ReplyState ''committed'' \<longrightarrow> new_in_place demo_replacement g \<and> phase_is demo_replacement ph_committed g) \<and>
        (r = ReplyState ''notCommitted'' \<longrightarrow> old_in_place demo_replacement g) \<and>
        (r = ReplyState ''rolledBack'' \<longrightarrow> old_in_place demo_replacement g \<and>
           phase_is demo_replacement ph_rolledBack g))"
  by (rule reconcile_replacement [OF demo_replaces demo_replace_inv])

text \<open>
  C6. Rolling back a replacement: the invariant is kept whatever calls fail, and success is replied
  only with the old content in place and \<^verbatim>\<open>rolledBack\<close> stored.
\<close>

theorem rollback_replacement:
  assumes "replaces L f0 a x" "replace_inv x f0 f"
  shows "outcomes b f (HandleRollback L a)
           (\<lambda>r g. replace_inv x f0 g \<and> (is_success r \<longrightarrow> old_in_place x g \<and> phase_is x ph_rolledBack g))"
  by (rule outcomes_mono [OF replace_rollback [OF assms]]) (simp add: replace_rolled_back_def)

theorem rollback_replacement_witness:
  "outcomes True (demo_fs ''write_file'') (HandleRollback demo_lib demo_args)
     (\<lambda>r g. replace_inv demo_replacement (demo_fs ''write_file'') g \<and>
        (is_success r \<longrightarrow> old_in_place demo_replacement g \<and> phase_is demo_replacement ph_rolledBack g))"
  by (rule rollback_replacement [OF demo_replaces demo_replace_inv])

section \<open>Deleting and moving a file\<close>

text \<open>
  C7. Committing a deletion or a move never loses the file: whatever calls fail, the file with all of
  its content is under its old name, or under the new one (the stage of a deletion, the destination
  of a move) with the old name gone; success means the latter and \<^verbatim>\<open>committed\<close> stored.
\<close>

theorem commit_relocation:
  assumes "relocates L f0 a x" "relocate_inv b x f0 f"
  shows "outcomes b f (HandleCommit L a)
           (\<lambda>r g. relocate_inv b x f0 g \<and> (is_success r \<longrightarrow> there x g \<and> away_phase x ph_committed g))"
  by (rule outcomes_mono [OF relocate_commit [OF assms]]) (simp add: relocate_committed_def)

theorem commit_relocation_witness:
  "outcomes True (demo_fs ''delete_file'') (HandleCommit demo_lib demo_args)
     (\<lambda>r g. relocate_inv True demo_deletion (demo_fs ''delete_file'') g \<and>
        (is_success r \<longrightarrow> there demo_deletion g \<and> away_phase demo_deletion ph_committed g))"
  by (rule commit_relocation [OF demo_relocates demo_relocate_inv])

text \<open>
  C8. Reconciling a deletion or a move tells the truth: \<^verbatim>\<open>committed\<close> only with the file away and the
  phase stored, \<^verbatim>\<open>notCommitted\<close> only with the file under its old name; \<^verbatim>\<open>rolledBack\<close> only with
  that phase stored, and with the file under its old name if no call ever failed (\<open>b\<close> false).
\<close>

theorem reconcile_relocation:
  assumes "relocates L f0 a x" "relocate_inv b x f0 f"
  shows "outcomes b f (HandleReconcile L a)
           (\<lambda>r g. relocate_inv b x f0 g \<and>
              (r = ReplyState ''committed'' \<longrightarrow> there x g \<and> away_phase x ph_committed g) \<and>
              (r = ReplyState ''notCommitted'' \<longrightarrow> here x g) \<and>
              (r = ReplyState ''rolledBack'' \<longrightarrow> away_phase x ph_rolledBack g \<and> (here x g \<or> b)))"
  by (rule outcomes_mono [OF relocate_reconcile [OF assms]]) (simp add: relocate_answer_def relocate_committed_def)

theorem reconcile_relocation_witness:
  "outcomes False (demo_fs ''delete_file'') (HandleReconcile demo_lib demo_args)
     (\<lambda>r g. relocate_inv False demo_deletion (demo_fs ''delete_file'') g \<and>
        (r = ReplyState ''committed'' \<longrightarrow> there demo_deletion g \<and> away_phase demo_deletion ph_committed g) \<and>
        (r = ReplyState ''notCommitted'' \<longrightarrow> here demo_deletion g) \<and>
        (r = ReplyState ''rolledBack'' \<longrightarrow> away_phase demo_deletion ph_rolledBack g \<and> (here demo_deletion g \<or> False)))"
  by (rule reconcile_relocation [OF demo_relocates demo_relocate_inv])

text \<open>
  C9. Rolling back a deletion or a move: the file is never lost, and when no call fails a reply of
  success means that it is under its old name again and \<^verbatim>\<open>rolledBack\<close> is stored.
\<close>

theorem rollback_relocation:
  assumes "relocates L f0 a x" "relocate_inv b x f0 f" "is_dir f (nd_fd (rl_from x))"
  shows "outcomes b f (HandleRollback L a)
           (\<lambda>r g. relocate_inv b x f0 g \<and>
              (is_success r \<longrightarrow> away_phase x ph_rolledBack g \<and> (here x g \<or> there x g \<and> b)))"
  by (rule outcomes_mono [OF relocate_rollback [OF assms]]) (simp add: relocate_rolled_back_def)

theorem rollback_relocation_witness:
  "outcomes False (demo_fs ''delete_file'') (HandleRollback demo_lib demo_args)
     (\<lambda>r g. relocate_inv False demo_deletion (demo_fs ''delete_file'') g \<and>
        (is_success r \<longrightarrow> away_phase demo_deletion ph_rolledBack g \<and> (here demo_deletion g \<or> there demo_deletion g \<and> False)))"
  by (rule rollback_relocation [OF demo_relocates demo_relocate_inv demo_from_dir])

section \<open>The record\<close>



text \<open>
  C11. Loading finds what is stored: \<^verbatim>\<open>LoadOperationState\<close> changes nothing; a state it returns is
  the one stored and has the token asked for; it returns none only if none of that token is stored
  or a call failed.
\<close>

theorem load_stored:
  "outcomes b f (LoadOperationState h opid token)
     (\<lambda>r g. g = f \<and>
        (case r of
           Some s \<Rightarrow> stored f (nd_fd h) opid s \<and> os_token s = token
         | None \<Rightarrow> b \<or> \<not> (\<exists>s. stored f (nd_fd h) opid s \<and> os_token s = token)))"
proof (rule outcomes_reads [OF reads_LoadOperationState])
  show "f = f \<and> (case fs_Load f h opid token of
           Some s \<Rightarrow> stored f (nd_fd h) opid s \<and> os_token s = token
         | None \<Rightarrow> b \<or> \<not> (\<exists>s. stored f (nd_fd h) opid s \<and> os_token s = token))"
  proof (cases "fs_Load f h opid token")
    case None
    then have "\<not> (stored f (nd_fd h) opid s \<and> os_token s = token)" for s
      using fs_Load_iff [of f h opid token s] by simp
    with None show ?thesis by simp
  next
    case (Some s)
    with fs_Load_iff [of f h opid token s] show ?thesis by simp
  qed
qed auto

theorem load_stored_witness:
  "outcomes False (demo_fs ''write_file'') (LoadOperationState (dir_node (nd 4)) demo_opid demo_token)
     (\<lambda>r g. g = demo_fs ''write_file'' \<and> r = Some (demo_state ''write_file''))"
proof (rule outcomes_mono [OF load_stored])
  have st: "stored (demo_fs ''write_file'') (nd_fd (dir_node (nd 4))) demo_opid (demo_state ''write_file'')"
    using demo_stored [of "''write_file''"] by (auto simp: stored_def dir_node_def)
  have tok: "os_token (demo_state ''write_file'') = demo_token" by (simp add: demo_state_def)
  fix r g
  assume a: "g = demo_fs ''write_file'' \<and>
        (case r of
           Some s \<Rightarrow> stored (demo_fs ''write_file'') (nd_fd (dir_node (nd 4))) demo_opid s \<and> os_token s = demo_token
         | None \<Rightarrow> False \<or> \<not> (\<exists>s. stored (demo_fs ''write_file'') (nd_fd (dir_node (nd 4))) demo_opid s \<and>
             os_token s = demo_token))"
  show "g = demo_fs ''write_file'' \<and> r = Some (demo_state ''write_file'')"
  proof (cases r)
    case None
    with a have "\<not> (\<exists>s. stored (demo_fs ''write_file'') (nd_fd (dir_node (nd 4))) demo_opid s \<and> os_token s = demo_token)"
      by simp
    with st tok show ?thesis by blast
  next
    case (Some s)
    with a have "stored (demo_fs ''write_file'') (nd_fd (dir_node (nd 4))) demo_opid s" by simp
    from stored_unique [OF this st] a Some show ?thesis by simp
  qed
qed

text \<open>
  C12. The record's format: decoding inverts encoding, and the decoder accepts nothing but the one
  encoding of the state it returns.
\<close>

theorem state_roundtrip: "decode_state bs = Some s \<longleftrightarrow> encode_state s = Some bs"
  using decode_encode encode_decode by blast

text \<open>
  C13. When a state can be encoded: exactly when every string is of at most 4096 bytes, and the
  encoding has 24 bytes for the head and 4 for the length of each string beside its bytes, always
  less than 64 KiB, so the encoder's own test of the total size never fails.
\<close>

theorem state_encodes:
  "case encode_state s of
     None \<Rightarrow> list_ex (\<lambda>v. kMaxStringBytes < length v) (state_strings s)
   | Some bs \<Rightarrow> list_all (\<lambda>v. length v \<le> kMaxStringBytes) (state_strings s) \<and>
       length bs = 24 + sum_list (map (\<lambda>v. 4 + length v) (state_strings s)) \<and> length bs < kMaxStateBytes"
proof (cases "strings_ok s")
  case True
  have len: "length (str.put_all vs) = sum_list (map (\<lambda>v. 4 + length v) vs)" for vs
    by (induction vs) simp_all
  have "length (str.put_all (state_strings s)) \<le> 13 * (4 + kMaxStringBytes)"
    using length_put_all_bound [OF True [unfolded strings_ok_def]] by simp
  then have "24 + length (str.put_all (state_strings s)) < kMaxStateBytes"
    by (simp add: kMaxStateBytes_def kMaxStringBytes_def)
  then have "24 + sum_list (map (\<lambda>v. 4 + length v) (state_strings s)) < kMaxStateBytes" by (simp only: len)
  with True show ?thesis
    by (simp add: encode_state_eq strings_ok_def list_all_iff len del: str.put_all.simps)
next
  case False
  then show ?thesis by (auto simp: encode_state_eq strings_ok_def list_ex_iff not_le)
qed

section \<open>Paths, names and files\<close>

text \<open>
  C14. What a relative path is: \<^verbatim>\<open>ParseRelative\<close> accepts exactly the strings of at most 1024 bytes
  that are one to sixteen valid parts joined by single slashes, and returns these parts; no part is
  empty, \<open>.\<close> or \<open>..\<close>, none begins with a dot, none holds a slash or a NUL.
\<close>

theorem relative_path:
  "ParseRelative L s False = Some ps \<longleftrightarrow>
     ps \<noteq> [] \<and> length ps \<le> 16 \<and> list_all (\<lambda>p. Part L p \<and> plain_component p \<and> hd p \<noteq> CHR ''.'') ps \<and>
     s = join_parts ps \<and> length s \<le> 1024"
  unfolding ParseRelative_char list_all_iff using Part_plain Part_no_dot by blast



text \<open>
  C16. Hashing is exact: it changes nothing; a result is the SHA-256 and the size of the whole
  content of the file the node is open on, at most 1 MiB; there is none only if the node is no
  regular file or is larger, or a call failed.
\<close>

theorem hash_exact:
  "outcomes b f (HashExact L n)
     (\<lambda>r g. g = f \<and>
        (case r of
           Some (hash, k) \<Rightarrow> (\<exists>c links. file_of f (nd_fd n) = Some (c, links) \<and> hash = sha256 L c \<and> k = length c \<and>
             k \<le> kMaxFileBytes)
         | None \<Rightarrow> b \<or> \<not> (\<exists>c links. file_of f (nd_fd n) = Some (c, links) \<and> length c \<le> kMaxFileBytes)))"
  by (rule outcomes_reads [OF reads_HashExact]) (auto simp: fs_HashExact_def split: option.splits)

theorem hash_exact_witness:
  "outcomes False (demo_fs ''write_file'') (HashExact demo_lib (file_node (nd 5) [1]))
     (\<lambda>r g. g = demo_fs ''write_file'' \<and> r = Some (replicate 64 (CHR ''a''), 1))"
proof (rule outcomes_mono [OF hash_exact])
  have "file_of (demo_fs ''write_file'') (nd 5) = Some ([1], 1)"
    using demo_files(1) [of "''write_file''"] by (simp add: file_at_def)
  then show "g = demo_fs ''write_file'' \<and> r = Some (replicate 64 (CHR ''a''), 1)"
    if "g = demo_fs ''write_file'' \<and>
        (case r of
           Some (hash, k) \<Rightarrow> (\<exists>c links. file_of (demo_fs ''write_file'') (nd_fd (file_node (nd 5) [1])) = Some (c, links) \<and>
             hash = sha256 demo_lib c \<and> k = length c \<and> k \<le> kMaxFileBytes)
         | None \<Rightarrow> False \<or> \<not> (\<exists>c links. file_of (demo_fs ''write_file'') (nd_fd (file_node (nd 5) [1])) = Some (c, links) \<and>
             length c \<le> kMaxFileBytes))" for r g
    using that by (cases r) (auto simp: demo_lib_def kMaxFileBytes_def)
qed

text \<open>
  C17. A random token is 43 characters of the URL-safe base-64 alphabet, and there is none only if
  a call failed: the fuel of the loop around \<^verbatim>\<open>getrandom\<close> does not run out, whatever number of
  signals interrupt it.
\<close>

theorem random_token:
  "outcomes b f RandomToken
     (\<lambda>t g. g = f \<and> (case t of None \<Rightarrow> b | Some x \<Rightarrow> length x = 43 \<and> set x \<subseteq> set alphabet))"
  by (rule outcomes_mono [OF outcomes_RandomToken]) (auto split: option.splits)

text \<open>
  C18. An exclusive write: it creates its file and never changes one that was there; when it
  returns a node and a hash, the name was free, the file is new, has exactly the bytes given and the
  hash is theirs.
\<close>

theorem write_exact:
  "outcomes b f (WriteExact L p n bs)
     (\<lambda>r g. (\<forall>d m i. lookup f d m = Some i \<longrightarrow> lookup g d m = Some i) \<and>
        (\<forall>i. in_use f i \<longrightarrow> file_of g i = file_of f i) \<and>
        (case r of
           None \<Rightarrow> True
         | Some (out, hash) \<Rightarrow> lookup f (nd_fd p) n = None \<and> \<not> in_use f (nd_id out) \<and> length bs \<le> kMaxFileBytes \<and>
             file_at g (nd_fd p) n (nd_id out) bs \<and> hash = sha256 L bs))"
proof (rule outcomes_WriteExact)
  fix i assume "is_dir f (nd_fd p)" "lookup f (nd_fd p) n = None" "\<not> in_use f i" "device i = device (nd_fd p)"
    "length bs \<le> kMaxFileBytes"
  then show "(\<forall>d m j. lookup f d m = Some j \<longrightarrow> lookup (with_file f (nd_fd p) n i bs) d m = Some j) \<and>
        (\<forall>j. in_use f j \<longrightarrow> file_of (with_file f (nd_fd p) n i bs) j = file_of f j) \<and>
        (case Some (file_node i [], sha256 L bs) of
           None \<Rightarrow> True
         | Some (out, hash) \<Rightarrow> lookup f (nd_fd p) n = None \<and> \<not> in_use f (nd_id out) \<and> length bs \<le> kMaxFileBytes \<and>
             file_at (with_file f (nd_fd p) n i bs) (nd_fd p) n (nd_id out) bs \<and> hash = sha256 L bs)"
    using grows_with_file [of f i "nd_fd p" n bs] by (auto simp: file_at_with_file grows_def)
qed (auto simp: adds_at_def grows_def)

theorem write_exact_witness:
  "outcomes True (demo_fs ''write_file'') (WriteExact demo_lib (dir_node (nd 4)) ''x'' [7])
     (\<lambda>r g. (\<forall>d m i. lookup (demo_fs ''write_file'') d m = Some i \<longrightarrow> lookup g d m = Some i) \<and>
        (\<forall>i. in_use (demo_fs ''write_file'') i \<longrightarrow> file_of g i = file_of (demo_fs ''write_file'') i) \<and>
        (case r of
           None \<Rightarrow> True
         | Some (out, hash) \<Rightarrow> lookup (demo_fs ''write_file'') (nd_fd (dir_node (nd 4))) ''x'' = None \<and>
             \<not> in_use (demo_fs ''write_file'') (nd_id out) \<and> length ([7] :: byte list) \<le> kMaxFileBytes \<and>
             file_at g (nd_fd (dir_node (nd 4))) ''x'' (nd_id out) [7] \<and> hash = sha256 demo_lib [7]))"
  by (rule write_exact)

end
